(* ===== verification/Prelude.thy ===== *)
theory Prelude
  imports Main "HOL-Library.Word" "HOL-Library.AList" "HOL-Library.List_Lexorder" "HOL-Library.Char_ord"
begin

text \<open>
  Shared vocabulary of the development: Go errors as values, loops with an early return, Go
  maps as association lists, and the functions of package \<open>strings\<close> and \<open>strconv\<close> the
  program calls. Strings are lists of bytes; the white space of \<open>strings.TrimSpace\<close> and
  \<open>strings.Fields\<close> and the case folding of \<open>strings.EqualFold\<close> are those of ASCII.
\<close>

named_theorems go_simps "when a computation that may fail succeeds"

section \<open>Errors\<close>

text \<open>
  Every error of the program is either a status error of the Kubernetes API server, told apart
  by its reason (\<open>errors.IsNotFound\<close> and friends), a failure reported by another library or
  the operating system, or a \<open>fmt.Errorf\<close> with its format and arguments. \<open>fmt.Errorf\<close> is
  only ever called with \<open>%v\<close>, so the reason of an argument is not visible from outside.
  A nil dereference is the value \<open>Panic\<close>.
\<close>

datatype api_reason = NotFound | Conflict | ServerTimeout | TooManyRequests | OtherReason

datatype goerr =
    ApiErr api_reason
  | SysErr string
  | Errorf string "goarg list"
  | Panic string
and goarg = ArgS string | ArgI int | ArgIP "8 word list" | ArgE goerr

type_synonym 'a result = "goerr + 'a"

fun IsNotFound :: "goerr \<Rightarrow> bool" where
  "IsNotFound (ApiErr NotFound) = True"
| "IsNotFound _ = False"

fun IsConflict :: "goerr \<Rightarrow> bool" where
  "IsConflict (ApiErr Conflict) = True"
| "IsConflict _ = False"

fun IsServerTimeout :: "goerr \<Rightarrow> bool" where
  "IsServerTimeout (ApiErr ServerTimeout) = True"
| "IsServerTimeout _ = False"

fun IsTooManyRequests :: "goerr \<Rightarrow> bool" where
  "IsTooManyRequests (ApiErr TooManyRequests) = True"
| "IsTooManyRequests _ = False"

fun and_then :: "'e + 'a \<Rightarrow> ('a \<Rightarrow> 'e + 'b) \<Rightarrow> 'e + 'b" where
  "and_then (Inl e) f = Inl e"
| "and_then (Inr x) f = f x"

definition guard :: "bool \<Rightarrow> goerr \<Rightarrow> unit result" where
  "guard b e = (if b then Inr () else Inl e)"

fun wrap_err :: "(goerr \<Rightarrow> goerr) \<Rightarrow> 'a result \<Rightarrow> 'a result" where
  "wrap_err f (Inl e) = Inl (f e)"
| "wrap_err f (Inr x) = Inr x"

text \<open>A \<open>for\<close> loop whose body may return an error: it stops at the first one.\<close>

fun for_each :: "('a \<Rightarrow> unit result) \<Rightarrow> 'a list \<Rightarrow> unit result" where
  "for_each f [] = Inr ()"
| "for_each f (x # xs) = and_then (f x) (\<lambda>_. for_each f xs)"

lemma and_then_Inr [simp]: "and_then r f = Inr y \<longleftrightarrow> (\<exists>x. r = Inr x \<and> f x = Inr y)"
  by (cases r) auto

lemma and_then_Inl: "and_then r f = Inl e \<longleftrightarrow> r = Inl e \<or> (\<exists>x. r = Inr x \<and> f x = Inl e)"
  by (cases r) auto

lemma guard_Inr [simp]: "guard b e = Inr x \<longleftrightarrow> b"
  by (simp add: guard_def)

lemma guard_Inl [simp]: "guard b e = Inl e' \<longleftrightarrow> \<not> b \<and> e' = e"
  by (auto simp: guard_def)

lemma wrap_err_Inr [simp]: "wrap_err f r = Inr x \<longleftrightarrow> r = Inr x"
  by (cases r) auto

lemma wrap_err_Inl [simp]: "wrap_err f r = Inl e \<longleftrightarrow> (\<exists>e'. r = Inl e' \<and> e = f e')"
  by (cases r) auto

lemma for_each_Inr [go_simps]: "for_each f xs = Inr u \<longleftrightarrow> (\<forall>x \<in> set xs. f x = Inr ())"
  by (induction xs) auto

lemma for_each_Inl:
  "for_each f xs = Inl e \<Longrightarrow> \<exists>x \<in> set xs. f x = Inl e"
  by (induction xs) (auto simp: and_then_Inl)

lemma for_each_append:
  "for_each f (xs @ ys) = and_then (for_each f xs) (\<lambda>_. for_each f ys)"
  by (induction xs) (auto simp: and_then_Inl split: sum.splits, (case_tac "f a"; simp)+)

lemma for_each_first_Inl:
  "for_each f xs = Inr () \<Longrightarrow> f y = Inl e \<Longrightarrow> for_each f (xs @ y # ys) = Inl e"
  by (simp add: for_each_append)

section \<open>Go maps\<close>

text \<open>
  A Go map is an association list with distinct keys. A lookup does not depend on the order;
  a \<open>range\<close> loop runs in the list's order, and since every order is a list, a statement
  about all lists is a statement about every iteration order Go may choose.
\<close>

type_synonym ('k, 'v) gomap = "('k \<times> 'v) list"

abbreviation gm_ok :: "('k, 'v) gomap \<Rightarrow> bool" where
  "gm_ok m \<equiv> distinct (map fst m)"

abbreviation gm_get :: "('k, 'v) gomap \<Rightarrow> 'k \<Rightarrow> 'v option" where
  "gm_get m k \<equiv> map_of m k"

definition gm_put :: "'k \<Rightarrow> 'v \<Rightarrow> ('k, 'v) gomap \<Rightarrow> ('k, 'v) gomap" where
  "gm_put k v m = AList.update k v m"

definition gm_del :: "'k \<Rightarrow> ('k, 'v) gomap \<Rightarrow> ('k, 'v) gomap" where
  "gm_del k m = AList.delete k m"

lemma gm_get_put [simp]: "gm_get (gm_put k v m) = (gm_get m)(k \<mapsto> v)"
  by (simp add: gm_put_def update_conv' fun_eq_iff)

lemma gm_get_del [simp]: "gm_get (gm_del k m) = (gm_get m)(k := None)"
  by (simp add: gm_del_def delete_conv' fun_eq_iff)

lemma gm_ok_put [simp]: "gm_ok m \<Longrightarrow> gm_ok (gm_put k v m)"
  by (simp add: gm_put_def distinct_update)

lemma gm_ok_del [simp]: "gm_ok m \<Longrightarrow> gm_ok (gm_del k m)"
  by (simp add: gm_del_def distinct_delete)

lemma keys_gm_put [simp]: "fst ` set (gm_put k v m) = insert k (fst ` set m)"
  by (simp add: gm_put_def dom_update)

lemma keys_gm_del [simp]: "fst ` set (gm_del k m) = fst ` set m - {k}"
  by (auto simp: gm_del_def AList.delete_eq)

lemma set_gm_del: "set (gm_del k m) = {p \<in> set m. fst p \<noteq> k}"
  by (auto simp: gm_del_def AList.delete_eq)

lemma set_gm_put_subset: "set (gm_put k v m) \<subseteq> insert (k, v) (set m)"
  unfolding gm_put_def by (induction m) auto

lemma gm_put_new: "k \<notin> fst ` set m \<Longrightarrow> gm_put k v m = m @ [(k, v)]"
  unfolding gm_put_def by (induction m) auto

lemma in_set_gm_put:
  "gm_ok m \<Longrightarrow> p \<in> set (gm_put k v m) \<longleftrightarrow> p = (k, v) \<or> (p \<in> set m \<and> fst p \<noteq> k)"
proof (induction m)
  case Nil
  show ?case by (simp add: gm_put_def)
next
  case (Cons a m)
  obtain ka va where a: "a = (ka, va)" by (cases a)
  from Cons have IH: "p \<in> set (gm_put k v m) \<longleftrightarrow> p = (k, v) \<or> (p \<in> set m \<and> fst p \<noteq> k)"
    by simp
  show ?case
  proof (cases "ka = k")
    case True
    with Cons.prems a show ?thesis by (force simp: gm_put_def)
  next
    case False
    with IH a show ?thesis by (auto simp: gm_put_def)
  qed
qed

lemma gm_length_eq_card: "gm_ok m \<Longrightarrow> length m = card (fst ` set m)"
  by (metis distinct_card length_map list.set_map)

lemma gm_keys_dom: "fst ` set m = dom (gm_get m)"
  by (simp add: dom_map_of_conv_image_fst)

lemma length_gm_put_le: "length m \<le> length (gm_put k v m)"
  unfolding gm_put_def by (induction m) auto

lemma gm_get_in_set: "gm_ok m \<Longrightarrow> gm_get m k = Some v \<longleftrightarrow> (k, v) \<in> set m"
  by simp

lemma gm_put_split:
  "gm_get m k = Some v \<Longrightarrow> \<exists>a b. m = a @ (k, v) # b \<and> gm_put k v' m = a @ (k, v') # b"
proof (induction m)
  case (Cons p m)
  show ?case
  proof (cases "fst p = k")
    case True
    with Cons.prems have "p = (k, v)" by (cases p) auto
    then show ?thesis by (intro exI [of _ "[]"] exI [of _ m]) (simp add: gm_put_def)
  next
    case False
    with Cons obtain a b where "m = a @ (k, v) # b" "gm_put k v' m = a @ (k, v') # b"
      by (cases p) auto
    with False show ?thesis
      by (intro exI [of _ "p # a"] exI [of _ b]) (cases p, simp add: gm_put_def)
  qed
qed simp

section \<open>Package strings\<close>

type_synonym byte = "8 word"

text \<open>\<open>strings.Split(s, sep)\<close> with a one-character separator: never the empty list.\<close>

fun split_on :: "char \<Rightarrow> string \<Rightarrow> string list" where
  "split_on c [] = [[]]"
| "split_on c (x # xs) =
     (if x = c then [] # split_on c xs
      else (case split_on c xs of [] \<Rightarrow> [[x]] | y # ys \<Rightarrow> (x # y) # ys))"

fun join_with :: "string \<Rightarrow> string list \<Rightarrow> string" where
  "join_with sep [] = []"
| "join_with sep [x] = x"
| "join_with sep (x # y # ys) = x @ sep @ join_with sep (y # ys)"

fun starts_with :: "string \<Rightarrow> string \<Rightarrow> bool" where
  "starts_with [] s = True"
| "starts_with (x # xs) [] = False"
| "starts_with (x # xs) (y # ys) = (x = y \<and> starts_with xs ys)"

text \<open>\<open>strings.Contains(s, sub)\<close>.\<close>

fun str_contains :: "string \<Rightarrow> string \<Rightarrow> bool" where
  "str_contains [] sub = (sub = [])"
| "str_contains (x # xs) sub = (starts_with sub (x # xs) \<or> str_contains xs sub)"

definition is_space :: "char \<Rightarrow> bool" where
  "is_space c = (c = CHR '' '' \<or> c = CHR 0x09 \<or> c = CHR 0x0A \<or> c = CHR 0x0B \<or> c = CHR 0x0C \<or> c = CHR 0x0D)"

definition trim_space :: "string \<Rightarrow> string" where
  "trim_space s = rev (dropWhile is_space (rev (dropWhile is_space s)))"

text \<open>\<open>strings.Fields\<close>: the maximal runs of characters that are not white space.\<close>

fun str_fields_acc :: "string \<Rightarrow> string \<Rightarrow> string list" where
  "str_fields_acc acc [] = (if acc = [] then [] else [rev acc])"
| "str_fields_acc acc (x # xs) =
     (if is_space x then (if acc = [] then str_fields_acc [] xs else rev acc # str_fields_acc [] xs)
      else str_fields_acc (x # acc) xs)"

definition str_fields :: "string \<Rightarrow> string list" where
  "str_fields s = str_fields_acc [] s"

definition replace_char :: "char \<Rightarrow> char \<Rightarrow> string \<Rightarrow> string" where
  "replace_char a b s = map (\<lambda>c. if c = a then b else c) s"

definition lower_char :: "char \<Rightarrow> char" where
  "lower_char c = (let n = of_char c :: nat in if 65 \<le> n \<and> n \<le> 90 then char_of (n + 32) else c)"

definition to_lower :: "string \<Rightarrow> string" where
  "to_lower s = map lower_char s"

definition equal_fold :: "string \<Rightarrow> string \<Rightarrow> bool" where
  "equal_fold a b \<longleftrightarrow> to_lower a = to_lower b"

lemma split_on_not_Nil [simp]: "split_on c s \<noteq> []"
  by (induction s) (auto split: list.splits)

lemma join_with_Cons:
  "ys \<noteq> [] \<Longrightarrow> join_with sep (x # ys) = x @ sep @ join_with sep ys"
  by (cases ys) auto

lemma join_split_on: "join_with [c] (split_on c s) = s"
proof (induction s)
  case (Cons x xs)
  obtain y ys where s: "split_on c xs = y # ys"
    by (cases "split_on c xs") auto
  with Cons.IH have j: "join_with [c] (y # ys) = xs" by simp
  show ?case
  proof (cases ys)
    case Nil
    with s j show ?thesis by auto
  next
    case (Cons z zs)
    with s j show ?thesis by auto
  qed
qed simp

lemma split_on_no_sep: "p \<in> set (split_on c s) \<Longrightarrow> c \<notin> set p"
  by (induction s arbitrary: p) (auto split: list.splits if_splits)

lemma split_on_absent: "c \<notin> set s \<Longrightarrow> split_on c s = [s]"
  by (induction s) auto

lemma split_on_append_sep:
  "c \<notin> set p \<Longrightarrow> split_on c (p @ c # s) = p # split_on c s"
  by (induction p) auto

lemma split_on_join:
  "xs \<noteq> [] \<Longrightarrow> \<forall>x \<in> set xs. c \<notin> set x \<Longrightarrow> split_on c (join_with [c] xs) = xs"
  by (induction "[c]" xs rule: join_with.induct) (auto simp: split_on_absent split_on_append_sep)

lemma equal_fold_refl [simp]: "equal_fold s s"
  by (simp add: equal_fold_def)

lemma equal_fold_sym: "equal_fold a b \<Longrightarrow> equal_fold b a"
  by (simp add: equal_fold_def)

lemma equal_fold_trans: "equal_fold a b \<Longrightarrow> equal_fold b c \<Longrightarrow> equal_fold a c"
  by (simp add: equal_fold_def)

lemma starts_with_iff: "starts_with p s \<longleftrightarrow> (\<exists>t. s = p @ t)"
  by (induction p s rule: starts_with.induct) auto

lemma str_contains_iff: "str_contains s t \<longleftrightarrow> (\<exists>u v. s = u @ t @ v)"
proof (induction s)
  case (Cons x xs)
  have "(\<exists>u v. x # xs = u @ t @ v) \<longleftrightarrow> (\<exists>v. x # xs = t @ v) \<or> (\<exists>u v. xs = u @ t @ v)"
    by (metis append_Cons append_Nil list.exhaust list.inject)
  with Cons.IH show ?case by (simp add: starts_with_iff)
qed auto

lemma str_contains_char [simp]: "str_contains s [c] \<longleftrightarrow> c \<in> set s"
  by (metis append_Cons append_Nil in_set_conv_decomp str_contains_iff)

text \<open>White space around a field does not matter to a caller that trims the fields itself.\<close>

lemma trim_space_left: "list_all is_space u \<Longrightarrow> trim_space (u @ s) = trim_space s"
  by (simp add: trim_space_def dropWhile_append2 list_all_iff)

lemma trim_space_right:
  assumes "list_all is_space v"
  shows "trim_space (s @ v) = trim_space s"
proof (cases "list_all is_space s")
  case True
  with assms have "dropWhile is_space (s @ v) = []" "dropWhile is_space s = []"
    unfolding dropWhile_eq_Nil_conv by (auto simp: list_all_iff)
  then show ?thesis unfolding trim_space_def by (simp only:)
next
  case False
  then obtain x where "x \<in> set s" "\<not> is_space x" by (auto simp: list_all_iff)
  then have "dropWhile is_space (s @ v) = dropWhile is_space s @ v" by (rule dropWhile_append1)
  moreover have "dropWhile is_space (rev v @ t) = dropWhile is_space t" for t
    using assms by (intro dropWhile_append2) (simp add: list_all_iff)
  ultimately show ?thesis by (simp add: trim_space_def)
qed

lemma trim_space_parts:
  obtains u v where "s = u @ trim_space s @ v" "list_all is_space u" "list_all is_space v"
proof -
  let ?d = "dropWhile is_space s"
  have "s = takeWhile is_space s @ ?d" by simp
  moreover have "?d = rev (dropWhile is_space (rev ?d)) @ rev (takeWhile is_space (rev ?d))"
    by (metis rev_append rev_rev_ident takeWhile_dropWhile_id)
  ultimately have "s = takeWhile is_space s @ trim_space s @ rev (takeWhile is_space (rev ?d))"
    by (simp add: trim_space_def)
  moreover have "list_all is_space (takeWhile is_space s)"
    "list_all is_space (rev (takeWhile is_space (rev ?d)))"
    by (auto simp: list_all_iff dest: set_takeWhileD)
  ultimately show ?thesis using that by blast
qed

lemma set_trim_space: "\<not> is_space c \<Longrightarrow> c \<in> set (trim_space s) \<longleftrightarrow> c \<in> set s"
proof (rule trim_space_parts [of s])
  fix u v assume c: "\<not> is_space c" and s: "s = u @ trim_space s @ v"
    and u: "list_all is_space u" and v: "list_all is_space v"
  have "c \<notin> set u" "c \<notin> set v" using c u v by (auto simp: list_all_iff)
  then have "c \<in> set (u @ trim_space s @ v) \<longleftrightarrow> c \<in> set (trim_space s)" by simp
  then show ?thesis by (simp only: s [symmetric])
qed

lemma trim_space_idem [simp]: "trim_space (trim_space s) = trim_space s"
proof (rule trim_space_parts [of s])
  fix u v assume s: "s = u @ trim_space s @ v" and u: "list_all is_space u" and v: "list_all is_space v"
  have "trim_space (u @ (trim_space s @ v)) = trim_space (trim_space s)"
    by (simp only: trim_space_left [OF u] trim_space_right [OF v])
  then show ?thesis by (simp only: s [symmetric])
qed

lemma split_on_prepend:
  "c \<notin> set u \<Longrightarrow> split_on c (u @ s) = (u @ hd (split_on c s)) # tl (split_on c s)"
  by (induction u) auto

lemma split_on_postpend:
  "c \<notin> set v \<Longrightarrow> split_on c (s @ v) = butlast (split_on c s) @ [last (split_on c s) @ v]"
proof (induction s)
  case Nil
  then show ?case by (simp add: split_on_absent)
next
  case (Cons x s)
  show ?case
  proof (cases "split_on c s")
    case Nil
    then show ?thesis by simp
  next
    case (Cons y ys)
    with Cons.IH Cons.prems show ?thesis by auto
  qed
qed

lemma map_trim_split_on:
  assumes "\<not> is_space c"
  shows "map trim_space (split_on c (trim_space s)) = map trim_space (split_on c s)"
proof (rule trim_space_parts [of s])
  fix u v assume s: "s = u @ trim_space s @ v" and u: "list_all is_space u" and v: "list_all is_space v"
  let ?L = "split_on c (trim_space s)"
  have cu: "c \<notin> set u" "c \<notin> set v" using u v assms by (auto simp: list_all_iff)
  have "map trim_space (split_on c (trim_space s @ v)) = map trim_space (butlast ?L) @ [trim_space (last ?L)]"
    using cu v by (simp add: split_on_postpend trim_space_right)
  also have "\<dots> = map trim_space ?L"
    by (metis append_butlast_last_id list.simps(8,9) map_append split_on_not_Nil)
  finally have r: "map trim_space (split_on c (trim_space s @ v)) = map trim_space ?L" .
  have "map trim_space (split_on c (u @ (trim_space s @ v))) = map trim_space (split_on c (trim_space s @ v))"
    using cu(1) u by (cases "split_on c (trim_space s @ v)") (simp_all add: split_on_prepend trim_space_left)
  with r show ?thesis by (simp only: s [symmetric])
qed

section \<open>Decimal numbers\<close>

definition digit_char :: "nat \<Rightarrow> char" where
  "digit_char d = char_of (48 + d)"

fun dec_of_nat :: "nat \<Rightarrow> string" where
  "dec_of_nat n = (if n < 10 then [digit_char n] else dec_of_nat (n div 10) @ [digit_char (n mod 10)])"

declare dec_of_nat.simps [simp del]

definition dec_of_int :: "int \<Rightarrow> string" where
  "dec_of_int i = (if i < 0 then CHR ''-'' # dec_of_nat (nat (- i)) else dec_of_nat (nat i))"

definition digit_val :: "char \<Rightarrow> nat option" where
  "digit_val c = (let n = of_char c in if 48 \<le> n \<and> n \<le> 57 then Some (n - 48) else None)"

text \<open>Conversion \<open>int32(x)\<close> of a Go \<open>int\<close>: two's complement truncation.\<close>

definition int32_of :: "int \<Rightarrow> int" where
  "int32_of x = (x + 2147483648) mod 4294967296 - 2147483648"

lemma digit_val_digit_char: "d < 10 \<Longrightarrow> digit_val (digit_char d) = Some d"
  by (simp add: digit_val_def digit_char_def Let_def)

lemma dec_of_nat_not_Nil [simp]: "dec_of_nat n \<noteq> []"
  by (subst dec_of_nat.simps) simp

lemma int32_of_id: "- 2147483648 \<le> x \<Longrightarrow> x < 2147483648 \<Longrightarrow> int32_of x = x"
  by (simp add: int32_of_def)

lemma int32_of_range: "- 2147483648 \<le> int32_of x \<and> int32_of x < 2147483648"
proof -
  have "0 \<le> (x + 2147483648) mod 4294967296" "(x + 2147483648) mod 4294967296 < 4294967296"
    by simp_all
  then show ?thesis by (simp add: int32_of_def)
qed

text \<open>\<open>strconv.ParseInt(s, 10, 64)\<close>: an optional sign, at least one digit, 64-bit range.\<close>

fun parse_digits :: "int \<Rightarrow> string \<Rightarrow> int option" where
  "parse_digits acc [] = Some acc"
| "parse_digits acc (c # cs) =
     (case digit_val c of None \<Rightarrow> None | Some d \<Rightarrow> parse_digits (acc * 10 + int d) cs)"

definition parse_int64 :: "string \<Rightarrow> int option" where
  "parse_int64 s =
     (let (neg, ds) = (case s of [] \<Rightarrow> (False, [])
                       | c # cs \<Rightarrow> if c = CHR ''-'' then (True, cs)
                                   else if c = CHR ''+'' then (False, cs) else (False, s))
      in if ds = [] then None
         else case parse_digits 0 ds of None \<Rightarrow> None
              | Some n \<Rightarrow> let v = (if neg then - n else n)
                          in if - (2 ^ 63) \<le> v \<and> v < 2 ^ 63 then Some v else None)"

end
