(* ===== verification/ApiTypes.thy ===== *)
theory ApiTypes
  imports Prelude
begin

text \<open>
  The custom resources of \<open>pkg/k8s/apis/topohub.infrastructure.io/v1beta1\<close> and the agent
  configuration, field by field. A pointer field is an option. Of the Kubernetes object
  metadata the fields the program reads or writes are kept; a label map is an option because
  the program tells a nil map from an empty one. \<open>int32\<close> fields are integers: the program
  only copies, compares and prints them.
\<close>

section \<open>Object metadata\<close>

record OwnerReference =
  or_APIVersion :: string
  or_Kind :: string
  or_Name :: string
  or_UID :: string
  or_Controller :: "bool option"
  or_BlockOwnerDeletion :: "bool option"

record ObjectMeta =
  om_Name :: string
  om_Namespace :: string
  om_UID :: string
  om_ResourceVersion :: string
  om_Labels :: "(string, string) gomap option"
  om_OwnerReferences :: "OwnerReference list"
  om_DeletionTimestamp :: "string option"

record Condition =
  cond_Type :: string
  cond_Reason :: string
  cond_Message :: string
  cond_Status :: string
  cond_LastTransitionTime :: string

definition new_meta :: "string \<Rightarrow> ObjectMeta" where
  "new_meta name = \<lparr>om_Name = name, om_Namespace = [], om_UID = [], om_ResourceVersion = [],
     om_Labels = None, om_OwnerReferences = [], om_DeletionTimestamp = None\<rparr>"

section \<open>Constants\<close>

definition GroupName :: string where "GroupName = ''topohub.infrastructure.io''"
definition APIVersion :: string where "APIVersion = GroupName @ ''/v1beta1''"
definition KindHostEndpoint :: string where "KindHostEndpoint = ''HostEndpoint''"
definition KindredfishStatus :: string where "KindredfishStatus = ''redfishStatus''"
definition KindSSHStatus :: string where "KindSSHStatus = ''SSHStatus''"

definition LabelIPAddr :: string where "LabelIPAddr = GroupName @ ''/ipAddr''"
definition LabelClientMode :: string where "LabelClientMode = GroupName @ ''/mode''"
definition LabelClientActive :: string where "LabelClientActive = GroupName @ ''/dhcp-ip-active''"
definition LabelClusterName :: string where "LabelClusterName = GroupName @ ''/cluster-name''"
definition LabelSubnetName :: string where "LabelSubnetName = GroupName @ ''/subnet-name''"
definition LabelRedfishStatus :: string where "LabelRedfishStatus = GroupName @ ''/redfishstatus''"

definition HostTypeDHCP :: string where "HostTypeDHCP = ''dhcp''"
definition HostTypeEndpoint :: string where "HostTypeEndpoint = ''hostendpoint''"
definition HostTypeSSH :: string where "HostTypeSSH = ''ssh''"
definition EndpointTypeRedfish :: string where "EndpointTypeRedfish = ''redfish''"
definition EndpointTypeSSH :: string where "EndpointTypeSSH = ''ssh''"

definition HostOperationStatusPending :: string where "HostOperationStatusPending = ''pending''"
definition HostOperationStatusSuccess :: string where "HostOperationStatusSuccess = ''success''"
definition HostOperationStatusFailed :: string where "HostOperationStatusFailed = ''failure''"

definition BootCmdOn :: string where "BootCmdOn = ''On''"
definition BootCmdForceOn :: string where "BootCmdForceOn = ''ForceOn''"
definition BootCmdForceOff :: string where "BootCmdForceOff = ''ForceOff''"
definition BootCmdGracefulShutdown :: string where "BootCmdGracefulShutdown = ''GracefulShutdown''"
definition BootCmdForceRestart :: string where "BootCmdForceRestart = ''ForceRestart''"
definition BootCmdGracefulRestart :: string where "BootCmdGracefulRestart = ''GracefulRestart''"
definition BootCmdResetPxeOnce :: string where "BootCmdResetPxeOnce = ''PxeReboot''"

lemmas label_defs =
  LabelIPAddr_def LabelClientMode_def LabelClientActive_def LabelClusterName_def
  LabelSubnetName_def LabelRedfishStatus_def

lemmas boot_cmd_defs =
  BootCmdOn_def BootCmdForceOn_def BootCmdForceOff_def BootCmdGracefulShutdown_def
  BootCmdForceRestart_def BootCmdGracefulRestart_def BootCmdResetPxeOnce_def

lemmas op_status_defs =
  HostOperationStatusPending_def HostOperationStatusSuccess_def HostOperationStatusFailed_def

section \<open>Subnet\<close>

record IPv4SubnetSpec =
  v4_Subnet :: string
  v4_IPRange :: string
  v4_Gateway :: "string option"
  v4_Dns :: "string option"

record InterfaceSpec =
  if_Interface :: string
  if_VlanID :: "int option"
  if_IPv4 :: string

record SyncRedfishstatusSpec =
  sync_Enabled :: bool
  sync_EnableBindDhcpIP :: bool
  sync_DefaultClusterName :: "string option"

record FeatureSpec =
  ft_SyncRedfishstatus :: SyncRedfishstatusSpec
  ft_EnablePxe :: bool
  ft_EnableZtp :: bool
  ft_EnableDhcpTrustedOnly :: bool

record SubnetSpec =
  sp_IPv4Subnet :: IPv4SubnetSpec
  sp_Interface :: InterfaceSpec
  sp_Feature :: "FeatureSpec option"

record DhcpStatusSpec =
  ds_DhcpIpTotalAmount :: "64 word"
  ds_DhcpIpAvailableAmount :: "64 word"
  ds_DhcpIpActiveAmount :: "64 word"
  ds_DhcpIpBindAmount :: "64 word"

record SubnetStatus =
  ss_DhcpStatus :: "DhcpStatusSpec option"
  ss_HostNode :: "string option"
  ss_Conditions :: "Condition list"
  ss_DhcpClientDetails :: string

record Subnet =
  sn_Meta :: ObjectMeta
  sn_Spec :: SubnetSpec
  sn_Status :: SubnetStatus

section \<open>BindingIp\<close>

record BindingIpSpec =
  bs_Subnet :: string
  bs_IpAddr :: string
  bs_MacAddr :: string

record BindingIpStatus =
  bst_Valid :: bool

record BindingIp =
  bi_Meta :: ObjectMeta
  bi_Spec :: BindingIpSpec
  bi_Status :: BindingIpStatus

section \<open>HostEndpoint\<close>

record HostEndpointSpec =
  he_ClusterName :: "string option"
  he_IPAddr :: string
  he_SecretName :: "string option"
  he_SecretNamespace :: "string option"
  he_HTTPS :: "bool option"
  he_Port :: "int option"
  he_Type :: "string option"

record HostEndpoint =
  hep_Meta :: ObjectMeta
  hep_Spec :: HostEndpointSpec

section \<open>HostOperation\<close>

record HostOperationSpec =
  hos_Action :: string
  hos_RedfishStatusName :: string

record HostOperationStatus =
  hot_Status :: string
  hot_Message :: string
  hot_LastUpdateTime :: string
  hot_ClusterName :: string
  hot_IpAddr :: string

record HostOperation =
  ho_Meta :: ObjectMeta
  ho_Spec :: HostOperationSpec
  ho_Status :: HostOperationStatus

section \<open>RedfishStatus\<close>

record BasicInfo =
  b_ClusterName :: string
  b_Type :: string
  b_IpAddr :: string
  b_SecretName :: string
  b_SecretNamespace :: string
  b_Https :: bool
  b_Port :: int
  b_Mac :: string
  b_ActiveDhcpClient :: bool
  b_DhcpExpireTime :: "string option"
  b_SubnetName :: "string option"
  b_Hostname :: "string option"

record LogEntry =
  le_Time :: string
  le_Message :: string

record LogStruct =
  l_TotalLogAccount :: int
  l_WarningLogAccount :: int
  l_LastestLog :: "LogEntry option"
  l_LastestWarningLog :: "LogEntry option"

record RedfishStatusStatus =
  r_Healthy :: bool
  r_LastUpdateTime :: string
  r_Basic :: BasicInfo
  r_Info :: "(string, string) gomap"
  r_Log :: LogStruct

record RedfishStatus =
  rf_Meta :: ObjectMeta
  rf_Status :: RedfishStatusStatus

section \<open>SSHStatus\<close>

record SSHBasicInfo =
  sb_ClusterName :: string
  sb_Type :: string
  sb_IpAddr :: string
  sb_SecretName :: string
  sb_SecretNamespace :: string
  sb_Port :: int
  sb_SSHKeyAuth :: bool
  sb_SubnetName :: "string option"

record SSHStatusStatus =
  s_Healthy :: bool
  s_LastUpdateTime :: string
  s_Basic :: SSHBasicInfo
  s_Info :: "(string, string) gomap"

record SSHStatus =
  sh_Meta :: ObjectMeta
  sh_Status :: SSHStatusStatus

section \<open>Zero values\<close>

definition zero_basic :: BasicInfo where
  "zero_basic = \<lparr>b_ClusterName = [], b_Type = [], b_IpAddr = [], b_SecretName = [],
     b_SecretNamespace = [], b_Https = False, b_Port = 0, b_Mac = [], b_ActiveDhcpClient = False,
     b_DhcpExpireTime = None, b_SubnetName = None, b_Hostname = None\<rparr>"

definition zero_log :: LogStruct where
  "zero_log = \<lparr>l_TotalLogAccount = 0, l_WarningLogAccount = 0, l_LastestLog = None,
     l_LastestWarningLog = None\<rparr>"

definition zero_redfish_status :: RedfishStatusStatus where
  "zero_redfish_status = \<lparr>r_Healthy = False, r_LastUpdateTime = [], r_Basic = zero_basic,
     r_Info = [], r_Log = zero_log\<rparr>"

definition zero_ssh_basic :: SSHBasicInfo where
  "zero_ssh_basic = \<lparr>sb_ClusterName = [], sb_Type = [], sb_IpAddr = [], sb_SecretName = [],
     sb_SecretNamespace = [], sb_Port = 0, sb_SSHKeyAuth = False, sb_SubnetName = None\<rparr>"

definition zero_ssh_status :: SSHStatusStatus where
  "zero_ssh_status = \<lparr>s_Healthy = False, s_LastUpdateTime = [], s_Basic = zero_ssh_basic, s_Info = []\<rparr>"

definition zero_subnet_status :: SubnetStatus where
  "zero_subnet_status = \<lparr>ss_DhcpStatus = None, ss_HostNode = None, ss_Conditions = [],
     ss_DhcpClientDetails = []\<rparr>"

section \<open>Labels\<close>

text \<open>
  \<open>if Labels == nil { Labels = make(map[string]string) }; Labels[k] = v\<close>: the map is made
  first, so the assignment never panics.
\<close>

definition make_labels :: "ObjectMeta \<Rightarrow> ObjectMeta" where
  "make_labels m = (case om_Labels m of None \<Rightarrow> m\<lparr>om_Labels := Some []\<rparr> | Some _ \<Rightarrow> m)"

definition set_label :: "string \<Rightarrow> string \<Rightarrow> ObjectMeta \<Rightarrow> ObjectMeta" where
  "set_label k v m = m\<lparr>om_Labels := map_option (gm_put k v) (om_Labels m)\<rparr>"

text \<open>A read of a label, the empty string where there is none.\<close>

definition get_label :: "string \<Rightarrow> ObjectMeta \<Rightarrow> string" where
  "get_label k m = (case om_Labels m of None \<Rightarrow> []
     | Some l \<Rightarrow> (case gm_get l k of None \<Rightarrow> [] | Some v \<Rightarrow> v))"

lemma make_labels_not_None [simp]: "om_Labels (make_labels m) \<noteq> None"
  by (simp add: make_labels_def split: option.splits)

lemma set_label_not_None [simp]: "om_Labels (set_label k v m) \<noteq> None \<longleftrightarrow> om_Labels m \<noteq> None"
  by (simp add: set_label_def)

lemma get_set_label:
  "om_Labels m \<noteq> None \<Longrightarrow> get_label k (set_label k' v m) = (if k = k' then v else get_label k m)"
  by (auto simp: get_label_def set_label_def)

lemma set_label_name [simp]: "om_Name (set_label k v m) = om_Name m"
  by (simp add: set_label_def)

lemma make_labels_name [simp]: "om_Name (make_labels m) = om_Name m"
  by (simp add: make_labels_def split: option.splits)

lemma get_make_labels [simp]: "get_label k (make_labels m) = get_label k m"
  by (simp add: get_label_def make_labels_def split: option.splits)

lemma gm_put_same: "gm_get m k = Some v \<Longrightarrow> gm_put k v m = m"
  unfolding gm_put_def by (induction m) (auto split: if_splits)

lemma make_labels_id: "om_Labels m \<noteq> None \<Longrightarrow> make_labels m = m"
  by (auto simp: make_labels_def)

lemma set_label_id:
  assumes "om_Labels m = Some l" "gm_get l k = Some v"
  shows "set_label k v m = m"
  using assms by (simp add: set_label_def gm_put_same)

section \<open>Agent configuration\<close>

record AgentConfig =
  cf_PodNamespace :: string
  cf_NodeName :: string
  cf_WebhookCertDir :: string
  cf_StoragePath :: string
  cf_StoragePathDhcpLog :: string
  cf_StoragePathDhcpLease :: string
  cf_StoragePathDhcpConfig :: string
  cf_StoragePathHttp :: string
  cf_StoragePathHttpZtp :: string
  cf_StoragePathHttpIso :: string
  cf_StoragePathHttpTools :: string
  cf_StoragePathTftp :: string
  cf_StoragePathTftpRelativeDirForPxeEfi :: string
  cf_StoragePathTftpAbsoluteDirForPxeEfi :: string
  cf_DhcpConfigTemplatePath :: string
  cf_FeatureConfigPath :: string
  cf_RedfishPort :: int
  cf_RedfishHttps :: bool
  cf_RedfishSecretName :: string
  cf_RedfishSecretNamespace :: string
  cf_RedfishStatusUpdateInterval :: int
  cf_SSHStatusUpdateInterval :: int
  cf_DhcpServerInterface :: string
  cf_HttpEnabled :: bool
  cf_HttpPort :: string

section \<open>Reconciliation\<close>

text \<open>
  What a reconciler returns: \<open>ctrl.Result\<close>, with the delay in seconds (0 for none), and an error. A
  panic is an error here: controller-runtime turns it into one.
\<close>

record Result =
  rs_Requeue :: bool
  rs_RequeueAfter :: nat

type_synonym reconcile_out = "Result \<times> goerr option"

definition empty_result :: Result where
  "empty_result = \<lparr>rs_Requeue = False, rs_RequeueAfter = 0\<rparr>"

definition requeue_now :: Result where
  "requeue_now = \<lparr>rs_Requeue = True, rs_RequeueAfter = 0\<rparr>"

definition requeue_after :: "nat \<Rightarrow> Result" where
  "requeue_after n = \<lparr>rs_Requeue = False, rs_RequeueAfter = n\<rparr>"

section \<open>A concrete subnet\<close>

text \<open>The objects the examples of the development are about.\<close>

definition example_feature :: FeatureSpec where
  "example_feature = \<lparr>ft_SyncRedfishstatus = \<lparr>sync_Enabled = True, sync_EnableBindDhcpIP = True,
       sync_DefaultClusterName = None\<rparr>,
     ft_EnablePxe = True, ft_EnableZtp = False, ft_EnableDhcpTrustedOnly = False\<rparr>"

definition example_subnet :: Subnet where
  "example_subnet = \<lparr>sn_Meta = new_meta ''net1'',
     sn_Spec = \<lparr>sp_IPv4Subnet = \<lparr>v4_Subnet = ''192.168.1.0/24'', v4_IPRange = ''192.168.1.10-192.168.1.20'',
         v4_Gateway = None, v4_Dns = None\<rparr>,
       sp_Interface = \<lparr>if_Interface = ''eth1'', if_VlanID = None, if_IPv4 = ''192.168.1.1/24''\<rparr>,
       sp_Feature = Some example_feature\<rparr>,
     sn_Status = zero_subnet_status\<rparr>"

definition example_config :: AgentConfig where
  "example_config = \<lparr>cf_PodNamespace = ''kube-system'', cf_NodeName = ''node1'', cf_WebhookCertDir = ''/cert'',
     cf_StoragePath = ''/s'', cf_StoragePathDhcpLog = ''/s/log'', cf_StoragePathDhcpLease = ''/s/lease'',
     cf_StoragePathDhcpConfig = ''/s/config'', cf_StoragePathHttp = ''/s/http'', cf_StoragePathHttpZtp = ''/s/http/ztp'',
     cf_StoragePathHttpIso = ''/s/http/iso'', cf_StoragePathHttpTools = ''/s/http/tools'', cf_StoragePathTftp = ''/s/tftp'',
     cf_StoragePathTftpRelativeDirForPxeEfi = ''boot'', cf_StoragePathTftpAbsoluteDirForPxeEfi = ''/s/tftp/boot'',
     cf_DhcpConfigTemplatePath = ''/tmpl'', cf_FeatureConfigPath = ''/feature'', cf_RedfishPort = 443,
     cf_RedfishHttps = True, cf_RedfishSecretName = ''redfish'', cf_RedfishSecretNamespace = ''kube-system'',
     cf_RedfishStatusUpdateInterval = 60, cf_SSHStatusUpdateInterval = 60, cf_DhcpServerInterface = ''eth1'',
     cf_HttpEnabled = True, cf_HttpPort = ''80''\<rparr>"

end
