(* ===== verification/GoText.thy ===== *)
theory GoText
  imports Prelude "HOL-Library.Multiset"
begin

text \<open>
  Text the program builds with the standard library: \<open>path/filepath\<close> (\<open>Join\<close>, \<open>Dir\<close>, with the
  lexical cleaning both apply) and \<open>encoding/json\<close> (quoted strings, objects; the keys of a map
  come out sorted). Strings are ASCII. The file system the agent writes to is a map from paths to
  contents, and which calls the operating system refuses is a parameter.
\<close>

section \<open>Paths\<close>

text \<open>One path element of \<open>filepath.Clean\<close>; the stack is reversed.\<close>

fun clean_elem :: "bool \<Rightarrow> string list \<Rightarrow> string \<Rightarrow> string list" where
  "clean_elem rooted st e =
     (if e = [] \<or> e = ''.'' then st
      else if e = ''..'' then
        (case st of [] \<Rightarrow> if rooted then [] else [e]
         | t # rest \<Rightarrow> if t = ''..'' then e # st else rest)
      else e # st)"

definition path_clean :: "string \<Rightarrow> string" where
  "path_clean p =
     (if p = [] then ''.''
      else let rooted = (hd p = CHR ''/'');
               st = foldl (clean_elem rooted) [] (split_on CHR ''/'' p);
               body = join_with ''/'' (rev st)
           in if rooted then CHR ''/'' # body else if body = [] then ''.'' else body)"

definition path_join :: "string list \<Rightarrow> string" where
  "path_join elems =
     (case dropWhile (\<lambda>e. e = []) elems of [] \<Rightarrow> []
      | es \<Rightarrow> path_clean (join_with ''/'' es))"

definition path_dir :: "string \<Rightarrow> string" where
  "path_dir p = path_clean (rev (dropWhile (\<lambda>c. c \<noteq> CHR ''/'') (rev p)))"

section \<open>JSON\<close>

definition json_hex :: "nat \<Rightarrow> char" where
  "json_hex d = (if d < 10 then char_of (48 + d) else char_of (87 + d))"

definition json_char :: "char \<Rightarrow> string" where
  "json_char c =
     (let n = of_char c :: nat in
      if c = CHR 0x22 then [CHR 0x5C, CHR 0x22]
      else if c = CHR 0x5C then [CHR 0x5C, CHR 0x5C]
      else if n = 8 then [CHR 0x5C, CHR ''b'']
      else if n = 9 then [CHR 0x5C, CHR ''t'']
      else if n = 10 then [CHR 0x5C, CHR ''n'']
      else if n = 12 then [CHR 0x5C, CHR ''f'']
      else if n = 13 then [CHR 0x5C, CHR ''r'']
      else if n < 32 \<or> c = CHR ''<'' \<or> c = CHR ''>'' \<or> c = CHR ''&'' then
        CHR 0x5C # CHR ''u'' # ''00'' @ [json_hex (n div 16), json_hex (n mod 16)]
      else [c])"

definition json_string :: "string \<Rightarrow> string" where
  "json_string s = CHR 0x22 # concat (map json_char s) @ [CHR 0x22]"

definition json_bool :: "bool \<Rightarrow> string" where
  "json_bool b = (if b then ''true'' else ''false'')"

definition json_object :: "(string \<times> string) list \<Rightarrow> string" where
  "json_object kvs =
     ''{'' @ join_with '','' (map (\<lambda>(k, v). json_string k @ '':'' @ v) kvs) @ ''}''"

text \<open>A map: its keys in increasing order.\<close>

definition sorted_entries :: "(string, 'v) gomap \<Rightarrow> (string \<times> 'v) list" where
  "sorted_entries m = sort_key fst m"

lemma sorted_entries_eq:
  assumes "gm_ok m" "gm_ok m'" "gm_get m = gm_get m'"
  shows "sorted_entries m = sorted_entries m'"
proof -
  have s: "set m = set m'" using assms by (metis map_of_inject_set)
  have "mset m = mset (sorted_entries m')"
    using s assms(1,2) set_eq_iff_mset_eq_distinct [of m m'] by (simp add: sorted_entries_def distinct_map)
  moreover have "inj_on fst (set m)" using assms(1) by (simp add: distinct_map)
  moreover have "sorted (map fst (sorted_entries m'))" by (simp add: sorted_entries_def)
  ultimately show ?thesis
    unfolding sorted_entries_def [of m] by (rule sort_key_inj_key_eq)
qed

section \<open>Files\<close>

datatype os_call =
    OsParseTemplate string | OsReadFile string | OsMkdirAll string | OsRemove string
  | OsCreate string | OsWriteFile string | OsExecute string | OsStart string | OsSignal string

type_synonym files = "string \<Rightarrow> string option"

text \<open>The calls the operating system refuses, with the reason; a missing file is an error of its own.\<close>

type_synonym os_env = "os_call \<Rightarrow> string option"

definition ErrNotExist :: goerr where
  "ErrNotExist = SysErr ''file does not exist''"

definition IsNotExist :: "goerr \<Rightarrow> bool" where
  "IsNotExist e \<longleftrightarrow> e = ErrNotExist"

definition os_do :: "os_env \<Rightarrow> os_call \<Rightarrow> unit result" where
  "os_do os c = (case os c of Some e \<Rightarrow> Inl (SysErr e) | None \<Rightarrow> Inr ())"

definition read_file :: "os_env \<Rightarrow> files \<Rightarrow> string \<Rightarrow> string result" where
  "read_file os fs p =
     and_then (os_do os (OsReadFile p)) (\<lambda>_.
       case fs p of None \<Rightarrow> Inl ErrNotExist | Some c \<Rightarrow> Inr c)"

definition write_file :: "os_env \<Rightarrow> files \<Rightarrow> string \<Rightarrow> string \<Rightarrow> unit result \<times> files" where
  "write_file os fs p c =
     (case os_do os (OsWriteFile p) of Inl e \<Rightarrow> (Inl e, fs) | Inr _ \<Rightarrow> (Inr (), fs(p \<mapsto> c)))"

lemma os_do_Inr [simp]: "os_do os c = Inr u \<longleftrightarrow> os c = None"
  by (simp add: os_do_def split: option.splits)

end
