(* ===== verification/GoNet.thy ===== *)
theory GoNet
  imports Prelude
begin

unbundle bit_operations_syntax

text \<open>
  The parts of the Go standard library's \<open>net\<close>, \<open>net/netip\<close> and \<open>bytes\<close> that the program
  calls: \<open>net.ParseIP\<close> (dotted IPv4, IPv6 with an ellipsis and an embedded IPv4 tail, no
  zones), \<open>net.ParseCIDR\<close>, \<open>IPNet.Contains\<close>, \<open>IP.Mask\<close>, \<open>IP.To4\<close>, \<open>IP.Equal\<close>,
  \<open>net.ParseMAC\<close> and \<open>bytes.Compare\<close>. A \<open>net.IP\<close> is the byte slice Go uses: 16 bytes out of
  \<open>ParseIP\<close>, IPv4 addresses in the 4-in-6 form.
\<close>

type_synonym ip = "byte list"

section \<open>Parsing addresses\<close>

text \<open>
  \<open>parseIPv4Fields\<close>: \<open>val\<close> and \<open>dl\<close> are the value and the digit count of the current octet.
\<close>

fun v4_loop :: "nat \<Rightarrow> nat \<Rightarrow> byte list \<Rightarrow> string \<Rightarrow> byte list option" where
  "v4_loop val dl pos [] = (if length pos < 3 then None else Some (pos @ [of_nat val]))"
| "v4_loop val dl pos (c # cs) =
     (case digit_val c of
        Some d \<Rightarrow>
          if dl = 1 \<and> val = 0 then None
          else if val * 10 + d > 255 then None
          else v4_loop (val * 10 + d) (dl + 1) pos cs
      | None \<Rightarrow>
          if c = CHR ''.'' then
            if dl = 0 \<or> cs = [] then None
            else if length pos = 3 then None
            else v4_loop 0 0 (pos @ [of_nat val]) cs
          else None)"

definition parse_v4_fields :: "string \<Rightarrow> byte list option" where
  "parse_v4_fields s = v4_loop 0 0 [] s"

definition hex_val :: "char \<Rightarrow> nat option" where
  "hex_val c = (let n = of_char c in
     if 48 \<le> n \<and> n \<le> 57 then Some (n - 48)
     else if 97 \<le> n \<and> n \<le> 102 then Some (n - 87)
     else if 65 \<le> n \<and> n \<le> 70 then Some (n - 55) else None)"

text \<open>One group of hexadecimal digits: its value, its length and the rest; at most four digits.\<close>

fun hex_run :: "nat \<Rightarrow> nat \<Rightarrow> string \<Rightarrow> (nat \<times> nat \<times> string) option" where
  "hex_run acc off [] = Some (acc, off, [])"
| "hex_run acc off (c # cs) =
     (case hex_val c of None \<Rightarrow> Some (acc, off, c # cs)
      | Some d \<Rightarrow> if off > 3 then None else hex_run (acc * 16 + d) (off + 1) cs)"

text \<open>
  One iteration of the loop of \<open>parseIPv6\<close>, with fewer than 16 bytes written: an error, the
  end of the loop, or another iteration. The state is the bytes so far, the position of the
  ellipsis and the rest of the input.
\<close>

datatype v6_next =
    V6Fail
  | V6Break "byte list" "nat option" string
  | V6Next "byte list" "nat option" string

definition v6_after_colon :: "byte list \<Rightarrow> nat option \<Rightarrow> string \<Rightarrow> v6_next" where
  "v6_after_colon bs ell r =
     (case r of [] \<Rightarrow> V6Fail
      | d # r2 \<Rightarrow>
        if d = CHR '':'' then
          if ell \<noteq> None then V6Fail
          else if r2 = [] then V6Break bs (Some (length bs)) []
          else V6Next bs (Some (length bs)) r2
        else V6Next bs ell (d # r2))"

definition v6_step :: "byte list \<Rightarrow> nat option \<Rightarrow> string \<Rightarrow> v6_next" where
  "v6_step bs ell s =
     (case hex_run 0 0 s of None \<Rightarrow> V6Fail
      | Some (acc, off, rest) \<Rightarrow>
        if off = 0 then V6Fail
        else (case rest of [] \<Rightarrow> V6Break (bs @ [of_nat (acc div 256), of_nat acc]) ell []
          | c # r1 \<Rightarrow>
            if c = CHR ''.'' then
              if ell = None \<and> length bs \<noteq> 12 then V6Fail
              else if length bs + 4 > 16 then V6Fail
              else (case parse_v4_fields s of None \<Rightarrow> V6Fail | Some f \<Rightarrow> V6Break (bs @ f) ell [])
            else if c \<noteq> CHR '':'' then V6Fail
            else v6_after_colon (bs @ [of_nat (acc div 256), of_nat acc]) ell r1))"

lemma v6_after_colon_bytes:
  "v6_after_colon bs ell r = V6Next bs' ell' s' \<Longrightarrow> length bs' = length bs"
  "v6_after_colon bs ell r = V6Break bs' ell' s' \<Longrightarrow> length bs' = length bs"
  by (auto simp: v6_after_colon_def split: list.splits if_splits)

lemma v6_step_Next_length:
  "v6_step bs ell s = V6Next bs' ell' s' \<Longrightarrow> length bs' = length bs + 2"
  by (auto simp: v6_step_def dest!: v6_after_colon_bytes split: list.splits if_splits option.splits)

function v6_loop :: "byte list \<Rightarrow> nat option \<Rightarrow> string \<Rightarrow> (byte list \<times> nat option \<times> string) option" where
  "v6_loop bs ell s =
     (if length bs \<ge> 16 then Some (bs, ell, s)
      else case v6_step bs ell s of
        V6Fail \<Rightarrow> None
      | V6Break bs' ell' s' \<Rightarrow> Some (bs', ell', s')
      | V6Next bs' ell' s' \<Rightarrow> v6_loop bs' ell' s')"
  by pat_completeness auto
termination
  by (relation "measure (\<lambda>(bs, _, _). 16 - length bs)") (auto dest: v6_step_Next_length)

declare v6_loop.simps [simp del]

definition v6_finish :: "byte list \<times> nat option \<times> string \<Rightarrow> byte list option" where
  "v6_finish r = (case r of (bs, ell, s) \<Rightarrow>
     if s \<noteq> [] then None
     else if length bs < 16 then
       (case ell of None \<Rightarrow> None
        | Some e \<Rightarrow> Some (take e bs @ replicate (16 - length bs) 0 @ drop e bs))
     else if ell \<noteq> None then None else Some bs)"

definition parse_v6 :: "string \<Rightarrow> byte list option" where
  "parse_v6 s =
     (case s of
        c # d # s' \<Rightarrow>
          if c = CHR '':'' \<and> d = CHR '':'' then
            (if s' = [] then Some (replicate 16 0) else Option.bind (v6_loop [] (Some 0) s') v6_finish)
          else Option.bind (v6_loop [] None s) v6_finish
      | _ \<Rightarrow> Option.bind (v6_loop [] None s) v6_finish)"

text \<open>
  \<open>netip.ParseAddr\<close> followed by the test for an empty zone: both callers reject a zone, so an
  address with a percent sign is never accepted. Four bytes for IPv4, sixteen for IPv6.
\<close>

definition parse_addr :: "string \<Rightarrow> byte list option" where
  "parse_addr s =
     (if CHR ''%'' \<in> set s then None
      else case find (\<lambda>c. c = CHR ''.'' \<or> c = CHR '':'') s of
        None \<Rightarrow> None
      | Some c \<Rightarrow> if c = CHR ''.'' then parse_v4_fields s else parse_v6 s)"

definition v4_prefix :: "byte list" where
  "v4_prefix = [0, 0, 0, 0, 0, 0, 0, 0, 0, 0, 255, 255]"

definition as16 :: "byte list \<Rightarrow> ip" where
  "as16 b = (if length b = 4 then v4_prefix @ b else b)"

definition ParseIP :: "string \<Rightarrow> ip option" where
  "ParseIP s = map_option as16 (parse_addr s)"

section \<open>Networks\<close>

record IPNet =
  net_ip :: ip
  net_mask :: "byte list"

fun cidr_mask :: "nat \<Rightarrow> nat \<Rightarrow> byte list" where
  "cidr_mask n 0 = []"
| "cidr_mask n (Suc l) =
     (if n \<ge> 8 then 255 # cidr_mask (n - 8) l else NOT (drop_bit n 255) # cidr_mask 0 l)"

definition To4 :: "ip \<Rightarrow> ip option" where
  "To4 a = (if length a = 4 then Some a
            else if length a = 16 \<and> take 12 a = v4_prefix then Some (drop 12 a) else None)"

definition ip_mask :: "ip \<Rightarrow> byte list \<Rightarrow> ip option" where
  "ip_mask a m =
     (let m' = (if length m = 16 \<and> length a = 4 \<and> take 12 m = replicate 12 255 then drop 12 m else m);
          a' = (if length m' = 4 \<and> length a = 16 \<and> take 12 a = v4_prefix then drop 12 a else a)
      in if length a' \<noteq> length m' then None else Some (map2 (AND) a' m'))"

fun dtoi_acc :: "nat \<Rightarrow> string \<Rightarrow> nat option" where
  "dtoi_acc n [] = Some n"
| "dtoi_acc n (c # cs) =
     (case digit_val c of None \<Rightarrow> None
      | Some d \<Rightarrow> if n * 10 + d \<ge> 16777215 then None else dtoi_acc (n * 10 + d) cs)"

text \<open>\<open>dtoi\<close> together with the test that it consumed the whole string.\<close>

definition dtoi :: "string \<Rightarrow> nat option" where
  "dtoi s = (if s = [] then None else dtoi_acc 0 s)"

definition ParseCIDR :: "string \<Rightarrow> (ip \<times> IPNet) option" where
  "ParseCIDR s =
     (case dropWhile (\<lambda>c. c \<noteq> CHR ''/'') s of [] \<Rightarrow> None
      | _ # mpart \<Rightarrow>
        (case parse_addr (takeWhile (\<lambda>c. c \<noteq> CHR ''/'') s) of None \<Rightarrow> None
         | Some a \<Rightarrow>
           (case dtoi mpart of None \<Rightarrow> None
            | Some n \<Rightarrow>
              if n > 8 * length a then None
              else let m = cidr_mask n (length a) in
                (case ip_mask (as16 a) m of None \<Rightarrow> None
                 | Some nip \<Rightarrow> Some (as16 a, \<lparr>net_ip = nip, net_mask = m\<rparr>)))))"

definition network_number_and_mask :: "IPNet \<Rightarrow> (ip \<times> byte list) option" where
  "network_number_and_mask n =
     (case (case To4 (net_ip n) of Some x \<Rightarrow> Some x
            | None \<Rightarrow> if length (net_ip n) = 16 then Some (net_ip n) else None) of
        None \<Rightarrow> None
      | Some a \<Rightarrow>
          if length (net_mask n) = 4 then (if length a = 4 then Some (a, net_mask n) else None)
          else if length (net_mask n) = 16 then
            Some (a, if length a = 4 then drop 12 (net_mask n) else net_mask n)
          else None)"

definition net_contains :: "IPNet \<Rightarrow> ip \<Rightarrow> bool" where
  "net_contains n a =
     (case network_number_and_mask n of None \<Rightarrow> a = []
      | Some (nn, m) \<Rightarrow>
          (let x = (case To4 a of Some y \<Rightarrow> y | None \<Rightarrow> a)
           in length x = length nn \<and> map2 (AND) nn m = map2 (AND) x m))"

definition ip_equal :: "ip \<Rightarrow> ip \<Rightarrow> bool" where
  "ip_equal a x =
     (if length a = length x then a = x
      else if length a = 4 \<and> length x = 16 then take 12 x = v4_prefix \<and> a = drop 12 x
      else if length a = 16 \<and> length x = 4 then take 12 a = v4_prefix \<and> drop 12 a = x
      else False)"

text \<open>\<open>bytes.Compare\<close>: \<open>-1\<close>, \<open>0\<close> or \<open>1\<close>, lexicographically.\<close>

fun bytes_compare :: "byte list \<Rightarrow> byte list \<Rightarrow> int" where
  "bytes_compare [] [] = 0"
| "bytes_compare [] (_ # _) = - 1"
| "bytes_compare (_ # _) [] = 1"
| "bytes_compare (x # xs) (y # ys) =
     (if x < y then - 1 else if y < x then 1 else bytes_compare xs ys)"

section \<open>Hardware addresses\<close>

definition xtoi2 :: "string \<Rightarrow> char option \<Rightarrow> byte option" where
  "xtoi2 s e =
     (case s of
        a # b # rest \<Rightarrow>
          if rest \<noteq> [] \<and> Some (hd rest) \<noteq> e then None
          else (case (hex_val a, hex_val b) of
                  (Some x, Some y) \<Rightarrow> Some (of_nat (x * 16 + y)) | _ \<Rightarrow> None)
      | _ \<Rightarrow> None)"

text \<open>The loop over \<open>n\<close> groups of two digits followed by a separator.\<close>

fun mac_groups3 :: "nat \<Rightarrow> char \<Rightarrow> string \<Rightarrow> byte list option" where
  "mac_groups3 0 sep s = Some []"
| "mac_groups3 (Suc n) sep s =
     (case xtoi2 s (Some sep) of None \<Rightarrow> None
      | Some b \<Rightarrow> map_option ((#) b) (mac_groups3 n sep (drop 3 s)))"

text \<open>The loop over \<open>n\<close> groups of four digits followed by a dot.\<close>

fun mac_groups5 :: "nat \<Rightarrow> char \<Rightarrow> string \<Rightarrow> byte list option" where
  "mac_groups5 0 sep s = Some []"
| "mac_groups5 (Suc n) sep s =
     (case xtoi2 (take 2 s) None of None \<Rightarrow> None
      | Some b \<Rightarrow>
        (case xtoi2 (drop 2 s) (Some sep) of None \<Rightarrow> None
         | Some b' \<Rightarrow> map_option (\<lambda>r. b # b' # r) (mac_groups5 n sep (drop 5 s))))"

definition ParseMAC :: "string \<Rightarrow> byte list option" where
  "ParseMAC s =
     (if length s < 14 then None
      else if s ! 2 = CHR '':'' \<or> s ! 2 = CHR ''-'' then
        (if (length s + 1) mod 3 \<noteq> 0 then None
         else let n = (length s + 1) div 3
              in if n \<noteq> 6 \<and> n \<noteq> 8 \<and> n \<noteq> 20 then None else mac_groups3 n (s ! 2) s)
      else if s ! 4 = CHR ''.'' then
        (if (length s + 1) mod 5 \<noteq> 0 then None
         else let n = 2 * (length s + 1) div 5
              in if n \<noteq> 6 \<and> n \<noteq> 8 \<and> n \<noteq> 20 then None else mac_groups5 (n div 2) (s ! 4) s)
      else None)"

section \<open>Facts about addresses\<close>

lemma v4_loop_length: "length pos \<le> 3 \<Longrightarrow> v4_loop val dl pos s = Some b \<Longrightarrow> length b = 4"
  by (induction val dl pos s rule: v4_loop.induct) (auto split: option.splits if_splits)

lemma parse_v4_fields_length: "parse_v4_fields s = Some b \<Longrightarrow> length b = 4"
  by (auto simp: parse_v4_fields_def dest: v4_loop_length [rotated])

lemma v6_finish_length:
  "v6_finish (bs, ell, s) = Some b \<Longrightarrow> length bs \<le> 16 \<Longrightarrow> length b = 16"
  by (auto simp: v6_finish_def split: if_splits option.splits)

lemma v6_step_Break_length:
  "v6_step bs ell s = V6Break bs' ell' s' \<Longrightarrow> length bs < 16 \<Longrightarrow> even (length bs) \<Longrightarrow>
   length bs' \<le> 16"
  by (auto simp: v6_step_def dest!: v6_after_colon_bytes parse_v4_fields_length
      split: list.splits if_splits option.splits elim!: evenE)

lemma v6_loop_length:
  "even (length bs) \<Longrightarrow> length bs \<le> 16 \<Longrightarrow> v6_loop bs ell s = Some (bs', ell', s') \<Longrightarrow>
   length bs' \<le> 16"
proof (induction bs ell s rule: v6_loop.induct)
  case (1 bs ell s)
  show ?case
  proof (cases "length bs \<ge> 16")
    case True
    with "1.prems" show ?thesis by (simp add: v6_loop.simps [of bs ell s])
  next
    case False
    show ?thesis
    proof (cases "v6_step bs ell s")
      case V6Fail
      with False "1.prems" show ?thesis by (simp add: v6_loop.simps [of bs ell s])
    next
      case (V6Break a b c)
      with False "1.prems" show ?thesis
        by (auto simp: v6_loop.simps [of bs ell s] dest: v6_step_Break_length)
    next
      case (V6Next a b c)
      then have a: "length a = length bs + 2" by (rule v6_step_Next_length)
      from a False "1.prems"(1) have "even (length a)" "length a \<le> 16" by presburger+
      with "1.IH" [OF False V6Next] V6Next False "1.prems" show ?thesis
        by (simp add: v6_loop.simps [of bs ell s])
    qed
  qed
qed

lemma parse_v6_length: "parse_v6 s = Some b \<Longrightarrow> length b = 16"
proof -
  have aux: "length b = 16" if h: "Option.bind (v6_loop [] e t) v6_finish = Some b" for e t b
  proof -
    obtain bs ell r where l: "v6_loop [] e t = Some (bs, ell, r)" and f: "v6_finish (bs, ell, r) = Some b"
      using h unfolding bind_eq_Some_conv by auto
    from v6_loop_length [OF _ _ l] have "length bs \<le> 16" by simp
    with f show ?thesis by (rule v6_finish_length)
  qed
  assume "parse_v6 s = Some b"
  then show ?thesis
    by (auto simp: parse_v6_def dest: aux split: list.splits if_splits)
qed

lemma parse_addr_length: "parse_addr s = Some b \<Longrightarrow> length b = 4 \<or> length b = 16"
  by (auto simp: parse_addr_def dest: parse_v4_fields_length parse_v6_length
      split: option.splits if_splits)

lemma v4_prefix_length [simp]: "length v4_prefix = 12"
  by (simp add: v4_prefix_def)

lemma ParseIP_length: "ParseIP s = Some a \<Longrightarrow> length a = 16"
  by (auto simp: ParseIP_def as16_def dest!: parse_addr_length)

lemma ParseIP_not_Nil [simp]: "ParseIP s \<noteq> Some []"
  by (auto dest: ParseIP_length)

end
