(* ===== verification/AddrFacts.thy ===== *)
theory AddrFacts
  imports GoNet
begin

text \<open>
  What the address arithmetic of the program rests on: \<open>bytes.Compare\<close> is the lexicographic
  order, an IPv4 network given by a prefix mask is convex in that order, and the order of
  addresses is the order of the numbers they stand for.
\<close>

section \<open>Comparison\<close>

lemma bytes_compare_le [simp]: "bytes_compare a b \<le> 0 \<longleftrightarrow> a \<le> b"
  by (induction a b rule: bytes_compare.induct) auto

lemma bytes_compare_ge [simp]: "0 \<le> bytes_compare a b \<longleftrightarrow> b \<le> a"
  by (induction a b rule: bytes_compare.induct) auto

lemma bytes_compare_gt [simp]: "0 < bytes_compare a b \<longleftrightarrow> b < a"
  by (induction a b rule: bytes_compare.induct) auto

lemma bytes_compare_0: "bytes_compare a b = 0 \<longleftrightarrow> a = b"
  by (induction a b rule: bytes_compare.induct) auto

lemma ip_equal_same_length: "length a = length b \<Longrightarrow> ip_equal a b \<longleftrightarrow> a = b"
  by (simp add: ip_equal_def)

lemma append_le_append [simp]: "p @ x \<le> p @ y \<longleftrightarrow> x \<le> (y :: byte list)"
  by (induction p) auto

lemma append_less_append [simp]: "p @ x < p @ y \<longleftrightarrow> x < (y :: byte list)"
  by (induction p) auto

lemma prefix_between:
  fixes p x c y :: "byte list"
  assumes "p @ x \<le> c" "c \<le> p @ y"
  obtains z where "c = p @ z" "x \<le> z" "z \<le> y"
  using assms
proof (induction p arbitrary: c thesis)
  case Nil
  then show ?case by simp
next
  case (Cons q p)
  from Cons.prems(2,3) obtain c' where c: "c = q # c'" "p @ x \<le> c'" "c' \<le> p @ y"
    by (cases c) auto
  from Cons.IH [OF _ c(2,3)] Cons.prems(1) c(1) show ?case by auto
qed

section \<open>Prefix masks\<close>

lemma cidr_mask_numeral:
  "cidr_mask n (numeral k) =
     (if n \<ge> 8 then 255 # cidr_mask (n - 8) (pred_numeral k)
      else NOT (drop_bit n 255) # cidr_mask 0 (pred_numeral k))"
  by (simp add: numeral_eq_Suc)

lemma length_cidr_mask [simp]: "length (cidr_mask n l) = l"
  by (induction n l rule: cidr_mask.induct) auto

lemma cidr_mask_0: "cidr_mask 0 l = replicate l 0"
  by (induction l) auto

lemma map2_and_zeros: "length a = l \<Longrightarrow> map2 (AND) a (replicate l (0 :: byte)) = replicate l 0"
  by (induction a arbitrary: l) auto

lemma and_high_mask_mono:
  fixes a b :: byte
  assumes "a \<le> b"
  shows "a AND NOT (drop_bit n 255) \<le> b AND NOT (drop_bit n 255)"
proof -
  have m: "(255 :: byte) = mask 8" by (simp add: mask_eq_exp_minus_1)
  have d: "(drop_bit n 255 :: byte) = mask (8 - n)"
    unfolding m by (rule bit_word_eqI) (auto simp: bit_simps)
  have diff: "x AND NOT (mask k) = x - (x AND mask k)" for x :: byte and k
  proof -
    have "x - (x AND mask k) = x AND NOT (x AND mask k)"
      by (rule disjunctive_diff) (simp add: bit_simps)
    also have "\<dots> = x AND NOT (mask k)"
      by (rule bit_word_eqI) (auto simp: bit_simps)
    finally show ?thesis by simp
  qed
  have u: "unat (x AND NOT (mask k)) = (unat x div 2 ^ k) * 2 ^ k" for x :: byte and k
  proof -
    have "unat (x AND mask k) = unat x mod 2 ^ k"
      by (simp only: take_bit_eq_mask [symmetric] unsigned_take_bit_eq)
        (simp add: take_bit_eq_mod)
    moreover have "x AND mask k \<le> x" by (rule word_and_le2)
    ultimately show ?thesis by (simp add: diff unat_sub minus_mod_eq_div_mult)
  qed
  have "unat a \<le> unat b" using assms by (simp add: word_le_nat_alt)
  then show ?thesis
    unfolding d word_le_nat_alt u by (simp add: div_le_mono)
qed

lemma and_255 [simp]: "(x :: byte) AND 255 = x"
proof -
  have m: "(255 :: byte) = mask 8" by (simp add: mask_eq_exp_minus_1)
  show ?thesis unfolding m by (simp add: take_bit_eq_mask [symmetric] take_bit_word_eq_self)
qed

lemma masked_mono:
  "length a = l \<Longrightarrow> length b = l \<Longrightarrow> a \<le> b \<Longrightarrow>
   map2 (AND) a (cidr_mask n l) \<le> map2 (AND) b (cidr_mask n l)"
proof (induction l arbitrary: a b n)
  case 0
  then show ?case by simp
next
  case (Suc l)
  obtain x xs where a: "a = x # xs" "length xs = l" using Suc.prems(1) by (cases a) auto
  obtain y ys where b: "b = y # ys" "length ys = l" using Suc.prems(2) by (cases b) auto
  show ?case
  proof (cases "n \<ge> 8")
    case True
    with Suc a b show ?thesis by auto
  next
    case False
    from Suc.prems(3) a b have "x \<le> y" by auto
    then have "x AND NOT (drop_bit n 255) \<le> y AND NOT (drop_bit n 255)"
      by (rule and_high_mask_mono)
    with False a b show ?thesis by (auto simp: cidr_mask_0 map2_and_zeros order_le_less)
  qed
qed

section \<open>IPv4 networks\<close>

text \<open>The networks \<open>ParseCIDR\<close> returns for an IPv4 argument.\<close>

definition v4_net :: "IPNet \<Rightarrow> bool" where
  "v4_net n \<longleftrightarrow> length (net_ip n) = 4 \<and> (\<exists>k. net_mask n = cidr_mask k 4)"

lemma To4_prefix [simp]: "length x = 4 \<Longrightarrow> To4 (v4_prefix @ x) = Some x"
  by (simp add: To4_def)

lemma To4_Some: "To4 a = Some x \<Longrightarrow> length a = 16 \<Longrightarrow> a = v4_prefix @ x \<and> length x = 4"
  by (auto simp: To4_def split: if_splits) (metis append_take_drop_id)

lemma ParseCIDR_v4_net:
  assumes "ParseCIDR s = Some (a, n)" "length (net_mask n) = 4"
  shows "v4_net n"
proof -
  from assms obtain b k where b: "parse_addr (takeWhile (\<lambda>c. c \<noteq> CHR ''/'') s) = Some b"
    and m: "ip_mask (as16 b) (cidr_mask k (length b)) = Some (net_ip n)"
    and k: "net_mask n = cidr_mask k (length b)"
    by (auto simp: ParseCIDR_def Let_def split: list.splits option.splits if_splits)
  from k assms(2) have l: "length b = 4" by simp
  from m l have "map2 (AND) b (cidr_mask k 4) = net_ip n"
    by (auto simp: ip_mask_def as16_def Let_def split: if_splits)
  then have "length (net_ip n) = 4" using l by (metis length_cidr_mask length_map length_zip min.idem)
  with k l show ?thesis by (auto simp: v4_net_def)
qed

lemma net_contains_v4:
  "v4_net n \<Longrightarrow> length x = 4 \<Longrightarrow>
   net_contains n (v4_prefix @ x) \<longleftrightarrow> map2 (AND) (net_ip n) (net_mask n) = map2 (AND) x (net_mask n)"
  by (auto simp: v4_net_def net_contains_def network_number_and_mask_def To4_def)

lemma net_contains_v4_To4:
  assumes "v4_net n" "net_contains n a" "length a = 16"
  obtains x where "a = v4_prefix @ x" "length x = 4"
proof (cases "To4 a")
  case None
  with assms show ?thesis
    by (auto simp: v4_net_def net_contains_def network_number_and_mask_def To4_def split: if_splits)
next
  case (Some x)
  with To4_Some [OF Some assms(3)] that show ?thesis by blast
qed

lemma v4_net_convex:
  assumes n: "v4_net n" and s: "net_contains n s" "length s = 16"
    and e: "net_contains n e" "length e = 16"
    and le: "s \<le> c" "c \<le> e" "length c = 16"
  shows "net_contains n c"
proof -
  obtain x where x: "s = v4_prefix @ x" "length x = 4" using net_contains_v4_To4 [OF n s] .
  obtain y where y: "e = v4_prefix @ y" "length y = 4" using net_contains_v4_To4 [OF n e] .
  obtain z where z: "c = v4_prefix @ z" "x \<le> z" "z \<le> y"
    using prefix_between le x(1) y(1) by metis
  have lz: "length z = 4" using z(1) le(3) by simp
  obtain k where k: "net_mask n = cidr_mask k 4" using n by (auto simp: v4_net_def)
  let ?m = "\<lambda>v. map2 (AND) v (cidr_mask k 4)"
  have "?m x \<le> ?m z" "?m z \<le> ?m y"
    using masked_mono [of _ 4] x(2) y(2) lz z(2,3) by auto
  moreover have "?m (net_ip n) = ?m x" "?m (net_ip n) = ?m y"
    using n s(1) e(1) x y k by (simp_all add: net_contains_v4)
  ultimately have "?m (net_ip n) = ?m z" by simp
  with n lz z(1) k show ?thesis by (simp add: net_contains_v4)
qed

section \<open>Addresses as numbers\<close>

definition be_val :: "byte list \<Rightarrow> nat" where
  "be_val bs = foldl (\<lambda>v b. v * 256 + unat b) 0 bs"

lemma be_val_Nil [simp]: "be_val [] = 0"
  by (simp add: be_val_def)

lemma be_val_foldl: "foldl (\<lambda>v b. v * 256 + unat b) v bs = v * 256 ^ length bs + be_val bs"
proof (induction bs arbitrary: v)
  case Nil
  show ?case by simp
next
  case (Cons b bs)
  have "be_val (b # bs) = unat b * 256 ^ length bs + be_val bs"
    using Cons [of "unat b"] by (simp add: be_val_def)
  with Cons [of "v * 256 + unat b"] show ?case by (simp add: algebra_simps)
qed

lemma be_val_Cons [simp]: "be_val (b # bs) = unat b * 256 ^ length bs + be_val bs"
  using be_val_foldl [of "unat b" bs] by (simp add: be_val_def)

lemma be_val_append: "be_val (xs @ ys) = be_val xs * 256 ^ length ys + be_val ys"
  by (induction xs) (auto simp: power_add algebra_simps)

lemma be_val_bound: "be_val bs < 256 ^ length bs"
proof (induction bs)
  case (Cons b bs)
  have "unat b \<le> 255" using unsigned_less [of b, where 'a = nat] by simp
  then have "unat b * 256 ^ length bs \<le> 255 * 256 ^ length bs" by (rule mult_right_mono) simp
  with Cons have "unat b * 256 ^ length bs + be_val bs < 255 * 256 ^ length bs + 256 ^ length bs"
    by linarith
  then show ?case by simp
qed simp

lemma be_val_less: "length a = length b \<Longrightarrow> a < b \<Longrightarrow> be_val a < be_val b"
proof (induction a b rule: list_induct2)
  case (Cons x xs y ys)
  from Cons.prems consider "x < y" | "x = y" "xs < ys" by auto
  then show ?case
  proof cases
    case 1
    then have "unat x + 1 \<le> unat y" by (simp add: word_less_nat_alt)
    then have "(unat x + 1) * 256 ^ length xs \<le> unat y * 256 ^ length xs"
      by (rule mult_right_mono) simp
    moreover have "be_val xs < 256 ^ length xs" by (rule be_val_bound)
    ultimately show ?thesis using Cons.hyps by (simp add: algebra_simps)
  next
    case 2
    with Cons show ?thesis by simp
  qed
qed simp

lemma be_val_le_iff: "length a = length b \<Longrightarrow> be_val a \<le> be_val b \<longleftrightarrow> a \<le> b"
  by (metis be_val_less leD leI less_imp_le_nat order_le_less)

lemma be_val_inj: "length a = length b \<Longrightarrow> be_val a = be_val b \<Longrightarrow> a = b"
  by (metis be_val_le_iff order_antisym order_refl)

end
