(* ===== verification/Tools.thy ===== *)
theory Tools
  imports AddrFacts ApiTypes
begin

text \<open>
  Package \<open>pkg/tools\<close> (\<open>tools.go\<close>): validation of addresses, ranges, hardware addresses and
  interfaces. An IP range string is a comma-separated list of addresses and of
  \<open>start-end\<close> pairs; \<open>range_set\<close> is the set of addresses such a string denotes, and the
  lemmas tie every function of the package to it.
\<close>

section \<open>Definitions\<close>

text \<open>\<open>net.ParseIP\<close> as Go returns it: nil, the empty slice, where it fails.\<close>

definition nil_ip :: "string \<Rightarrow> ip" where
  "nil_ip s = (case ParseIP s of None \<Rightarrow> [] | Some a \<Rightarrow> a)"

definition nil_mask :: "ip \<Rightarrow> byte list \<Rightarrow> ip" where
  "nil_mask a m = (case ip_mask a m of None \<Rightarrow> [] | Some x \<Rightarrow> x)"

definition net_args :: "IPNet \<Rightarrow> goarg list" where
  "net_args n = [ArgIP (net_ip n), ArgIP (net_mask n)]"

definition ValidateIPInSubnet :: "ip \<Rightarrow> IPNet \<Rightarrow> bool" where
  "ValidateIPInSubnet a subnet = net_contains subnet a"

definition ValidateIPWithSubnetMatch :: "string \<Rightarrow> IPNet \<Rightarrow> unit result" where
  "ValidateIPWithSubnetMatch ipCIDR subnet =
     (case ParseCIDR ipCIDR of
        None \<Rightarrow> Inl (Errorf ''invalid CIDR format: %v'' [ArgE (SysErr ipCIDR)])
      | Some (a, _) \<Rightarrow>
          if \<not> ValidateIPInSubnet a subnet then
            Inl (Errorf ''IP %s is not in subnet %s'' (ArgIP a # net_args subnet))
          else if \<not> ip_equal (nil_mask a (net_mask subnet)) (nil_mask (net_ip subnet) (net_mask subnet)) then
            Inl (Errorf ''IP %s does not match subnet network %s'' (ArgIP a # net_args subnet))
          else Inr ())"

text \<open>One pass of the loop of \<open>ValidateIPRange\<close>.\<close>

definition check_range_entry :: "IPNet \<Rightarrow> string \<Rightarrow> unit result" where
  "check_range_entry subnet r =
     (if str_contains r ''-'' then
        (let startEnd = split_on CHR ''-'' r in
         if length startEnd \<noteq> 2 then Inl (Errorf ''invalid IP range format: %s'' [ArgS r])
         else
           (let start = nil_ip (trim_space (startEnd ! 0)); end' = nil_ip (trim_space (startEnd ! 1)) in
            if start = [] \<or> end' = [] then Inl (Errorf ''invalid IP address in range: %s'' [ArgS r])
            else if \<not> ValidateIPInSubnet start subnet then
              Inl (Errorf ''start IP %s is not within subnet %s'' (ArgIP start # net_args subnet))
            else if \<not> ValidateIPInSubnet end' subnet then
              Inl (Errorf ''end IP %s is not within subnet %s'' (ArgIP end' # net_args subnet))
            else if bytes_compare start end' > 0 then
              Inl (Errorf ''start IP %s is greater than end IP %s'' [ArgIP start, ArgIP end'])
            else Inr ()))
      else
        (let a = nil_ip (trim_space r) in
         if a = [] then Inl (Errorf ''invalid IP address: %s'' [ArgS r])
         else if \<not> ValidateIPInSubnet a subnet then
           Inl (Errorf ''IP %s is not within subnet %s'' (ArgIP a # net_args subnet))
         else Inr ()))"

definition ValidateIPRange :: "string \<Rightarrow> IPNet \<Rightarrow> unit result" where
  "ValidateIPRange ipRange subnet = for_each (check_range_entry subnet) (split_on CHR '','' ipRange)"

definition CompareIP :: "ip \<Rightarrow> ip \<Rightarrow> int" where
  "CompareIP a b = bytes_compare a b"

text \<open>
  The bounds of one trimmed entry in \<open>ValidateIPRangeExpansion\<close>; the entry has passed
  \<open>ValidateIPRange\<close>, so \<open>parts[1]\<close> exists where there is a hyphen.
\<close>

definition entry_bounds :: "string \<Rightarrow> ip \<times> ip" where
  "entry_bounds r =
     (if str_contains r ''-'' then
        (let parts = split_on CHR ''-'' r
         in (nil_ip (trim_space (parts ! 0)), nil_ip (trim_space (parts ! 1))))
      else (nil_ip r, nil_ip r))"

definition covers :: "ip \<times> ip \<Rightarrow> string \<Rightarrow> bool" where
  "covers se newRange =
     (case entry_bounds (trim_space newRange) of (newStart, newEnd) \<Rightarrow>
        CompareIP newStart (fst se) \<le> 0 \<and> CompareIP newEnd (snd se) \<ge> 0)"

definition ValidateIPRangeExpansion :: "string \<Rightarrow> string \<Rightarrow> IPNet \<Rightarrow> unit result" where
  "ValidateIPRangeExpansion oldIPRange newIPRange subnet =
     and_then (wrap_err (\<lambda>e. Errorf ''invalid old IP range: %v'' [ArgE e]) (ValidateIPRange oldIPRange subnet)) (\<lambda>_.
     and_then (wrap_err (\<lambda>e. Errorf ''invalid new IP range: %v'' [ArgE e]) (ValidateIPRange newIPRange subnet)) (\<lambda>_.
       for_each (\<lambda>oldRange.
           guard (list_ex (covers (entry_bounds (trim_space oldRange))) (split_on CHR '','' newIPRange))
             (Errorf ''IP range cannot be shrunk. The range %s is not fully covered in the new configuration''
               [ArgS (trim_space oldRange)]))
         (split_on CHR '','' oldIPRange)))"

definition iface_char :: "char \<Rightarrow> bool" where
  "iface_char c = (let n = of_char c :: nat in
     97 \<le> n \<and> n \<le> 122 \<or> 65 \<le> n \<and> n \<le> 90 \<or> 48 \<le> n \<and> n \<le> 57 \<or> c = CHR ''_'' \<or> c = CHR ''-'')"

definition IsValidInterfaceName :: "string \<Rightarrow> bool" where
  "IsValidInterfaceName name = ((name \<noteq> [] \<and> list_all iface_char name) \<and> length name \<le> 15)"

text \<open>\<open>ifaces\<close> is what \<open>net.Interfaces\<close> returns: the names, or an error.\<close>

definition ValidateInterfaceExists :: "string list result \<Rightarrow> string \<Rightarrow> unit result" where
  "ValidateInterfaceExists ifaces ifaceName =
     (case ifaces of
        Inl e \<Rightarrow> Inl (Errorf ''failed to get network interfaces: %v'' [ArgE e])
      | Inr names \<Rightarrow>
          if list_ex (\<lambda>n. n = ifaceName) names then Inr ()
          else Inl (Errorf ''interface %s does not exist on the system'' [ArgS ifaceName]))"

fun Int32PtrEqual :: "int option \<Rightarrow> int option \<Rightarrow> bool" where
  "Int32PtrEqual None None = True"
| "Int32PtrEqual None (Some _) = False"
| "Int32PtrEqual (Some _) None = False"
| "Int32PtrEqual (Some a) (Some b) = (a = b)"

text \<open>\<open>ip[i]\<close> panics where the address has no four-byte form.\<close>

definition ipToUint32 :: "ip \<Rightarrow> 32 word result" where
  "ipToUint32 a =
     (case To4 a of
        None \<Rightarrow> Inl (Panic ''index out of range'')
      | Some b \<Rightarrow> Inr (push_bit 24 (ucast (b ! 0)) OR push_bit 16 (ucast (b ! 1))
                     OR push_bit 8 (ucast (b ! 2)) OR ucast (b ! 3)))"

text \<open>What one pass of the loop of \<open>CountIPsInRange\<close> adds to the total.\<close>

definition count_entry :: "string \<Rightarrow> 64 word result" where
  "count_entry r0 =
     (let r = trim_space r0 in
      if str_contains r ''-'' then
        (let parts = split_on CHR ''-'' r in
         if length parts \<noteq> 2 then Inl (Errorf ''invalid IP range format: %s'' [ArgS r])
         else
           (case (ParseIP (trim_space (parts ! 0)), ParseIP (trim_space (parts ! 1))) of
              (Some start, Some end') \<Rightarrow>
                (case (To4 start, To4 end') of
                   (Some s4, Some e4) \<Rightarrow>
                     if bytes_compare s4 e4 > 0 then
                       Inl (Errorf ''start IP %s is greater than end IP %s'' [ArgIP s4, ArgIP e4])
                     else and_then (ipToUint32 s4) (\<lambda>startInt. and_then (ipToUint32 e4) (\<lambda>endInt.
                       Inr (ucast (endInt - startInt + 1))))
                 | _ \<Rightarrow> Inl (Errorf ''invalid IPv4 address in range: %s'' [ArgS r]))
            | _ \<Rightarrow> Inl (Errorf ''invalid IP address in range: %s'' [ArgS r])))
      else
        (case ParseIP (trim_space r) of
           None \<Rightarrow> Inl (Errorf ''invalid IP address: %s'' [ArgS r])
         | Some a \<Rightarrow>
             (case To4 a of
                None \<Rightarrow> Inl (Errorf ''invalid IPv4 address: %s'' [ArgS r])
              | Some _ \<Rightarrow> Inr 1)))"

fun count_entries :: "64 word \<Rightarrow> string list \<Rightarrow> 64 word result" where
  "count_entries tot [] = Inr tot"
| "count_entries tot (r # rs) = and_then (count_entry r) (\<lambda>n. count_entries (tot + n) rs)"

definition CountIPsInRange :: "string \<Rightarrow> 64 word result" where
  "CountIPsInRange ipRange = count_entries 0 (split_on CHR '','' ipRange)"

definition IsValidIPv4 :: "string \<Rightarrow> bool" where
  "IsValidIPv4 ipStr = (case ParseIP ipStr of None \<Rightarrow> False | Some a \<Rightarrow> To4 a \<noteq> None)"

fun insert_colons :: "nat \<Rightarrow> string \<Rightarrow> string" where
  "insert_colons i [] = []"
| "insert_colons i (c # cs) =
     (if i > 0 \<and> i mod 2 = 0 then CHR '':'' # c # insert_colons (i + 1) cs
      else c # insert_colons (i + 1) cs)"

definition IsValidUnicastMAC :: "string \<Rightarrow> bool" where
  "IsValidUnicastMAC s0 =
     (let s1 = replace_char CHR ''-'' CHR '':'' s0;
          macStr = (if length s1 = 12 \<and> \<not> str_contains s1 '':'' then insert_colons 0 s1 else s1)
      in case ParseMAC macStr of
           None \<Rightarrow> False
         | Some mac \<Rightarrow> if length mac \<noteq> 6 then False else mac ! 0 AND 1 = 0)"

text \<open>One pass of the loop of \<open>IsIPInRange\<close>: whether it returns true.\<close>

definition entry_matches :: "ip \<Rightarrow> string \<Rightarrow> bool" where
  "entry_matches a r0 =
     (let r = trim_space r0 in
      if str_contains r ''-'' then
        (let startEnd = split_on CHR ''-'' r in
         if length startEnd \<noteq> 2 then False
         else
           (case (ParseIP (trim_space (startEnd ! 0)), ParseIP (trim_space (startEnd ! 1))) of
              (Some start, Some end') \<Rightarrow> CompareIP start a \<le> 0 \<and> CompareIP a end' \<le> 0
            | _ \<Rightarrow> False))
      else
        (case ParseIP r of None \<Rightarrow> False | Some rangeIP \<Rightarrow> ip_equal a rangeIP))"

definition IsIPInRange :: "ip \<Rightarrow> string \<Rightarrow> bool" where
  "IsIPInRange a ipRange = list_ex (entry_matches a) (split_on CHR '','' ipRange)"

text \<open>
  \<open>netlink.ParseAddr\<close> (the text before a space is the address, the host part is kept) and
  \<open>Addr.Equal\<close> (same address, same prefix length; a mask that is no prefix has length 0).
\<close>

definition netlink_ParseAddr :: "string \<Rightarrow> IPNet option" where
  "netlink_ParseAddr s =
     (case ParseCIDR (hd (split_on CHR '' '' s)) of
        None \<Rightarrow> None | Some (a, n) \<Rightarrow> Some (n\<lparr>net_ip := a\<rparr>))"

definition mask_size :: "byte list \<Rightarrow> nat" where
  "mask_size m = (case find (\<lambda>k. cidr_mask k (length m) = m) [0..<8 * length m + 1] of
     None \<Rightarrow> 0 | Some k \<Rightarrow> k)"

definition netlink_addr_equal :: "IPNet \<Rightarrow> IPNet \<Rightarrow> bool" where
  "netlink_addr_equal a b =
     (ip_equal (net_ip a) (net_ip b) \<and> mask_size (net_mask a) = mask_size (net_mask b))"

text \<open>\<open>addrs\<close> is what \<open>netlink.AddrList\<close> returns for the parent interface.\<close>

definition ValidateHostInterfaceSubnet :: "IPNet list result \<Rightarrow> InterfaceSpec \<Rightarrow> unit result" where
  "ValidateHostInterfaceSubnet addrs iface =
     (case addrs of
        Inl e \<Rightarrow> Inl (Errorf ''failed to get host interface IP addresses: %v'' [ArgE e])
      | Inr hostAddrs \<Rightarrow>
          (case netlink_ParseAddr (if_IPv4 iface) of
             None \<Rightarrow> Inl (Errorf ''invalid subnet IP address %s: %v''
                            [ArgS (if_IPv4 iface), ArgE (SysErr (if_IPv4 iface))])
           | Some subnetAddr \<Rightarrow>
               (case find (\<lambda>h. net_contains h (net_ip subnetAddr)) hostAddrs of
                  None \<Rightarrow> Inr ()
                | Some hostAddr \<Rightarrow>
                    if (case if_VlanID iface of None \<Rightarrow> False | Some v \<Rightarrow> v > 0) then
                      Inl (Errorf ''subnet IP %s is in the same subnet as host interface %s (%s), but VLAN ID is not allowed''
                        (ArgS (if_IPv4 iface) # ArgS (if_Interface iface) # net_args hostAddr))
                    else if \<not> netlink_addr_equal hostAddr subnetAddr then
                      Inl (Errorf ''subnet IP %s is in the same subnet as host interface %s (%s), but IP address or subnet mask doesn't match exactly''
                        (ArgS (if_IPv4 iface) # ArgS (if_Interface iface) # net_args hostAddr))
                    else Inr ())))"

section \<open>What a range string denotes\<close>

text \<open>The bounds of an entry, none where it is malformed.\<close>

definition entry_ends :: "string \<Rightarrow> (ip \<times> ip) option" where
  "entry_ends r =
     (if CHR ''-'' \<in> set r then
        (case map trim_space (split_on CHR ''-'' r) of
           [a, b] \<Rightarrow> (case (ParseIP a, ParseIP b) of (Some x, Some y) \<Rightarrow> Some (x, y) | _ \<Rightarrow> None)
         | _ \<Rightarrow> None)
      else map_option (\<lambda>x. (x, x)) (ParseIP (trim_space r)))"

definition entry_set :: "string \<Rightarrow> ip set" where
  "entry_set r = (case entry_ends r of None \<Rightarrow> {} | Some (x, y) \<Rightarrow> {a. length a = 16 \<and> x \<le> a \<and> a \<le> y})"

definition range_set :: "string \<Rightarrow> ip set" where
  "range_set s = (\<Union>r \<in> set (split_on CHR '','' s). entry_set r)"


section \<open>Entries and the addresses they denote\<close>

lemma is_space_sep [simp]: "\<not> is_space CHR ''-''" "\<not> is_space CHR '',''"
  by (simp_all add: is_space_def)

lemma nil_ip_Nil [simp]: "nil_ip s = [] \<longleftrightarrow> ParseIP s = None"
  by (auto simp: nil_ip_def split: option.splits)

lemma nil_ip_Some [simp]: "ParseIP s = Some a \<Longrightarrow> nil_ip s = a"
  by (simp add: nil_ip_def)

lemma nil_ip_length: "nil_ip s \<noteq> [] \<Longrightarrow> length (nil_ip s) = 16"
  by (auto simp: nil_ip_def ParseIP_length split: option.splits)

lemma two_parts: "length xs = 2 \<longleftrightarrow> (\<exists>a b. xs = [a, b])"
  by (auto simp: length_Suc_conv numeral_2_eq_2)

lemma entry_ends_range:
  "CHR ''-'' \<in> set r \<Longrightarrow> entry_ends r = Some (x, y) \<longleftrightarrow>
     (\<exists>a b. split_on CHR ''-'' r = [a, b] \<and> ParseIP (trim_space a) = Some x \<and> ParseIP (trim_space b) = Some y)"
  by (auto simp: entry_ends_def split: list.splits option.splits)

lemma entry_ends_single:
  "CHR ''-'' \<notin> set r \<Longrightarrow> entry_ends r = Some (x, y) \<longleftrightarrow> ParseIP (trim_space r) = Some x \<and> y = x"
  by (auto simp: entry_ends_def)

lemma entry_ends_trim: "entry_ends (trim_space r) = entry_ends r"
  by (simp add: entry_ends_def map_trim_split_on set_trim_space)

lemma entry_ends_length:
  "entry_ends r = Some (x, y) \<Longrightarrow> length x = 16 \<and> length y = 16"
  by (cases "CHR ''-'' \<in> set r") (auto simp: entry_ends_range entry_ends_single ParseIP_length)

lemma check_range_entry_ok:
  "check_range_entry n r = Inr () \<longleftrightarrow>
     (\<exists>x y. entry_ends r = Some (x, y) \<and> net_contains n x \<and> net_contains n y \<and> x \<le> y)"
proof (cases "CHR ''-'' \<in> set r")
  case True
  show ?thesis
  proof (cases "length (split_on CHR ''-'' r) = 2")
    case two: True
    then obtain a b where "split_on CHR ''-'' r = [a, b]" by (auto simp: two_parts)
    with True show ?thesis
      by (cases "ParseIP (trim_space a)"; cases "ParseIP (trim_space b)")
        (auto simp: check_range_entry_def entry_ends_range Let_def ValidateIPInSubnet_def not_less)
  next
    case False
    with True show ?thesis
      by (auto simp: check_range_entry_def entry_ends_range Let_def two_parts)
  qed
next
  case False
  then show ?thesis
    by (cases "ParseIP (trim_space r)")
      (auto simp: check_range_entry_def entry_ends_single Let_def ValidateIPInSubnet_def)
qed

lemma ValidateIPRange_ok:
  "ValidateIPRange s n = Inr () \<longleftrightarrow>
     (\<forall>r \<in> set (split_on CHR '','' s). \<exists>x y. entry_ends r = Some (x, y)
        \<and> net_contains n x \<and> net_contains n y \<and> x \<le> y)"
  by (simp add: ValidateIPRange_def for_each_Inr check_range_entry_ok)

lemma entry_matches_iff:
  assumes a: "length a = 16"
  shows "entry_matches a r \<longleftrightarrow> a \<in> entry_set r"
proof -
  have t: "entry_matches a r \<longleftrightarrow> (\<exists>x y. entry_ends (trim_space r) = Some (x, y) \<and> x \<le> a \<and> a \<le> y)"
  proof (cases "CHR ''-'' \<in> set (trim_space r)")
    case True
    then show ?thesis
      by (cases "length (split_on CHR ''-'' (trim_space r)) = 2")
        (auto simp: entry_matches_def Let_def entry_ends_range two_parts CompareIP_def
          split: option.splits)
  next
    case False
    then show ?thesis using a
      by (auto simp: entry_matches_def Let_def entry_ends_single ip_equal_same_length ParseIP_length
          split: option.splits)
  qed
  then show ?thesis using a by (auto simp: entry_set_def entry_ends_trim split: option.splits)
qed

lemma IsIPInRange_iff: "length a = 16 \<Longrightarrow> IsIPInRange a s \<longleftrightarrow> a \<in> range_set s"
  by (simp add: IsIPInRange_def list_ex_iff entry_matches_iff range_set_def)

lemma range_set_length: "a \<in> range_set s \<Longrightarrow> length a = 16"
  by (auto simp: range_set_def entry_set_def split: option.splits)

lemma entry_bounds_ends:
  assumes "entry_ends r = Some (x, y)"
  shows "entry_bounds (trim_space r) = (x, y)"
proof (cases "CHR ''-'' \<in> set (trim_space r)")
  case True
  with assms show ?thesis
    by (subst (asm) entry_ends_trim [symmetric])
      (auto simp: entry_ends_range entry_bounds_def Let_def)
next
  case False
  with assms show ?thesis
    by (subst (asm) entry_ends_trim [symmetric]) (auto simp: entry_ends_single entry_bounds_def)
qed

lemma covers_iff:
  "entry_ends r = Some (nx, ny) \<Longrightarrow> covers (x, y) r \<longleftrightarrow> nx \<le> x \<and> y \<le> ny"
  by (simp add: covers_def entry_bounds_ends CompareIP_def)

text \<open>What acceptance by \<open>ValidateIPRangeExpansion\<close> means, entry by entry.\<close>

lemma ValidateIPRangeExpansion_ok:
  "ValidateIPRangeExpansion old new n = Inr () \<longleftrightarrow>
     ValidateIPRange old n = Inr () \<and> ValidateIPRange new n = Inr () \<and>
     (\<forall>r \<in> set (split_on CHR '','' old). \<exists>r' \<in> set (split_on CHR '','' new). \<exists>x y x' y'.
        entry_ends r = Some (x, y) \<and> entry_ends r' = Some (x', y') \<and> x' \<le> x \<and> y \<le> y')"
  (is "?V \<longleftrightarrow> ?O \<and> ?N \<and> ?C")
proof -
  have "list_ex (covers (entry_bounds (trim_space r))) (split_on CHR '','' new) \<longleftrightarrow>
      (\<exists>r' \<in> set (split_on CHR '','' new). \<exists>x y x' y'.
        entry_ends r = Some (x, y) \<and> entry_ends r' = Some (x', y') \<and> x' \<le> x \<and> y \<le> y')"
    if o: ?O and w: ?N and r: "r \<in> set (split_on CHR '','' old)" for r
  proof -
    obtain x y where xy: "entry_ends r = Some (x, y)" using o r by (auto simp: ValidateIPRange_ok)
    have "covers (x, y) r' \<longleftrightarrow> (\<exists>x' y'. entry_ends r' = Some (x', y') \<and> x' \<le> x \<and> y \<le> y')"
      if "r' \<in> set (split_on CHR '','' new)" for r'
      using w that by (force simp: ValidateIPRange_ok covers_iff)
    then show ?thesis by (simp add: list_ex_iff entry_bounds_ends [OF xy] xy)
  qed
  then show ?thesis
    by (auto simp: ValidateIPRangeExpansion_def for_each_Inr)
qed

section \<open>Counting addresses\<close>

lemma or_push_bit_nat:
  assumes "y < 2 ^ k"
  shows "push_bit k x OR y = x * 2 ^ k + (y :: nat)"
proof -
  have "take_bit k y = y" using assms by (simp add: take_bit_nat_eq_self_iff)
  then have b: "\<not> bit y n" if "k \<le> n" for n using that by (metis bit_take_bit_iff not_less)
  then have "push_bit k x + y = push_bit k x OR y"
    by (intro disjunctive_add) (auto simp: bit_push_bit_iff b)
  then show ?thesis by (simp add: push_bit_eq_mult)
qed

lemma unat_byte: "unat (b :: byte) < 256"
  using unsigned_less [of b, where 'a = nat] by simp

lemma unat_quad:
  fixes b0 b1 b2 b3 :: byte
  shows "unat (push_bit 24 (ucast b0) OR push_bit 16 (ucast b1) OR push_bit 8 (ucast b2) OR ucast b3 :: 32 word)
    = be_val [b0, b1, b2, b3]"
proof -
  have p: "unat (push_bit k (ucast b) :: 32 word) = push_bit k (unat b)" if "k \<le> 24" for b :: byte and k
  proof -
    have "push_bit k (unat b) < 2 ^ 32"
    proof -
      have "unat b * 2 ^ k < 256 * 2 ^ k" using unat_byte [of b] by simp
      also have "\<dots> \<le> 256 * 2 ^ 24" using that by (intro mult_left_mono power_increasing) auto
      finally show ?thesis by (simp add: push_bit_eq_mult)
    qed
    then show ?thesis
      by (simp add: unsigned_push_bit_eq unsigned_ucast_eq take_bit_nat_eq_self order_less_trans [OF unat_byte])
  qed
  have q: "unat (ucast b :: 32 word) = unat b" for b :: byte
    using p [of 0 b] by simp
  have b: "unat b0 < 256" "unat b1 < 256" "unat b2 < 256" "unat b3 < 256" by (rule unat_byte)+
  then show ?thesis
    by (simp add: unsigned_or_eq p q or_push_bit_nat or.assoc)
qed

lemma ipToUint32_be_val:
  assumes "length b = 4"
  shows "\<exists>w. ipToUint32 b = Inr w \<and> unat w = be_val b"
proof -
  from assms obtain b0 b1 b2 b3 where "b = [b0, b1, b2, b3]"
    by (auto simp: length_Suc_conv numeral_eq_Suc)
  then show ?thesis using unat_quad [of b0 b1 b2 b3] by (simp add: ipToUint32_def To4_def)
qed

lemma ipToUint32_word:
  assumes "length b = 4"
  shows "ipToUint32 b = Inr (word_of_nat (be_val b))"
proof -
  from ipToUint32_be_val [OF assms] obtain w where "ipToUint32 b = Inr w" "be_val b = unat w" by auto
  then show ?thesis by simp
qed

lemma be_val_surj: "n < 256 ^ k \<Longrightarrow> \<exists>z. length z = k \<and> be_val z = n"
proof (induction k arbitrary: n)
  case 0
  then show ?case by simp
next
  case (Suc k)
  have "n mod 256 ^ k < 256 ^ k" by simp
  with Suc.IH obtain z where z: "length z = k" "be_val z = n mod 256 ^ k" by blast
  have "n div 256 ^ k < 256" using Suc.prems by (simp add: less_mult_imp_div_less)
  then have "unat (word_of_nat (n div 256 ^ k) :: byte) = n div 256 ^ k"
    by (simp add: unsigned_of_nat take_bit_nat_eq_self)
  with z have "be_val (word_of_nat (n div 256 ^ k) # z) = n" by (simp add: div_mult_mod_eq)
  with z(1) show ?case by (metis length_Cons)
qed

lemma v4_between:
  assumes "length s4 = 4" "length e4 = 4"
  shows "{a. length a = 16 \<and> v4_prefix @ s4 \<le> a \<and> a \<le> v4_prefix @ e4}
    = (\<lambda>z. v4_prefix @ z) ` {z. length z = 4 \<and> s4 \<le> z \<and> z \<le> e4}" (is "?L = ?R")
proof
  show "?L \<subseteq> ?R"
  proof
    fix a assume "a \<in> ?L"
    then obtain z where "a = v4_prefix @ z" "s4 \<le> z" "z \<le> e4" "length a = 16"
      using prefix_between by (metis (mono_tags, lifting) mem_Collect_eq)
    then show "a \<in> ?R" by auto
  qed
  show "?R \<subseteq> ?L" by (auto simp: v4_prefix_def)
qed

lemma card_v4_between:
  assumes "length s4 = 4" "length e4 = 4" "s4 \<le> e4"
  shows "card {z. length z = 4 \<and> s4 \<le> z \<and> z \<le> e4} = be_val e4 - be_val s4 + 1"
proof -
  let ?Z = "{z. length z = 4 \<and> s4 \<le> z \<and> z \<le> e4}"
  have inj: "inj_on be_val ?Z" by (auto intro!: inj_onI be_val_inj)
  have im: "be_val ` ?Z = {be_val s4..be_val e4}"
  proof
    show "be_val ` ?Z \<subseteq> {be_val s4..be_val e4}"
      using assms by (auto simp: be_val_le_iff)
    show "{be_val s4..be_val e4} \<subseteq> be_val ` ?Z"
    proof
      fix n assume n: "n \<in> {be_val s4..be_val e4}"
      moreover have "be_val e4 < 256 ^ 4" using be_val_bound [of e4] assms(2) by simp
      ultimately have "n < 256 ^ 4" by (meson atLeastAtMost_iff le_less_trans)
      then obtain z where z: "length z = 4" "be_val z = n" using be_val_surj by blast
      with n assms have "s4 \<le> z" "z \<le> e4"
        using be_val_le_iff [of s4 z] be_val_le_iff [of z e4] by auto
      with z show "n \<in> be_val ` ?Z" by blast
    qed
  qed
  have "card ?Z = card {be_val s4..be_val e4}"
    unfolding im [symmetric] by (rule card_image [OF inj, symmetric])
  moreover have "be_val s4 \<le> be_val e4" using assms by (simp add: be_val_le_iff)
  ultimately show ?thesis by simp
qed

lemma card_entry_set:
  assumes "entry_ends r = Some (v4_prefix @ s4, v4_prefix @ e4)" "length s4 = 4" "length e4 = 4" "s4 \<le> e4"
  shows "card (entry_set r) = be_val e4 - be_val s4 + 1"
proof -
  have "card (entry_set r) = card {z. length z = 4 \<and> s4 \<le> z \<and> z \<le> e4}"
    unfolding entry_set_def assms(1) using v4_between [OF assms(2,3)] by (simp add: card_image inj_on_def)
  then show ?thesis using assms(2-4) by (simp add: card_v4_between)
qed

text \<open>The 32-bit difference wraps exactly when the entry is the whole address space.\<close>

lemma count_entry_card:
  assumes "count_entry r = Inr w"
  shows "unat w = card (entry_set r) mod 2 ^ 32 \<and> 0 < card (entry_set r)"
proof -
  obtain x y s4 e4 where e: "entry_ends r = Some (x, y)"
    and x: "To4 x = Some s4" and y: "To4 y = Some e4" and le: "s4 \<le> e4"
    and w: "w = ucast (word_of_nat (be_val e4) - word_of_nat (be_val s4) + 1 :: 32 word)"
  proof (cases "CHR ''-'' \<in> set (trim_space r)")
    case True
    have l: "To4 a = Some b \<Longrightarrow> length b = 4" for a b by (auto simp: To4_def split: if_splits)
    from True assms that show ?thesis
      by (subst (asm) entry_ends_trim [symmetric])
        (auto simp: count_entry_def Let_def entry_ends_range two_parts ipToUint32_word l not_less
          split: option.splits if_splits)
  next
    case False
    with assms that show ?thesis
      by (subst (asm) entry_ends_trim [symmetric])
        (auto simp: count_entry_def Let_def entry_ends_single split: option.splits if_splits)
  qed
  have p: "x = v4_prefix @ s4" "y = v4_prefix @ e4" and l: "length s4 = 4" "length e4 = 4"
    using To4_Some x y entry_ends_length [OF e] by blast+
  have c: "card (entry_set r) = be_val e4 - be_val s4 + 1"
    using card_entry_set e l le p by simp
  have b: "be_val s4 \<le> be_val e4" using l le by (simp add: be_val_le_iff)
  have "word_of_nat (be_val e4) - word_of_nat (be_val s4) + 1
      = (word_of_nat (be_val e4 - be_val s4 + 1) :: 32 word)"
    using b by simp
  with w c have "w = ucast (word_of_nat (card (entry_set r)) :: 32 word)" by simp
  then have "unat w = card (entry_set r) mod 2 ^ 32"
    by (simp add: unsigned_ucast_eq unsigned_of_nat take_bit_nat_eq_self take_bit_eq_mod)
  with c show ?thesis by simp
qed

lemma count_entry_ends:
  assumes "entry_ends r = Some (v4_prefix @ s4, v4_prefix @ e4)" "length s4 = 4" "length e4 = 4" "s4 \<le> e4"
  shows "count_entry r = Inr (ucast (word_of_nat (be_val e4) - word_of_nat (be_val s4) + 1 :: 32 word))"
proof -
  have e: "entry_ends (trim_space r) = Some (v4_prefix @ s4, v4_prefix @ e4)"
    using assms(1) by (simp add: entry_ends_trim)
  show ?thesis
  proof (cases "CHR ''-'' \<in> set (trim_space r)")
    case True
    with e assms(2-4) show ?thesis
      by (auto simp: count_entry_def Let_def entry_ends_range ipToUint32_word not_less)
  next
    case False
    with e assms(2-4) show ?thesis by (auto simp: count_entry_def Let_def entry_ends_single)
  qed
qed

text \<open>Entries that share no address.\<close>

lemma disjoint_entries:
  "entry_ends r = Some (x, y) \<Longrightarrow> entry_ends r' = Some (x', y') \<Longrightarrow> y < x' \<Longrightarrow>
   entry_set r \<inter> entry_set r' = {}"
  by (auto simp: entry_set_def)

fun disjoint_list :: "'a set list \<Rightarrow> bool" where
  "disjoint_list [] = True"
| "disjoint_list (x # xs) = (x \<inter> \<Union> (set xs) = {} \<and> disjoint_list xs)"

lemma count_entries_card:
  assumes "count_entries tot rs = Inr w" "disjoint_list (map entry_set rs)"
    "card (\<Union> (entry_set ` set rs)) < 2 ^ 32" "unat tot + card (\<Union> (entry_set ` set rs)) < 2 ^ 64"
  shows "unat w = unat tot + card (\<Union> (entry_set ` set rs)) \<and> finite (\<Union> (entry_set ` set rs))"
  using assms
proof (induction rs arbitrary: tot)
  case Nil
  then show ?case by simp
next
  case (Cons r rs)
  let ?U = "\<Union> (entry_set ` set rs)"
  obtain n where n: "count_entry r = Inr n" and rest: "count_entries (tot + n) rs = Inr w"
    using Cons.prems(1) by auto
  have cr: "unat n = card (entry_set r) mod 2 ^ 32" "0 < card (entry_set r)"
    using count_entry_card [OF n] by auto
  have fr: "finite (entry_set r)" using cr(2) card_ge_0_finite by blast
  have "finite ?U"
  proof -
    have "\<exists>m. count_entry q = Inr m" if "q \<in> set rs" for q
      using rest that by (induction rs arbitrary: tot n) auto
    then show ?thesis by (auto dest!: count_entry_card intro: card_ge_0_finite)
  qed
  then have c: "card (\<Union> (entry_set ` set (r # rs))) = card (entry_set r) + card ?U"
    using fr Cons.prems(2) by (simp add: card_Un_disjoint)
  then have un: "unat n = card (entry_set r)" using cr(1) Cons.prems(3) by simp
  have ut: "unat (tot + n) = unat tot + unat n"
    using Cons.prems(4) c un by (intro unat_add_lem [THEN iffD1]) simp
  have "unat w = unat (tot + n) + card ?U \<and> finite ?U"
    using Cons.prems c ut un by (intro Cons.IH [OF rest]) auto
  with c ut un fr show ?case by simp
qed

section \<open>Hardware addresses\<close>

definition hex_char :: "nat \<Rightarrow> char" where
  "hex_char d = (if d < 10 then char_of (48 + d) else char_of (87 + d))"

definition hex2 :: "byte \<Rightarrow> string" where
  "hex2 b = [hex_char (unat b div 16), hex_char (unat b mod 16)]"

lemma hex_val_hex_char [simp]: "d < 16 \<Longrightarrow> hex_val (hex_char d) = Some d"
  by (auto simp: hex_val_def hex_char_def Let_def)

lemma hex_val_sep: "hex_val CHR '':'' = None" "hex_val CHR ''-'' = None"
  by (simp_all add: hex_val_def)

lemma hex_char_no_sep:
  assumes "d < 16"
  shows "hex_char d \<noteq> CHR '':''" "hex_char d \<noteq> CHR ''-''"
  using hex_val_hex_char [OF assms] hex_val_sep by force+

lemma hex2_digits: "unat (b :: byte) div 16 < 16"
  using unat_byte [of b] by simp

lemma xtoi2_hex2: "rest = [] \<or> e = Some (hd rest) \<Longrightarrow> xtoi2 (hex2 b @ rest) e = Some b"
  using hex2_digits [of b] by (auto simp: xtoi2_def hex2_def mult.commute)

lemma mac_groups3_text:
  "length bs = Suc n \<Longrightarrow> mac_groups3 (Suc n) c (join_with [c] (map hex2 bs)) = Some bs"
proof (induction n arbitrary: bs)
  case 0
  then obtain b where "bs = [b]" by (auto simp: length_Suc_conv)
  then show ?case using xtoi2_hex2 [of "[]" "Some c" b] by simp
next
  case (Suc n)
  then obtain b cs where bs: "bs = b # cs" and l: "length cs = Suc n" by (auto simp: length_Suc_conv)
  then have j: "join_with [c] (map hex2 bs) = hex2 b @ c # join_with [c] (map hex2 cs)"
    by (cases cs) auto
  have "drop 3 (hex2 b @ c # s) = s" for s by (simp add: hex2_def)
  with Suc.IH [OF l] j bs show ?case
    using xtoi2_hex2 [of "c # join_with [c] (map hex2 cs)" "Some c" b] by (simp del: mac_groups3.simps add: mac_groups3.simps(2) [of "Suc n"])
qed

text \<open>The text of a hardware address with a given separator.\<close>

definition mac_text :: "string \<Rightarrow> byte list \<Rightarrow> string" where
  "mac_text sep bs = join_with sep (map hex2 bs)"

lemma ParseMAC_text:
  assumes "length bs = 6"
  shows "ParseMAC (mac_text '':'' bs) = Some bs"
proof -
  have g: "mac_groups3 6 CHR '':'' (mac_text '':'' bs) = Some bs"
    using mac_groups3_text [of bs 5 "CHR '':''"] assms by (simp add: mac_text_def)
  obtain a b c d e f where "bs = [a, b, c, d, e, f]"
    using assms by (auto simp: length_Suc_conv numeral_eq_Suc)
  then have "length (mac_text '':'' bs) = 17" "mac_text '':'' bs ! 2 = CHR '':''"
    by (simp_all add: mac_text_def hex2_def)
  with g show ?thesis by (simp add: ParseMAC_def)
qed

lemma mac_forms:
  assumes "length bs = 6"
  shows "replace_char CHR ''-'' CHR '':'' (mac_text ''-'' bs) = mac_text '':'' bs"
    "replace_char CHR ''-'' CHR '':'' (mac_text '':'' bs) = mac_text '':'' bs"
    "insert_colons 0 (replace_char CHR ''-'' CHR '':'' (mac_text [] bs)) = mac_text '':'' bs"
    "length (replace_char CHR ''-'' CHR '':'' (mac_text [] bs)) = 12"
    "\<not> str_contains (replace_char CHR ''-'' CHR '':'' (mac_text [] bs)) '':''"
    "length (mac_text '':'' bs) = 17"
proof -
  obtain a b c d e f where bs: "bs = [a, b, c, d, e, f]"
    using assms by (auto simp: length_Suc_conv numeral_eq_Suc)
  have h: "hex_char (unat x div 16) \<noteq> CHR '':''" "hex_char (unat x div 16) \<noteq> CHR ''-''"
    "hex_char (unat x mod 16) \<noteq> CHR '':''" "hex_char (unat x mod 16) \<noteq> CHR ''-''" for x :: byte
    using hex2_digits [of x] by (simp_all add: hex_char_no_sep)
  show "replace_char CHR ''-'' CHR '':'' (mac_text ''-'' bs) = mac_text '':'' bs"
    "replace_char CHR ''-'' CHR '':'' (mac_text '':'' bs) = mac_text '':'' bs"
    "insert_colons 0 (replace_char CHR ''-'' CHR '':'' (mac_text [] bs)) = mac_text '':'' bs"
    "length (replace_char CHR ''-'' CHR '':'' (mac_text [] bs)) = 12"
    "\<not> str_contains (replace_char CHR ''-'' CHR '':'' (mac_text [] bs)) '':''"
    "length (mac_text '':'' bs) = 17"
    by (simp_all add: bs mac_text_def hex2_def replace_char_def h h [symmetric])
qed

section \<open>A concrete subnet and range\<close>

text \<open>The subnet and the ranges of the comments of \<open>tools.go\<close>.\<close>

lemma ParseCIDR_example:
  "ParseCIDR ''192.168.1.0/24'' =
     Some (v4_prefix @ [192, 168, 1, 0], \<lparr>net_ip = [192, 168, 1, 0], net_mask = [255, 255, 255, 0]\<rparr>)"
proof -
  have p: "parse_addr ''192.168.1.0'' = Some [192, 168, 1, 0]" by code_simp
  have d: "dtoi ''24'' = Some 24" by (simp add: dtoi_def digit_val_def)
  have c: "cidr_mask 24 4 = [255, 255, 255, 0]" by (simp add: cidr_mask_numeral)
  show ?thesis by (simp add: ParseCIDR_def p d c as16_def ip_mask_def v4_prefix_def)
qed

definition example_net :: IPNet where
  "example_net = \<lparr>net_ip = [192, 168, 1, 0], net_mask = [255, 255, 255, 0]\<rparr>"

lemma example_net_contains:
  "net_contains example_net (v4_prefix @ [a, b, c, d]) \<longleftrightarrow> a = 192 \<and> b = 168 \<and> c = 1"
  by (auto simp: net_contains_def example_net_def network_number_and_mask_def To4_def v4_prefix_def)

lemma example_ends:
  "entry_ends ''192.168.1.10-192.168.1.20'' = Some (v4_prefix @ [192,168,1,10], v4_prefix @ [192,168,1,20])"
  "entry_ends ''192.168.1.30'' = Some (v4_prefix @ [192,168,1,30], v4_prefix @ [192,168,1,30])"
  by code_simp+

lemma example_split:
  "split_on CHR '','' ''192.168.1.10-192.168.1.20,192.168.1.30'' = [''192.168.1.10-192.168.1.20'', ''192.168.1.30'']"
  "split_on CHR '','' ''192.168.1.10-192.168.1.30'' = [''192.168.1.10-192.168.1.30'']"
  by code_simp+

lemma example_range_ok: "ValidateIPRange ''192.168.1.10-192.168.1.20,192.168.1.30'' example_net = Inr ()"
  by (simp add: ValidateIPRange_ok example_split example_ends example_net_contains)

lemma example_in_range: "IsIPInRange (v4_prefix @ [192, 168, 1, 15]) ''192.168.1.10-192.168.1.20,192.168.1.30''"
  by (simp add: IsIPInRange_iff range_set_def entry_set_def example_split example_ends)

lemma example_expansion_ok:
  "ValidateIPRangeExpansion ''192.168.1.10-192.168.1.20,192.168.1.30'' ''192.168.1.10-192.168.1.30'' example_net = Inr ()"
proof -
  have e: "entry_ends ''192.168.1.10-192.168.1.30'' = Some (v4_prefix @ [192,168,1,10], v4_prefix @ [192,168,1,30])"
    by code_simp
  then have "ValidateIPRange ''192.168.1.10-192.168.1.30'' example_net = Inr ()"
    by (simp add: ValidateIPRange_ok example_split example_net_contains)
  with e example_range_ok show ?thesis
    by (simp add: ValidateIPRangeExpansion_ok example_split example_ends)
qed

lemma example_count:
  "CountIPsInRange ''192.168.1.10-192.168.1.20,192.168.1.30'' = Inr 12"
  by (simp add: CountIPsInRange_def example_split count_entry_ends [OF example_ends(1)]
      count_entry_ends [OF example_ends(2)])

lemma example_disjoint:
  "disjoint_list (map entry_set (split_on CHR '','' ''192.168.1.10-192.168.1.20,192.168.1.30''))"
  by (simp add: example_split disjoint_entries [OF example_ends])

section \<open>What acceptance of a range means\<close>

lemma range_in_subnet:
  assumes "ParseCIDR cidr = Some (a0, n)" "length (net_mask n) = 4"
    and "ValidateIPRange s n = Inr ()" "length a = 16" "IsIPInRange a s"
  shows "ValidateIPInSubnet a n"
proof -
  have n: "v4_net n" using assms(1,2) by (rule ParseCIDR_v4_net)
  obtain r where r: "r \<in> set (split_on CHR '','' s)" "a \<in> entry_set r"
    using assms(4,5) by (auto simp: IsIPInRange_iff range_set_def)
  then obtain x y where e: "entry_ends r = Some (x, y)" and c: "net_contains n x" "net_contains n y"
    using assms(3) by (auto simp: ValidateIPRange_ok)
  have "x \<le> a" "a \<le> y" using r(2) e by (auto simp: entry_set_def)
  with v4_net_convex [OF n c(1) _ c(2)] entry_ends_length [OF e] assms(4)
  show ?thesis by (auto simp: ValidateIPInSubnet_def)
qed

lemma expansion_keeps:
  assumes "ValidateIPRangeExpansion old new n = Inr ()" "length a = 16" "IsIPInRange a old"
  shows "IsIPInRange a new"
  using assms by (force simp: ValidateIPRangeExpansion_ok IsIPInRange_iff range_set_def entry_set_def)

section \<open>Properties\<close>

text \<open>Property C1: an IP range string that \<open>ValidateIPRange\<close> accepts for an IPv4 subnet contains,
  in the sense of \<open>IsIPInRange\<close>, only addresses of that subnet, not just its end points.\<close>

theorem ValidateIPRange_sound:
  assumes "ParseCIDR cidr = Some (a0, n)" "length (net_mask n) = 4"
    and "ValidateIPRange s n = Inr ()" "length a = 16" "IsIPInRange a s"
  shows "ValidateIPInSubnet a n"
  using assms by (rule range_in_subnet)

text \<open>Property C2: a new range that \<open>ValidateIPRangeExpansion\<close> accepts for an old one loses no
  address: what \<open>IsIPInRange\<close> finds in the old range it finds in the new one.\<close>

theorem ValidateIPRangeExpansion_sound:
  assumes "ValidateIPRangeExpansion old new n = Inr ()" "length a = 16" "IsIPInRange a old"
  shows "IsIPInRange a new"
  using assms by (rule expansion_keeps)

text \<open>Property C3: where no two entries share an address and the range is not the whole IPv4
  space, the number \<open>CountIPsInRange\<close> returns is the number of addresses \<open>IsIPInRange\<close> accepts.\<close>

theorem CountIPsInRange_card:
  assumes "CountIPsInRange s = Inr w"
    and "disjoint_list (map entry_set (split_on CHR '','' s))"
    and "card {a. length a = 16 \<and> IsIPInRange a s} < 2 ^ 32"
  shows "unat w = card {a. length a = 16 \<and> IsIPInRange a s}"
proof -
  have "{a. length a = 16 \<and> IsIPInRange a s} = range_set s"
    using range_set_length by (auto simp: IsIPInRange_iff)
  with assms count_entries_card [of 0 "split_on CHR '','' s" w] show ?thesis
    by (simp add: CountIPsInRange_def range_set_def)
qed

text \<open>\<open>IsValidUnicastMAC\<close> accepts the six bytes of a hardware address written with
  colons, with hyphens or without separators exactly where the multicast bit of the first is clear.\<close>

theorem IsValidUnicastMAC_text:
  assumes "length bs = 6" "sep \<in> {'':'', ''-'', []}"
  shows "IsValidUnicastMAC (mac_text sep bs) \<longleftrightarrow> hd bs AND 1 = 0"
proof -
  have "bs ! 0 = hd bs" using assms(1) by (cases bs) auto
  then show ?thesis
    using assms mac_forms [OF assms(1)] ParseMAC_text [OF assms(1)]
    by (auto simp: IsValidUnicastMAC_def Let_def)
qed

lemma ValidateIPRange_sound_witness:
  "ValidateIPInSubnet (v4_prefix @ [192, 168, 1, 15]) example_net"
  using ValidateIPRange_sound [OF ParseCIDR_example _ _ _ example_in_range] example_range_ok
  by (simp add: example_net_def)

lemma ValidateIPRangeExpansion_sound_witness:
  "IsIPInRange (v4_prefix @ [192, 168, 1, 15]) ''192.168.1.10-192.168.1.30''"
  using ValidateIPRangeExpansion_sound [OF example_expansion_ok _ example_in_range] by simp

lemma CountIPsInRange_card_witness:
  "card {a. length a = 16 \<and> IsIPInRange a ''192.168.1.10-192.168.1.20,192.168.1.30''} = 12"
proof -
  let ?s = "''192.168.1.10-192.168.1.20,192.168.1.30''"
  have "{a. length a = 16 \<and> IsIPInRange a ?s} = range_set ?s"
    using range_set_length by (auto simp: IsIPInRange_iff)
  moreover have "card (range_set ?s) \<le> 11 + 1"
    using card_Un_le [of "entry_set ''192.168.1.10-192.168.1.20''" "entry_set ''192.168.1.30''"]
    by (simp add: range_set_def example_split card_entry_set [OF example_ends(1)]
        card_entry_set [OF example_ends(2)])
  ultimately show ?thesis
    using CountIPsInRange_card [OF example_count example_disjoint] by simp
qed

lemma IsValidUnicastMAC_text_witness:
  "IsValidUnicastMAC ''00:11:22:33:44:55'' \<and> \<not> IsValidUnicastMAC ''01005e000000''"
proof -
  have m: "mac_text '':'' [0, 0x11, 0x22, 0x33, 0x44, 0x55] = ''00:11:22:33:44:55''"
    "mac_text [] [1, 0, 0x5e, 0, 0, 0] = ''01005e000000''"
    by code_simp+
  have "IsValidUnicastMAC (mac_text '':'' [0, 0x11, 0x22, 0x33, 0x44, 0x55])"
    "\<not> IsValidUnicastMAC (mac_text [] [1, 0, 0x5e, 0, 0, 0])"
    by (subst IsValidUnicastMAC_text; simp)+
  then show ?thesis unfolding m by (rule conjI)
qed

text \<open>The 32-bit difference of \<open>CountIPsInRange\<close> wraps on the whole IPv4 space: the
  range that holds every address is counted as empty.\<close>

theorem CountIPsInRange_overflow:
  "CountIPsInRange ''0.0.0.0-255.255.255.255'' = Inr 0
   \<and> IsIPInRange (v4_prefix @ [a, b, c, d]) ''0.0.0.0-255.255.255.255''"
proof -
  have e: "entry_ends ''0.0.0.0-255.255.255.255'' = Some (v4_prefix @ [0,0,0,0], v4_prefix @ [255,255,255,255])"
    by code_simp
  have s: "split_on CHR '','' ''0.0.0.0-255.255.255.255'' = [''0.0.0.0-255.255.255.255'']" by code_simp
  have max: "(x :: byte) \<le> 255" "\<not> x < 0" for x
    using unat_byte [of x] by (simp_all add: word_le_nat_alt)
  show ?thesis
    using max [of a] max [of b] max [of c] max [of d]
    by (simp add: CountIPsInRange_def s count_entry_ends [OF e] IsIPInRange_iff range_set_def
        entry_set_def e) (auto simp: order_le_less word_neq_0_conv [symmetric])
qed

text \<open>Coverage is decided one entry at a time. The example of the comment of
  \<open>ValidateIPRangeExpansion\<close>, said to return nil, is refused, and so is a new range that covers
  the old one by two adjacent entries.\<close>

theorem ValidateIPRangeExpansion_example_refused:
  "ValidateIPRangeExpansion ''192.168.1.10-192.168.1.20,192.168.1.30'' ''192.168.1.5-192.168.1.25'' example_net \<noteq> Inr ()
   \<and> ValidateIPRangeExpansion ''192.168.1.10-192.168.1.20'' ''192.168.1.10-192.168.1.15,192.168.1.16-192.168.1.20'' example_net \<noteq> Inr ()"
proof -
  have e: "entry_ends ''192.168.1.5-192.168.1.25'' = Some (v4_prefix @ [192,168,1,5], v4_prefix @ [192,168,1,25])"
    "entry_ends ''192.168.1.10-192.168.1.15'' = Some (v4_prefix @ [192,168,1,10], v4_prefix @ [192,168,1,15])"
    "entry_ends ''192.168.1.16-192.168.1.20'' = Some (v4_prefix @ [192,168,1,16], v4_prefix @ [192,168,1,20])"
    by code_simp+
  have s: "split_on CHR '','' ''192.168.1.5-192.168.1.25'' = [''192.168.1.5-192.168.1.25'']"
    "split_on CHR '','' ''192.168.1.10-192.168.1.20'' = [''192.168.1.10-192.168.1.20'']"
    "split_on CHR '','' ''192.168.1.10-192.168.1.15,192.168.1.16-192.168.1.20''
      = [''192.168.1.10-192.168.1.15'', ''192.168.1.16-192.168.1.20'']"
    by code_simp+
  show ?thesis
    by (simp add: ValidateIPRangeExpansion_ok example_split example_ends e s)
qed

end
