(* ===== verification/AgentConfiguration.thy ===== *)
theory AgentConfiguration
  imports ApiTypes GoText Tools
begin

text \<open>
  Loading the configuration of the agent (\<open>pkg/config/config.go\<close>): the environment, the feature
  file, the certificates of the webhook and the storage directories. The answers of the operating
  system and of the YAML decoder are parameters and may depend on the changes made so far, which the
  model keeps in a list.
\<close>

section \<open>Definitions\<close>

record FeatureConfig =
  fc_RedfishPort :: int
  fc_RedfishHttps :: bool
  fc_RedfishSecretname :: string
  fc_RedfishSecretNamespace :: string
  fc_RedfishStatusUpdateInterval :: int
  fc_SSHStatusUpdateInterval :: int
  fc_DhcpServerInterface :: string
  fc_HttpServerPort :: string
  fc_HttpServerEnabled :: bool

datatype cfg_op =
    CMkdirAll string
  | CChown string int int
  | CChmod string
  | CWriteFile string string
  | CRemoveAll string
  | CCopy string string

type_synonym cfg_hist = "cfg_op list"

record cfg_env =
  cv_Getenv :: "string \<Rightarrow> string"
  cv_Stat :: "cfg_hist \<Rightarrow> string \<Rightarrow> unit result"
  cv_ReadFile :: "cfg_hist \<Rightarrow> string \<Rightarrow> string result"
  cv_do :: "cfg_hist \<Rightarrow> cfg_op \<Rightarrow> goerr option"
  cv_yaml :: "string \<Rightarrow> FeatureConfig result"
  cv_interfaces :: "string list result"
  cv_output :: "cfg_hist \<Rightarrow> string"

text \<open>A call that changes the disk; the history keeps the changes made.\<close>

definition cfg_do :: "cfg_env \<Rightarrow> cfg_op \<Rightarrow> (goerr \<Rightarrow> goerr) \<Rightarrow> cfg_hist \<Rightarrow> unit result \<times> cfg_hist" where
  "cfg_do env c wrap h = (case cv_do env h c of Some e \<Rightarrow> (Inl (wrap e), h) | None \<Rightarrow> (Inr (), h @ [c]))"

text \<open>One statement after another, stopping at the first error.\<close>

fun then_do :: "'a result \<times> 'h \<Rightarrow> ('a \<Rightarrow> 'h \<Rightarrow> 'b result \<times> 'h) \<Rightarrow> 'b result \<times> 'h" where
  "then_do (Inl e, h) f = (Inl e, h)"
| "then_do (Inr x, h) f = f x h"

definition loadFeatureConfig :: "cfg_env \<Rightarrow> AgentConfig \<Rightarrow> AgentConfig result" where
  "loadFeatureConfig env c =
     (case cv_ReadFile env [] (path_join [cf_FeatureConfigPath c, ''feature-config.yaml'']) of
        Inl e \<Rightarrow> Inl (Errorf ''failed to read feature-config.yaml: %v'' [ArgE e])
      | Inr configData \<Rightarrow>
          (case cv_yaml env configData of
             Inl e \<Rightarrow> Inl (Errorf ''failed to parse feature-config.yaml: %v'' [ArgE e])
           | Inr f \<Rightarrow>
               (let c1 = c\<lparr>cf_RedfishPort := fc_RedfishPort f, cf_RedfishHttps := fc_RedfishHttps f,
                      cf_RedfishSecretName := fc_RedfishSecretname f, cf_RedfishSecretNamespace := fc_RedfishSecretNamespace f,
                      cf_RedfishStatusUpdateInterval := fc_RedfishStatusUpdateInterval f,
                      cf_SSHStatusUpdateInterval := fc_SSHStatusUpdateInterval f,
                      cf_DhcpServerInterface := fc_DhcpServerInterface f, cf_HttpPort := fc_HttpServerPort f,
                      cf_HttpEnabled := fc_HttpServerEnabled f\<rparr>
                in if length (cf_DhcpServerInterface c1) = 0 then Inl (Errorf ''dhcpServerInterface is empty'' [])
                   else
                     (case ValidateInterfaceExists (cv_interfaces env) (cf_DhcpServerInterface c1) of
                        Inl e \<Rightarrow> Inl (Errorf ''failed to find dhcpServer Interface %s: %v''
                          [ArgS (cf_DhcpServerInterface c1), ArgE e])
                      | Inr _ \<Rightarrow> Inr c1))))"

definition verifyWebhookCertDir :: "cfg_env \<Rightarrow> AgentConfig \<Rightarrow> unit result" where
  "verifyWebhookCertDir env c =
     for_each (\<lambda>file. case cv_Stat env [] (path_join [cf_WebhookCertDir c, file]) of
          Inl e \<Rightarrow> Inl (Errorf ''required webhook certificate file %s not found: %v'' [ArgS file, ArgE e])
        | Inr _ \<Rightarrow> Inr ())
       [''tls.crt'', ''tls.key'', ''ca.crt'']"

text \<open>The paths below the storage path.\<close>

definition storage_paths :: "AgentConfig \<Rightarrow> AgentConfig" where
  "storage_paths c0 =
     (let c1 = c0\<lparr>cf_StoragePathDhcpLease := path_join [cf_StoragePath c0, ''dhcp/lease''],
            cf_StoragePathDhcpConfig := path_join [cf_StoragePath c0, ''dhcp/config''],
            cf_StoragePathDhcpLog := path_join [cf_StoragePath c0, ''dhcp/log''],
            cf_StoragePathTftp := path_join [cf_StoragePath c0, ''tftp''],
            cf_StoragePathTftpRelativeDirForPxeEfi := ''boot/grub/x86_64-efi''\<rparr>;
          c2 = c1\<lparr>cf_StoragePathTftpAbsoluteDirForPxeEfi :=
              path_join [cf_StoragePathTftp c1, cf_StoragePathTftpRelativeDirForPxeEfi c1],
            cf_StoragePathHttp := path_join [cf_StoragePath c1, ''http'']\<rparr>
      in c2\<lparr>cf_StoragePathHttpZtp := path_join [cf_StoragePathHttp c2, ''ztp''],
            cf_StoragePathHttpIso := path_join [cf_StoragePathHttp c2, ''iso''],
            cf_StoragePathHttpTools := path_join [cf_StoragePathHttp c2, ''tools'']\<rparr>)"

definition subdirs :: "AgentConfig \<Rightarrow> string list" where
  "subdirs c = [cf_StoragePathDhcpLease c, cf_StoragePathDhcpConfig c, cf_StoragePathDhcpLog c, cf_StoragePathTftp c,
     cf_StoragePathTftpAbsoluteDirForPxeEfi c, cf_StoragePathHttp c, cf_StoragePathHttpIso c, cf_StoragePathHttpZtp c]"

definition missing :: "cfg_env \<Rightarrow> cfg_hist \<Rightarrow> string \<Rightarrow> bool" where
  "missing env h path = (case cv_Stat env h path of Inl e \<Rightarrow> IsNotExist e | Inr _ \<Rightarrow> False)"

fun make_dirs :: "cfg_env \<Rightarrow> string list \<Rightarrow> cfg_hist \<Rightarrow> unit result \<times> cfg_hist" where
  "make_dirs env [] h = (Inr (), h)"
| "make_dirs env (dir # dirs) h =
     (if missing env h dir then
        then_do (cfg_do env (CMkdirAll dir) (\<lambda>e. Errorf ''failed to create subdirectory %s: %v'' [ArgS dir, ArgE e]) h)
          (\<lambda>_. make_dirs env dirs)
      else make_dirs env dirs h)"

definition copy_core :: "cfg_env \<Rightarrow> AgentConfig \<Rightarrow> cfg_hist \<Rightarrow> unit result \<times> cfg_hist" where
  "copy_core env c h =
     (let sourceFile = ''/files/core.efi''; targetFile = path_join [cf_StoragePathTftpAbsoluteDirForPxeEfi c, ''core.efi''] in
      if missing env h targetFile then
        (case cv_Stat env h sourceFile of
           Inl _ \<Rightarrow> (Inl (Errorf ''source core.efi not found'' []), h)
         | Inr _ \<Rightarrow>
             (case cv_ReadFile env h sourceFile of
                Inl e \<Rightarrow> (Inl (Errorf ''failed to read core.efi: %v'' [ArgE e]), h)
              | Inr input \<Rightarrow>
                  cfg_do env (CWriteFile targetFile input)
                    (\<lambda>e. Errorf ''failed to copy core.efi to %s: %v'' [ArgS targetFile, ArgE e]) h))
      else (Inr (), h))"

definition initStorageDirectory :: "cfg_env \<Rightarrow> AgentConfig \<Rightarrow> AgentConfig result \<times> cfg_hist" where
  "initStorageDirectory env c0 =
     (case cv_Stat env [] (cf_StoragePath c0) of
        Inl e \<Rightarrow> (Inl (Errorf ''did not exist storage path %s: %v'' [ArgS (cf_StoragePath c0), ArgE e]), [])
      | Inr _ \<Rightarrow>
          (let c = storage_paths c0; tftp = cf_StoragePathTftp c; tools = cf_StoragePathHttpTools c in
           then_do (make_dirs env (subdirs c) []) (\<lambda>_ h.
           then_do (cfg_do env (CChown tftp 65534 65534) (\<lambda>e. Errorf ''failed to change ownership of TFTP directory: %v'' [ArgE e]) h) (\<lambda>_ h.
           then_do (cfg_do env (CChmod tftp) (\<lambda>e. Errorf ''failed to change permissions of TFTP directory: %v'' [ArgE e]) h) (\<lambda>_ h.
           then_do (copy_core env c h) (\<lambda>_ h.
           then_do (cfg_do env (CRemoveAll tools) (\<lambda>e. Errorf ''failed to delete tools directory %s: %v'' [ArgS tools, ArgE e]) h) (\<lambda>_ h.
           then_do (cfg_do env (CMkdirAll tools) (\<lambda>e. Errorf ''failed to create tools directory %s: %v'' [ArgS tools, ArgE e]) h) (\<lambda>_ h.
           then_do (cfg_do env (CCopy ''/tools/.'' tools) (\<lambda>e. Errorf ''failed to copy tools: %v, output: %s'' [ArgE e, ArgS (cv_output env h)]) h) (\<lambda>_ h.
             (Inr c, h))))))))))"

definition zero_config :: AgentConfig where
  "zero_config = \<lparr>cf_PodNamespace = [], cf_NodeName = [], cf_WebhookCertDir = [],
     cf_StoragePath = [], cf_StoragePathDhcpLog = [], cf_StoragePathDhcpLease = [],
     cf_StoragePathDhcpConfig = [], cf_StoragePathHttp = [], cf_StoragePathHttpZtp = [],
     cf_StoragePathHttpIso = [], cf_StoragePathHttpTools = [], cf_StoragePathTftp = [],
     cf_StoragePathTftpRelativeDirForPxeEfi = [], cf_StoragePathTftpAbsoluteDirForPxeEfi = [],
     cf_DhcpConfigTemplatePath = [], cf_FeatureConfigPath = [], cf_RedfishPort = 0,
     cf_RedfishHttps = False, cf_RedfishSecretName = [], cf_RedfishSecretNamespace = [],
     cf_RedfishStatusUpdateInterval = 0, cf_SSHStatusUpdateInterval = 0, cf_DhcpServerInterface = [],
     cf_HttpEnabled = False, cf_HttpPort = []\<rparr>"

text \<open>A variable of the environment that must be set.\<close>

definition required_env :: "cfg_env \<Rightarrow> string \<Rightarrow> string result" where
  "required_env env name =
     (let v = cv_Getenv env name in
      if v = [] then Inl (Errorf (name @ '' environment variable not set'') []) else Inr v)"

definition env_config :: "cfg_env \<Rightarrow> AgentConfig result" where
  "env_config env =
     and_then (required_env env ''POD_NAMESPACE'') (\<lambda>podNamespace.
     and_then (required_env env ''NODE_NAME'') (\<lambda>nodeName.
     and_then (required_env env ''WEBHOOK_CERT_DIR'') (\<lambda>certDir.
     and_then (required_env env ''STORAGE_PATH'') (\<lambda>storage.
     and_then (required_env env ''FEATURE_CONFIG_PATH'') (\<lambda>feature.
     and_then (required_env env ''DHCP_CONFIG_TEMPLATE_PATH'') (\<lambda>template.
       Inr (zero_config\<lparr>cf_PodNamespace := podNamespace, cf_NodeName := nodeName, cf_WebhookCertDir := certDir,
         cf_StoragePath := storage, cf_FeatureConfigPath := feature, cf_DhcpConfigTemplatePath := template\<rparr>)))))))"

definition LoadAgentConfig :: "cfg_env \<Rightarrow> AgentConfig result \<times> cfg_hist" where
  "LoadAgentConfig env =
     (case env_config env of
        Inl e \<Rightarrow> (Inl e, [])
      | Inr c0 \<Rightarrow>
          (case loadFeatureConfig env c0 of
             Inl e \<Rightarrow> (Inl (Errorf ''failed to load feature configuration: %v'' [ArgE e]), [])
           | Inr c1 \<Rightarrow>
               (case verifyWebhookCertDir env c1 of
                  Inl e \<Rightarrow> (Inl (Errorf ''webhook certificate verification failed: %v'' [ArgE e]), [])
                | Inr _ \<Rightarrow>
                    (case initStorageDirectory env c1 of
                       (Inl e, h) \<Rightarrow> (Inl (Errorf ''failed to ensure storage path: %v'' [ArgE e]), h)
                     | (Inr c2, h) \<Rightarrow> (Inr c2, h)))))"

text \<open>A host on which nothing exists below the storage path.\<close>

definition example_cfg_env :: cfg_env where
  "example_cfg_env = \<lparr>cv_Getenv = (\<lambda>_. ''/var''),
     cv_Stat = (\<lambda>h p. if p = ''/var'' \<or> p = ''/files/core.efi'' \<or> p \<in> {''/var/tls.crt'', ''/var/tls.key'', ''/var/ca.crt''}
       then Inr () else Inl ErrNotExist),
     cv_ReadFile = (\<lambda>h p. Inr ''data''), cv_do = (\<lambda>h c. None),
     cv_yaml = (\<lambda>text. Inr \<lparr>fc_RedfishPort = 443, fc_RedfishHttps = True, fc_RedfishSecretname = ''s'',
       fc_RedfishSecretNamespace = ''n'', fc_RedfishStatusUpdateInterval = 60, fc_SSHStatusUpdateInterval = 60,
       fc_DhcpServerInterface = ''eth1'', fc_HttpServerPort = ''80'', fc_HttpServerEnabled = True\<rparr>),
     cv_interfaces = Inr [''eth1''], cv_output = (\<lambda>h. [])\<rparr>"

section \<open>Lemmas\<close>

lemma then_do_Inr [go_simps]: "then_do r f = (Inr y, h') \<longleftrightarrow> (\<exists>x h. r = (Inr x, h) \<and> f x h = (Inr y, h'))"
  by (cases "(r, f)" rule: then_do.cases) auto

lemma cfg_do_Inr [go_simps]: "cfg_do env c wrap h = (Inr u, h') \<longleftrightarrow> cv_do env h c = None \<and> h' = h @ [c]"
  by (auto simp: cfg_do_def split: option.splits)

text \<open>Nothing but the directories asked for is made, and each is made or was found on the way.\<close>

lemma make_dirs_Inr:
  "make_dirs env dirs h = (Inr u, h') \<Longrightarrow>
   \<exists>made. h' = h @ map CMkdirAll made \<and> set made \<subseteq> set dirs
     \<and> (\<forall>d \<in> set dirs. d \<in> set made \<or> (\<exists>k. \<not> missing env (take k h') d))"
proof (induction dirs arbitrary: h)
  case (Cons d dirs)
  show ?case
  proof (cases "missing env h d")
    case True
    then have "make_dirs env dirs (h @ [CMkdirAll d]) = (Inr u, h')"
      using Cons.prems by (auto simp: go_simps)
    from Cons.IH [OF this] obtain made where "h' = (h @ [CMkdirAll d]) @ map CMkdirAll made" "set made \<subseteq> set dirs"
      "\<forall>d \<in> set dirs. d \<in> set made \<or> (\<exists>k. \<not> missing env (take k h') d)" by blast
    then show ?thesis by (intro exI [of _ "d # made"]) auto
  next
    case False
    then have "make_dirs env dirs h = (Inr u, h')" using Cons.prems by simp
    from Cons.IH [OF this] obtain made where m: "h' = h @ map CMkdirAll made" "set made \<subseteq> set dirs"
      "\<forall>d \<in> set dirs. d \<in> set made \<or> (\<exists>k. \<not> missing env (take k h') d)" by blast
    have "\<not> missing env (take (length h) h') d" using False m(1) by simp
    then show ?thesis using m by (intro exI [of _ made]) (auto simp del: take_append)
  qed
qed simp

lemma copy_core_Inr:
  "copy_core env c h = (Inr u, h') \<Longrightarrow>
   (h' = h \<and> \<not> missing env h (path_join [cf_StoragePathTftpAbsoluteDirForPxeEfi c, ''core.efi'']))
   \<or> (\<exists>content. h' = h @ [CWriteFile (path_join [cf_StoragePathTftpAbsoluteDirForPxeEfi c, ''core.efi'']) content]
        \<and> cv_ReadFile env h ''/files/core.efi'' = Inr content)"
  by (auto simp: copy_core_def Let_def go_simps split: if_splits sum.splits)

lemma storage_paths_fixed: "storage_paths (storage_paths c) = storage_paths c"
  by (simp add: storage_paths_def Let_def)

lemma storage_paths_keep [simp]:
  "cf_StoragePath (storage_paths c) = cf_StoragePath c"
  "cf_DhcpServerInterface (storage_paths c) = cf_DhcpServerInterface c"
  "cf_WebhookCertDir (storage_paths c) = cf_WebhookCertDir c"
  "cf_NodeName (storage_paths c) = cf_NodeName c"
  by (simp_all add: storage_paths_def Let_def)

lemma initStorageDirectory_Inr:
  assumes "initStorageDirectory env c0 = (Inr c, h)"
  shows "c = storage_paths c0
    \<and> (\<exists>made core. h = map CMkdirAll made @ [CChown (cf_StoragePathTftp c) 65534 65534, CChmod (cf_StoragePathTftp c)] @ core
         @ [CRemoveAll (cf_StoragePathHttpTools c), CMkdirAll (cf_StoragePathHttpTools c), CCopy ''/tools/.'' (cf_StoragePathHttpTools c)]
       \<and> set made \<subseteq> set (subdirs c)
       \<and> (\<forall>d \<in> set (subdirs c). d \<in> set made \<or> (\<exists>k. \<not> missing env (take k h) d))
       \<and> length core \<le> 1)"
proof -
  define c1 where "c1 = storage_paths c0"
  let ?t = "cf_StoragePathTftp c1" and ?w = "cf_StoragePathHttpTools c1"
  from assms obtain h1 h2 u v where
    m: "make_dirs env (subdirs c1) [] = (Inr u, h1)" and
    k: "copy_core env c1 (h1 @ [CChown ?t 65534 65534, CChmod ?t]) = (Inr v, h2)" and
    h: "h = h2 @ [CRemoveAll ?w, CMkdirAll ?w, CCopy ''/tools/.'' ?w]" and c: "c = c1"
    by (auto simp: initStorageDirectory_def Let_def go_simps c1_def [symmetric] split: sum.splits)
  from make_dirs_Inr [OF m] obtain made where made: "h1 = map CMkdirAll made" "set made \<subseteq> set (subdirs c1)"
    "\<forall>d \<in> set (subdirs c1). d \<in> set made \<or> (\<exists>k. \<not> missing env (take k h1) d)" by auto
  from copy_core_Inr [OF k] obtain core where core: "h2 = h1 @ [CChown ?t 65534 65534, CChmod ?t] @ core" "length core \<le> 1"
    by force
  have "\<exists>k. \<not> missing env (take k h) d" if "\<not> missing env (take k h1) d" for k d
    using that h core(1) by (intro exI [of _ "min k (length h1)"]) (cases "k \<le> length h1"; simp)
  then have seen: "\<forall>d \<in> set (subdirs c1). d \<in> set made \<or> (\<exists>k. \<not> missing env (take k h) d)" using made(3) by blast
  show ?thesis
    using c c1_def h core made(1,2) seen by (intro conjI exI [of _ made] exI [of _ core]) simp_all
qed

lemma loadFeatureConfig_Inr:
  "loadFeatureConfig env c0 = Inr c \<Longrightarrow>
   cf_DhcpServerInterface c \<noteq> [] \<and> (\<exists>ifs. cv_interfaces env = Inr ifs \<and> cf_DhcpServerInterface c \<in> set ifs)
   \<and> cf_StoragePath c = cf_StoragePath c0 \<and> cf_WebhookCertDir c = cf_WebhookCertDir c0 \<and> cf_NodeName c = cf_NodeName c0"
  by (auto simp: loadFeatureConfig_def ValidateInterfaceExists_def list_ex_iff Let_def split: sum.splits if_splits)

lemma env_config_Inr:
  "env_config env = Inr c \<Longrightarrow>
   cf_StoragePath c = cv_Getenv env ''STORAGE_PATH'' \<and> cf_StoragePath c \<noteq> []
   \<and> cf_WebhookCertDir c = cv_Getenv env ''WEBHOOK_CERT_DIR'' \<and> cf_WebhookCertDir c \<noteq> []
   \<and> cf_NodeName c = cv_Getenv env ''NODE_NAME'' \<and> cf_NodeName c \<noteq> []"
  by (auto simp: env_config_def required_env_def Let_def split: if_splits)

lemma verifyWebhookCertDir_Inr:
  "verifyWebhookCertDir env c = Inr u \<longleftrightarrow>
   (\<forall>file \<in> {''tls.crt'', ''tls.key'', ''ca.crt''}. \<exists>v. cv_Stat env [] (path_join [cf_WebhookCertDir c, file]) = Inr v)"
  by (auto simp: verifyWebhookCertDir_def go_simps split: sum.splits)

lemma LoadAgentConfig_Inr:
  assumes "LoadAgentConfig env = (Inr c, h)"
  obtains c0 c1 where "env_config env = Inr c0" "loadFeatureConfig env c0 = Inr c1" "verifyWebhookCertDir env c1 = Inr ()"
    "initStorageDirectory env c1 = (Inr c, h)"
  using assms that by (auto simp: LoadAgentConfig_def split: sum.splits prod.splits)

text \<open>A start that fails before the storage is prepared leaves the disk as it was.\<close>

lemma LoadAgentConfig_fails_clean:
  assumes "LoadAgentConfig env = (Inl e, h)" "h \<noteq> []"
  obtains c0 c1 where "env_config env = Inr c0" "loadFeatureConfig env c0 = Inr c1" "verifyWebhookCertDir env c1 = Inr ()"
  using assms that by (auto simp: LoadAgentConfig_def split: sum.splits prod.splits)

text \<open>When the agent starts, its configuration names the storage path, the certificates and the node of
  the environment, an interface of the host for the DHCP servers, and all paths below the storage path; the three
  certificate files were there; on the disk the directories of the agent were made or found, nothing else was made, and
  the directory of the tools was emptied, made again and filled, in this order and after everything else.\<close>

theorem LoadAgentConfig_ok:
  assumes "LoadAgentConfig env = (Inr c, h)"
  shows "cf_StoragePath c = cv_Getenv env ''STORAGE_PATH'' \<and> cf_StoragePath c \<noteq> []
    \<and> cf_NodeName c = cv_Getenv env ''NODE_NAME'' \<and> cf_NodeName c \<noteq> []
    \<and> (\<exists>ifs. cv_interfaces env = Inr ifs \<and> cf_DhcpServerInterface c \<in> set ifs)
    \<and> (\<forall>file \<in> {''tls.crt'', ''tls.key'', ''ca.crt''}.
         \<exists>v. cv_Stat env [] (path_join [cv_Getenv env ''WEBHOOK_CERT_DIR'', file]) = Inr v)
    \<and> storage_paths c = c
    \<and> (\<exists>made core. h = map CMkdirAll made @ [CChown (cf_StoragePathTftp c) 65534 65534, CChmod (cf_StoragePathTftp c)] @ core
         @ [CRemoveAll (cf_StoragePathHttpTools c), CMkdirAll (cf_StoragePathHttpTools c), CCopy ''/tools/.'' (cf_StoragePathHttpTools c)]
       \<and> set made \<subseteq> set (subdirs c)
       \<and> (\<forall>d \<in> set (subdirs c). d \<in> set made \<or> (\<exists>k. \<not> missing env (take k h) d))
       \<and> length core \<le> 1)"
proof -
  from assms obtain c0 c1 where s: "env_config env = Inr c0" "loadFeatureConfig env c0 = Inr c1"
    "verifyWebhookCertDir env c1 = Inr ()" "initStorageDirectory env c1 = (Inr c, h)"
    by (rule LoadAgentConfig_Inr)
  have c: "c = storage_paths c1" using initStorageDirectory_Inr [OF s(4)] by simp
  have disk: "\<exists>made core. h = map CMkdirAll made @ [CChown (cf_StoragePathTftp c) 65534 65534, CChmod (cf_StoragePathTftp c)] @ core
         @ [CRemoveAll (cf_StoragePathHttpTools c), CMkdirAll (cf_StoragePathHttpTools c), CCopy ''/tools/.'' (cf_StoragePathHttpTools c)]
       \<and> set made \<subseteq> set (subdirs c)
       \<and> (\<forall>d \<in> set (subdirs c). d \<in> set made \<or> (\<exists>k. \<not> missing env (take k h) d))
       \<and> length core \<le> 1"
    using initStorageDirectory_Inr [OF s(4)] by (rule conjunct2)
  show ?thesis
    using env_config_Inr [OF s(1)] loadFeatureConfig_Inr [OF s(2)] s(3) c storage_paths_fixed disk
    by (auto simp: verifyWebhookCertDir_Inr)
qed

theorem LoadAgentConfig_ok_witness:
  "\<exists>c h. LoadAgentConfig example_cfg_env = (Inr c, h) \<and> cf_StoragePath c = ''/var'' \<and> storage_paths c = c"
proof -
  let ?c = "fst (LoadAgentConfig example_cfg_env)" and ?h = "snd (LoadAgentConfig example_cfg_env)"
  have "case ?c of Inl _ \<Rightarrow> False | Inr c \<Rightarrow> cf_StoragePath c = ''/var''" by code_simp
  then obtain c where c: "?c = Inr c" "cf_StoragePath c = ''/var''" by (cases ?c) simp_all
  then have "LoadAgentConfig example_cfg_env = (Inr c, ?h)" by (metis prod.collapse)
  from LoadAgentConfig_ok [OF this] this c show ?thesis by blast
qed

end
