(* ===== verification/Caches.thy ===== *)
theory Caches
  imports ApiTypes
begin

text \<open>
  The four in-memory caches of the agent: subnets (\<open>pkg/subnet/data.go\<close>), bindings
  (\<open>pkg/bindingip/data/cache.go\<close>), Redfish hosts (\<open>pkg/redfishstatus/data/cache.go\<close>) and SSH
  hosts (\<open>pkg/sshstatus/data/cache.go\<close>). Each is a Go map under a read-write mutex; an
  operation is one atomic step. The stored pointers never leave the caches (every reader gets a
  copy), so the entries are values; \<open>Info\<close> is never stored as nil. The interface they share is
  the locale \<open>name_cache\<close>.
\<close>

section \<open>The interface\<close>

text \<open>A history of a cache, latest operation first.\<close>

datatype 'e cache_op = Store 'e | Remove string

fun op_name :: "('e \<Rightarrow> string) \<Rightarrow> 'e cache_op \<Rightarrow> string" where
  "op_name key (Store e) = key e"
| "op_name key (Remove n) = n"

fun run_cache :: "('e \<Rightarrow> 's \<Rightarrow> 's) \<Rightarrow> (string \<Rightarrow> 's \<Rightarrow> 's) \<Rightarrow> 's \<Rightarrow> 'e cache_op list \<Rightarrow> 's" where
  "run_cache put del c [] = c"
| "run_cache put del c (Store e # ops) = put e (run_cache put del c ops)"
| "run_cache put del c (Remove n # ops) = del n (run_cache put del c ops)"

locale name_cache =
  fixes init :: 's
    and put :: "'e \<Rightarrow> 's \<Rightarrow> 's"
    and del :: "string \<Rightarrow> 's \<Rightarrow> 's"
    and get :: "'s \<Rightarrow> string \<Rightarrow> 'v option"
    and listing :: "'s \<Rightarrow> (string, 'v) gomap"
    and ok :: "'s \<Rightarrow> bool"
    and key :: "'e \<Rightarrow> string"
    and val :: "'e \<Rightarrow> 'v"
  assumes get_init: "get init k = None"
    and ok_init: "ok init"
    and get_put: "get (put e c) k = (if k = key e then Some (val e) else get c k)"
    and ok_put: "ok c \<Longrightarrow> ok (put e c)"
    and get_del: "get (del n c) k = (if k = n then None else get c k)"
    and ok_del: "ok c \<Longrightarrow> ok (del n c)"
    and listing_ok: "ok c \<Longrightarrow> gm_ok (listing c)"
    and listing_get: "ok c \<Longrightarrow> gm_get (listing c) k = get c k"
begin

lemma run_ok: "ok (run_cache put del init ops)"
proof (induction ops)
  case (Cons op ops)
  then show ?case by (cases op) (auto intro: ok_put ok_del)
qed (simp add: ok_init)

lemma run_untouched:
  "\<forall>op \<in> set newer. op_name key op \<noteq> k \<Longrightarrow>
   get (run_cache put del init (newer @ older)) k = get (run_cache put del init older) k"
proof (induction newer)
  case (Cons op newer)
  then show ?case by (cases op) (auto simp: get_put get_del)
qed simp

lemma run_last_store:
  "\<forall>op \<in> set newer. op_name key op \<noteq> key e \<Longrightarrow>
   get (run_cache put del init (newer @ Store e # older)) (key e) = Some (val e)"
  by (simp add: run_untouched get_put)

lemma run_last_remove:
  "\<forall>op \<in> set newer. op_name key op \<noteq> n \<Longrightarrow>
   get (run_cache put del init (newer @ Remove n # older)) n = None"
  by (simp add: run_untouched get_del)

lemma run_listing:
  "(k, v) \<in> set (listing (run_cache put del init ops)) \<longleftrightarrow> get (run_cache put del init ops) k = Some v"
  by (metis gm_get_in_set listing_get listing_ok run_ok)

text \<open>A name is in the cache exactly if its last operation stored it.\<close>

lemma run_present:
  "get (run_cache put del init ops) k = Some v \<longleftrightarrow>
     (\<exists>newer e older. ops = newer @ Store e # older \<and> key e = k \<and> val e = v
        \<and> (\<forall>op \<in> set newer. op_name key op \<noteq> k))"
proof
  show "\<exists>newer e older. ops = newer @ Store e # older \<and> key e = k \<and> val e = v
        \<and> (\<forall>op \<in> set newer. op_name key op \<noteq> k)"
    if "get (run_cache put del init ops) k = Some v"
    using that
  proof (induction ops)
    case Nil
    then show ?case by (simp add: get_init)
  next
    case (Cons op ops)
    show ?case
    proof (cases "op_name key op = k")
      case True
      with Cons.prems obtain e where "op = Store e" "key e = k" "val e = v"
        by (cases op) (auto simp: get_put get_del)
      then show ?thesis by (intro exI [of _ "[]"]) auto
    next
      case False
      with Cons.prems have "get (run_cache put del init ops) k = Some v"
        by (cases op) (auto simp: get_put get_del)
      from Cons.IH [OF this] obtain newer e older where
        "ops = newer @ Store e # older" "key e = k" "val e = v" "\<forall>op \<in> set newer. op_name key op \<noteq> k"
        by blast
      with False show ?thesis by (intro exI [of _ "op # newer"]) auto
    qed
  qed
qed (auto simp: run_last_store)

end

section \<open>Subnets\<close>

type_synonym SubnetCache = "(string, Subnet) gomap"

definition NewSubnetCache :: SubnetCache where
  "NewSubnetCache = []"

definition SubnetCache_Get :: "SubnetCache \<Rightarrow> string \<Rightarrow> Subnet option" where
  "SubnetCache_Get c name = gm_get c name"

definition SubnetCache_GetAllNames :: "SubnetCache \<Rightarrow> string list" where
  "SubnetCache_GetAllNames c = map fst c"

definition SubnetCache_Set :: "Subnet \<Rightarrow> SubnetCache \<Rightarrow> SubnetCache" where
  "SubnetCache_Set subnet c = gm_put (om_Name (sn_Meta subnet)) subnet c"

definition SubnetCache_Delete :: "string \<Rightarrow> SubnetCache \<Rightarrow> SubnetCache" where
  "SubnetCache_Delete name c = gm_del name c"

text \<open>\<open>reflect.DeepEqual\<close> follows pointers: equality of the values.\<close>

definition HasSpecChanged :: "SubnetCache \<Rightarrow> Subnet \<Rightarrow> bool" where
  "HasSpecChanged c subnet =
     (case gm_get c (om_Name (sn_Meta subnet)) of
        None \<Rightarrow> True
      | Some cached \<Rightarrow> sn_Spec cached \<noteq> sn_Spec subnet)"

interpretation subnet_cache: name_cache NewSubnetCache SubnetCache_Set SubnetCache_Delete
  SubnetCache_Get id gm_ok "\<lambda>s. om_Name (sn_Meta s)" id
  by unfold_locales
    (auto simp: NewSubnetCache_def SubnetCache_Set_def SubnetCache_Delete_def SubnetCache_Get_def)

section \<open>Bindings\<close>

record BindingIPInfo =
  bd_Subnet :: string
  bd_IPAddr :: string
  bd_MacAddr :: string
  bd_Valid :: bool
  bd_Hostname :: string

type_synonym BindingIPCache = "(string, BindingIPInfo) gomap"

definition BindingIPCache_init :: BindingIPCache where
  "BindingIPCache_init = []"

definition BindingIPCache_Add :: "string \<Rightarrow> BindingIPInfo \<Rightarrow> BindingIPCache \<Rightarrow> BindingIPCache" where
  "BindingIPCache_Add name d c = gm_put name d c"

definition BindingIPCache_Delete :: "string \<Rightarrow> BindingIPCache \<Rightarrow> BindingIPCache" where
  "BindingIPCache_Delete name c = gm_del name c"

definition BindingIPCache_Get :: "BindingIPCache \<Rightarrow> string \<Rightarrow> BindingIPInfo option" where
  "BindingIPCache_Get c name = gm_get c name"

definition BindingIPCache_GetAll :: "BindingIPCache \<Rightarrow> BindingIPInfo list" where
  "BindingIPCache_GetAll c = map snd c"

definition GetInfoForSubnet :: "BindingIPCache \<Rightarrow> string \<Rightarrow> BindingIPInfo list" where
  "GetInfoForSubnet c subnetName = map snd (filter (\<lambda>kv. bd_Subnet (snd kv) = subnetName) c)"

definition GetBySubnet :: "BindingIPCache \<Rightarrow> string \<Rightarrow> (string, BindingIPInfo) gomap" where
  "GetBySubnet c subnet = filter (\<lambda>kv. bd_Subnet (snd kv) = subnet) c"

interpretation binding_cache: name_cache BindingIPCache_init "\<lambda>(n, d). BindingIPCache_Add n d"
  BindingIPCache_Delete BindingIPCache_Get id gm_ok fst snd
  by unfold_locales
    (auto simp: BindingIPCache_init_def BindingIPCache_Add_def BindingIPCache_Delete_def BindingIPCache_Get_def)

lemma set_GetInfoForSubnet:
  "set (GetInfoForSubnet c s) = {v \<in> set (BindingIPCache_GetAll c). bd_Subnet v = s}"
  by (auto simp: GetInfoForSubnet_def BindingIPCache_GetAll_def)

lemma GetBySubnet_get:
  assumes "gm_ok c"
  shows "gm_get (GetBySubnet c s) k = Some v \<longleftrightarrow> BindingIPCache_Get c k = Some v \<and> bd_Subnet v = s"
proof -
  have "gm_ok (GetBySubnet c s)"
    using assms by (simp add: GetBySubnet_def distinct_map_filter)
  with assms show ?thesis
    by (auto simp: gm_get_in_set BindingIPCache_Get_def) (auto simp: GetBySubnet_def)
qed

section \<open>Redfish hosts\<close>

record RedfishConnectCon =
  rc_Info :: BasicInfo
  rc_Username :: string
  rc_Password :: string
  rc_DhcpHost :: bool

type_synonym RedfishCache = "(string, RedfishConnectCon) gomap"

definition RedfishCache_init :: RedfishCache where
  "RedfishCache_init = []"

definition RedfishCache_Add :: "string \<Rightarrow> RedfishConnectCon \<Rightarrow> RedfishCache \<Rightarrow> RedfishCache" where
  "RedfishCache_Add name d c = gm_put name d c"

definition RedfishCache_Delete :: "string \<Rightarrow> RedfishCache \<Rightarrow> RedfishCache" where
  "RedfishCache_Delete name c = gm_del name c"

definition RedfishCache_Get :: "RedfishCache \<Rightarrow> string \<Rightarrow> RedfishConnectCon option" where
  "RedfishCache_Get c name = gm_get c name"

definition RedfishCache_GetAll :: "RedfishCache \<Rightarrow> (string, RedfishConnectCon) gomap" where
  "RedfishCache_GetAll c = c"

definition GetDhcpClientInfo :: "RedfishCache \<Rightarrow> (string, RedfishConnectCon) gomap" where
  "GetDhcpClientInfo c = filter (\<lambda>kv. rc_DhcpHost (snd kv)) c"

definition GetStaticClientInfo :: "RedfishCache \<Rightarrow> (string, RedfishConnectCon) gomap" where
  "GetStaticClientInfo c = filter (\<lambda>kv. \<not> rc_DhcpHost (snd kv)) c"

definition uses_secret :: "string \<Rightarrow> string \<Rightarrow> RedfishConnectCon \<Rightarrow> bool" where
  "uses_secret secretName secretNamespace v \<longleftrightarrow>
     b_SecretName (rc_Info v) = secretName \<and> b_SecretNamespace (rc_Info v) = secretNamespace"

text \<open>
  The body of the loop of \<open>UpdateSecet\<close> on one entry: the entry after it, written through the
  stored pointer, and \<open>changed\<close>.
\<close>

definition update_secret_entry ::
    "string \<Rightarrow> string \<Rightarrow> string \<Rightarrow> string \<Rightarrow> RedfishConnectCon \<Rightarrow> RedfishConnectCon \<times> bool" where
  "update_secret_entry secretName secretNamespace username password v =
     (if uses_secret secretName secretNamespace v then
        (let (v1, ch1) = (if rc_Username v \<noteq> username then (v\<lparr>rc_Username := username\<rparr>, True) else (v, False));
             (v2, ch2) = (if rc_Password v1 \<noteq> password then (v1\<lparr>rc_Password := password\<rparr>, True) else (v1, ch1))
         in (v2, ch2))
      else (v, False))"

fun UpdateSecet ::
    "string \<Rightarrow> string \<Rightarrow> string \<Rightarrow> string \<Rightarrow> RedfishCache \<Rightarrow> RedfishCache \<times> string list" where
  "UpdateSecet sn ns u p [] = ([], [])"
| "UpdateSecet sn ns u p ((name, v) # c) =
     (let (v', changed) = update_secret_entry sn ns u p v; (c', hosts) = UpdateSecet sn ns u p c
      in ((name, v') # c', if changed then name # hosts else hosts))"

interpretation redfish_cache: name_cache RedfishCache_init "\<lambda>(n, d). RedfishCache_Add n d"
  RedfishCache_Delete RedfishCache_Get RedfishCache_GetAll gm_ok fst snd
  by unfold_locales
    (auto simp: RedfishCache_init_def RedfishCache_Add_def RedfishCache_Delete_def RedfishCache_Get_def
      RedfishCache_GetAll_def)

text \<open>Dhcp and static clients split the cache.\<close>

lemma client_info_partition:
  "set (RedfishCache_GetAll c) = set (GetDhcpClientInfo c) \<union> set (GetStaticClientInfo c)
   \<and> set (GetDhcpClientInfo c) \<inter> set (GetStaticClientInfo c) = {}"
  by (auto simp: RedfishCache_GetAll_def GetDhcpClientInfo_def GetStaticClientInfo_def)

text \<open>What \<open>UpdateSecet\<close> must do to an entry, and when it must report it.\<close>

definition with_credentials :: "string \<Rightarrow> string \<Rightarrow> RedfishConnectCon \<Rightarrow> RedfishConnectCon" where
  "with_credentials u p v = v\<lparr>rc_Username := u, rc_Password := p\<rparr>"

lemma update_secret_entry_eq:
  "update_secret_entry sn ns u p v =
     (if uses_secret sn ns v then with_credentials u p v else v,
      uses_secret sn ns v \<and> (rc_Username v \<noteq> u \<or> rc_Password v \<noteq> p))"
  by (auto simp: update_secret_entry_def with_credentials_def)

lemma UpdateSecet_eq:
  "UpdateSecet sn ns u p c =
     (map (\<lambda>(n, v). (n, if uses_secret sn ns v then with_credentials u p v else v)) c,
      map fst (filter (\<lambda>(n, v). uses_secret sn ns v \<and> (rc_Username v \<noteq> u \<or> rc_Password v \<noteq> p)) c))"
  by (induction sn ns u p c rule: UpdateSecet.induct) (auto simp: update_secret_entry_eq)

lemma UpdateSecet_keys: "map fst (fst (UpdateSecet sn ns u p c)) = map fst c"
  by (simp add: UpdateSecet_eq case_prod_unfold)

lemma UpdateSecet_get:
  "gm_get (fst (UpdateSecet sn ns u p c)) k =
     map_option (\<lambda>v. if uses_secret sn ns v then with_credentials u p v else v) (gm_get c k)"
  unfolding UpdateSecet_eq by (induction c) auto

section \<open>SSH hosts\<close>

record SSHConnectCon =
  sc_Info :: SSHBasicInfo
  sc_Username :: string
  sc_Password :: string
  sc_SSHKey :: string
  sc_SSHKeyAuth :: bool

type_synonym SSHHostCache = "(string, SSHConnectCon) gomap"

definition NewSSHHostCache :: SSHHostCache where
  "NewSSHHostCache = []"

definition SSHHostCache_Add :: "string \<Rightarrow> SSHConnectCon \<Rightarrow> SSHHostCache \<Rightarrow> SSHHostCache" where
  "SSHHostCache_Add name con c = gm_put name con c"

definition SSHHostCache_Get :: "SSHHostCache \<Rightarrow> string \<Rightarrow> SSHConnectCon option" where
  "SSHHostCache_Get c name = gm_get c name"

definition SSHHostCache_Delete :: "string \<Rightarrow> SSHHostCache \<Rightarrow> SSHHostCache" where
  "SSHHostCache_Delete name c = gm_del name c"

definition SSHHostCache_GetAll :: "SSHHostCache \<Rightarrow> (string, SSHConnectCon) gomap" where
  "SSHHostCache_GetAll c = c"

fun SSHHostCache_UpdateSecret ::
    "string \<Rightarrow> string \<Rightarrow> string \<Rightarrow> string \<Rightarrow> SSHHostCache \<Rightarrow> SSHHostCache \<times> string list" where
  "SSHHostCache_UpdateSecret sn ns u p [] = ([], [])"
| "SSHHostCache_UpdateSecret sn ns u p ((name, con) # c) =
     (let (c', hosts) = SSHHostCache_UpdateSecret sn ns u p c
      in if sb_SecretName (sc_Info con) = sn \<and> sb_SecretNamespace (sc_Info con) = ns
         then ((name, con\<lparr>sc_Username := u, sc_Password := p\<rparr>) # c', name # hosts)
         else ((name, con) # c', hosts))"

fun UpdateSSHKey :: "string \<Rightarrow> string \<Rightarrow> string \<Rightarrow> SSHHostCache \<Rightarrow> SSHHostCache \<times> string list" where
  "UpdateSSHKey sn ns k [] = ([], [])"
| "UpdateSSHKey sn ns k ((name, con) # c) =
     (let (c', hosts) = UpdateSSHKey sn ns k c
      in if sb_SecretName (sc_Info con) = sn \<and> sb_SecretNamespace (sc_Info con) = ns \<and> sc_SSHKeyAuth con
         then ((name, con\<lparr>sc_SSHKey := k\<rparr>) # c', name # hosts)
         else ((name, con) # c', hosts))"

interpretation ssh_cache: name_cache NewSSHHostCache "\<lambda>(n, d). SSHHostCache_Add n d"
  SSHHostCache_Delete SSHHostCache_Get SSHHostCache_GetAll gm_ok fst snd
  by unfold_locales
    (auto simp: NewSSHHostCache_def SSHHostCache_Add_def SSHHostCache_Delete_def SSHHostCache_Get_def
      SSHHostCache_GetAll_def)

definition ssh_uses_secret :: "string \<Rightarrow> string \<Rightarrow> SSHConnectCon \<Rightarrow> bool" where
  "ssh_uses_secret sn ns con \<longleftrightarrow>
     sb_SecretName (sc_Info con) = sn \<and> sb_SecretNamespace (sc_Info con) = ns"

lemma SSH_UpdateSecret_eq:
  "SSHHostCache_UpdateSecret sn ns u p c =
     (map (\<lambda>(n, v). (n, if ssh_uses_secret sn ns v then v\<lparr>sc_Username := u, sc_Password := p\<rparr> else v)) c,
      map fst (filter (\<lambda>(n, v). ssh_uses_secret sn ns v) c))"
  by (induction sn ns u p c rule: SSHHostCache_UpdateSecret.induct) (auto simp: ssh_uses_secret_def)

lemma UpdateSSHKey_eq:
  "UpdateSSHKey sn ns k c =
     (map (\<lambda>(n, v). (n, if ssh_uses_secret sn ns v \<and> sc_SSHKeyAuth v then v\<lparr>sc_SSHKey := k\<rparr> else v)) c,
      map fst (filter (\<lambda>(n, v). ssh_uses_secret sn ns v \<and> sc_SSHKeyAuth v) c))"
  by (induction sn ns k c rule: UpdateSSHKey.induct) (auto simp: ssh_uses_secret_def)

section \<open>Properties\<close>

text \<open>Whatever operations the Redfish cache has seen, a host is in it with some data
  exactly if the last operation on its name added it with that data.\<close>

theorem RedfishCache_last_write:
  "RedfishCache_Get (run_cache (\<lambda>(n, d). RedfishCache_Add n d) RedfishCache_Delete RedfishCache_init ops) k = Some v
   \<longleftrightarrow> (\<exists>newer older. ops = newer @ Store (k, v) # older \<and> (\<forall>op \<in> set newer. op_name fst op \<noteq> k))"
  by (subst redfish_cache.run_present) auto

definition example_con :: RedfishConnectCon where
  "example_con = \<lparr>rc_Info = zero_basic\<lparr>b_SecretName := ''s'', b_SecretNamespace := ''ns''\<rparr>,
     rc_Username = ''root'', rc_Password = ''old'', rc_DhcpHost = False\<rparr>"

lemma RedfishCache_last_write_witness:
  "RedfishCache_Get (run_cache (\<lambda>(n, d). RedfishCache_Add n d) RedfishCache_Delete RedfishCache_init
     [Remove ''b'', Store (''a'', example_con), Remove ''a'']) ''a'' = Some example_con"
proof -
  have "[Remove ''b'', Store (''a'', example_con), Remove ''a'']
      = [Remove ''b''] @ Store (''a'', example_con) # [Remove ''a'']" by simp
  moreover have "\<forall>op \<in> set [Remove ''b'']. op_name fst op \<noteq> ''a''" by simp
  ultimately show ?thesis using RedfishCache_last_write by blast
qed

text \<open>A changed secret reaches every host that uses it and no other, \<open>UpdateSecet\<close>
  reports exactly the hosts whose stored credentials it changed, and a second update with the same
  credentials reports none.\<close>

theorem UpdateSecet_correct:
  assumes "gm_ok c" "UpdateSecet sn ns u p c = (c', hosts)"
  shows "RedfishCache_Get c' k =
      map_option (\<lambda>v. if uses_secret sn ns v then with_credentials u p v else v) (RedfishCache_Get c k)
    \<and> (k \<in> set hosts \<longleftrightarrow> RedfishCache_Get c' k \<noteq> RedfishCache_Get c k)
    \<and> snd (UpdateSecet sn ns u p c') = []"
proof (intro conjI)
  have c': "c' = fst (UpdateSecet sn ns u p c)" and h: "hosts = snd (UpdateSecet sn ns u p c)"
    using assms(2) by simp_all
  show g: "RedfishCache_Get c' k =
      map_option (\<lambda>v. if uses_secret sn ns v then with_credentials u p v else v) (RedfishCache_Get c k)"
    by (simp add: RedfishCache_Get_def c' UpdateSecet_get)
  have ne: "with_credentials u p v = v \<longleftrightarrow> rc_Username v = u \<and> rc_Password v = p" for v
    by (cases v) (auto simp: with_credentials_def)
  have "k \<in> set hosts \<longleftrightarrow> (\<exists>v. (k, v) \<in> set c \<and> uses_secret sn ns v \<and> with_credentials u p v \<noteq> v)"
    unfolding h UpdateSecet_eq ne by force
  also have "\<dots> \<longleftrightarrow> RedfishCache_Get c' k \<noteq> RedfishCache_Get c k"
  proof (cases "RedfishCache_Get c k")
    case None
    then have "(k, v) \<notin> set c" for v using assms(1) by (auto simp: RedfishCache_Get_def)
    with None g show ?thesis by simp
  next
    case (Some w)
    then have "(k, v) \<in> set c \<longleftrightarrow> v = w" for v
      using assms(1) by (simp add: RedfishCache_Get_def) (metis gm_get_in_set option.inject)
    with Some g show ?thesis by auto
  qed
  finally show "k \<in> set hosts \<longleftrightarrow> RedfishCache_Get c' k \<noteq> RedfishCache_Get c k" .
  show "snd (UpdateSecet sn ns u p c') = []"
    unfolding c' by (auto simp: UpdateSecet_eq filter_empty_conv with_credentials_def uses_secret_def
        split: if_splits)
qed

lemma UpdateSecet_correct_witness:
  "RedfishCache_Get (fst (UpdateSecet ''s'' ''ns'' ''root'' ''new'' [(''h1'', example_con)])) ''h1''
     = Some (with_credentials ''root'' ''new'' example_con)
   \<and> ''h1'' \<in> set (snd (UpdateSecet ''s'' ''ns'' ''root'' ''new'' [(''h1'', example_con)]))"
proof -
  have u: "UpdateSecet ''s'' ''ns'' ''root'' ''new'' [(''h1'', example_con)]
      = ([(''h1'', with_credentials ''root'' ''new'' example_con)], [''h1''])"
    by (simp add: UpdateSecet_eq uses_secret_def example_con_def)
  from UpdateSecet_correct [OF _ u, of "''h1''"]
  show ?thesis unfolding u by (simp add: RedfishCache_Get_def uses_secret_def example_con_def)
qed

end
