(* ===== verification/DhcpServer.thy ===== *)
theory DhcpServer
  imports Caches GoText
begin

text \<open>
  State of one DHCP server (\<open>pkg/subnet/dhcpserver/types.go\<close>, \<open>manager.go\<close>). A channel the server
  sends on is the list of what it has sent, a channel it receives from is the queue of what waits
  in it. \<open>dv_cmd\<close> tells whether \<open>s.cmd\<close> has been set; a command that has been started keeps a
  non-nil \<open>Process\<close>. A time is its Unix seconds; the zero time is January 1 of year 1.
\<close>

definition zero_time :: int where
  "zero_time = - 62135596800"

record DhcpClientInfo =
  dc_MAC :: string
  dc_IP :: string
  dc_Hostname :: string
  dc_Active :: bool
  dc_DhcpExpireTime :: int
  dc_Subnet :: string
  dc_SubnetName :: string
  dc_ClusterName :: string
  dc_EnableBindIpForRedfishstatus :: "bool option"

type_synonym clients = "(string, DhcpClientInfo) gomap"

record dhcpServer =
  dv_config :: AgentConfig
  dv_subnet :: Subnet
  dv_currentLeaseClients :: clients
  dv_currentManualBindingClients :: clients
  dv_cmd :: bool
  dv_stopped :: bool
  dv_addedDhcpClient :: "DhcpClientInfo list"
  dv_deletedDhcpClient :: "DhcpClientInfo list"
  dv_addedBindingIp :: "BindingIPInfo list"
  dv_deletedBindingIp :: "BindingIPInfo list"
  dv_statusUpdates :: nat
  dv_restarts :: nat
  dv_configTemplatePath :: string
  dv_configPath :: string
  dv_HostIpBindingsConfigPath :: string
  dv_leasePath :: string
  dv_logPath :: string

definition NewDhcpServer :: "AgentConfig \<Rightarrow> Subnet \<Rightarrow> dhcpServer" where
  "NewDhcpServer config subnet =
     (let name = om_Name (sn_Meta subnet) in
      \<lparr>dv_config = config, dv_subnet = subnet,
       dv_currentLeaseClients = [], dv_currentManualBindingClients = [],
       dv_cmd = False, dv_stopped = False,
       dv_addedDhcpClient = [], dv_deletedDhcpClient = [],
       dv_addedBindingIp = [], dv_deletedBindingIp = [],
       dv_statusUpdates = 0, dv_restarts = 0,
       dv_configTemplatePath = path_join [cf_DhcpConfigTemplatePath config, ''dnsmasq.conf.tmpl''],
       dv_configPath = path_join [cf_StoragePathDhcpConfig config, ''dnsmasq-'' @ name @ ''.conf''],
       dv_HostIpBindingsConfigPath =
         path_join [cf_StoragePathDhcpConfig config, ''dnsmasq-'' @ name @ ''-bindIp.conf''],
       dv_leasePath = path_join [cf_StoragePathDhcpLease config, ''dnsmasq-'' @ name @ ''.leases''],
       dv_logPath = path_join [cf_StoragePathDhcpLog config, ''dnsmasq-'' @ name @ ''.log'']\<rparr>)"

text \<open>\<open>s.statusUpdateCh <- struct{}{}\<close>.\<close>

definition notify_status :: "dhcpServer \<Rightarrow> dhcpServer" where
  "notify_status s = s\<lparr>dv_statusUpdates := dv_statusUpdates s + 1\<rparr>"

text \<open>\<open>UpdateBindingIpEvents\<close>: all additions go to one queue, then all deletions to the other.\<close>

definition UpdateBindingIpEvents ::
    "BindingIPInfo list \<Rightarrow> BindingIPInfo list \<Rightarrow> dhcpServer \<Rightarrow> dhcpServer" where
  "UpdateBindingIpEvents added deleted s =
     s\<lparr>dv_addedBindingIp := dv_addedBindingIp s @ added,
       dv_deletedBindingIp := dv_deletedBindingIp s @ deleted\<rparr>"

definition UpdateService :: "Subnet \<Rightarrow> dhcpServer \<Rightarrow> dhcpServer" where
  "UpdateService subnet s = s\<lparr>dv_subnet := subnet, dv_restarts := dv_restarts s + 1\<rparr>"

text \<open>\<open>cleanupAllInterface\<close> is still to be written in the source: it does nothing.\<close>

definition cleanupAllInterface :: "dhcpServer \<Rightarrow> unit result" where
  "cleanupAllInterface s = Inr ()"

end
