(* ===== verification/DhcpLease.thy ===== *)
theory DhcpLease
  imports DhcpServer Tools
begin

text \<open>
  The lease file (\<open>processDhcpLease\<close> in \<open>config.go\<close>) and the subnet status
  (\<open>UpdateSubnet.go\<close>). A lease line is \<open>expiry mac ip hostname client-id\<close>; the events for the
  Redfish part are the records appended to \<open>dv_addedDhcpClient\<close> and \<open>dv_deletedDhcpClient\<close>.
\<close>

section \<open>The lease file\<close>

text \<open>
  One line of the file: no client for a line that is skipped; \<open>Spec.Feature\<close> is an optional
  pointer that is dereferenced.
\<close>

definition lease_client :: "Subnet \<Rightarrow> string \<Rightarrow> DhcpClientInfo option result" where
  "lease_client sn line =
     (if line = [] then Inr None
      else let fs = str_fields line in
        if length fs < 5 then Inr None
        else case parse_int64 (fs ! 0) of
          None \<Rightarrow> Inr None
        | Some expire \<Rightarrow>
            (case sp_Feature (sn_Spec sn) of
               None \<Rightarrow> Inl (Panic ''nil pointer dereference'')
             | Some ft \<Rightarrow>
                 Inr (Some \<lparr>dc_MAC = fs ! 1, dc_IP = fs ! 2, dc_Hostname = fs ! 3, dc_Active = True,
                   dc_DhcpExpireTime = expire,
                   dc_Subnet = v4_Subnet (sp_IPv4Subnet (sn_Spec sn)),
                   dc_SubnetName = om_Name (sn_Meta sn),
                   dc_ClusterName = (case sync_DefaultClusterName (ft_SyncRedfishstatus ft) of
                      None \<Rightarrow> [] | Some c \<Rightarrow> c),
                   dc_EnableBindIpForRedfishstatus =
                      Some (sync_Enabled (ft_SyncRedfishstatus ft) \<and> sync_EnableBindDhcpIP (ft_SyncRedfishstatus ft))\<rparr>)))"

text \<open>\<open>Spec.Feature.SyncRedfishstatus.Enabled\<close>.\<close>

definition sync_enabled :: "Subnet \<Rightarrow> bool result" where
  "sync_enabled sn =
     (case sp_Feature (sn_Spec sn) of
        None \<Rightarrow> Inl (Panic ''nil pointer dereference'')
      | Some ft \<Rightarrow> Inr (sync_Enabled (ft_SyncRedfishstatus ft)))"

text \<open>
  What the loop does with a client, given the clients of the previous pass: whether an event is
  sent (synchronisation being enabled) and whether the client counts as changed.
\<close>

definition lease_event :: "clients \<Rightarrow> DhcpClientInfo \<Rightarrow> bool \<times> bool" where
  "lease_event previous ci =
     (case gm_get previous (dc_IP ci) of
        None \<Rightarrow> (True, True)
      | Some data \<Rightarrow>
          if dc_MAC data \<noteq> dc_MAC ci \<or> dc_Hostname data \<noteq> dc_Hostname ci then (True, True)
          else if dc_DhcpExpireTime ci \<noteq> dc_DhcpExpireTime data then (True, False)
          else (False, False))"

record lease_acc =
  la_current :: clients
  la_sent :: "DhcpClientInfo list"
  la_changed :: bool

definition lease_one :: "Subnet \<Rightarrow> clients \<Rightarrow> string \<Rightarrow> lease_acc \<Rightarrow> lease_acc result" where
  "lease_one sn previous line acc =
     and_then (lease_client sn line) (\<lambda>oc.
       case oc of None \<Rightarrow> Inr acc
       | Some ci \<Rightarrow>
           and_then (sync_enabled sn) (\<lambda>enabled.
             let (ev, ch) = lease_event previous ci in
             Inr \<lparr>la_current = gm_put (dc_IP ci) ci (la_current acc),
                  la_sent = (if ev \<and> enabled then la_sent acc @ [ci] else la_sent acc),
                  la_changed = (la_changed acc \<or> ch)\<rparr>))"

fun lease_loop :: "Subnet \<Rightarrow> clients \<Rightarrow> string list \<Rightarrow> lease_acc \<Rightarrow> lease_acc result" where
  "lease_loop sn previous [] acc = Inr acc"
| "lease_loop sn previous (line # lines) acc =
     and_then (lease_one sn previous line acc) (lease_loop sn previous lines)"

text \<open>
  The second loop: a previous client whose IP has no lease any more is reported as inactive. The
  feature is dereferenced only where there is such a client.
\<close>

fun deleted_loop :: "Subnet \<Rightarrow> clients \<Rightarrow> clients \<Rightarrow> DhcpClientInfo list result" where
  "deleted_loop sn current [] = Inr []"
| "deleted_loop sn current ((_, c) # rest) =
     (if gm_get current (dc_IP c) \<noteq> None then deleted_loop sn current rest
      else and_then (sync_enabled sn) (\<lambda>enabled.
        and_then (deleted_loop sn current rest) (\<lambda>ds.
          Inr (if enabled then c\<lparr>dc_Active := False\<rparr> # ds else ds))))"

definition processDhcpLease ::
    "os_env \<Rightarrow> files \<Rightarrow> bool \<Rightarrow> dhcpServer \<Rightarrow> bool result \<times> dhcpServer" where
  "processDhcpLease os fs ignoreLeaseExistenceError s =
     (case read_file os fs (dv_leasePath s) of
        Inl e \<Rightarrow>
          if IsNotExist e \<and> ignoreLeaseExistenceError then (Inr False, s)
          else (Inl (Errorf ''failed to read lease file: %v'' [ArgE e]), s)
      | Inr content \<Rightarrow>
          (case lease_loop (dv_subnet s) (dv_currentLeaseClients s) (split_on (CHR 0x0A) content)
                  \<lparr>la_current = [], la_sent = [], la_changed = False\<rparr> of
             Inl e \<Rightarrow> (Inl e, s)
           | Inr acc \<Rightarrow>
               (case deleted_loop (dv_subnet s) (la_current acc) (dv_currentLeaseClients s) of
                  Inl e \<Rightarrow> (Inl e, s\<lparr>dv_addedDhcpClient := dv_addedDhcpClient s @ la_sent acc\<rparr>)
                | Inr ds \<Rightarrow>
                    (Inr (la_changed acc),
                     s\<lparr>dv_addedDhcpClient := dv_addedDhcpClient s @ la_sent acc,
                       dv_deletedDhcpClient := dv_deletedDhcpClient s @ ds,
                       dv_currentLeaseClients := la_current acc\<rparr>))))"

section \<open>The subnet status\<close>

record clientInfo =
  ci_Mac :: string
  ci_IsBound :: bool
  ci_IsAllocated :: bool
  ci_Hostname :: string
  ci_DhcpExpireTime :: string

definition marshal_client :: "clientInfo \<Rightarrow> string" where
  "marshal_client c = json_object
     [(''mac'', json_string (ci_Mac c)), (''isBound'', json_bool (ci_IsBound c)),
      (''isAllocated'', json_bool (ci_IsAllocated c)), (''hostname'', json_string (ci_Hostname c)),
      (''dhcpExpireTime'', json_string (ci_DhcpExpireTime c))]"

definition marshal_clients :: "(string, clientInfo) gomap \<Rightarrow> string" where
  "marshal_clients m = json_object (map (\<lambda>(k, v). (k, marshal_client v)) (sorted_entries m))"

text \<open>
  The two loops of \<open>updateClientFunc\<close>, with \<open>clientMap\<close> and \<open>counter\<close>. \<open>fmt\<close> is
  \<open>Time.Format(time.RFC3339)\<close> in the local time zone of the agent.
\<close>

fun bind_loop :: "(int \<Rightarrow> string) \<Rightarrow> clients \<Rightarrow> (string, clientInfo) gomap \<times> 64 word \<Rightarrow>
    (string, clientInfo) gomap \<times> 64 word" where
  "bind_loop fmt [] r = r"
| "bind_loop fmt ((ip, c) # cs) (m, n) =
     bind_loop fmt cs
       (gm_put ip \<lparr>ci_Mac = dc_MAC c, ci_IsBound = True, ci_IsAllocated = False, ci_Hostname = dc_Hostname c,
          ci_DhcpExpireTime = (if dc_DhcpExpireTime c \<noteq> zero_time then fmt (dc_DhcpExpireTime c) else [])\<rparr> m,
        n + 1)"

fun lease_status_loop :: "(int \<Rightarrow> string) \<Rightarrow> clients \<Rightarrow> (string, clientInfo) gomap \<times> 64 word \<Rightarrow>
    (string, clientInfo) gomap \<times> 64 word" where
  "lease_status_loop fmt [] r = r"
| "lease_status_loop fmt ((ip, c) # cs) (m, n) =
     lease_status_loop fmt cs
       (case gm_get m ip of
          Some existing \<Rightarrow>
            (gm_put ip (existing\<lparr>ci_Mac := dc_MAC c, ci_IsAllocated := True, ci_Hostname := dc_Hostname c,
               ci_DhcpExpireTime := fmt (dc_DhcpExpireTime c)\<rparr>) m, n)
        | None \<Rightarrow>
            (gm_put ip \<lparr>ci_Mac = dc_MAC c, ci_IsBound = False, ci_IsAllocated = True,
               ci_Hostname = dc_Hostname c, ci_DhcpExpireTime = fmt (dc_DhcpExpireTime c)\<rparr> m, n + 1))"

definition updateClientFunc :: "(int \<Rightarrow> string) \<Rightarrow> clients \<Rightarrow> clients \<Rightarrow> string \<times> 64 word" where
  "updateClientFunc fmt dhcpClient manualBindClients =
     (let (clientMap, counter) = lease_status_loop fmt dhcpClient (bind_loop fmt manualBindClients ([], 0))
      in if length clientMap = 0 then (''{}'', 0) else (marshal_clients clientMap, counter))"

text \<open>The status the server wants to see in the subnet, computed from the current one.\<close>

definition wanted_status :: "(int \<Rightarrow> string) \<Rightarrow> string \<Rightarrow> dhcpServer \<Rightarrow> SubnetStatus \<Rightarrow> SubnetStatus" where
  "wanted_status fmt now s st =
     (let totalIPs = (case CountIPsInRange (v4_IPRange (sp_IPv4Subnet (sn_Spec (dv_subnet s)))) of
             Inl _ \<Rightarrow> 0 | Inr n \<Rightarrow> n);
          (clientDetails, usedIpAmount) =
             updateClientFunc fmt (dv_currentLeaseClients s) (dv_currentManualBindingClients s);
          node = cf_NodeName (dv_config s);
          st1 = st\<lparr>ss_DhcpClientDetails := clientDetails,
             ss_DhcpStatus := Some \<lparr>ds_DhcpIpTotalAmount = totalIPs,
               ds_DhcpIpAvailableAmount = totalIPs - usedIpAmount,
               ds_DhcpIpActiveAmount = of_nat (length (dv_currentLeaseClients s)),
               ds_DhcpIpBindAmount = of_nat (length (dv_currentManualBindingClients s))\<rparr>\<rparr>
      in if ss_HostNode st1 = Some node then st1
         else st1\<lparr>ss_HostNode := Some node,
                  ss_Conditions := ss_Conditions st1 @ [\<lparr>cond_Type = ''DhcpServer'', cond_Reason = ''hostChange'',
                     cond_Message = ''dhcp server is hosted by node '' @ node, cond_Status = ''True'',
                     cond_LastTransitionTime = now\<rparr>]\<rparr>)"

text \<open>
  One attempt of \<open>updateSubnetWithRetry\<close>: the answer of the API server to the read, then the
  write it makes, if any. The write's answer is given.
\<close>

definition update_attempt ::
    "(int \<Rightarrow> string) \<Rightarrow> string \<Rightarrow> dhcpServer \<Rightarrow> Subnet result \<Rightarrow> (Subnet \<Rightarrow> unit result) \<Rightarrow>
     unit result \<times> Subnet option" where
  "update_attempt fmt now s got answer =
     (case got of
        Inl e \<Rightarrow> (Inl e, None)
      | Inr current \<Rightarrow>
          (let updated = current\<lparr>sn_Status := wanted_status fmt now s (sn_Status current)\<rparr>
           in if sn_Status current = sn_Status updated then (Inr (), None)
              else (answer updated, Some updated)))"

text \<open>
  \<open>retry.OnError\<close> with \<open>Steps = 5\<close>: attempts are made while they fail with an error that is
  retriable and steps are left. What an attempt sees depends on how many came before it.
\<close>

fun on_error :: "nat \<Rightarrow> (goerr \<Rightarrow> bool) \<Rightarrow> (nat \<Rightarrow> unit result \<times> 'w option) \<Rightarrow> nat \<Rightarrow>
    unit result \<times> 'w list" where
  "on_error 0 retriable attempt i = (Inl (SysErr ''timed out waiting for the condition''), [])"
| "on_error (Suc n) retriable attempt i =
     (let (r, w) = attempt i; ws = (case w of None \<Rightarrow> [] | Some x \<Rightarrow> [x]) in
      case r of
        Inr _ \<Rightarrow> (Inr (), ws)
      | Inl e \<Rightarrow>
          if retriable e \<and> n > 0 then
            (let (r', ws') = on_error n retriable attempt (i + 1) in (r', ws @ ws'))
          else (Inl e, ws))"

definition updateSubnetWithRetry ::
    "(int \<Rightarrow> string) \<Rightarrow> (nat \<Rightarrow> string) \<Rightarrow> (nat \<Rightarrow> Subnet result) \<Rightarrow> (nat \<Rightarrow> Subnet \<Rightarrow> unit result) \<Rightarrow>
     dhcpServer \<Rightarrow> unit result \<times> Subnet list" where
  "updateSubnetWithRetry fmt now got answer s =
     on_error 5 IsConflict (\<lambda>i. update_attempt fmt (now i) s (got i) (answer i)) 0"

section \<open>The status worker\<close>

datatype worker_event = WStop | WNotify | WTick

text \<open>
  One turn of the \<open>select\<close> loop of \<open>statusUpdateWorker\<close>: the new \<open>pendingUpdate\<close>, none after
  the return, and whether \<open>updateSubnetWithRetry\<close> was called.
\<close>

fun worker_step :: "bool \<Rightarrow> worker_event \<Rightarrow> bool option \<times> bool" where
  "worker_step pending WStop = (None, False)"
| "worker_step pending WNotify = (Some True, False)"
| "worker_step pending WTick = (Some False, pending)"

text \<open>The updates made at each turn.\<close>

fun statusUpdateWorker :: "bool \<Rightarrow> worker_event list \<Rightarrow> bool list" where
  "statusUpdateWorker pending [] = []"
| "statusUpdateWorker pending (e # es) =
     (case worker_step pending e of
        (None, u) \<Rightarrow> [u]
      | (Some pending', u) \<Rightarrow> u # statusUpdateWorker pending' es)"

section \<open>Facts about the lease file\<close>

text \<open>A client map is keyed by the address of its clients.\<close>

definition clients_ok :: "clients \<Rightarrow> bool" where
  "clients_ok m \<longleftrightarrow> gm_ok m \<and> (\<forall>(k, v) \<in> set m. dc_IP v = k)"

lemma clients_ok_Nil [simp]: "clients_ok []"
  by (simp add: clients_ok_def)

lemma clients_ok_put: "clients_ok m \<Longrightarrow> clients_ok (gm_put (dc_IP c) c m)"
  by (auto simp: clients_ok_def in_set_gm_put)

lemma clients_ok_get: "clients_ok m \<Longrightarrow> gm_get m k = Some c \<Longrightarrow> dc_IP c = k"
  by (auto simp: clients_ok_def dest!: map_of_SomeD)

text \<open>The clients of the lines, where the feature is set.\<close>

definition lease_clients :: "Subnet \<Rightarrow> string list \<Rightarrow> DhcpClientInfo list" where
  "lease_clients sn lines =
     concat (map (\<lambda>l. case lease_client sn l of Inr (Some c) \<Rightarrow> [c] | _ \<Rightarrow> []) lines)"

lemma lease_client_total:
  "sp_Feature (sn_Spec sn) = Some ft \<Longrightarrow> \<exists>oc. lease_client sn line = Inr oc"
  by (auto simp: lease_client_def Let_def split: option.splits)

definition put_all :: "DhcpClientInfo list \<Rightarrow> clients \<Rightarrow> clients" where
  "put_all cs m = foldl (\<lambda>m c. gm_put (dc_IP c) c m) m cs"

lemma put_all_ok: "clients_ok m \<Longrightarrow> clients_ok (put_all cs m)"
  unfolding put_all_def by (induction cs arbitrary: m) (auto intro: clients_ok_put)

text \<open>Under an address stands the last client that was put there.\<close>

lemma put_all_get:
  "gm_get (put_all cs m) ip =
     (case filter (\<lambda>c. dc_IP c = ip) cs of [] \<Rightarrow> gm_get m ip | f \<Rightarrow> Some (last f))"
proof (induction cs rule: rev_induct)
  case Nil
  then show ?case by (simp add: put_all_def)
next
  case (snoc c cs)
  then show ?case by (auto simp: put_all_def split: list.splits)
qed

lemma put_all_in:
  "gm_get (put_all cs []) ip = Some c \<Longrightarrow> c \<in> set cs \<and> dc_IP c = ip"
proof -
  let ?f = "filter (\<lambda>c. dc_IP c = ip) cs"
  assume "gm_get (put_all cs []) ip = Some c"
  then have "?f \<noteq> []" "c = last ?f"
    by (auto simp: put_all_get split: list.splits)
  then have "c \<in> set ?f" using last_in_set by blast
  then show ?thesis by simp
qed

lemma put_all_distinct:
  assumes "distinct (map dc_IP cs)" "c \<in> set cs"
  shows "gm_get (put_all cs m) (dc_IP c) = Some c"
proof -
  have "filter (\<lambda>d. dc_IP d = dc_IP c) cs = [c]"
    using assms by (induction cs) (auto simp: filter_empty_conv image_iff)
  then show ?thesis by (simp add: put_all_get)
qed

lemma put_all_None: "gm_get (put_all cs []) ip = None \<longleftrightarrow> ip \<notin> dc_IP ` set cs"
proof -
  have "filter (\<lambda>c. dc_IP c = ip) cs = [] \<longleftrightarrow> ip \<notin> dc_IP ` set cs"
    by (auto simp: filter_empty_conv)
  then show ?thesis by (cases "filter (\<lambda>c. dc_IP c = ip) cs") (simp_all add: put_all_get)
qed

lemma lease_loop_eq:
  assumes ft: "sp_Feature (sn_Spec sn) = Some ft"
  shows "lease_loop sn prev lines acc = Inr
    \<lparr>la_current = put_all (lease_clients sn lines) (la_current acc),
     la_sent = la_sent acc @ (if sync_Enabled (ft_SyncRedfishstatus ft)
        then filter (\<lambda>c. fst (lease_event prev c)) (lease_clients sn lines) else []),
     la_changed = (la_changed acc \<or> (\<exists>c \<in> set (lease_clients sn lines). snd (lease_event prev c)))\<rparr>"
proof (induction lines arbitrary: acc)
  case Nil
  then show ?case by (simp add: lease_clients_def put_all_def)
next
  case (Cons line lines)
  obtain oc where oc: "lease_client sn line = Inr oc" using lease_client_total [OF ft] by blast
  show ?case
  proof (cases oc)
    case None
    with oc Cons show ?thesis by (simp add: lease_one_def lease_clients_def)
  next
    case (Some c)
    with oc Cons ft show ?thesis
      by (auto simp: lease_one_def lease_clients_def put_all_def sync_enabled_def case_prod_unfold Let_def)
  qed
qed

lemma deleted_loop_eq:
  assumes ft: "sp_Feature (sn_Spec sn) = Some ft"
  shows "deleted_loop sn cur prev = Inr
    (if sync_Enabled (ft_SyncRedfishstatus ft)
     then map (\<lambda>(k, c). c\<lparr>dc_Active := False\<rparr>) (filter (\<lambda>(k, c). gm_get cur (dc_IP c) = None) prev) else [])"
proof (induction prev)
  case (Cons kc prev)
  obtain k c where kc: "kc = (k, c)" by (cases kc)
  have s: "sync_enabled sn = Inr (sync_Enabled (ft_SyncRedfishstatus ft))"
    using ft by (simp add: sync_enabled_def)
  show ?case using Cons.IH by (cases "gm_get cur (dc_IP c)") (simp_all add: kc s)
qed simp

text \<open>A pass over a readable lease file of a subnet with its feature set.\<close>

lemma processDhcpLease_eq:
  assumes "sp_Feature (sn_Spec (dv_subnet s)) = Some ft" "read_file os fs (dv_leasePath s) = Inr content"
  defines "cs \<equiv> lease_clients (dv_subnet s) (split_on (CHR 0x0A) content)"
  shows "processDhcpLease os fs ign s =
    (Inr (\<exists>c \<in> set cs. snd (lease_event (dv_currentLeaseClients s) c)),
     s\<lparr>dv_addedDhcpClient := dv_addedDhcpClient s @ (if sync_Enabled (ft_SyncRedfishstatus ft)
          then filter (\<lambda>c. fst (lease_event (dv_currentLeaseClients s) c)) cs else []),
       dv_deletedDhcpClient := dv_deletedDhcpClient s @ (if sync_Enabled (ft_SyncRedfishstatus ft)
          then map (\<lambda>(k, c). c\<lparr>dc_Active := False\<rparr>)
            (filter (\<lambda>(k, c). gm_get (put_all cs []) (dc_IP c) = None) (dv_currentLeaseClients s)) else []),
       dv_currentLeaseClients := put_all cs []\<rparr>)"
  using assms(2)
  by (simp add: processDhcpLease_def lease_loop_eq [OF assms(1)] deleted_loop_eq [OF assms(1)] cs_def)

text \<open>When an event is due for a client.\<close>

lemma lease_event_fst:
  "fst (lease_event prev c) \<longleftrightarrow>
     (case gm_get prev (dc_IP c) of None \<Rightarrow> True
      | Some d \<Rightarrow> (dc_MAC d, dc_Hostname d, dc_DhcpExpireTime d) \<noteq> (dc_MAC c, dc_Hostname c, dc_DhcpExpireTime c))"
  by (auto simp: lease_event_def split: option.splits)

lemma lease_event_snd: "snd (lease_event prev c) \<Longrightarrow> fst (lease_event prev c)"
  by (auto simp: lease_event_def split: option.splits if_splits)

lemma lease_event_same: "gm_get prev (dc_IP c) = Some c \<Longrightarrow> lease_event prev c = (False, False)"
  by (simp add: lease_event_def)

section \<open>Facts about the status\<close>

lemma bind_loop_ok: "gm_ok m \<Longrightarrow> gm_ok (fst (bind_loop fmt cs (m, n)))"
  by (induction cs arbitrary: m n) auto

lemma bind_loop_map:
  "gm_ok cs \<Longrightarrow> gm_get (fst (bind_loop fmt cs (m, n))) ip =
    (case gm_get cs ip of
       Some c \<Rightarrow> Some \<lparr>ci_Mac = dc_MAC c, ci_IsBound = True, ci_IsAllocated = False, ci_Hostname = dc_Hostname c,
          ci_DhcpExpireTime = (if dc_DhcpExpireTime c \<noteq> zero_time then fmt (dc_DhcpExpireTime c) else [])\<rparr>
     | None \<Rightarrow> gm_get m ip)"
proof (induction cs arbitrary: m n)
  case (Cons kc cs)
  obtain k c where kc: "kc = (k, c)" by (cases kc)
  have "gm_get cs k = None" using Cons.prems kc by (auto simp: map_of_eq_None_iff)
  with Cons kc show ?case by (auto split: option.splits)
qed simp

lemma bind_loop_count: "snd (bind_loop fmt cs (m, n)) = n + of_nat (length cs)"
  by (induction cs arbitrary: m n) auto

lemma lease_status_loop_ok: "gm_ok m \<Longrightarrow> gm_ok (fst (lease_status_loop fmt cs (m, n)))"
  by (induction cs arbitrary: m n) (auto split: option.splits)

lemma lease_status_loop_map:
  "gm_ok cs \<Longrightarrow> gm_get (fst (lease_status_loop fmt cs (m, n))) ip =
    (case gm_get cs ip of
       Some c \<Rightarrow> Some \<lparr>ci_Mac = dc_MAC c, ci_IsBound = (case gm_get m ip of None \<Rightarrow> False | Some e \<Rightarrow> ci_IsBound e),
          ci_IsAllocated = True, ci_Hostname = dc_Hostname c, ci_DhcpExpireTime = fmt (dc_DhcpExpireTime c)\<rparr>
     | None \<Rightarrow> gm_get m ip)"
proof (induction cs arbitrary: m n)
  case (Cons kc cs)
  obtain k c where kc: "kc = (k, c)" by (cases kc)
  have "gm_get cs k = None" using Cons.prems kc by (auto simp: map_of_eq_None_iff)
  with Cons kc show ?case by (auto split: option.splits)
qed simp

lemma lease_status_loop_count:
  "n = of_nat (length m) \<Longrightarrow>
   snd (lease_status_loop fmt cs (m, n)) = of_nat (length (fst (lease_status_loop fmt cs (m, n))))"
proof (induction cs arbitrary: m n)
  case (Cons kc cs)
  obtain k c where kc: "kc = (k, c)" by (cases kc)
  show ?case
  proof (cases "gm_get m k")
    case None
    then have "k \<notin> fst ` set m" by (simp add: map_of_eq_None_iff)
    then have l: "length (gm_put k v m) = length m + 1" for v by (simp add: gm_put_new)
    have "n + 1 = of_nat (length (gm_put k v m))" for v unfolding l using Cons.prems by simp
    from Cons.IH [OF this] None kc show ?thesis by simp
  next
    case (Some e)
    then have l: "length (gm_put k v m) = length m" for v
      unfolding gm_put_def by (induction m) (auto split: if_splits)
    have "n = of_nat (length (gm_put k v m))" for v unfolding l using Cons.prems by simp
    from Cons.IH [OF this] Some kc show ?thesis by simp
  qed
qed simp

text \<open>
  \<open>on_error\<close> succeeds exactly if one of its attempts does and all before it failed with a
  retriable error.
\<close>

lemma on_error_ok:
  "fst (on_error n retriable attempt i) = Inr () \<longleftrightarrow>
     (\<exists>k < n. fst (attempt (i + k)) = Inr ()
        \<and> (\<forall>j < k. \<exists>e. fst (attempt (i + j)) = Inl e \<and> retriable e))"
proof (induction n arbitrary: i)
  case (Suc n)
  let ?fails = "\<lambda>m. \<exists>e. fst (attempt m) = Inl e \<and> retriable e"
  have "fst (on_error (Suc n) retriable attempt i) = Inr () \<longleftrightarrow> fst (attempt i) = Inr ()
      \<or> ?fails i \<and> n > 0 \<and> fst (on_error n retriable attempt (Suc i)) = Inr ()"
    by (cases "fst (attempt i)") (auto simp: Let_def case_prod_unfold)
  also have "\<dots> \<longleftrightarrow> fst (attempt i) = Inr ()
      \<or> (\<exists>k < n. fst (attempt (Suc i + k)) = Inr () \<and> ?fails i \<and> (\<forall>j < k. ?fails (Suc i + j)))"
    unfolding Suc.IH by auto
  also have "\<dots> \<longleftrightarrow> (\<exists>k < Suc n. fst (attempt (i + k)) = Inr () \<and> (\<forall>j < k. ?fails (i + j)))"
    unfolding Ex_less_Suc2 All_less_Suc2 by simp
  finally show ?case .
qed simp

lemma on_error_writes: "length (snd (on_error n retriable attempt i)) \<le> n"
proof (induction n arbitrary: i)
  case (Suc n)
  obtain r w where a: "attempt i = (r, w)" by (cases "attempt i")
  show ?case using Suc.IH [of "Suc i"] a
    by (cases r; cases w) (auto simp: Let_def case_prod_unfold)
qed simp

lemma worker_update_iff:
  assumes "WStop \<notin> set es" "i < length es"
  shows "length (statusUpdateWorker pending es) = length es
    \<and> (statusUpdateWorker pending es ! i \<longleftrightarrow> es ! i = WTick
       \<and> ((\<exists>j < i. es ! j = WNotify \<and> (\<forall>k. j < k \<and> k < i \<longrightarrow> es ! k \<noteq> WTick))
          \<or> (pending \<and> (\<forall>k < i. es ! k \<noteq> WTick))))"
  using assms
proof (induction es arbitrary: pending i)
  case (Cons e es)
  obtain pending' u where st: "worker_step pending e = (Some pending', u)"
    using Cons.prems(1) by (cases e) auto
  have l: "length (statusUpdateWorker pending' es) = length es"
    using Cons.IH [of 0 pending'] Cons.prems by (cases es) auto
  show ?case
  proof (cases i)
    case 0
    with st l show ?thesis by (cases e) auto
  next
    case (Suc i')
    have "statusUpdateWorker pending' es ! i' \<longleftrightarrow> es ! i' = WTick
       \<and> ((\<exists>j < i'. es ! j = WNotify \<and> (\<forall>k. j < k \<and> k < i' \<longrightarrow> es ! k \<noteq> WTick))
          \<or> (pending' \<and> (\<forall>k < i'. es ! k \<noteq> WTick)))"
      using Cons.IH [of i' pending'] Cons.prems Suc by auto
    moreover have "(\<exists>j < Suc i'. (e # es) ! j = WNotify \<and> (\<forall>k. j < k \<and> k < Suc i' \<longrightarrow> (e # es) ! k \<noteq> WTick))
      \<longleftrightarrow> (e = WNotify \<and> (\<forall>k < i'. es ! k \<noteq> WTick))
        \<or> (\<exists>j < i'. es ! j = WNotify \<and> (\<forall>k. j < k \<and> k < i' \<longrightarrow> es ! k \<noteq> WTick))"
      (is "?L \<longleftrightarrow> ?A \<or> ?B")
    proof
      assume ?L
      then obtain j where j: "j < Suc i'" "(e # es) ! j = WNotify"
        "\<And>k. j < k \<Longrightarrow> k < Suc i' \<Longrightarrow> (e # es) ! k \<noteq> WTick" by blast
      show "?A \<or> ?B"
      proof (cases j)
        case 0
        with j(2) j(3) [of "Suc k" for k] show ?thesis by auto
      next
        case (Suc j')
        with j(1,2) j(3) [of "Suc k" for k] show ?thesis by auto
      qed
    next
      assume "?A \<or> ?B"
      then show ?L
      proof
        assume ?A
        then show ?L by (intro exI [of _ 0]) (auto simp: nth_Cons')
      next
        assume ?B
        then obtain j where "j < i'" "es ! j = WNotify" "\<forall>k. j < k \<and> k < i' \<longrightarrow> es ! k \<noteq> WTick" by blast
        then show ?L by (intro exI [of _ "Suc j"]) (auto simp: nth_Cons split: nat.splits)
      qed
    qed
    moreover have "(\<forall>k < Suc i'. (e # es) ! k \<noteq> WTick) \<longleftrightarrow> e \<noteq> WTick \<and> (\<forall>k < i'. es ! k \<noteq> WTick)"
      by (metis Suc_less_eq less_Suc_eq_0_disj nth_Cons_0 nth_Cons_Suc)
    ultimately show ?thesis using st l Suc by (cases e) auto
  qed
qed simp

section \<open>Properties\<close>

text \<open>Two leases of one address the Redfish part need not tell apart.\<close>

definition same_lease :: "DhcpClientInfo \<Rightarrow> DhcpClientInfo \<Rightarrow> bool" where
  "same_lease d c \<longleftrightarrow>
     dc_MAC d = dc_MAC c \<and> dc_Hostname d = dc_Hostname c \<and> dc_DhcpExpireTime d = dc_DhcpExpireTime c"

lemma lease_event_iff:
  "fst (lease_event prev c) \<longleftrightarrow> \<not> (\<exists>d. gm_get prev (dc_IP c) = Some d \<and> same_lease d c)"
  by (auto simp: lease_event_fst same_lease_def split: option.splits)

text \<open>
  What a lease file says, line by line: a lease is a line of at least five fields whose first is a
  number (0 stands for a lease without end), followed by MAC, address and host name.
\<close>

definition lease_line :: "string \<Rightarrow> bool" where
  "lease_line l \<longleftrightarrow> 5 \<le> length (str_fields l) \<and> parse_int64 (str_fields l ! 0) \<noteq> None"

definition line_client :: "Subnet \<Rightarrow> FeatureSpec \<Rightarrow> string \<Rightarrow> DhcpClientInfo" where
  "line_client sn ft l =
     (let sync = ft_SyncRedfishstatus ft in
      \<lparr>dc_MAC = str_fields l ! 1, dc_IP = str_fields l ! 2, dc_Hostname = str_fields l ! 3, dc_Active = True,
       dc_DhcpExpireTime = the (parse_int64 (str_fields l ! 0)),
       dc_Subnet = v4_Subnet (sp_IPv4Subnet (sn_Spec sn)), dc_SubnetName = om_Name (sn_Meta sn),
       dc_ClusterName = (case sync_DefaultClusterName sync of None \<Rightarrow> [] | Some c \<Rightarrow> c),
       dc_EnableBindIpForRedfishstatus = Some (sync_Enabled sync \<and> sync_EnableBindDhcpIP sync)\<rparr>)"

lemma str_fields_Nil [simp]: "str_fields [] = []"
  by (simp add: str_fields_def)

lemma lease_clients_lines:
  assumes "sp_Feature (sn_Spec sn) = Some ft"
  shows "lease_clients sn lines = map (line_client sn ft) (filter lease_line lines)"
proof (induction lines)
  case (Cons l lines)
  have "(case lease_client sn l of Inr (Some c) \<Rightarrow> [c] | _ \<Rightarrow> []) =
      (if lease_line l then [line_client sn ft l] else [])"
    using assms by (auto simp: lease_client_def lease_line_def line_client_def Let_def split: option.splits)
  with Cons show ?case by (simp add: lease_clients_def)
qed (simp add: lease_clients_def)

lemma lease_event_snd_iff:
  "snd (lease_event prev c) \<longleftrightarrow>
     (\<forall>d. gm_get prev (dc_IP c) = Some d \<longrightarrow> dc_MAC d \<noteq> dc_MAC c \<or> dc_Hostname d \<noteq> dc_Hostname c)"
  by (auto simp: lease_event_def split: option.splits)

text \<open>The clients reported as deleted are those whose address stands in no line.\<close>

lemma deleted_set:
  assumes "clients_ok prev"
  shows "set (map (\<lambda>(k, c). c\<lparr>dc_Active := False\<rparr>) (filter (\<lambda>(k, c). gm_get (put_all cs []) (dc_IP c) = None) prev))
    = {c\<lparr>dc_Active := False\<rparr> | ip c. gm_get prev ip = Some c \<and> ip \<notin> dc_IP ` set cs}"
proof -
  have p: "(k, c) \<in> set prev \<longleftrightarrow> gm_get prev k = Some c" for k c
    using assms by (auto simp: clients_ok_def)
  have ip: "dc_IP c = k" if "gm_get prev k = Some c" for k c
    using assms that by (rule clients_ok_get)
  have "set (map (\<lambda>(k, c). c\<lparr>dc_Active := False\<rparr>) (filter (\<lambda>(k, c). gm_get (put_all cs []) (dc_IP c) = None) prev))
      = {c\<lparr>dc_Active := False\<rparr> | k c. (k, c) \<in> set prev \<and> gm_get (put_all cs []) (dc_IP c) = None}"
    by force
  then show ?thesis unfolding p put_all_None using ip by blast
qed

text \<open>Property C4: a pass over the lease file of a subnet that synchronises Redfish hosts, whose known
  clients are keyed by address, takes over exactly what the file says: under an address stands the
  client of the last lease line with that address, and nothing under an address no lease line has;
  an event is sent, in the order of the file, for exactly the lease lines whose address was unknown
  or whose MAC, host name or expiry differs from the last pass; exactly the known clients whose
  address no lease line has are reported as inactive; and a change is reported exactly if some
  lease line has an unknown address or another MAC or host name than at the last pass.\<close>

theorem processDhcpLease_events:
  assumes "sp_Feature (sn_Spec (dv_subnet s)) = Some ft" "sync_Enabled (ft_SyncRedfishstatus ft)"
    and "clients_ok (dv_currentLeaseClients s)"
    and "read_file os fs (dv_leasePath s) = Inr content"
    and "processDhcpLease os fs ign s = (Inr flag, s')"
    and "cs = map (line_client (dv_subnet s) ft) (filter lease_line (split_on (CHR 0x0A) content))"
    and "known = (\<lambda>ip. gm_get (dv_currentLeaseClients s) ip)"
  shows "clients_ok (dv_currentLeaseClients s')
    \<and> (\<forall>ip. gm_get (dv_currentLeaseClients s') ip =
         (case filter (\<lambda>c. dc_IP c = ip) cs of [] \<Rightarrow> None | found \<Rightarrow> Some (last found)))
    \<and> dv_addedDhcpClient s' = dv_addedDhcpClient s @
         filter (\<lambda>c. \<not> (\<exists>d. known (dc_IP c) = Some d \<and> same_lease d c)) cs
    \<and> (\<exists>deleted. dv_deletedDhcpClient s' = dv_deletedDhcpClient s @ deleted
         \<and> set deleted = {c\<lparr>dc_Active := False\<rparr> | ip c. known ip = Some c \<and> ip \<notin> dc_IP ` set cs})
    \<and> (flag \<longleftrightarrow> (\<exists>c \<in> set cs. \<forall>d. known (dc_IP c) = Some d \<longrightarrow>
         dc_MAC d \<noteq> dc_MAC c \<or> dc_Hostname d \<noteq> dc_Hostname c))"
proof -
  have cs: "lease_clients (dv_subnet s) (split_on (CHR 0x0A) content) = cs"
    by (simp add: lease_clients_lines [OF assms(1)] assms(6))
  have cur: "dv_currentLeaseClients s' = put_all cs []"
    and added: "dv_addedDhcpClient s' = dv_addedDhcpClient s @
      filter (\<lambda>c. fst (lease_event (dv_currentLeaseClients s) c)) cs"
    and deleted: "dv_deletedDhcpClient s' = dv_deletedDhcpClient s @ map (\<lambda>(k, c). c\<lparr>dc_Active := False\<rparr>)
      (filter (\<lambda>(k, c). gm_get (put_all cs []) (dc_IP c) = None) (dv_currentLeaseClients s))"
    and flag: "flag \<longleftrightarrow> (\<exists>c \<in> set cs. snd (lease_event (dv_currentLeaseClients s) c))"
    using processDhcpLease_eq [OF assms(1,4), of ign] assms(2,5) by (auto simp: cs)
  have "\<forall>ip. gm_get (dv_currentLeaseClients s') ip =
      (case filter (\<lambda>c. dc_IP c = ip) cs of [] \<Rightarrow> None | found \<Rightarrow> Some (last found))"
    by (auto simp: cur put_all_get split: list.split)
  moreover have "clients_ok (dv_currentLeaseClients s')" by (simp add: cur put_all_ok)
  ultimately show ?thesis
    using added deleted deleted_set [OF assms(3), of cs] flag
    unfolding assms(7) lease_event_iff lease_event_snd_iff by blast
qed

text \<open>Property C5: a second pass over an unchanged lease file, one lease per address, reports no
  change, sends no event and leaves the state as it is.\<close>

theorem processDhcpLease_idempotent:
  assumes "sp_Feature (sn_Spec (dv_subnet s)) = Some ft"
    and "read_file os fs (dv_leasePath s) = Inr content"
    and "distinct (map dc_IP (lease_clients (dv_subnet s) (split_on (CHR 0x0A) content)))"
    and "processDhcpLease os fs ign s = (Inr flag, s')"
  shows "processDhcpLease os fs ign s' = (Inr False, s')"
proof -
  define cs where "cs = lease_clients (dv_subnet s) (split_on (CHR 0x0A) content)"
  have s': "dv_currentLeaseClients s' = put_all cs []" "dv_subnet s' = dv_subnet s" "dv_leasePath s' = dv_leasePath s"
    using processDhcpLease_eq [OF assms(1,2), of ign] assms(4) by (auto simp: cs_def)
  have no_event: "lease_event (put_all cs []) c = (False, False)" if "c \<in> set cs" for c
    using that assms(3) by (intro lease_event_same) (simp add: put_all_distinct cs_def)
  have no_delete: "filter (\<lambda>(k, c). gm_get (put_all cs []) (dc_IP c) = None) (put_all cs []) = []"
  proof -
    have "clients_ok (put_all cs [])" by (simp add: put_all_ok)
    then show ?thesis by (force simp: clients_ok_def filter_empty_conv)
  qed
  have ft': "sp_Feature (sn_Spec (dv_subnet s')) = Some ft" using assms(1) s'(2) by simp
  have rd': "read_file os fs (dv_leasePath s') = Inr content" using assms(2) s'(3) by simp
  have cs': "lease_clients (dv_subnet s') (split_on (CHR 0x0A) content) = cs" by (simp add: cs_def s'(2))
  have none: "filter (\<lambda>c. fst (lease_event (put_all cs []) c)) cs = []"
    "(\<exists>c \<in> set cs. snd (lease_event (put_all cs []) c)) = False"
    using no_event by (auto simp: filter_empty_conv)
  show ?thesis
    unfolding processDhcpLease_eq [OF ft' rd'] cs' s'(1) none no_delete by (simp flip: s'(1))
qed

definition example_client :: DhcpClientInfo where
  "example_client = \<lparr>dc_MAC = ''00:11:22:33:44:55'', dc_IP = ''10.0.0.1'', dc_Hostname = ''h'', dc_Active = True,
     dc_DhcpExpireTime = 0, dc_Subnet = [], dc_SubnetName = [], dc_ClusterName = [],
     dc_EnableBindIpForRedfishstatus = None\<rparr>"

definition example_leases :: string where
  "example_leases = ''1735689600 00:11:22:33:44:55 192.168.1.10 host1 *'' @ [CHR 0x0A]
     @ ''1735689700 00:11:22:33:44:56 192.168.1.11 host2 *'' @ [CHR 0x0A]"

definition example_server :: dhcpServer where
  "example_server = NewDhcpServer example_config example_subnet"

definition example_files :: files where
  "example_files = (\<lambda>p. if p = dv_leasePath example_server then Some example_leases else None)"

lemma example_server_simps:
  "dv_subnet example_server = example_subnet" "dv_currentLeaseClients example_server = []"
  "dv_addedDhcpClient example_server = []" "dv_currentManualBindingClients example_server = []"
  "sp_Feature (sn_Spec example_subnet) = Some example_feature"
  "sync_Enabled (ft_SyncRedfishstatus example_feature)"
  by (simp_all add: example_server_def NewDhcpServer_def Let_def example_subnet_def example_feature_def)

lemma example_read:
  "read_file (\<lambda>_. None) example_files (dv_leasePath example_server) = Inr example_leases"
  by (simp add: read_file_def example_files_def os_do_def)

lemma example_ips:
  "map dc_IP (lease_clients example_subnet (split_on (CHR 0x0A) example_leases)) = [''192.168.1.10'', ''192.168.1.11'']"
  by code_simp

lemma processDhcpLease_events_witness:
  "\<exists>s'. processDhcpLease (\<lambda>_. None) example_files True example_server = (Inr True, s')
     \<and> map dc_IP (dv_addedDhcpClient s') = [''192.168.1.10'', ''192.168.1.11'']
     \<and> gm_get (dv_currentLeaseClients s') ''192.168.1.10'' =
         Some (line_client example_subnet example_feature ''1735689600 00:11:22:33:44:55 192.168.1.10 host1 *'')"
proof -
  let ?lines = "split_on (CHR 0x0A) example_leases"
  let ?cs = "map (line_client example_subnet example_feature) (filter lease_line ?lines)"
  note ft = example_server_simps(5) [folded example_server_simps(1)]
  have lines: "filter lease_line ?lines = [''1735689600 00:11:22:33:44:55 192.168.1.10 host1 *'',
      ''1735689700 00:11:22:33:44:56 192.168.1.11 host2 *'']" by code_simp
  have ips: "map dc_IP ?cs = [''192.168.1.10'', ''192.168.1.11'']" by code_simp
  have en: "sync_Enabled (ft_SyncRedfishstatus example_feature)" "clients_ok (dv_currentLeaseClients example_server)"
    by (simp_all add: example_server_simps)
  obtain flag s' where p: "processDhcpLease (\<lambda>_. None) example_files True example_server = (Inr flag, s')"
    using processDhcpLease_eq [OF ft example_read, of True] by blast
  have cs: "?cs = map (line_client (dv_subnet example_server) example_feature) (filter lease_line ?lines)"
    by (simp add: example_server_simps)
  have ev: "dv_addedDhcpClient s' = ?cs" "flag"
    "gm_get (dv_currentLeaseClients s') ''192.168.1.10'' = Some (hd ?cs)"
    using processDhcpLease_events [OF ft en example_read p cs refl] ips
    by (simp_all add: example_server_simps lines) blast
  with p ips show ?thesis by (simp add: lines)
qed

lemma processDhcpLease_idempotent_witness:
  "\<exists>s'. processDhcpLease (\<lambda>_. None) example_files True example_server = (Inr True, s')
     \<and> processDhcpLease (\<lambda>_. None) example_files True s' = (Inr False, s')"
proof -
  note ft = example_server_simps(5) [folded example_server_simps(1)]
  have ne: "lease_clients example_subnet (split_on (CHR 0x0A) example_leases) \<noteq> []"
    using example_ips by auto
  obtain s' where p: "processDhcpLease (\<lambda>_. None) example_files True example_server = (Inr True, s')"
  proof -
    have "\<exists>c \<in> set (lease_clients example_subnet (split_on (CHR 0x0A) example_leases)). snd (lease_event [] c)"
      using ne by (cases "lease_clients example_subnet (split_on (CHR 0x0A) example_leases)")
        (auto simp: lease_event_def)
    then show ?thesis using that processDhcpLease_eq [OF ft example_read, of True]
      by (simp add: example_server_simps)
  qed
  from processDhcpLease_idempotent [OF ft example_read _ p] p show ?thesis
    by (simp add: example_server_simps(1) example_ips)
qed

text \<open>The amount of used addresses that \<open>updateClientFunc\<close> reports is the number of
  distinct addresses that are leased, bound or both.\<close>

theorem updateClientFunc_counter:
  assumes "gm_ok leases" "gm_ok bindings"
  shows "snd (updateClientFunc fmt leases bindings) = of_nat (card (fst ` set leases \<union> fst ` set bindings))"
proof -
  let ?b = "bind_loop fmt bindings ([], 0)"
  let ?m = "fst (lease_status_loop fmt leases ?b)"
  obtain bm bn where b: "?b = (bm, bn)" by (cases ?b)
  have bm: "gm_ok bm" using bind_loop_ok [of "[]" fmt bindings 0] by (simp add: b)
  have dom: "fst ` set bm = fst ` set bindings"
    using bind_loop_map [OF assms(2), of fmt "[]" 0]
    by (simp add: gm_keys_dom b) (auto simp: dom_def split: option.splits)
  have "bn = of_nat (length bm)"
  proof -
    have "bn = of_nat (length bindings)" using bind_loop_count [of fmt bindings "[]" 0] by (simp add: b)
    then show ?thesis using gm_length_eq_card assms(2) bm dom by metis
  qed
  then have "snd (lease_status_loop fmt leases ?b) = of_nat (length ?m)"
    unfolding b by (rule lease_status_loop_count)
  moreover have "length ?m = card (fst ` set leases \<union> fst ` set bindings)"
  proof -
    have "gm_ok ?m" unfolding b by (rule lease_status_loop_ok [OF bm])
    moreover have "fst ` set ?m = fst ` set leases \<union> fst ` set bm"
      using lease_status_loop_map [OF assms(1), of fmt bm bn]
      by (simp add: gm_keys_dom b) (auto simp: dom_def split: option.splits)
    ultimately show ?thesis using gm_length_eq_card dom by metis
  qed
  ultimately show ?thesis by (auto simp: updateClientFunc_def case_prod_unfold Let_def)
qed

lemma updateClientFunc_counter_witness:
  "snd (updateClientFunc (\<lambda>_. []) [(''10.0.0.1'', example_client), (''10.0.0.2'', example_client)]
     [(''10.0.0.2'', example_client)]) = 2"
  by (subst updateClientFunc_counter) (simp_all add: insert_commute)

text \<open>The published details do not depend on the order in which Go iterates over the
  two maps.\<close>

theorem updateClientFunc_order:
  assumes "gm_ok leases" "gm_ok bindings" "gm_ok leases'" "gm_ok bindings'"
    and "gm_get leases = gm_get leases'" "gm_get bindings = gm_get bindings'"
  shows "updateClientFunc fmt leases bindings = updateClientFunc fmt leases' bindings'"
proof -
  let ?m = "\<lambda>l b. fst (lease_status_loop fmt l (bind_loop fmt b ([], 0)))"
  have fst_eq: "fst (updateClientFunc fmt l b) = (if ?m l b = [] then ''{}'' else marshal_clients (?m l b))" for l b
    by (auto simp: updateClientFunc_def case_prod_unfold Let_def)
  have ok: "gm_ok (?m l b)" for l b
    using bind_loop_ok [of "[]" fmt b 0] lease_status_loop_ok
    by (metis (no_types, lifting) distinct.simps(1) list.simps(8) prod.collapse)
  have get: "gm_get (?m leases bindings) = gm_get (?m leases' bindings')"
  proof
    fix ip
    have b: "gm_get (fst (bind_loop fmt bindings ([], 0))) ip = gm_get (fst (bind_loop fmt bindings' ([], 0))) ip"
      using assms(2,4,6) by (simp add: bind_loop_map)
    show "gm_get (?m leases bindings) ip = gm_get (?m leases' bindings') ip"
      using lease_status_loop_map [OF assms(1), of fmt "fst (bind_loop fmt bindings ([], 0))"
          "snd (bind_loop fmt bindings ([], 0))" ip]
        lease_status_loop_map [OF assms(3), of fmt "fst (bind_loop fmt bindings' ([], 0))"
          "snd (bind_loop fmt bindings' ([], 0))" ip] assms(5) b
      by (simp split: option.splits)
  qed
  have "sorted_entries (?m leases bindings) = sorted_entries (?m leases' bindings')"
    by (intro sorted_entries_eq ok get)
  moreover have "?m leases bindings = [] \<longleftrightarrow> ?m leases' bindings' = []"
    using get by (metis map_of_eq_empty_iff)
  ultimately have "fst (updateClientFunc fmt leases bindings) = fst (updateClientFunc fmt leases' bindings')"
    by (simp add: fst_eq marshal_clients_def)
  moreover have "snd (updateClientFunc fmt leases bindings) = snd (updateClientFunc fmt leases' bindings')"
    using assms by (simp add: updateClientFunc_counter gm_keys_dom)
  ultimately show ?thesis by (rule prod_eqI)
qed

lemma updateClientFunc_order_witness:
  "updateClientFunc (\<lambda>_. []) [(''10.0.0.1'', example_client), (''10.0.0.2'', example_client)] []
     = updateClientFunc (\<lambda>_. []) [(''10.0.0.2'', example_client), (''10.0.0.1'', example_client)] []"
  by (rule updateClientFunc_order) (auto simp: fun_eq_iff)

text \<open>Property C21: \<open>updateSubnetWithRetry\<close> returns nil exactly if one of at most five attempts
  succeeds after attempts that all failed with a conflict, and it makes at most five writes.\<close>

theorem updateSubnetWithRetry_result:
  "(fst (updateSubnetWithRetry fmt now got answer s) = Inr () \<longleftrightarrow>
     (\<exists>k < 5. fst (update_attempt fmt (now k) s (got k) (answer k)) = Inr ()
        \<and> (\<forall>j < k. \<exists>e. fst (update_attempt fmt (now j) s (got j) (answer j)) = Inl e \<and> IsConflict e)))
   \<and> length (snd (updateSubnetWithRetry fmt now got answer s)) \<le> 5"
  unfolding updateSubnetWithRetry_def
  using on_error_ok [of 5 IsConflict "\<lambda>i. update_attempt fmt (now i) s (got i) (answer i)" 0] on_error_writes
  by simp

lemma updateSubnetWithRetry_result_witness:
  "fst (updateSubnetWithRetry (\<lambda>_. []) (\<lambda>_. []) (\<lambda>i. if i < 2 then Inl (ApiErr Conflict) else Inr example_subnet)
     (\<lambda>_ _. Inr ()) example_server) = Inr ()
   \<and> fst (updateSubnetWithRetry (\<lambda>_. []) (\<lambda>_. []) (\<lambda>i. if i < 5 then Inl (ApiErr Conflict) else Inr example_subnet)
     (\<lambda>_ _. Inr ()) example_server) \<noteq> Inr ()"
proof -
  have ok: "fst (update_attempt fmt now example_server (Inr sn) (\<lambda>_. Inr ())) = Inr ()" for fmt now sn
    by (simp add: update_attempt_def Let_def)
  have conflict: "fst (update_attempt fmt now example_server (Inl (ApiErr Conflict)) a) = Inl (ApiErr Conflict)"
    for fmt now a by (simp add: update_attempt_def)
  let ?g = "\<lambda>n i. if i < (n :: nat) then Inl (ApiErr Conflict) else Inr example_subnet"
  have "\<exists>k < 5. fst (update_attempt (\<lambda>_. []) [] example_server (?g 2 k) (\<lambda>_. Inr ())) = Inr ()
      \<and> (\<forall>j < k. \<exists>e. fst (update_attempt (\<lambda>_. []) [] example_server (?g 2 j) (\<lambda>_. Inr ())) = Inl e \<and> IsConflict e)"
    by (intro exI [of _ 2]) (simp add: ok conflict)
  moreover have "\<not> (\<exists>k < 5. fst (update_attempt (\<lambda>_. []) [] example_server (?g 5 k) (\<lambda>_. Inr ())) = Inr ()
      \<and> (\<forall>j < k. \<exists>e. fst (update_attempt (\<lambda>_. []) [] example_server (?g 5 j) (\<lambda>_. Inr ())) = Inl e \<and> IsConflict e))"
    by (simp add: conflict)
  ultimately show ?thesis
    using updateSubnetWithRetry_result [of "\<lambda>_. []" "\<lambda>_. []" "?g 2" "\<lambda>_ _. Inr ()" example_server]
      updateSubnetWithRetry_result [of "\<lambda>_. []" "\<lambda>_. []" "?g 5" "\<lambda>_ _. Inr ()" example_server]
    by simp
qed

text \<open>Once the wanted status has been stored, an update of the same server state makes
  no write, whatever the time.\<close>

theorem update_attempt_settles:
  "update_attempt fmt now' s (Inr (current\<lparr>sn_Status := wanted_status fmt now s (sn_Status current)\<rparr>)) answer
     = (Inr (), None)"
proof -
  have "wanted_status fmt now' s (wanted_status fmt now s st) = wanted_status fmt now s st" for st
    by (auto simp: wanted_status_def Let_def case_prod_unfold)
  then show ?thesis by (simp add: update_attempt_def Let_def)
qed

text \<open>While it is not stopped, the status worker updates the subnet at a tick exactly
  if it was notified since the tick before, so notifications are coalesced and none is lost.\<close>

theorem statusUpdateWorker_updates:
  assumes "WStop \<notin> set es" "i < length es"
  shows "statusUpdateWorker False es ! i \<longleftrightarrow> es ! i = WTick
     \<and> (\<exists>j < i. es ! j = WNotify \<and> (\<forall>k. j < k \<and> k < i \<longrightarrow> es ! k \<noteq> WTick))"
  using worker_update_iff [OF assms, of False] by simp

lemma statusUpdateWorker_updates_witness:
  "statusUpdateWorker False [WNotify, WNotify, WTick, WTick] ! 2
   \<and> \<not> statusUpdateWorker False [WNotify, WNotify, WTick, WTick] ! 3"
proof -
  let ?es = "[WNotify, WNotify, WTick, WTick]"
  have "\<exists>j < 2. ?es ! j = WNotify \<and> (\<forall>k. j < k \<and> k < 2 \<longrightarrow> ?es ! k \<noteq> WTick)"
    by (intro exI [of _ 1]) auto
  moreover have "\<not> (\<exists>j < 3. ?es ! j = WNotify \<and> (\<forall>k. j < k \<and> k < 3 \<longrightarrow> ?es ! k \<noteq> WTick))"
  proof
    assume "\<exists>j < 3. ?es ! j = WNotify \<and> (\<forall>k. j < k \<and> k < 3 \<longrightarrow> ?es ! k \<noteq> WTick)"
    then obtain j where j: "j < 3" "?es ! j = WNotify" and no: "\<forall>k. j < k \<and> k < 3 \<longrightarrow> ?es ! k \<noteq> WTick"
      by blast
    show False
    proof (cases "j = 2")
      case True
      with j(2) show ?thesis by simp
    next
      case False
      with j(1) no [THEN spec, of 2] show ?thesis by simp
    qed
  qed
  ultimately show ?thesis
    using statusUpdateWorker_updates [of ?es 2] statusUpdateWorker_updates [of ?es 3] by simp
qed

text \<open>Property C22: the address counts a server publishes for its subnet, for maps with one entry per
  address: the total is the number \<open>CountIPsInRange\<close> gives for the IP range, the active and the bound
  amounts are the numbers of leases and of bindings, and the available amount is the total less the
  number of distinct addresses that are leased or bound, whether in the range or not, so with
  more such addresses than the range has (and fewer than \<open>2 ^ 64\<close>) it wraps around below \<open>2 ^ 64\<close>.\<close>

theorem available_amount:
  assumes "gm_ok (dv_currentLeaseClients s)" "gm_ok (dv_currentManualBindingClients s)"
    and "CountIPsInRange (v4_IPRange (sp_IPv4Subnet (sn_Spec (dv_subnet s)))) = Inr n"
    and "used = card (dom (gm_get (dv_currentLeaseClients s)) \<union> dom (gm_get (dv_currentManualBindingClients s)))"
    and "used < 2 ^ 64"
  shows "\<exists>ds. ss_DhcpStatus (wanted_status fmt now s st) = Some ds
    \<and> ds_DhcpIpTotalAmount ds = n
    \<and> ds_DhcpIpActiveAmount ds = of_nat (length (dv_currentLeaseClients s))
    \<and> ds_DhcpIpBindAmount ds = of_nat (length (dv_currentManualBindingClients s))
    \<and> unat (ds_DhcpIpAvailableAmount ds) =
        (if used \<le> unat n then unat n - used else unat n + 2 ^ 64 - used)"
proof -
  have "snd (updateClientFunc fmt (dv_currentLeaseClients s) (dv_currentManualBindingClients s)) = of_nat used"
    using assms(1,2,4) by (simp add: updateClientFunc_counter gm_keys_dom)
  then have "ss_DhcpStatus (wanted_status fmt now s st) = Some \<lparr>ds_DhcpIpTotalAmount = n,
      ds_DhcpIpAvailableAmount = n - of_nat used,
      ds_DhcpIpActiveAmount = of_nat (length (dv_currentLeaseClients s)),
      ds_DhcpIpBindAmount = of_nat (length (dv_currentManualBindingClients s))\<rparr>"
    by (simp add: wanted_status_def assms(3) Let_def case_prod_unfold)
  moreover have "unat (n - of_nat used) =
      (if used \<le> unat n then unat n - used else unat n + 2 ^ 64 - used)"
  proof -
    have u: "unat (of_nat used :: 64 word) = used" using assms(5) by (simp add: unat_of_nat)
    show ?thesis unfolding unat_sub_if_size u by (simp add: word_size)
  qed
  ultimately show ?thesis by simp
qed

text \<open>Two leases left from before the IP range was cut down to one address: after the pass that
  reads them the subnet is told to have almost all 64-bit many addresses left.\<close>

lemma available_amount_witness:
  "\<exists>s s' ds. v4_IPRange (sp_IPv4Subnet (sn_Spec (dv_subnet s))) = ''192.168.1.30''
     \<and> processDhcpLease (\<lambda>_. None) example_files True s = (Inr True, s')
     \<and> ss_DhcpStatus (wanted_status (\<lambda>_. []) [] s' zero_subnet_status) = Some ds
     \<and> ds_DhcpIpTotalAmount ds = 1 \<and> unat (ds_DhcpIpAvailableAmount ds) = 2 ^ 64 - 1"
proof -
  define sp where "sp = (sn_Spec example_subnet)\<lparr>sp_IPv4Subnet := (sp_IPv4Subnet (sn_Spec example_subnet))
     \<lparr>v4_IPRange := ''192.168.1.30''\<rparr>\<rparr>"
  define s where "s = example_server\<lparr>dv_subnet := example_subnet\<lparr>sn_Spec := sp\<rparr>\<rparr>"
  have r: "v4_IPRange (sp_IPv4Subnet (sn_Spec (dv_subnet s))) = ''192.168.1.30''"
    by (simp add: s_def sp_def)
  have ft: "sp_Feature (sn_Spec (dv_subnet s)) = Some example_feature"
    by (simp add: s_def sp_def example_server_simps)
  have rd: "read_file (\<lambda>_. None) example_files (dv_leasePath s) = Inr example_leases"
    using example_read by (simp add: s_def)
  let ?cs = "lease_clients (dv_subnet s) (split_on (CHR 0x0A) example_leases)"
  have lines: "filter lease_line (split_on (CHR 0x0A) example_leases) =
      [''1735689600 00:11:22:33:44:55 192.168.1.10 host1 *'', ''1735689700 00:11:22:33:44:56 192.168.1.11 host2 *'']"
    by code_simp
  have f: "str_fields ''1735689600 00:11:22:33:44:55 192.168.1.10 host1 *'' ! 2 = ''192.168.1.10''"
    "str_fields ''1735689700 00:11:22:33:44:56 192.168.1.11 host2 *'' ! 2 = ''192.168.1.11''" by code_simp+
  have ips: "map dc_IP ?cs = [''192.168.1.10'', ''192.168.1.11'']"
    by (simp add: lease_clients_lines [OF ft] lines line_client_def Let_def f)
  have none: "dv_currentLeaseClients s = []" "dv_currentManualBindingClients s = []"
    by (simp_all add: s_def example_server_simps)
  have "?cs \<noteq> []" using ips by auto
  then have "\<exists>c \<in> set ?cs. snd (lease_event [] c)" by (cases ?cs) (auto simp: lease_event_def)
  then obtain s' where p: "processDhcpLease (\<lambda>_. None) example_files True s = (Inr True, s')"
    and s': "dv_currentLeaseClients s' = put_all ?cs []" "dv_currentManualBindingClients s' = []"
      "dv_subnet s' = dv_subnet s"
    using processDhcpLease_eq [OF ft rd, of True] by (simp add: none)
  have dom: "dom (gm_get (put_all ?cs [])) = dc_IP ` set ?cs"
    using put_all_None [of ?cs] by (auto simp: dom_def)
  have tot: "CountIPsInRange (v4_IPRange (sp_IPv4Subnet (sn_Spec (dv_subnet s')))) = Inr 1"
  proof -
    have split: "split_on CHR '','' ''192.168.1.30'' = [''192.168.1.30'']" by code_simp
    show ?thesis unfolding s'(3) r by (simp add: CountIPsInRange_def split count_entry_ends [OF example_ends(2)])
  qed
  have used: "2 = card (dom (gm_get (dv_currentLeaseClients s')) \<union> dom (gm_get (dv_currentManualBindingClients s')))"
    using ips by (simp add: s' dom flip: set_map)
  have ok: "gm_ok (dv_currentLeaseClients s')" "gm_ok (dv_currentManualBindingClients s')"
    using put_all_ok [of "[]" ?cs] by (simp_all add: s' clients_ok_def)
  from available_amount [OF ok tot used, of "\<lambda>_. []" "[]" zero_subnet_status]
  have "\<exists>ds. ss_DhcpStatus (wanted_status (\<lambda>_. []) [] s' zero_subnet_status) = Some ds
      \<and> ds_DhcpIpTotalAmount ds = 1 \<and> unat (ds_DhcpIpAvailableAmount ds) = 2 ^ 64 - 1" by auto
  with r p show ?thesis by blast
qed

end
