(* ===== verification/DhcpConfig.thy ===== *)
theory DhcpConfig
  imports DhcpLease
begin

text \<open>
  The files the DHCP server writes (\<open>generateDnsmasqConfig\<close> and \<open>UpdateDhcpBindings\<close> in
  \<open>config.go\<close>). The template is a file of the installation, its execution on the data is the
  parameter \<open>tmpl\<close>. \<open>log.Panicf\<close> panics.
\<close>

section \<open>Definitions\<close>

definition nl :: char where
  "nl = CHR 0x0A"

text \<open>\<open>MkdirAll\<close> and \<open>WriteFile\<close> of an empty file, with \<open>Panicf\<close> on either error.\<close>

definition create_bindings_file :: "os_env \<Rightarrow> files \<Rightarrow> string \<Rightarrow> unit result \<times> files" where
  "create_bindings_file os fs p =
     (case os_do os (OsMkdirAll (path_dir p)) of
        Inl _ \<Rightarrow> (Inl (Panic ''failed to create directory for bindings file''), fs)
      | Inr _ \<Rightarrow>
          (case write_file os fs p [] of
             (Inl _, fs') \<Rightarrow> (Inl (Panic ''failed to create bindings file''), fs')
           | (Inr _, fs') \<Rightarrow> (Inr (), fs')))"

definition binding_line :: "string \<Rightarrow> string \<Rightarrow> string" where
  "binding_line mac ip = mac @ '',id:*,set:trusted,'' @ ip"

fun binding_lines :: "clients \<Rightarrow> string list" where
  "binding_lines [] = []"
| "binding_lines ((ip, item) # rest) =
     (if length (dc_Hostname item) > 0 then [''# hostname '' @ dc_Hostname item] else [])
     @ binding_line (dc_MAC item) ip # binding_lines rest"

definition bindings_text :: "dhcpServer \<Rightarrow> string" where
  "bindings_text s = join_with [nl] (binding_lines (dv_currentManualBindingClients s)) @ [nl]"

definition UpdateDhcpBindings :: "os_env \<Rightarrow> files \<Rightarrow> dhcpServer \<Rightarrow> unit result \<times> files" where
  "UpdateDhcpBindings os fs s =
     (let p = dv_HostIpBindingsConfigPath s;
          (r, fs1) = (case read_file os fs p of
              Inr _ \<Rightarrow> (Inr (), fs)
            | Inl e \<Rightarrow> if IsNotExist e then create_bindings_file os fs p
                       else (Inl (Errorf ''failed to read bindings file, err: %v'' [ArgE e]), fs))
      in case r of
           Inl e \<Rightarrow> (Inl e, fs1)
         | Inr _ \<Rightarrow>
             (case write_file os fs1 p (bindings_text s) of
                (Inl e, fs2) \<Rightarrow> (Inl (Errorf ''failed to write bindings file: %v'' [ArgE e]), fs2)
              | (Inr _, fs2) \<Rightarrow> (Inr (), fs2)))"

record dnsmasq_data =
  dd_Interface :: string
  dd_IPRanges :: "string list"
  dd_Gateway :: "string option"
  dd_DNS :: "string option"
  dd_LeaseFile :: string
  dd_LogFile :: string
  dd_EnablePxe :: bool
  dd_EnableZtp :: bool
  dd_EnableDhcpTrustedOnly :: bool
  dd_Name :: string
  dd_SelfIP :: string
  dd_TftpServerDir :: string
  dd_PxeEfiInTftpServerDir :: string
  dd_HostIpBindingsConfigPath :: string

text \<open>\<open>vlanInterfaceFormat\<close>, and the interface the server works on.\<close>

definition vlan_interface :: "string \<Rightarrow> int \<Rightarrow> string" where
  "vlan_interface base v = base @ ''.'' @ dec_of_int v"

definition interface_name :: "InterfaceSpec \<Rightarrow> string" where
  "interface_name i =
     (case if_VlanID i of
        Some v \<Rightarrow> if v > 0 then vlan_interface (if_Interface i) v else if_Interface i
      | None \<Rightarrow> if_Interface i)"

definition config_data :: "dhcpServer \<Rightarrow> dnsmasq_data result" where
  "config_data s =
     (let sp = sn_Spec (dv_subnet s) in
      case sp_Feature sp of
        None \<Rightarrow> Inl (Panic ''nil pointer dereference'')
      | Some ft \<Rightarrow> Inr
          \<lparr>dd_Interface = interface_name (sp_Interface sp),
           dd_IPRanges = map (replace_char CHR ''-'' CHR '','') (split_on CHR '','' (v4_IPRange (sp_IPv4Subnet sp))),
           dd_Gateway = v4_Gateway (sp_IPv4Subnet sp), dd_DNS = v4_Dns (sp_IPv4Subnet sp),
           dd_LeaseFile = dv_leasePath s, dd_LogFile = dv_logPath s,
           dd_EnablePxe = ft_EnablePxe ft, dd_EnableZtp = ft_EnableZtp ft,
           dd_EnableDhcpTrustedOnly = ft_EnableDhcpTrustedOnly ft,
           dd_Name = om_Name (sn_Meta (dv_subnet s)),
           dd_SelfIP = hd (split_on CHR ''/'' (if_IPv4 (sp_Interface sp))),
           dd_TftpServerDir = cf_StoragePathTftp (dv_config s),
           dd_PxeEfiInTftpServerDir = cf_StoragePathTftpAbsoluteDirForPxeEfi (dv_config s),
           dd_HostIpBindingsConfigPath = dv_HostIpBindingsConfigPath s\<rparr>)"

definition remove_file :: "os_env \<Rightarrow> files \<Rightarrow> string \<Rightarrow> unit result \<times> files" where
  "remove_file os fs p =
     (case os_do os (OsRemove p) of
        Inl e \<Rightarrow> (Inl e, fs)
      | Inr _ \<Rightarrow> if fs p = None then (Inl ErrNotExist, fs) else (Inr (), fs(p := None)))"

definition ErrExist :: goerr where
  "ErrExist = SysErr ''file exists''"

text \<open>
  The part that writes the main file: remove, create, execute the template. After a creation that
  failed because the file exists the function goes on with a nil file, into which only an empty
  text can be written.
\<close>

definition write_config ::
    "os_env \<Rightarrow> (dnsmasq_data \<Rightarrow> string result) \<Rightarrow> files \<Rightarrow> string \<Rightarrow> dnsmasq_data \<Rightarrow> unit result \<times> files" where
  "write_config os tmpl fs p d =
     (case remove_file os fs p of
        (r, fs1) \<Rightarrow>
          if (case r of Inl e \<Rightarrow> \<not> IsNotExist e | Inr _ \<Rightarrow> False) then
            (Inl (Errorf ''failed to remove existing config file: %v'' (case r of Inl e \<Rightarrow> [ArgE e] | Inr _ \<Rightarrow> [])), fs1)
          else
            (let created = os_do os (OsCreate p);
                 fs2 = (if created = Inr () then fs1(p \<mapsto> []) else fs1)
             in if (case created of Inl e \<Rightarrow> e \<noteq> ErrExist | Inr _ \<Rightarrow> False) then
                  (Inl (Errorf ''failed to create config file: %v'' (case created of Inl e \<Rightarrow> [ArgE e] | Inr _ \<Rightarrow> [])), fs2)
                else
                  (case and_then (tmpl d) (\<lambda>text. and_then (os_do os (OsExecute p)) (\<lambda>_. Inr text)) of
                     Inl e \<Rightarrow> (Inl (Errorf ''failed to write config: %v'' [ArgE e]), fs2)
                   | Inr text \<Rightarrow>
                       if created = Inr () then (Inr (), fs2(p \<mapsto> text))
                       else if text = [] then (Inr (), fs2)
                       else (Inl (Errorf ''failed to write config: %v'' [ArgE (SysErr ''invalid argument'')]), fs2))))"

text \<open>A pending panic is not wrapped: it leaves the function as it is.\<close>

fun wrap_unless_panic :: "string \<Rightarrow> goerr \<Rightarrow> goerr" where
  "wrap_unless_panic f (Panic p) = Panic p"
| "wrap_unless_panic f e = Errorf f [ArgE e]"

definition generateDnsmasqConfig ::
    "os_env \<Rightarrow> (dnsmasq_data \<Rightarrow> string result) \<Rightarrow> dhcpServer \<times> files \<Rightarrow> unit result \<times> dhcpServer \<times> files" where
  "generateDnsmasqConfig os tmpl sf =
     (let (s, fs) = sf; p = dv_configPath s; b = dv_HostIpBindingsConfigPath s in
      case os_do os (OsParseTemplate (dv_configTemplatePath s)) of
        Inl e \<Rightarrow> (Inl (Errorf ''failed to parse template: %v'' [ArgE e]), s, fs)
      | Inr _ \<Rightarrow>
      (case read_file os fs (dv_configTemplatePath s) of
        Inl e \<Rightarrow> (Inl e, s, fs)
      | Inr _ \<Rightarrow>
      (case os_do os (OsMkdirAll (path_dir p)) of
        Inl e \<Rightarrow> (Inl (Errorf ''failed to create config directory: %v'' [ArgE e]), s, fs)
      | Inr _ \<Rightarrow>
      (case config_data s of
        Inl e \<Rightarrow> (Inl e, s, fs)
      | Inr d \<Rightarrow>
      (case write_config os tmpl fs p d of
        (Inl e, fs1) \<Rightarrow> (Inl e, s, fs1)
      | (Inr _, fs1) \<Rightarrow>
      (case (case read_file os fs1 b of
               Inl e \<Rightarrow> if IsNotExist e then create_bindings_file os fs1 b else (Inr (), fs1)
             | Inr _ \<Rightarrow> (Inr (), fs1)) of
        (Inl e, fs2) \<Rightarrow> (Inl e, s, fs2)
      | (Inr _, fs2) \<Rightarrow>
      (case processDhcpLease os fs2 True s of
        (Inl e, s1) \<Rightarrow> (Inl (wrap_unless_panic ''failed to process lease file: %v'' e), s1, fs2)
      | (Inr _, s1) \<Rightarrow>
      (case UpdateDhcpBindings os fs2 s1 of
        (Inl e, fs3) \<Rightarrow> (Inl e, s1, fs3)
      | (Inr _, fs3) \<Rightarrow>
      (case read_file os fs3 p of
        Inl e \<Rightarrow> (Inl e, s1, fs3)
      | Inr _ \<Rightarrow> (Inr (), s1, fs3))))))))))"

section \<open>The bindings file\<close>

text \<open>Clients a line can be written for: no line breaks.\<close>

definition writable :: "clients \<Rightarrow> bool" where
  "writable m \<longleftrightarrow> (\<forall>(ip, c) \<in> set m. nl \<notin> set ip \<and> nl \<notin> set (dc_MAC c) \<and> nl \<notin> set (dc_Hostname c))"

lemma binding_lines_eq:
  "binding_lines m = concat (map (\<lambda>(ip, c).
     (if dc_Hostname c = [] then [] else [''# hostname '' @ dc_Hostname c]) @ [binding_line (dc_MAC c) ip]) m)"
  by (induction m rule: binding_lines.induct) auto

lemma binding_lines_not_Nil: "[] \<notin> set (binding_lines m)"
  by (induction m rule: binding_lines.induct) (auto simp: binding_line_def)

lemma binding_lines_no_nl: "writable m \<Longrightarrow> l \<in> set (binding_lines m) \<Longrightarrow> nl \<notin> set l"
  by (induction m rule: binding_lines.induct)
    (auto simp: writable_def binding_line_def nl_def split: if_splits)

lemma filter_lines:
  assumes "\<forall>l \<in> set ls. nl \<notin> set l \<and> l \<noteq> []"
  shows "filter (\<lambda>l. l \<noteq> []) (split_on nl (join_with [nl] ls @ [nl])) = ls"
proof (cases "ls = []")
  case False
  have "join_with [nl] ls @ [nl] = join_with [nl] (ls @ [[]])"
    using False by (induction "[nl]" ls rule: join_with.induct) auto
  moreover have "split_on nl (join_with [nl] (ls @ [[]])) = ls @ [[]]"
    using assms by (intro split_on_join) auto
  moreover have "filter (\<lambda>l. l \<noteq> []) ls = ls" using assms by (simp add: filter_id_conv)
  ultimately show ?thesis by simp
qed simp

text \<open>The lines of the file that are not empty.\<close>

lemma bindings_text_lines:
  assumes "writable (dv_currentManualBindingClients s)"
  shows "filter (\<lambda>l. l \<noteq> []) (split_on nl (bindings_text s)) = binding_lines (dv_currentManualBindingClients s)"
  unfolding bindings_text_def
  using binding_lines_no_nl [OF assms] binding_lines_not_Nil by (intro filter_lines) metis

lemma bindings_text_has:
  assumes "writable (dv_currentManualBindingClients s)" "(ip, c) \<in> set (dv_currentManualBindingClients s)"
  shows "binding_line (dc_MAC c) ip \<in> set (split_on nl (bindings_text s))"
proof -
  have "binding_line (dc_MAC c) ip \<in> set (binding_lines (dv_currentManualBindingClients s))"
    using assms(2) by (force simp: binding_lines_eq)
  then show ?thesis unfolding bindings_text_lines [OF assms(1), symmetric] by simp
qed

lemma bindings_text_only:
  assumes "writable (dv_currentManualBindingClients s)" "l \<in> set (split_on nl (bindings_text s))"
  shows "l = [] \<or> (\<exists>h. l = ''# hostname '' @ h)
    \<or> (\<exists>ip c. (ip, c) \<in> set (dv_currentManualBindingClients s) \<and> l = binding_line (dc_MAC c) ip)"
proof (cases "l = []")
  case False
  with assms(2) have "l \<in> set (filter (\<lambda>l. l \<noteq> []) (split_on nl (bindings_text s)))" by simp
  then show ?thesis unfolding bindings_text_lines [OF assms(1)] binding_lines_eq by (auto split: if_splits)
qed simp

lemma UpdateDhcpBindings_ok:
  assumes "UpdateDhcpBindings os fs s = (Inr u, fs')"
  shows "fs' (dv_HostIpBindingsConfigPath s) = Some (bindings_text s)
    \<and> (\<forall>p. p \<noteq> dv_HostIpBindingsConfigPath s \<longrightarrow> fs' p = fs p)"
  using assms
  by (auto simp: UpdateDhcpBindings_def Let_def create_bindings_file_def write_file_def
      split: sum.splits if_splits prod.splits)

lemma UpdateDhcpBindings_no_failure: "fst (UpdateDhcpBindings (\<lambda>_. None) fs s) = Inr ()"
  by (auto simp: UpdateDhcpBindings_def Let_def create_bindings_file_def write_file_def read_file_def os_do_def
      IsNotExist_def split: option.splits)

lemma write_config_ok:
  assumes "write_config os tmpl fs p d = (Inr u, fs')" "os (OsCreate p) = None"
  shows "\<exists>c. tmpl d = Inr c \<and> fs' p = Some c \<and> (\<forall>q. q \<noteq> p \<longrightarrow> fs' q = fs q)"
  using assms
  by (auto simp: write_config_def remove_file_def Let_def os_do_def
      split: sum.splits if_splits prod.splits option.splits)

lemma create_bindings_file_frame:
  "create_bindings_file os fs b = (r, fs') \<Longrightarrow> q \<noteq> b \<Longrightarrow> fs' q = fs q"
  by (auto simp: create_bindings_file_def write_file_def split: sum.splits prod.splits)

lemma processDhcpLease_frame:
  assumes "processDhcpLease os fs ign s = (r, s')"
  shows "dv_configPath s' = dv_configPath s \<and> dv_HostIpBindingsConfigPath s' = dv_HostIpBindingsConfigPath s
    \<and> dv_currentManualBindingClients s' = dv_currentManualBindingClients s \<and> dv_subnet s' = dv_subnet s
    \<and> dv_config s' = dv_config s \<and> dv_leasePath s' = dv_leasePath s \<and> dv_logPath s' = dv_logPath s
    \<and> dv_stopped s' = dv_stopped s \<and> dv_cmd s' = dv_cmd s \<and> dv_addedBindingIp s' = dv_addedBindingIp s
    \<and> dv_deletedBindingIp s' = dv_deletedBindingIp s \<and> dv_restarts s' = dv_restarts s"
  using assms by (auto simp: processDhcpLease_def split: sum.splits if_splits)

text \<open>The stages of a generation that returns nil.\<close>

lemma generateDnsmasqConfig_stages:
  assumes "generateDnsmasqConfig os tmpl (s, fs) = (Inr u, s', fs')"
  obtains d fs1 fs2 flag where
    "config_data s = Inr d" "write_config os tmpl fs (dv_configPath s) d = (Inr (), fs1)"
    "\<forall>q. q \<noteq> dv_HostIpBindingsConfigPath s \<longrightarrow> fs2 q = fs1 q"
    "processDhcpLease os fs2 True s = (Inr flag, s')"
    "UpdateDhcpBindings os fs2 s' = (Inr (), fs')"
  using assms
  by (auto simp: generateDnsmasqConfig_def Let_def split: sum.splits prod.splits if_splits)
    (metis create_bindings_file_frame)+

lemma generateDnsmasqConfig_frame:
  assumes "generateDnsmasqConfig os tmpl (s, fs) = (r, s', fs')"
  shows "\<exists>fs0. s' = s \<or> s' = snd (processDhcpLease os fs0 True s)"
  using assms
  by (auto simp: generateDnsmasqConfig_def Let_def split: sum.splits prod.splits if_splits)
    (metis snd_conv)+

section \<open>Properties\<close>

text \<open>Property C19: when \<open>UpdateDhcpBindings\<close> returns nil, and no address, MAC or host name held has a
  line break, the lines of the bindings file that are not empty are, for each address the server holds,
  in the order of the map, the comment \<open># hostname\<close> with its host name if there is one and then
  \<open>MAC,id:*,set:trusted,IP\<close>; and no other file changed.\<close>

theorem UpdateDhcpBindings_lines:
  assumes "UpdateDhcpBindings os fs s = (Inr (), fs')"
    and "\<forall>(ip, c) \<in> set (dv_currentManualBindingClients s).
      nl \<notin> set ip \<and> nl \<notin> set (dc_MAC c) \<and> nl \<notin> set (dc_Hostname c)"
  shows "\<exists>text. fs' (dv_HostIpBindingsConfigPath s) = Some text
    \<and> filter (\<lambda>l. l \<noteq> []) (split_on nl text) =
        concat (map (\<lambda>(ip, c). (if dc_Hostname c = [] then [] else [''# hostname '' @ dc_Hostname c])
          @ [dc_MAC c @ '',id:*,set:trusted,'' @ ip]) (dv_currentManualBindingClients s))
    \<and> (\<forall>p. p \<noteq> dv_HostIpBindingsConfigPath s \<longrightarrow> fs' p = fs p)"
  using UpdateDhcpBindings_ok [OF assms(1)] bindings_text_lines [of s] assms(2)
  unfolding writable_def binding_lines_eq binding_line_def by blast

definition bound_server :: dhcpServer where
  "bound_server = example_server\<lparr>dv_currentManualBindingClients := [(''10.0.0.1'', example_client)]\<rparr>"

lemma UpdateDhcpBindings_lines_witness:
  "\<exists>fs' text. UpdateDhcpBindings (\<lambda>_. None) (\<lambda>_. None) bound_server = (Inr (), fs')
     \<and> fs' (dv_HostIpBindingsConfigPath bound_server) = Some text
     \<and> filter (\<lambda>l. l \<noteq> []) (split_on nl text) = [''# hostname h'', ''00:11:22:33:44:55,id:*,set:trusted,10.0.0.1'']"
proof -
  obtain fs' where u: "UpdateDhcpBindings (\<lambda>_. None) (\<lambda>_. None) bound_server = (Inr (), fs')"
    using UpdateDhcpBindings_no_failure [of "\<lambda>_. None" bound_server] by (metis prod.collapse)
  have "\<forall>(ip, c) \<in> set (dv_currentManualBindingClients bound_server).
      nl \<notin> set ip \<and> nl \<notin> set (dc_MAC c) \<and> nl \<notin> set (dc_Hostname c)"
    by (simp add: bound_server_def example_client_def nl_def)
  from UpdateDhcpBindings_lines [OF u this] u show ?thesis
    by (auto simp: bound_server_def example_client_def)
qed


definition installed_files :: files where
  "installed_files = example_files(dv_configTemplatePath example_server \<mapsto> ''template'')"

lemma example_paths:
  "dv_configPath example_server \<noteq> dv_HostIpBindingsConfigPath example_server"
  "dv_configTemplatePath example_server \<noteq> dv_configPath example_server"
  "dv_leasePath example_server \<noteq> dv_configPath example_server"
  "dv_configTemplatePath example_server \<noteq> dv_leasePath example_server"
  "dv_HostIpBindingsConfigPath example_server \<noteq> dv_leasePath example_server"
  "dv_HostIpBindingsConfigPath example_server \<noteq> dv_configTemplatePath example_server"
  by code_simp+

lemma example_data:
  obtains d where "config_data example_server = Inr d" "dd_Interface d = ''eth1''"
  by (simp add: config_data_def example_server_simps Let_def)
    (simp add: example_subnet_def interface_name_def)

text \<open>On an installation without failures the generation returns nil.\<close>

lemma example_generate:
  assumes tmpl: "\<And>d. tmpl d = Inr (text d)"
  shows "\<exists>s' fs'. generateDnsmasqConfig (\<lambda>_. None) tmpl (example_server, installed_files) = (Inr (), s', fs')"
proof -
  let ?p = "dv_configPath example_server" and ?b = "dv_HostIpBindingsConfigPath example_server"
  obtain d where d: "config_data example_server = Inr d" using example_data by blast
  have o: "os_do (\<lambda>_. None) c = Inr ()" for c by simp
  let ?f1 = "installed_files(?p \<mapsto> text d)" let ?f2 = "?f1(?b \<mapsto> [])"
  have w: "write_config (\<lambda>_. None) tmpl installed_files ?p d = (Inr (), ?f1)"
    by (simp add: write_config_def remove_file_def o Let_def IsNotExist_def tmpl)
  have c: "create_bindings_file (\<lambda>_. None) ?f1 ?b = (Inr (), ?f2)"
    by (simp add: create_bindings_file_def write_file_def o)
  have r: "read_file (\<lambda>_. None) installed_files (dv_configTemplatePath example_server) = Inr ''template''"
    "read_file (\<lambda>_. None) ?f1 ?b = Inl ErrNotExist"
    "read_file (\<lambda>_. None) ?f2 (dv_leasePath example_server) = Inr example_leases"
    using example_paths by (simp_all add: read_file_def o installed_files_def example_files_def)
  obtain flag s1 where l: "processDhcpLease (\<lambda>_. None) ?f2 True example_server = (Inr flag, s1)"
    using processDhcpLease_eq [OF example_server_simps(5) [folded example_server_simps(1)] r(3), of True]
    by blast
  obtain f3 where u: "UpdateDhcpBindings (\<lambda>_. None) ?f2 s1 = (Inr (), f3)"
    using UpdateDhcpBindings_no_failure [of ?f2 s1] by (metis prod.collapse)
  have b1: "dv_HostIpBindingsConfigPath s1 = ?b" using processDhcpLease_frame [OF l] by simp
  have "f3 ?p = Some (text d)" using UpdateDhcpBindings_ok [OF u] example_paths(1) b1 by simp
  then have r3: "read_file (\<lambda>_. None) f3 ?p = Inr (text d)" by (simp add: read_file_def o)
  show ?thesis
    by (rule exI [of _ s1], rule exI [of _ f3])
      (simp add: generateDnsmasqConfig_def Let_def o r d w c l u r3 IsNotExist_def)
qed


end
