(* ===== verification/DhcpNet.thy ===== *)
theory DhcpNet
  imports DhcpConfig
begin

text \<open>
  The network interface of a DHCP server (\<open>pkg/subnet/dhcpserver/interface.go\<close>). The kernel is a
  parameter: what \<open>LinkByName\<close> and \<open>AddrList\<close> answer and which changes fail may depend on the
  changes made so far, which the model keeps in a list.
\<close>

record Link =
  lk_Name :: string
  lk_Index :: int
  lk_OperDown :: bool

datatype net_op = LinkSetUp string | LinkAddVlan string int int | AddrAdd string IPNet

record net_env =
  ne_LinkByName :: "net_op list \<Rightarrow> string \<Rightarrow> Link result"
  ne_AddrList :: "net_op list \<Rightarrow> string \<Rightarrow> IPNet list result"
  ne_fails :: "net_op list \<Rightarrow> net_op \<Rightarrow> goerr option"

definition net_do :: "net_env \<Rightarrow> net_op \<Rightarrow> net_op list \<Rightarrow> unit result \<times> net_op list" where
  "net_do env c h = (case ne_fails env h c of Some e \<Rightarrow> (Inl e, h) | None \<Rightarrow> (Inr (), h @ [c]))"

definition createVlanInterface ::
    "net_env \<Rightarrow> Link \<Rightarrow> string \<Rightarrow> int \<Rightarrow> net_op list \<Rightarrow> unit result \<times> net_op list" where
  "createVlanInterface env parent name vlanID h =
     (case ne_LinkByName env h name of
        Inr link \<Rightarrow> net_do env (LinkSetUp (lk_Name link)) h
      | Inl _ \<Rightarrow>
          if vlanID < 0 \<or> vlanID > 4094 then
            (Inl (Errorf ''invalid VLAN ID %d: must be between 0 and 4094'' [ArgI vlanID]), h)
          else if length name > 15 then
            (Inl (Errorf ''interface name %s is too long, it is must be less than 15 letters'' [ArgS name]), h)
          else
            (case net_do env (LinkAddVlan name (lk_Index parent) vlanID) h of
               (Inl e, h1) \<Rightarrow> (Inl (Errorf ''failed to create VLAN interface: %v'' [ArgE e]), h1)
             | (Inr _, h1) \<Rightarrow>
                 (case net_do env (LinkSetUp name) h1 of
                    (Inl e, h2) \<Rightarrow> (Inl (Errorf ''failed to set VLAN interface up: %v'' [ArgE e]), h2)
                  | (Inr _, h2) \<Rightarrow> (Inr (), h2))))"

definition configureIP :: "net_env \<Rightarrow> string \<Rightarrow> string \<Rightarrow> net_op list \<Rightarrow> unit result \<times> net_op list" where
  "configureIP env name ipStr h =
     (case ne_LinkByName env h name of
        Inl e \<Rightarrow> (Inl (Errorf ''interface %s not found: %v'' [ArgS name, ArgE e]), h)
      | Inr link \<Rightarrow>
          (case netlink_ParseAddr ipStr of
             None \<Rightarrow> (Inl (Errorf ''invalid IP address %s: %v'' [ArgS ipStr, ArgE (SysErr ipStr)]), h)
           | Some addr \<Rightarrow>
               (case ne_AddrList env h (lk_Name link) of
                  Inl e \<Rightarrow> (Inl (Errorf ''failed to list addresses: %v'' [ArgE e]), h)
                | Inr addrs \<Rightarrow>
                    if list_ex (\<lambda>existing. netlink_addr_equal existing addr) addrs then (Inr (), h)
                    else (case net_do env (AddrAdd (lk_Name link) addr) h of
                            (Inl e, h1) \<Rightarrow> (Inl (Errorf ''failed to add IP address: %v'' [ArgE e]), h1)
                          | (Inr _, h1) \<Rightarrow> (Inr (), h1)))))"

definition setupInterface :: "net_env \<Rightarrow> dhcpServer \<Rightarrow> net_op list \<Rightarrow> unit result \<times> net_op list" where
  "setupInterface env s h =
     (let i = sp_Interface (sn_Spec (dv_subnet s)); baseInterface = if_Interface i in
      case ne_LinkByName env h baseInterface of
        Inl e \<Rightarrow> (Inl (Errorf ''base interface %s goes wrong: %v'' [ArgS baseInterface, ArgE e]), h)
      | Inr parent \<Rightarrow>
      (case (if lk_OperDown parent then net_do env (LinkSetUp (lk_Name parent)) h else (Inr (), h)) of
        (Inl e, h1) \<Rightarrow>
          (Inl (Errorf ''failed to bring up base interface %s: %v'' [ArgS baseInterface, ArgE e]), h1)
      | (Inr _, h1) \<Rightarrow>
      (case ValidateHostInterfaceSubnet (ne_AddrList env h1 (lk_Name parent)) i of
        Inl e \<Rightarrow> (Inl (Errorf ''interface configuration conflicts with host network: %v'' [ArgE e]), h1)
      | Inr _ \<Rightarrow>
      (case (case if_VlanID i of
               Some v \<Rightarrow> if v > 0 then createVlanInterface env parent (interface_name i) v h1 else (Inr (), h1)
             | None \<Rightarrow> (Inr (), h1)) of
        (Inl e, h2) \<Rightarrow> (Inl e, h2)
      | (Inr _, h2) \<Rightarrow> configureIP env (interface_name i) (if_IPv4 i) h2))))"

section \<open>Facts\<close>

lemma net_do_Inr [simp]: "net_do env c h = (Inr u, h') \<longleftrightarrow> ne_fails env h c = None \<and> h' = h @ [c]"
  by (auto simp: net_do_def split: option.splits)

lemma net_do_grows: "net_do env c h = (r, h') \<Longrightarrow> \<exists>cs. h' = h @ cs \<and> set cs \<subseteq> {c}"
  by (auto simp: net_do_def split: option.splits)

text \<open>The kernel answers a lookup with the link of that name.\<close>

definition names_ok :: "net_env \<Rightarrow> bool" where
  "names_ok env \<longleftrightarrow> (\<forall>h n l. ne_LinkByName env h n = Inr l \<longrightarrow> lk_Name l = n)"

lemma createVlanInterface_ops:
  assumes "createVlanInterface env parent name v h = (r, h')" "names_ok env"
  shows "\<exists>cs. h' = h @ cs \<and> set cs \<subseteq> {LinkAddVlan name (lk_Index parent) v, LinkSetUp name}
    \<and> (LinkAddVlan name (lk_Index parent) v \<in> set cs \<longrightarrow> 0 \<le> v \<and> v \<le> 4094 \<and> length name \<le> 15)"
  using assms
  by (auto simp: createVlanInterface_def names_ok_def net_do_def not_less
      split: sum.splits if_splits prod.splits option.splits)

lemma configureIP_ops:
  assumes "configureIP env name ipStr h = (r, h')" "names_ok env"
  shows "(h' = h \<or> (\<exists>addr. netlink_ParseAddr ipStr = Some addr \<and> h' = h @ [AddrAdd name addr]))
    \<and> (r = Inr () \<longrightarrow> (\<exists>addr. netlink_ParseAddr ipStr = Some addr
        \<and> (h' = h @ [AddrAdd name addr]
           \<or> (\<exists>addrs. ne_AddrList env h name = Inr addrs \<and> (\<exists>a \<in> set addrs. netlink_addr_equal a addr)))))"
  using assms
  by (auto simp: configureIP_def names_ok_def net_do_def list_ex_iff
      split: sum.splits if_splits prod.splits option.splits)

text \<open>The stages of \<open>setupInterface\<close> up to the address.\<close>

lemma setupInterface_stages:
  assumes "setupInterface env s [] = (Inr u, h')" "names_ok env"
  obtains parent h1 h2 where
    "set h1 \<subseteq> {LinkSetUp (if_Interface (sp_Interface (sn_Spec (dv_subnet s))))}"
    "ValidateHostInterfaceSubnet (ne_AddrList env h1 (if_Interface (sp_Interface (sn_Spec (dv_subnet s)))))
       (sp_Interface (sn_Spec (dv_subnet s))) = Inr ()"
    "h2 = h1 \<and> interface_name (sp_Interface (sn_Spec (dv_subnet s))) = if_Interface (sp_Interface (sn_Spec (dv_subnet s)))
     \<or> (\<exists>v. if_VlanID (sp_Interface (sn_Spec (dv_subnet s))) = Some v \<and> v > 0
         \<and> createVlanInterface env parent (interface_name (sp_Interface (sn_Spec (dv_subnet s)))) v h1 = (Inr (), h2))"
    "configureIP env (interface_name (sp_Interface (sn_Spec (dv_subnet s))))
       (if_IPv4 (sp_Interface (sn_Spec (dv_subnet s)))) h2 = (Inr (), h')"
proof -
  let ?i = "sp_Interface (sn_Spec (dv_subnet s))"
  obtain parent where p: "ne_LinkByName env [] (if_Interface ?i) = Inr parent"
    using assms(1) by (auto simp: setupInterface_def Let_def split: sum.splits)
  then have n: "lk_Name parent = if_Interface ?i" using assms(2) by (auto simp: names_ok_def)
  obtain h1 where h1: "(if lk_OperDown parent then net_do env (LinkSetUp (lk_Name parent)) [] else (Inr (), [])) = (Inr (), h1)"
    using assms(1) p by (auto simp: setupInterface_def Let_def split: sum.splits prod.splits)
  have v: "ValidateHostInterfaceSubnet (ne_AddrList env h1 (lk_Name parent)) ?i = Inr ()"
    using assms(1) p h1 by (auto simp: setupInterface_def Let_def split: sum.splits prod.splits)
  obtain h2 where h2: "(case if_VlanID ?i of Some v \<Rightarrow> if v > 0
        then createVlanInterface env parent (interface_name ?i) v h1 else (Inr (), h1) | None \<Rightarrow> (Inr (), h1)) = (Inr (), h2)"
    and c: "configureIP env (interface_name ?i) (if_IPv4 ?i) h2 = (Inr (), h')"
    using assms(1) p h1 v by (auto simp: setupInterface_def Let_def split: sum.splits prod.splits)
  have "set h1 \<subseteq> {LinkSetUp (if_Interface ?i)}"
    using h1 n by (auto split: if_splits)
  moreover have "h2 = h1 \<and> interface_name ?i = if_Interface ?i
     \<or> (\<exists>v. if_VlanID ?i = Some v \<and> v > 0 \<and> createVlanInterface env parent (interface_name ?i) v h1 = (Inr (), h2))"
    using h2 by (auto simp: interface_name_def split: option.splits if_splits)
  ultimately show ?thesis using that v c n by simp
qed

section \<open>Properties\<close>

text \<open>When \<open>setupInterface\<close> returns nil, the configuration did not conflict with the
  addresses of the base interface, the server's address is on the server's interface (it was there
  or was added, last), no address was added to any other interface, and a VLAN interface it created
  has an identifier up to 4094 and a name of at most 15 characters.\<close>

theorem setupInterface_ok:
  assumes "setupInterface env s [] = (Inr (), h)" "names_ok env"
    and "i = sp_Interface (sn_Spec (dv_subnet s))" "name = interface_name i"
  shows "(\<exists>h0. ValidateHostInterfaceSubnet (ne_AddrList env h0 (if_Interface i)) i = Inr ())
    \<and> (\<exists>addr. netlink_ParseAddr (if_IPv4 i) = Some addr
        \<and> (last h = AddrAdd name addr
           \<or> (\<exists>addrs. ne_AddrList env h name = Inr addrs \<and> (\<exists>a \<in> set addrs. netlink_addr_equal a addr))))
    \<and> (\<forall>m a. AddrAdd m a \<in> set h \<longrightarrow> m = name)
    \<and> (\<forall>m p v. LinkAddVlan m p v \<in> set h \<longrightarrow>
         m = name \<and> if_VlanID i = Some v \<and> 0 < v \<and> v \<le> 4094 \<and> length name \<le> 15)"
proof -
  obtain parent h1 h2 where h1: "set h1 \<subseteq> {LinkSetUp (if_Interface i)}"
    and val: "ValidateHostInterfaceSubnet (ne_AddrList env h1 (if_Interface i)) i = Inr ()"
    and h2: "h2 = h1 \<and> name = if_Interface i \<or> (\<exists>v. if_VlanID i = Some v \<and> v > 0
         \<and> createVlanInterface env parent name v h1 = (Inr (), h2))"
    and c: "configureIP env name (if_IPv4 i) h2 = (Inr (), h)"
    using setupInterface_stages [OF assms(1,2)] assms(3,4) by metis
  have v: "(\<forall>m a. AddrAdd m a \<notin> set h2) \<and> (\<forall>m p v. LinkAddVlan m p v \<in> set h2 \<longrightarrow>
         m = name \<and> if_VlanID i = Some v \<and> 0 < v \<and> v \<le> 4094 \<and> length name \<le> 15)"
    using h2
  proof
    assume "h2 = h1 \<and> name = if_Interface i"
    then show ?thesis using h1 by auto
  next
    assume "\<exists>v. if_VlanID i = Some v \<and> v > 0 \<and> createVlanInterface env parent name v h1 = (Inr (), h2)"
    then obtain v where v: "if_VlanID i = Some v" "v > 0" "createVlanInterface env parent name v h1 = (Inr (), h2)"
      by blast
    from createVlanInterface_ops [OF v(3) assms(2)] v(1,2) h1 show ?thesis by auto
  qed
  from configureIP_ops [OF c assms(2)] obtain addr where addr: "netlink_ParseAddr (if_IPv4 i) = Some addr"
    and h: "h = h2 @ [AddrAdd name addr] \<or> h = h2
        \<and> (\<exists>addrs. ne_AddrList env h name = Inr addrs \<and> (\<exists>a \<in> set addrs. netlink_addr_equal a addr))"
    by auto
  have s: "x \<in> set h2 \<or> x = AddrAdd name addr" if "x \<in> set h" for x using h that by auto
  have "(\<forall>m a. AddrAdd m a \<in> set h \<longrightarrow> m = name) \<and> (\<forall>m p v. LinkAddVlan m p v \<in> set h \<longrightarrow>
         m = name \<and> if_VlanID i = Some v \<and> 0 < v \<and> v \<le> 4094 \<and> length name \<le> 15)"
    using s v by blast
  moreover have "last h = AddrAdd name addr
     \<or> (\<exists>addrs. ne_AddrList env h name = Inr addrs \<and> (\<exists>a \<in> set addrs. netlink_addr_equal a addr))"
    using h by auto
  ultimately show ?thesis using val addr by blast
qed

text \<open>A kernel with one interface, up and without addresses.\<close>

definition example_net_env :: net_env where
  "example_net_env = \<lparr>ne_LinkByName = (\<lambda>h n. if n = ''eth1'' then Inr \<lparr>lk_Name = ''eth1'', lk_Index = 2,
       lk_OperDown = False\<rparr> else Inl (SysErr ''Link not found'')),
     ne_AddrList = (\<lambda>h n. Inr []), ne_fails = (\<lambda>h c. None)\<rparr>"

lemma example_ParseAddr:
  "netlink_ParseAddr ''192.168.1.1/24''
     = Some \<lparr>net_ip = v4_prefix @ [192, 168, 1, 1], net_mask = [255, 255, 255, 0]\<rparr>"
proof -
  have p: "parse_addr ''192.168.1.1'' = Some [192, 168, 1, 1]" by code_simp
  have d: "dtoi ''24'' = Some 24" by (simp add: dtoi_def digit_val_def)
  have c: "cidr_mask 24 4 = [255, 255, 255, 0]" by (simp add: cidr_mask_numeral)
  show ?thesis
    by (simp add: netlink_ParseAddr_def ParseCIDR_def p d c as16_def ip_mask_def v4_prefix_def)
qed

lemma setupInterface_example:
  "\<exists>h. setupInterface example_net_env example_server [] = (Inr (), h)"
proof -
  let ?i = "sp_Interface (sn_Spec example_subnet)"
  have i: "if_Interface ?i = ''eth1''" "if_VlanID ?i = None" "if_IPv4 ?i = ''192.168.1.1/24''"
    by (simp_all add: example_subnet_def)
  then have n: "interface_name ?i = ''eth1''" by (simp add: interface_name_def)
  show ?thesis
    by (simp add: setupInterface_def example_server_simps i n example_net_env_def
        ValidateHostInterfaceSubnet_def configureIP_def example_ParseAddr net_do_def)
qed

lemma setupInterface_ok_witness:
  "\<exists>h. setupInterface example_net_env example_server [] = (Inr (), h)
     \<and> (\<forall>m a. AddrAdd m a \<in> set h \<longrightarrow> m = ''eth1'')"
proof -
  have n: "interface_name (sp_Interface (sn_Spec example_subnet)) = ''eth1''"
    by (simp add: interface_name_def example_subnet_def)
  obtain h where h: "setupInterface example_net_env example_server [] = (Inr (), h)"
    using setupInterface_example by blast
  have "names_ok example_net_env" by (auto simp: names_ok_def example_net_env_def split: if_splits)
  from setupInterface_ok [OF h this refl refl] h show ?thesis
    unfolding example_server_simps n by blast
qed

end
