(* ===== verification/DhcpMonitor.thy ===== *)
theory DhcpMonitor
  imports DhcpNet
begin

text \<open>
  The life of a DHCP server: \<open>startDnsmasq\<close> and the \<open>select\<close> loop \<open>monitor\<close> in \<open>dnsmasq.go\<close>,
  \<open>Run\<close> and \<open>Stop\<close> in \<open>manager.go\<close>. A turn of the loop is a function of the event Go selects and
  of what the operating system answers; which ready event is selected is up to Go, so a run is any
  sequence of turns. \<open>dnsmasq\<close> itself is not modelled.
\<close>

section \<open>Definitions\<close>

record mon_env =
  me_os :: os_env
  me_tmpl :: "dnsmasq_data \<Rightarrow> string result"
  me_net :: net_env

record mon_state =
  mo_s :: dhcpServer
  mo_fs :: files
  mo_net :: "net_op list"

definition startDnsmasq :: "mon_env \<Rightarrow> mon_state \<Rightarrow> unit result \<times> mon_state" where
  "startDnsmasq env st =
     (case setupInterface (me_net env) (mo_s st) (mo_net st) of
        (Inl e, h) \<Rightarrow> (Inl (wrap_unless_panic ''failed to setup interface: %v'' e), st\<lparr>mo_net := h\<rparr>)
      | (Inr _, h) \<Rightarrow>
      (case generateDnsmasqConfig (me_os env) (me_tmpl env) (mo_s st, mo_fs st) of
        (Inl e, s1, fs1) \<Rightarrow>
          (Inl (wrap_unless_panic ''failed to generate dnsmasq config: %v'' e), \<lparr>mo_s = s1, mo_fs = fs1, mo_net = h\<rparr>)
      | (Inr _, s1, fs1) \<Rightarrow>
      (case os_do (me_os env) (OsStart (dv_configPath s1)) of
        Inl e \<Rightarrow> (Inl (Errorf ''failed to start dnsmasq: %v'' [ArgE e]), \<lparr>mo_s = s1, mo_fs = fs1, mo_net = h\<rparr>)
      | Inr _ \<Rightarrow> (Inr (), \<lparr>mo_s = notify_status (s1\<lparr>dv_cmd := True\<rparr>), mo_fs = fs1, mo_net = h\<rparr>))))"

datatype monitor_event =
    StopEvent
  | WatchError
  | LeaseEvent bool
  | AddedBindingEvent
  | DeletedBindingEvent
  | RestartEvent
  | ProcessTick

record turn_flags =
  needRestart :: bool
  needReload :: bool
  needRenewConfig :: bool

datatype selected = SelReturn | SelContinue | SelFlags turn_flags | SelPanic goerr

definition no_flags :: turn_flags where
  "no_flags = \<lparr>needRestart = False, needReload = False, needRenewConfig = False\<rparr>"

fun is_panic :: "goerr \<Rightarrow> bool" where
  "is_panic (Panic _) = True"
| "is_panic _ = False"

definition on_err :: "goerr \<Rightarrow> selected" where
  "on_err e = (if is_panic e then SelPanic e else SelContinue)"

definition binding_client :: "BindingIPInfo \<Rightarrow> DhcpClientInfo" where
  "binding_client info = \<lparr>dc_MAC = bd_MacAddr info, dc_IP = bd_IPAddr info, dc_Hostname = bd_Hostname info,
     dc_Active = False, dc_DhcpExpireTime = zero_time, dc_Subnet = [], dc_SubnetName = [], dc_ClusterName = [],
     dc_EnableBindIpForRedfishstatus = None\<rparr>"

text \<open>The bindings after an added one, none where the turn continues without a change.\<close>

definition add_binding :: "BindingIPInfo \<Rightarrow> clients \<Rightarrow> clients option" where
  "add_binding info m =
     (case gm_get m (bd_IPAddr info) of
        Some item \<Rightarrow> if dc_MAC item \<noteq> bd_MacAddr info then Some (gm_put (bd_IPAddr info) (binding_client info) m)
                     else None
      | None \<Rightarrow> Some (gm_put (bd_IPAddr info) (binding_client info) m))"

definition delete_binding :: "BindingIPInfo \<Rightarrow> clients \<Rightarrow> clients option" where
  "delete_binding info m =
     (case gm_get m (bd_IPAddr info) of
        Some item \<Rightarrow> if equal_fold (dc_MAC item) (bd_MacAddr info) then Some (gm_del (bd_IPAddr info) m) else None
      | None \<Rightarrow> None)"

text \<open>The two binding cases of the \<open>select\<close>, given the changed bindings.\<close>

definition binding_case :: "mon_env \<Rightarrow> clients option \<Rightarrow> mon_state \<Rightarrow> selected \<times> mon_state" where
  "binding_case env changed st =
     (case changed of
        None \<Rightarrow> (SelContinue, st)
      | Some m \<Rightarrow>
          (let s1 = (mo_s st)\<lparr>dv_currentManualBindingClients := m\<rparr> in
           case UpdateDhcpBindings (me_os env) (mo_fs st) s1 of
             (Inl e, fs1) \<Rightarrow> (on_err e, st\<lparr>mo_s := s1, mo_fs := fs1\<rparr>)
           | (Inr _, fs1) \<Rightarrow> (SelFlags (no_flags\<lparr>needReload := True\<rparr>), st\<lparr>mo_s := s1, mo_fs := fs1\<rparr>)))"

definition select_case :: "mon_env \<Rightarrow> monitor_event \<Rightarrow> mon_state \<Rightarrow> selected \<times> mon_state" where
  "select_case env ev st =
     (case ev of
        StopEvent \<Rightarrow> (SelReturn, st)
      | WatchError \<Rightarrow> (SelFlags no_flags, st)
      | LeaseEvent is_write \<Rightarrow>
          if is_write then
            (case processDhcpLease (me_os env) (mo_fs st) True (mo_s st) of
               (Inl e, s1) \<Rightarrow> (on_err e, st\<lparr>mo_s := s1\<rparr>)
             | (Inr _, s1) \<Rightarrow> (SelFlags no_flags, st\<lparr>mo_s := notify_status s1\<rparr>))
          else (SelFlags no_flags, st)
      | AddedBindingEvent \<Rightarrow>
          (case dv_addedBindingIp (mo_s st) of
             [] \<Rightarrow> (SelContinue, st)
           | info # rest \<Rightarrow>
               binding_case env (add_binding info (dv_currentManualBindingClients (mo_s st)))
                 (st\<lparr>mo_s := (mo_s st)\<lparr>dv_addedBindingIp := rest\<rparr>\<rparr>))
      | DeletedBindingEvent \<Rightarrow>
          (case dv_deletedBindingIp (mo_s st) of
             [] \<Rightarrow> (SelContinue, st)
           | info # rest \<Rightarrow>
               binding_case env (delete_binding info (dv_currentManualBindingClients (mo_s st)))
                 (st\<lparr>mo_s := (mo_s st)\<lparr>dv_deletedBindingIp := rest\<rparr>\<rparr>))
      | RestartEvent \<Rightarrow>
          (SelFlags (no_flags\<lparr>needRenewConfig := True, needReload := True\<rparr>),
           st\<lparr>mo_s := (mo_s st)\<lparr>dv_restarts := dv_restarts (mo_s st) - 1\<rparr>\<rparr>)
      | ProcessTick \<Rightarrow>
          if dv_cmd (mo_s st) \<and> me_os env (OsSignal ''0'') = None then (SelFlags no_flags, st)
          else (SelFlags (no_flags\<lparr>needRenewConfig := True, needRestart := True\<rparr>), st))"

datatype turn_result = Going | Returned_loop | Crashed goerr

text \<open>What a turn does after the \<open>select\<close>.\<close>

definition after_select :: "mon_env \<Rightarrow> turn_flags \<Rightarrow> mon_state \<Rightarrow> turn_result \<times> mon_state" where
  "after_select env fl st =
     (let (r, s1, fs1) =
            (if needRenewConfig fl then generateDnsmasqConfig (me_os env) (me_tmpl env) (mo_s st, mo_fs st)
             else (Inr (), mo_s st, mo_fs st));
          st1 = st\<lparr>mo_s := s1, mo_fs := fs1\<rparr>
      in case r of
           Inl e \<Rightarrow> (if is_panic e then Crashed e else Going, st1)
         | Inr _ \<Rightarrow>
             if needReload fl then
               (if \<not> dv_cmd s1 then (Crashed (Panic ''nil pointer dereference''), st1)
                else if me_os env (OsSignal ''HUP'') \<noteq> None then (Going, st1)
                else (Going, st1\<lparr>mo_s := notify_status s1\<rparr>))
             else if needRestart fl then
               (case startDnsmasq env st1 of
                  (Inl e, st2) \<Rightarrow> (if is_panic e then Crashed e else Going, st2)
                | (Inr _, st2) \<Rightarrow> (Going, st2))
             else (Going, st1))"

definition monitor_turn :: "mon_env \<Rightarrow> monitor_event \<Rightarrow> mon_state \<Rightarrow> turn_result \<times> mon_state" where
  "monitor_turn env ev st =
     (case select_case env ev st of
        (SelReturn, st1) \<Rightarrow> (Returned_loop, st1)
      | (SelContinue, st1) \<Rightarrow> (Going, st1)
      | (SelPanic e, st1) \<Rightarrow> (Crashed e, st1)
      | (SelFlags fl, st1) \<Rightarrow> after_select env fl st1)"

fun monitor :: "(mon_env \<times> monitor_event) list \<Rightarrow> mon_state \<Rightarrow> turn_result \<times> mon_state" where
  "monitor [] st = (Going, st)"
| "monitor ((env, ev) # evs) st =
     (case monitor_turn env ev st of
        (Going, st1) \<Rightarrow> monitor evs st1
      | (r, st1) \<Rightarrow> (r, st1))"

text \<open>\<open>Run\<close> up to the start of the loop, and \<open>Stop\<close>; closing a closed channel panics.\<close>

definition Run :: "mon_env \<Rightarrow> mon_state \<Rightarrow> unit result \<times> mon_state" where
  "Run env st =
     (case startDnsmasq env st of
        (Inl e, st1) \<Rightarrow> (Inl (wrap_unless_panic ''failed to start DHCP server: %v'' e), st1)
      | (Inr _, st1) \<Rightarrow> (Inr (), st1))"

definition Stop :: "dhcpServer \<Rightarrow> unit result \<times> dhcpServer" where
  "Stop s =
     (if dv_stopped s then (Inl (Panic ''close of closed channel''), s)
      else (Inr (), s\<lparr>dv_stopped := True\<rparr>))"

section \<open>Facts about the bindings\<close>

text \<open>What a turn leaves alone.\<close>

lemma generate_manual:
  assumes "generateDnsmasqConfig os tmpl (s, fs) = (r, s', fs')"
  shows "dv_currentManualBindingClients s' = dv_currentManualBindingClients s
    \<and> dv_addedBindingIp s' = dv_addedBindingIp s \<and> dv_deletedBindingIp s' = dv_deletedBindingIp s
    \<and> dv_cmd s' = dv_cmd s \<and> dv_stopped s' = dv_stopped s
    \<and> dv_HostIpBindingsConfigPath s' = dv_HostIpBindingsConfigPath s \<and> dv_configPath s' = dv_configPath s"
  using generateDnsmasqConfig_frame [OF assms] processDhcpLease_frame by (metis prod.collapse)

lemma startDnsmasq_manual:
  assumes "startDnsmasq env st = (r, st')"
  shows "dv_currentManualBindingClients (mo_s st') = dv_currentManualBindingClients (mo_s st)
    \<and> dv_addedBindingIp (mo_s st') = dv_addedBindingIp (mo_s st)
    \<and> dv_deletedBindingIp (mo_s st') = dv_deletedBindingIp (mo_s st)
    \<and> (dv_cmd (mo_s st) \<longrightarrow> dv_cmd (mo_s st')) \<and> dv_stopped (mo_s st') = dv_stopped (mo_s st)"
  using assms
  by (auto simp: startDnsmasq_def notify_status_def dest!: generate_manual
      split: prod.splits sum.splits)

lemma after_select_manual:
  assumes "after_select env fl st = (r, st')"
  shows "dv_currentManualBindingClients (mo_s st') = dv_currentManualBindingClients (mo_s st)
    \<and> dv_addedBindingIp (mo_s st') = dv_addedBindingIp (mo_s st)
    \<and> dv_deletedBindingIp (mo_s st') = dv_deletedBindingIp (mo_s st)
    \<and> (dv_cmd (mo_s st) \<longrightarrow> dv_cmd (mo_s st')) \<and> dv_stopped (mo_s st') = dv_stopped (mo_s st)"
proof -
  obtain r1 s1 fs1 where g: "(if needRenewConfig fl then generateDnsmasqConfig (me_os env) (me_tmpl env) (mo_s st, mo_fs st)
      else (Inr (), mo_s st, mo_fs st)) = (r1, s1, fs1)"
    by (metis prod_cases3)
  have f: "dv_currentManualBindingClients s1 = dv_currentManualBindingClients (mo_s st)
    \<and> dv_addedBindingIp s1 = dv_addedBindingIp (mo_s st) \<and> dv_deletedBindingIp s1 = dv_deletedBindingIp (mo_s st)
    \<and> dv_cmd s1 = dv_cmd (mo_s st) \<and> dv_stopped s1 = dv_stopped (mo_s st)"
    using g by (auto dest: generate_manual split: if_splits)
  obtain r2 st2 where d: "startDnsmasq env (st\<lparr>mo_s := s1, mo_fs := fs1\<rparr>) = (r2, st2)"
    by (cases "startDnsmasq env (st\<lparr>mo_s := s1, mo_fs := fs1\<rparr>)")
  show ?thesis
    using assms f startDnsmasq_manual [OF d] unfolding after_select_def g
    by (cases r1; cases r2) (auto simp: Let_def notify_status_def d split: if_splits)
qed

text \<open>The bindings and the queues after a turn.\<close>

lemma binding_case_state:
  "binding_case env ch st = (sel, st') \<Longrightarrow>
   dv_currentManualBindingClients (mo_s st') =
     (case ch of None \<Rightarrow> dv_currentManualBindingClients (mo_s st) | Some m \<Rightarrow> m)
   \<and> dv_addedBindingIp (mo_s st') = dv_addedBindingIp (mo_s st)
   \<and> dv_deletedBindingIp (mo_s st') = dv_deletedBindingIp (mo_s st)
   \<and> dv_cmd (mo_s st') = dv_cmd (mo_s st)"
  by (auto simp: binding_case_def Let_def split: option.splits prod.splits sum.splits)

definition bindings_after :: "monitor_event \<Rightarrow> dhcpServer \<Rightarrow> clients" where
  "bindings_after ev s =
     (let m = dv_currentManualBindingClients s in
      case ev of
        AddedBindingEvent \<Rightarrow> (case dv_addedBindingIp s of [] \<Rightarrow> m
           | i # _ \<Rightarrow> (case add_binding i m of None \<Rightarrow> m | Some m' \<Rightarrow> m'))
      | DeletedBindingEvent \<Rightarrow> (case dv_deletedBindingIp s of [] \<Rightarrow> m
           | i # _ \<Rightarrow> (case delete_binding i m of None \<Rightarrow> m | Some m' \<Rightarrow> m'))
      | _ \<Rightarrow> m)"

lemma select_case_bindings:
  assumes "select_case env ev st = (sel, st')"
  shows "dv_currentManualBindingClients (mo_s st') = bindings_after ev (mo_s st)
    \<and> dv_addedBindingIp (mo_s st') =
        (if ev = AddedBindingEvent then tl (dv_addedBindingIp (mo_s st)) else dv_addedBindingIp (mo_s st))
    \<and> dv_deletedBindingIp (mo_s st') =
        (if ev = DeletedBindingEvent then tl (dv_deletedBindingIp (mo_s st)) else dv_deletedBindingIp (mo_s st))
    \<and> dv_cmd (mo_s st') = dv_cmd (mo_s st)"
proof (cases ev)
  case (LeaseEvent w)
  then show ?thesis using assms
    by (auto simp: select_case_def bindings_after_def notify_status_def dest!: processDhcpLease_frame
        split: if_splits prod.splits sum.splits)
qed (use assms in \<open>auto simp: select_case_def bindings_after_def dest!: binding_case_state
      split: list.splits if_splits option.splits\<close>)

lemma monitor_turn_bindings:
  assumes "monitor_turn env ev st = (r, st')"
  shows "dv_currentManualBindingClients (mo_s st') = bindings_after ev (mo_s st)
    \<and> dv_addedBindingIp (mo_s st') =
        (if ev = AddedBindingEvent then tl (dv_addedBindingIp (mo_s st)) else dv_addedBindingIp (mo_s st))
    \<and> dv_deletedBindingIp (mo_s st') =
        (if ev = DeletedBindingEvent then tl (dv_deletedBindingIp (mo_s st)) else dv_deletedBindingIp (mo_s st))
    \<and> (dv_cmd (mo_s st) \<longrightarrow> dv_cmd (mo_s st'))"
proof -
  obtain sel st1 where s: "select_case env ev st = (sel, st1)" by (cases "select_case env ev st")
  from select_case_bindings [OF s] assms show ?thesis
    by (cases sel) (auto simp: monitor_turn_def s dest!: after_select_manual)
qed

text \<open>Only an event of the subject's own address changes a binding.\<close>

lemma add_binding_get:
  "add_binding info m = Some m' \<Longrightarrow>
   gm_get m' ip = (if ip = bd_IPAddr info then Some (binding_client info) else gm_get m ip)"
  by (auto simp: add_binding_def split: option.splits if_splits)

lemma delete_binding_get:
  "delete_binding info m = Some m' \<Longrightarrow>
   gm_get m' ip = (if ip = bd_IPAddr info then None else gm_get m ip)"
  by (auto simp: delete_binding_def split: option.splits if_splits)

lemma clients_ok_del: "clients_ok m \<Longrightarrow> clients_ok (gm_del ip m)"
  by (auto simp: clients_ok_def set_gm_del)

lemma bindings_after_ok:
  assumes "clients_ok (dv_currentManualBindingClients s)"
  shows "clients_ok (bindings_after ev s)"
proof -
  have "clients_ok (gm_put (bd_IPAddr i) (binding_client i) (dv_currentManualBindingClients s))" for i
    using clients_ok_put [OF assms, of "binding_client i"] by (simp add: binding_client_def)
  then show ?thesis using assms clients_ok_del
    by (auto simp: bindings_after_def Let_def add_binding_def delete_binding_def
        split: monitor_event.splits list.splits option.splits if_splits)
qed

text \<open>A run of the loop: the bindings stay keyed by their addresses and the command stays set.\<close>

lemma monitor_invariant:
  "monitor evs st = (r, st') \<Longrightarrow> clients_ok (dv_currentManualBindingClients (mo_s st)) \<Longrightarrow>
   clients_ok (dv_currentManualBindingClients (mo_s st')) \<and> (dv_cmd (mo_s st) \<longrightarrow> dv_cmd (mo_s st'))"
proof (induction evs st rule: monitor.induct)
  case (2 env ev evs st)
  obtain r1 st1 where t: "monitor_turn env ev st = (r1, st1)" by (cases "monitor_turn env ev st")
  have "clients_ok (dv_currentManualBindingClients (mo_s st1)) \<and> (dv_cmd (mo_s st) \<longrightarrow> dv_cmd (mo_s st1))"
    using monitor_turn_bindings [OF t] bindings_after_ok "2.prems"(2) by simp
  with 2 t show ?case by (cases r1) auto
qed simp

lemma no_crash_without_panic:
  "dv_cmd (mo_s st) \<Longrightarrow> after_select env (no_flags\<lparr>needReload := True\<rparr>) st = (r, st') \<Longrightarrow> r = Going"
  by (auto simp: after_select_def no_flags_def Let_def split: if_splits)

text \<open>
  A binding event that is not refused leaves the file and the bindings in agreement, also over the
  reload that follows.
\<close>

lemma binding_case_file:
  assumes "binding_case env ch st = (SelFlags fl, st1)"
  shows "fl = no_flags\<lparr>needReload := True\<rparr>
    \<and> mo_fs st1 (dv_HostIpBindingsConfigPath (mo_s st1)) = Some (bindings_text (mo_s st1))"
proof -
  obtain m where ch: "ch = Some m" using assms by (cases ch) (auto simp: binding_case_def)
  let ?s1 = "(mo_s st)\<lparr>dv_currentManualBindingClients := m\<rparr>"
  obtain fs1 where u: "UpdateDhcpBindings (me_os env) (mo_fs st) ?s1 = (Inr (), fs1)"
    and r: "fl = no_flags\<lparr>needReload := True\<rparr>" "st1 = st\<lparr>mo_s := ?s1, mo_fs := fs1\<rparr>"
    using assms ch
    by (cases "UpdateDhcpBindings (me_os env) (mo_fs st) ?s1")
      (auto simp: binding_case_def on_err_def Let_def split: sum.splits if_splits)
  from UpdateDhcpBindings_ok [OF u] r show ?thesis by simp
qed

lemma binding_turn_file:
  assumes "ev = AddedBindingEvent \<or> ev = DeletedBindingEvent"
    and "select_case env ev st = (SelFlags fl, st1)"
  shows "fl = no_flags\<lparr>needReload := True\<rparr>
    \<and> mo_fs st1 (dv_HostIpBindingsConfigPath (mo_s st1)) = Some (bindings_text (mo_s st1))"
  using assms by (auto simp: select_case_def dest!: binding_case_file split: list.splits)

lemma reload_keeps:
  assumes "after_select env (no_flags\<lparr>needReload := True\<rparr>) st = (r, st')"
  shows "mo_fs st' = mo_fs st \<and> bindings_text (mo_s st') = bindings_text (mo_s st)
    \<and> dv_HostIpBindingsConfigPath (mo_s st') = dv_HostIpBindingsConfigPath (mo_s st)"
  using assms
  by (auto simp: after_select_def no_flags_def notify_status_def bindings_text_def Let_def split: if_splits)

section \<open>The bindings file over a run\<close>

text \<open>The bindings file holds the bindings in memory; it is not the configuration file.\<close>

definition synced :: "mon_state \<Rightarrow> bool" where
  "synced st \<longleftrightarrow> dv_configPath (mo_s st) \<noteq> dv_HostIpBindingsConfigPath (mo_s st)
     \<and> mo_fs st (dv_HostIpBindingsConfigPath (mo_s st)) = Some (bindings_text (mo_s st))"

lemma write_config_frame: "write_config os tmpl fs p d = (r, fs') \<Longrightarrow> q \<noteq> p \<Longrightarrow> fs' q = fs q"
  by (auto simp: write_config_def remove_file_def Let_def split: sum.splits if_splits prod.splits)

lemma generate_synced:
  assumes g: "generateDnsmasqConfig (\<lambda>_. None) tmpl (s, fs) = (r, s', fs')"
    and p: "dv_configPath s \<noteq> dv_HostIpBindingsConfigPath s"
    and b: "fs (dv_HostIpBindingsConfigPath s) = Some (bindings_text s)"
  shows "fs' (dv_HostIpBindingsConfigPath s) = Some (bindings_text s)"
proof -
  have o: "os_do (\<lambda>_. None) c = Inr ()" for c by simp
  have w: "fs1 (dv_HostIpBindingsConfigPath s) = Some (bindings_text s)"
    if "write_config (\<lambda>_. None) tmpl fs (dv_configPath s) d = (r1, fs1)" for d r1 fs1
    using write_config_frame [OF that] p b by metis
  have rd: "read_file (\<lambda>_. None) fs1 (dv_HostIpBindingsConfigPath s) = Inr (bindings_text s)"
    if "fs1 (dv_HostIpBindingsConfigPath s) = Some (bindings_text s)" for fs1
    using that by (simp add: read_file_def o)
  have l: "dv_HostIpBindingsConfigPath s1 = dv_HostIpBindingsConfigPath s \<and> bindings_text s1 = bindings_text s"
    if "processDhcpLease (\<lambda>_. None) fs2 True s = (r2, s1)" for fs2 r2 s1
    using processDhcpLease_frame [OF that] by (simp add: bindings_text_def)
  have u: "fs3 (dv_HostIpBindingsConfigPath s) = Some (bindings_text s)"
    if "UpdateDhcpBindings (\<lambda>_. None) fs2 s1 = (r3, fs3)"
      "dv_HostIpBindingsConfigPath s1 = dv_HostIpBindingsConfigPath s \<and> bindings_text s1 = bindings_text s"
    for fs2 r3 fs3 s1
  proof -
    have "r3 = Inr ()" using UpdateDhcpBindings_no_failure [of fs2 s1] that(1) by simp
    with UpdateDhcpBindings_ok that show ?thesis by metis
  qed
  note gen = generateDnsmasqConfig_def Let_def o
  show ?thesis
  proof (cases "read_file (\<lambda>_. None) fs (dv_configTemplatePath s)")
    case (Inl e)
    with g b show ?thesis by (simp add: gen)
  next
    case r0: (Inr c)
    show ?thesis
    proof (cases "config_data s")
      case (Inl e)
      with r0 g b show ?thesis by (simp add: gen)
    next
      case d: (Inr d)
      obtain r1 fs1 where wc: "write_config (\<lambda>_. None) tmpl fs (dv_configPath s) d = (r1, fs1)"
        by (cases "write_config (\<lambda>_. None) tmpl fs (dv_configPath s) d")
      note w1 = w [OF wc]
      obtain r2 s1 where l1: "processDhcpLease (\<lambda>_. None) fs1 True s = (r2, s1)"
        by (cases "processDhcpLease (\<lambda>_. None) fs1 True s")
      obtain r3 fs3 where u1: "UpdateDhcpBindings (\<lambda>_. None) fs1 s1 = (r3, fs3)"
        by (cases "UpdateDhcpBindings (\<lambda>_. None) fs1 s1")
      note u2 = u [OF u1 l [OF l1]]
      show ?thesis using g w1 u2
        by (cases r1; cases r2; cases r3)
          (auto simp: gen r0 d wc rd [of fs1, OF w1] l1 u1 split: sum.splits)
    qed
  qed
qed

lemma synced_eqI:
  "synced st \<Longrightarrow> mo_fs st' = mo_fs st \<Longrightarrow> dv_configPath (mo_s st') = dv_configPath (mo_s st) \<Longrightarrow>
   dv_HostIpBindingsConfigPath (mo_s st') = dv_HostIpBindingsConfigPath (mo_s st) \<Longrightarrow>
   dv_currentManualBindingClients (mo_s st') = dv_currentManualBindingClients (mo_s st) \<Longrightarrow> synced st'"
  by (simp add: synced_def bindings_text_def)

lemma generate_synced_state:
  assumes "generateDnsmasqConfig (\<lambda>_. None) tmpl (mo_s st, mo_fs st) = (r, s', fs')" "synced st"
  shows "synced (st\<lparr>mo_s := s', mo_fs := fs'\<rparr>)"
  using generate_synced [OF assms(1)] generate_manual [OF assms(1)] assms(2)
  by (simp add: synced_def bindings_text_def)

lemma startDnsmasq_synced:
  assumes "startDnsmasq env st = (r, st')" "me_os env = (\<lambda>_. None)" "synced st"
  shows "synced st'"
proof -
  obtain r0 h where h: "setupInterface (me_net env) (mo_s st) (mo_net st) = (r0, h)"
    by (cases "setupInterface (me_net env) (mo_s st) (mo_net st)")
  obtain r1 s1 fs1 where g: "generateDnsmasqConfig (\<lambda>_. None) (me_tmpl env) (mo_s st, mo_fs st) = (r1, s1, fs1)"
    by (metis prod_cases3)
  have "synced \<lparr>mo_s = s1, mo_fs = fs1, mo_net = h\<rparr>"
    using generate_synced_state [OF g assms(3)] by (simp add: synced_def)
  with assms h g show ?thesis
    by (cases r0; cases r1)
      (auto simp: startDnsmasq_def notify_status_def synced_def bindings_text_def split: sum.splits)
qed

lemma after_select_synced:
  assumes "after_select env fl st = (r, st')" "me_os env = (\<lambda>_. None)" "synced st"
  shows "synced st'"
proof -
  obtain r1 s1 fs1 where g: "(if needRenewConfig fl then generateDnsmasqConfig (me_os env) (me_tmpl env) (mo_s st, mo_fs st)
      else (Inr (), mo_s st, mo_fs st)) = (r1, s1, fs1)"
    by (metis prod_cases3)
  let ?st1 = "st\<lparr>mo_s := s1, mo_fs := fs1\<rparr>"
  have s1: "synced ?st1"
    using g assms(2,3) generate_synced_state [of "me_tmpl env" st r1 s1 fs1] by (auto split: if_splits)
  have n: "synced (?st1\<lparr>mo_s := notify_status s1\<rparr>)"
    using s1 by (simp add: synced_def notify_status_def bindings_text_def)
  obtain r2 st2 where d: "startDnsmasq env ?st1 = (r2, st2)" by (cases "startDnsmasq env ?st1")
  have "synced st2" using startDnsmasq_synced [OF d assms(2) s1] .
  with assms(1) s1 n show ?thesis unfolding after_select_def g
    by (cases r1; cases r2) (auto simp: Let_def d split: if_splits)
qed

lemma binding_case_synced:
  assumes "binding_case env ch st = (sel, st')" "me_os env = (\<lambda>_. None)" "synced st"
  shows "synced st'"
proof (cases ch)
  case None
  with assms show ?thesis by (simp add: binding_case_def)
next
  case (Some m)
  let ?s1 = "(mo_s st)\<lparr>dv_currentManualBindingClients := m\<rparr>"
  obtain fs1 where u: "UpdateDhcpBindings (\<lambda>_. None) (mo_fs st) ?s1 = (Inr (), fs1)"
    using UpdateDhcpBindings_no_failure [of "mo_fs st" ?s1] by (metis prod.collapse)
  with Some assms(1,2) have "st' = st\<lparr>mo_s := ?s1, mo_fs := fs1\<rparr>"
    by (simp add: binding_case_def Let_def)
  with UpdateDhcpBindings_ok [OF u] assms(3) show ?thesis by (simp add: synced_def)
qed

lemma select_case_synced:
  assumes "select_case env ev st = (sel, st')" "me_os env = (\<lambda>_. None)" "synced st"
  shows "synced st'"
proof (cases ev)
  case (LeaseEvent w)
  obtain r s1 where l: "processDhcpLease (\<lambda>_. None) (mo_fs st) True (mo_s st) = (r, s1)"
    by (cases "processDhcpLease (\<lambda>_. None) (mo_fs st) True (mo_s st)")
  have "synced (st\<lparr>mo_s := s1\<rparr>)" "synced (st\<lparr>mo_s := notify_status s1\<rparr>)"
    using processDhcpLease_frame [OF l] assms(3)
    by (simp_all add: synced_def bindings_text_def notify_status_def)
  with assms LeaseEvent l show ?thesis
    by (cases r) (auto simp: select_case_def split: if_splits)
next
  case AddedBindingEvent
  have "synced (st\<lparr>mo_s := (mo_s st)\<lparr>dv_addedBindingIp := q\<rparr>\<rparr>)" for q
    using assms(3) by (rule synced_eqI) simp_all
  with assms AddedBindingEvent show ?thesis
    by (auto simp: select_case_def split: list.splits elim!: binding_case_synced)
next
  case DeletedBindingEvent
  have "synced (st\<lparr>mo_s := (mo_s st)\<lparr>dv_deletedBindingIp := q\<rparr>\<rparr>)" for q
    using assms(3) by (rule synced_eqI) simp_all
  with assms DeletedBindingEvent show ?thesis
    by (auto simp: select_case_def split: list.splits elim!: binding_case_synced)
next
  case RestartEvent
  with assms show ?thesis by (auto simp: select_case_def intro: synced_eqI)
qed (use assms in \<open>auto simp: select_case_def split: if_splits\<close>)

lemma monitor_turn_synced:
  assumes "monitor_turn env ev st = (r, st')" "me_os env = (\<lambda>_. None)" "synced st"
  shows "synced st'"
proof -
  obtain sel st1 where s: "select_case env ev st = (sel, st1)" by (cases "select_case env ev st")
  have "synced st1" using select_case_synced [OF s assms(2,3)] .
  with assms(1,2) show ?thesis
    by (cases sel) (auto simp: monitor_turn_def s elim: after_select_synced)
qed

section \<open>Properties\<close>

text \<open>Property C6: whatever sequence of events the monitor handles, as long as the operating system
  refuses no call the bindings file holds exactly the bindings in memory after every turn, keyed by
  their addresses.\<close>

theorem monitor_file_agrees:
  assumes "\<forall>(env, ev) \<in> set evs. me_os env = (\<lambda>_. None)"
    and "synced st" "clients_ok (dv_currentManualBindingClients (mo_s st))"
    and "monitor evs st = (r, st')"
  shows "clients_ok (dv_currentManualBindingClients (mo_s st'))
    \<and> mo_fs st' (dv_HostIpBindingsConfigPath (mo_s st')) = Some (bindings_text (mo_s st'))"
proof -
  have "synced st'" using assms(1,2,4)
  proof (induction evs st rule: monitor.induct)
    case (2 env ev evs st)
    obtain r1 st1 where t: "monitor_turn env ev st = (r1, st1)" by (cases "monitor_turn env ev st")
    have "synced st1" using monitor_turn_synced [OF t] 2 by simp
    with 2 t show ?case by (cases r1) auto
  qed simp
  with monitor_invariant [OF assms(4,3)] show ?thesis by (simp add: synced_def)
qed

definition binding_info :: "string \<Rightarrow> BindingIPInfo" where
  "binding_info mac = \<lparr>bd_Subnet = ''net1'', bd_IPAddr = ''10.0.0.1'', bd_MacAddr = mac, bd_Valid = True,
     bd_Hostname = ''h''\<rparr>"

definition free_env :: mon_env where
  "free_env = \<lparr>me_os = (\<lambda>_. None), me_tmpl = (\<lambda>d. Inr []), me_net = example_net_env\<rparr>"

text \<open>A running server that holds one binding, with its file.\<close>

definition running :: mon_state where
  "running = \<lparr>mo_s = bound_server\<lparr>dv_cmd := True\<rparr>,
     mo_fs = [dv_HostIpBindingsConfigPath bound_server \<mapsto> bindings_text bound_server], mo_net = []\<rparr>"

lemma running_synced: "synced running"
proof -
  have "dv_configPath bound_server \<noteq> dv_HostIpBindingsConfigPath bound_server" by code_simp
  then show ?thesis by (simp add: synced_def running_def bindings_text_def)
qed

lemma running_bindings:
  "dv_currentManualBindingClients (mo_s running) = [(''10.0.0.1'', example_client)]" "dv_cmd (mo_s running)"
  by (simp_all add: running_def bound_server_def)

lemma monitor_file_agrees_witness:
  "\<exists>r st'. monitor [(free_env, AddedBindingEvent), (free_env, DeletedBindingEvent)]
       (running\<lparr>mo_s := UpdateBindingIpEvents [binding_info ''aa''] [] (mo_s running)\<rparr>) = (r, st')
     \<and> mo_fs st' (dv_HostIpBindingsConfigPath (mo_s st')) = Some (bindings_text (mo_s st'))"
proof -
  let ?st = "running\<lparr>mo_s := UpdateBindingIpEvents [binding_info ''aa''] [] (mo_s running)\<rparr>"
  let ?evs = "[(free_env, AddedBindingEvent), (free_env, DeletedBindingEvent)]"
  have s: "synced ?st"
    using running_synced by (rule synced_eqI) (simp_all add: UpdateBindingIpEvents_def)
  have c: "clients_ok (dv_currentManualBindingClients (mo_s ?st))"
    by (simp add: UpdateBindingIpEvents_def running_bindings clients_ok_def example_client_def)
  have e: "\<forall>(env, ev) \<in> set ?evs. me_os env = (\<lambda>_. None)" by (simp add: free_env_def)
  obtain r st' where "monitor ?evs ?st = (r, st')" by (cases "monitor ?evs ?st")
  with monitor_file_agrees [OF e s c this] show ?thesis by blast
qed

text \<open>An added binding is in force after the turn that takes it from the queue, with
  the address of the event and its hardware address, and every other binding is what it was.\<close>

theorem monitor_adds_binding:
  assumes "dv_addedBindingIp (mo_s st) = info # rest"
    and "monitor_turn env AddedBindingEvent st = (r, st')"
  shows "(\<exists>c. gm_get (dv_currentManualBindingClients (mo_s st')) (bd_IPAddr info) = Some c \<and> dc_MAC c = bd_MacAddr info)
    \<and> (\<forall>ip. ip \<noteq> bd_IPAddr info \<longrightarrow> gm_get (dv_currentManualBindingClients (mo_s st')) ip
         = gm_get (dv_currentManualBindingClients (mo_s st)) ip)"
proof -
  let ?m = "dv_currentManualBindingClients (mo_s st)"
  have b: "dv_currentManualBindingClients (mo_s st') = (case add_binding info ?m of None \<Rightarrow> ?m | Some m' \<Rightarrow> m')"
    using monitor_turn_bindings [OF assms(2)] assms(1) by (simp add: bindings_after_def Let_def)
  show ?thesis
  proof (cases "add_binding info ?m")
    case None
    then show ?thesis unfolding b by (auto simp: add_binding_def split: option.splits if_splits)
  next
    case (Some m')
    then show ?thesis unfolding b by (auto simp: add_binding_get binding_client_def)
  qed
qed

lemma monitor_adds_binding_witness:
  "\<exists>r st' c. monitor_turn free_env AddedBindingEvent
       (running\<lparr>mo_s := UpdateBindingIpEvents [binding_info ''aa''] [] (mo_s running)\<rparr>) = (r, st')
     \<and> gm_get (dv_currentManualBindingClients (mo_s st')) ''10.0.0.1'' = Some c \<and> dc_MAC c = ''aa''"
proof -
  let ?st = "running\<lparr>mo_s := UpdateBindingIpEvents [binding_info ''aa''] [] (mo_s running)\<rparr>"
  have q: "dv_addedBindingIp (mo_s ?st) = [binding_info ''aa'']"
    by (simp add: UpdateBindingIpEvents_def running_def bound_server_def example_server_def NewDhcpServer_def Let_def)
  obtain r st' where t: "monitor_turn free_env AddedBindingEvent ?st = (r, st')"
    by (cases "monitor_turn free_env AddedBindingEvent ?st")
  from monitor_adds_binding [OF q t] t show ?thesis by (simp add: binding_info_def)
qed

text \<open>Additions and deletions wait in two queues, so their order is lost: when a binding
  is deleted and then requested again, the monitor may take the addition first, and the deletion then
  removes the binding that was asked for last.\<close>

theorem binding_order_lost:
  "\<exists>st s' s''. mo_s st = UpdateBindingIpEvents [binding_info ''00:11:22:33:44:55''] []
        (UpdateBindingIpEvents [] [binding_info ''00:11:22:33:44:55''] (mo_s running))
     \<and> monitor [(free_env, DeletedBindingEvent), (free_env, AddedBindingEvent)] st = (Going, s')
     \<and> gm_get (dv_currentManualBindingClients (mo_s s')) ''10.0.0.1'' \<noteq> None
     \<and> monitor [(free_env, AddedBindingEvent), (free_env, DeletedBindingEvent)] st = (Going, s'')
     \<and> gm_get (dv_currentManualBindingClients (mo_s s'')) ''10.0.0.1'' = None"
proof -
  let ?i = "binding_info ''00:11:22:33:44:55''"
  define st where "st = running\<lparr>mo_s := UpdateBindingIpEvents [?i] [] (UpdateBindingIpEvents [] [?i] (mo_s running))\<rparr>"
  have st: "dv_addedBindingIp (mo_s st) = [?i]" "dv_deletedBindingIp (mo_s st) = [?i]"
    "dv_currentManualBindingClients (mo_s st) = [(''10.0.0.1'', example_client)]" "dv_cmd (mo_s st)"
    by (simp_all add: st_def UpdateBindingIpEvents_def running_def bound_server_def example_server_def
        NewDhcpServer_def Let_def)
  have going: "\<exists>st1. monitor_turn free_env ev s = (Going, st1)"
    if c: "dv_cmd (mo_s s)" and ev: "ev = AddedBindingEvent \<or> ev = DeletedBindingEvent" for ev s
  proof -
    obtain sel s1 where s: "select_case free_env ev s = (sel, s1)" by (cases "select_case free_env ev s")
    have cmd: "dv_cmd (mo_s s1)" using select_case_bindings [OF s] c by simp
    have "fst (UpdateDhcpBindings (me_os free_env) fs t) = Inr ()" for fs t
      by (simp add: free_env_def UpdateDhcpBindings_no_failure)
    then have "sel = SelContinue \<or> sel = SelFlags (no_flags\<lparr>needReload := True\<rparr>)"
      using s ev by (auto simp: select_case_def binding_case_def Let_def
          split: list.splits option.splits prod.splits sum.splits) (metis fst_conv sum.distinct(1))+
    then show ?thesis
    proof
      assume "sel = SelContinue"
      then show ?thesis by (simp add: monitor_turn_def s)
    next
      assume f: "sel = SelFlags (no_flags\<lparr>needReload := True\<rparr>)"
      obtain r s2 where a: "after_select free_env (no_flags\<lparr>needReload := True\<rparr>) s1 = (r, s2)"
        by (cases "after_select free_env (no_flags\<lparr>needReload := True\<rparr>) s1")
      from no_crash_without_panic [OF cmd a] a f show ?thesis by (simp add: monitor_turn_def s)
    qed
  qed
  note b = monitor_turn_bindings
  have del: "delete_binding ?i [(''10.0.0.1'', example_client)] = Some []"
    by (simp add: delete_binding_def binding_info_def example_client_def gm_del_def)
  have same: "add_binding ?i [(''10.0.0.1'', example_client)] = None"
    by (simp add: add_binding_def binding_info_def example_client_def)
  have new: "add_binding ?i [] = Some [(''10.0.0.1'', binding_client ?i)]"
    by (simp add: add_binding_def binding_info_def gm_put_def)
  obtain a1 where a1: "monitor_turn free_env DeletedBindingEvent st = (Going, a1)" using going st by blast
  obtain a2 where a2: "monitor_turn free_env AddedBindingEvent a1 = (Going, a2)" using going b [OF a1] st by blast
  have m1: "gm_get (dv_currentManualBindingClients (mo_s a2)) ''10.0.0.1'' \<noteq> None"
    using b [OF a1] b [OF a2] st del new by (simp add: bindings_after_def Let_def)
  obtain b1 where b1: "monitor_turn free_env AddedBindingEvent st = (Going, b1)" using going st by blast
  obtain b2 where b2: "monitor_turn free_env DeletedBindingEvent b1 = (Going, b2)" using going b [OF b1] st by blast
  have m2: "gm_get (dv_currentManualBindingClients (mo_s b2)) ''10.0.0.1'' = None"
    using b [OF b1] b [OF b2] st del same by (simp add: bindings_after_def Let_def)
  show ?thesis
    by (rule exI [of _ st], rule exI [of _ a2], rule exI [of _ b2])
      (use m1 m2 in \<open>simp add: a1 a2 b1 b2, simp add: st_def\<close>)
qed

end
