(* ===== verification/SubnetManager.thy ===== *)
theory SubnetManager
  imports DhcpMonitor
begin

text \<open>
  The subnet controller (\<open>pkg/subnet/manager.go\<close>): it runs one DHCP server per subnet and routes
  binding events to them. What it needs of a server is the interface \<open>DhcpServer\<close> of
  \<open>dhcpserver/manager.go\<close>, the locale \<open>dhcp_server\<close> here, which the model of the previous theories
  provides. Goroutines that sleep before they send an event back are a list of delayed events.
\<close>

section \<open>The interface of a DHCP server\<close>

locale dhcp_server =
  fixes run :: "'env \<Rightarrow> 'srv \<Rightarrow> unit result \<times> 'srv"
    and update_service :: "Subnet \<Rightarrow> 'srv \<Rightarrow> 'srv"
    and bind_events :: "BindingIPInfo list \<Rightarrow> BindingIPInfo list \<Rightarrow> 'srv \<Rightarrow> 'srv"
    and subnet_of :: "'srv \<Rightarrow> Subnet"
    and added :: "'srv \<Rightarrow> BindingIPInfo list"
    and deleted :: "'srv \<Rightarrow> BindingIPInfo list"
  assumes run_subnet: "run env s = (r, s') \<Longrightarrow> subnet_of s' = subnet_of s"
    and run_added: "run env s = (r, s') \<Longrightarrow> added s' = added s"
    and run_deleted: "run env s = (r, s') \<Longrightarrow> deleted s' = deleted s"
    and update_subnet: "subnet_of (update_service sn s) = sn"
    and update_added: "added (update_service sn s) = added s"
    and update_deleted: "deleted (update_service sn s) = deleted s"
    and bind_subnet: "subnet_of (bind_events a d s) = subnet_of s"
    and bind_added: "added (bind_events a d s) = added s @ a"
    and bind_deleted: "deleted (bind_events a d s) = deleted s @ d"
begin

text \<open>A server that has been started and given its bindings serves its subnet.\<close>

lemma started:
  assumes "run env s = (r, s')"
  shows "subnet_of (bind_events a [] s') = subnet_of s \<and> added (bind_events a [] s') = added s @ a
    \<and> deleted (bind_events a [] s') = deleted s"
  using run_subnet [OF assms] run_added [OF assms] run_deleted [OF assms]
  by (simp add: bind_subnet bind_added bind_deleted)

text \<open>Updates and events commute: neither loses what the other brought.\<close>

lemma update_bind:
  "subnet_of (bind_events a d (update_service sn s)) = sn
   \<and> added (bind_events a d (update_service sn s)) = added s @ a
   \<and> subnet_of (update_service sn (bind_events a d s)) = sn
   \<and> added (update_service sn (bind_events a d s)) = added s @ a"
  by (simp add: update_subnet update_added bind_subnet bind_added)

end

text \<open>The operations of \<open>dhcpServer\<close> on the state of the monitor.\<close>

definition srv_UpdateService :: "Subnet \<Rightarrow> mon_state \<Rightarrow> mon_state" where
  "srv_UpdateService sn st = st\<lparr>mo_s := UpdateService sn (mo_s st)\<rparr>"

definition srv_UpdateBindingIpEvents :: "BindingIPInfo list \<Rightarrow> BindingIPInfo list \<Rightarrow> mon_state \<Rightarrow> mon_state" where
  "srv_UpdateBindingIpEvents a d st = st\<lparr>mo_s := UpdateBindingIpEvents a d (mo_s st)\<rparr>"

lemma generate_subnet:
  "generateDnsmasqConfig os tmpl (s, fs) = (r, s', fs') \<Longrightarrow> dv_subnet s' = dv_subnet s"
  using generateDnsmasqConfig_frame processDhcpLease_frame by (metis prod.collapse)

lemma startDnsmasq_subnet:
  "startDnsmasq env st = (r, st') \<Longrightarrow> dv_subnet (mo_s st') = dv_subnet (mo_s st)"
  by (auto simp: startDnsmasq_def notify_status_def dest: generate_subnet split: prod.splits sum.splits)

lemma Run_frame:
  assumes "Run env st = (r, st')"
  shows "dv_subnet (mo_s st') = dv_subnet (mo_s st)
    \<and> dv_addedBindingIp (mo_s st') = dv_addedBindingIp (mo_s st)
    \<and> dv_deletedBindingIp (mo_s st') = dv_deletedBindingIp (mo_s st)
    \<and> dv_stopped (mo_s st') = dv_stopped (mo_s st)"
proof -
  obtain r0 st0 where d: "startDnsmasq env st = (r0, st0)" by (cases "startDnsmasq env st")
  with assms have "st' = st0" by (auto simp: Run_def split: sum.splits)
  with startDnsmasq_subnet [OF d] startDnsmasq_manual [OF d] show ?thesis by simp
qed

interpretation dhcp: dhcp_server Run srv_UpdateService srv_UpdateBindingIpEvents
  "\<lambda>st. dv_subnet (mo_s st)" "\<lambda>st. dv_addedBindingIp (mo_s st)" "\<lambda>st. dv_deletedBindingIp (mo_s st)"
  by unfold_locales
    (auto simp: srv_UpdateService_def srv_UpdateBindingIpEvents_def UpdateService_def
      UpdateBindingIpEvents_def dest: Run_frame)

section \<open>Definitions\<close>

record subnetManager =
  sm_config :: AgentConfig
  sm_cache :: SubnetCache
  sm_servers :: "(string, mon_state) gomap"
  sm_addedBindingIp :: "BindingIPInfo list"
  sm_deletedBindingIp :: "BindingIPInfo list"
  sm_delayedAdded :: "BindingIPInfo list"
  sm_delayedDeleted :: "BindingIPInfo list"

definition NewSubnetReconciler :: "AgentConfig \<Rightarrow> subnetManager" where
  "NewSubnetReconciler config =
     \<lparr>sm_config = config, sm_cache = NewSubnetCache, sm_servers = [], sm_addedBindingIp = [],
      sm_deletedBindingIp = [], sm_delayedAdded = [], sm_delayedDeleted = []\<rparr>"

text \<open>
  What a reconciliation meets: the answer to the read of the subnet, the answer to the write of its
  status, the world in which a server starts, the cache of bindings, the time, the text of an error.
\<close>

record subnet_env =
  se_got :: "Subnet result"
  se_status :: "Subnet \<Rightarrow> goerr option"
  se_mon :: mon_env
  se_files :: files
  se_bindings :: BindingIPCache
  se_now :: string
  se_text :: "goerr \<Rightarrow> string"

text \<open>\<open>UpdateSubnetStatus\<close>: the result and the object written.\<close>

definition UpdateSubnetStatus :: "subnet_env \<Rightarrow> Subnet \<Rightarrow> string \<Rightarrow> string \<Rightarrow> reconcile_out \<times> Subnet" where
  "UpdateSubnetStatus env subnet reason errorMsg =
     (let updated = subnet\<lparr>sn_Status := (sn_Status subnet)\<lparr>ss_Conditions := ss_Conditions (sn_Status subnet)
              @ [\<lparr>cond_Type = ''DhcpServer'', cond_Reason = reason, cond_Message = errorMsg,
                  cond_Status = ''False'', cond_LastTransitionTime = se_now env\<rparr>]\<rparr>\<rparr>
      in case se_status env updated of
           Some e \<Rightarrow> ((requeue_after 2, Some e), updated)
         | None \<Rightarrow> ((empty_result, None), updated))"

definition new_server :: "subnet_env \<Rightarrow> AgentConfig \<Rightarrow> Subnet \<Rightarrow> mon_state" where
  "new_server env config subnet = \<lparr>mo_s = NewDhcpServer config subnet, mo_fs = se_files env, mo_net = []\<rparr>"

text \<open>
  The result, the status write if any, and the new state: a reconciliation after it has looked up the
  server of the subnet. The lookup has a section of the lock of its own, so others may come between.
\<close>

definition Reconcile_with ::
    "mon_state option \<Rightarrow> subnet_env \<Rightarrow> string \<Rightarrow> subnetManager \<Rightarrow> reconcile_out \<times> Subnet option \<times> subnetManager" where
  "Reconcile_with server env name s =
     (case se_got env of
        Inl e \<Rightarrow>
          if IsNotFound e then
            (let s1 = s\<lparr>sm_cache := SubnetCache_Delete name (sm_cache s)\<rparr> in
             case server of
               None \<Rightarrow> ((empty_result, None), None, s1)
             | Some srv \<Rightarrow>
                 (case Stop (mo_s srv) of
                    (Inl p, _) \<Rightarrow>
                      if is_panic p then ((empty_result, Some p), None, s1)
                      else ((empty_result, None), None, s1\<lparr>sm_servers := gm_del name (sm_servers s1)\<rparr>)
                  | (Inr _, _) \<Rightarrow>
                      ((empty_result, None), None, s1\<lparr>sm_servers := gm_del name (sm_servers s1)\<rparr>)))
          else ((empty_result, Some e), None, s)
      | Inr subnet \<Rightarrow>
          if HasSpecChanged (sm_cache s) subnet then
            (case server of
               None \<Rightarrow>
                 (case Run (se_mon env) (new_server env (sm_config s) subnet) of
                    (Inl e, _) \<Rightarrow>
                      if is_panic e then ((empty_result, Some e), None, s)
                      else (let (out, w) = UpdateSubnetStatus env subnet ''Failed''
                                  (''Failed to start DHCP server for subnet '' @ om_Name (sn_Meta subnet) @ '': '' @ se_text env e)
                            in (out, Some w, s))
                  | (Inr _, t) \<Rightarrow>
                      (let infos = GetInfoForSubnet (se_bindings env) (om_Name (sn_Meta subnet));
                           t1 = (if length infos > 0 then srv_UpdateBindingIpEvents infos [] t else t)
                       in ((empty_result, None), None,
                           s\<lparr>sm_servers := gm_put (om_Name (sn_Meta subnet)) t1 (sm_servers s),
                             sm_cache := SubnetCache_Set subnet (sm_cache s)\<rparr>)))
             | Some srv \<Rightarrow>
                 ((empty_result, None), None,
                  s\<lparr>sm_servers := gm_put name (srv_UpdateService subnet srv) (sm_servers s),
                    sm_cache := SubnetCache_Set subnet (sm_cache s)\<rparr>))
          else ((empty_result, None), None, s))"

definition Reconcile ::
    "subnet_env \<Rightarrow> string \<Rightarrow> subnetManager \<Rightarrow> reconcile_out \<times> Subnet option \<times> subnetManager" where
  "Reconcile env name s = Reconcile_with (gm_get (sm_servers s) name) env name s"

text \<open>
  The start of all servers when the agent becomes the leader (in \<open>SetupWithManager\<close>): the outcomes
  of \<open>Run\<close> are those of the given worlds, one per subnet. An error is logged, a panic ends the loop.
\<close>

fun start_all :: "(subnet_env \<times> Subnet) list \<Rightarrow> subnetManager \<Rightarrow> unit result \<times> subnetManager" where
  "start_all [] s = (Inr (), s)"
| "start_all ((env, subnet) # rest) s =
     (if om_DeletionTimestamp (sn_Meta subnet) \<noteq> None then start_all rest s
      else if gm_get (sm_servers s) (om_Name (sn_Meta subnet)) \<noteq> None then start_all rest s
      else (case Run (se_mon env) (new_server env (sm_config s) subnet) of
              (Inl e, _) \<Rightarrow> if is_panic e then (Inl e, s) else start_all rest s
            | (Inr _, t) \<Rightarrow>
                start_all rest (s\<lparr>sm_servers := gm_put (om_Name (sn_Meta subnet)) t (sm_servers s)\<rparr>)))"

text \<open>\<open>Stop\<close> stops every server; an error is logged, a panic ends the loop.\<close>

fun stop_servers :: "(string, mon_state) gomap \<Rightarrow> unit result \<times> (string, mon_state) gomap" where
  "stop_servers [] = (Inr (), [])"
| "stop_servers ((n, srv) # rest) =
     (let (r, s1) = Stop (mo_s srv); p = (n, srv\<lparr>mo_s := s1\<rparr>) in
      case r of
        Inl e \<Rightarrow> if is_panic e then (Inl e, p # rest)
                 else (let (r', rest') = stop_servers rest in (r', p # rest'))
      | Inr _ \<Rightarrow> (let (r', rest') = stop_servers rest in (r', p # rest')))"

definition StopManager :: "subnetManager \<Rightarrow> unit result \<times> subnetManager" where
  "StopManager s = (let (r, m) = stop_servers (sm_servers s) in (r, s\<lparr>sm_servers := m\<rparr>))"

text \<open>One turn of \<open>processBindingIpEvents\<close>, or the end of the sleep of a delayed event.\<close>

datatype binding_turn = TakeAdded | TakeDeleted | WakeAdded | WakeDeleted

fun processBindingIpEvents :: "binding_turn \<Rightarrow> subnetManager \<Rightarrow> subnetManager" where
  "processBindingIpEvents TakeAdded s =
     (case sm_addedBindingIp s of
        [] \<Rightarrow> s
      | event # rest \<Rightarrow>
          (let s1 = s\<lparr>sm_addedBindingIp := rest\<rparr> in
           if length (bd_Subnet event) = 0 then s1
           else case gm_get (sm_servers s) (bd_Subnet event) of
             None \<Rightarrow> s1\<lparr>sm_delayedAdded := sm_delayedAdded s @ [event]\<rparr>
           | Some c \<Rightarrow> s1\<lparr>sm_servers :=
               gm_put (bd_Subnet event) (srv_UpdateBindingIpEvents [event] [] c) (sm_servers s)\<rparr>))"
| "processBindingIpEvents TakeDeleted s =
     (case sm_deletedBindingIp s of
        [] \<Rightarrow> s
      | event # rest \<Rightarrow>
          (let s1 = s\<lparr>sm_deletedBindingIp := rest\<rparr> in
           if length (bd_Subnet event) = 0 then s1
           else case gm_get (sm_servers s) (bd_Subnet event) of
             None \<Rightarrow> s1\<lparr>sm_delayedDeleted := sm_delayedDeleted s @ [event]\<rparr>
           | Some c \<Rightarrow> s1\<lparr>sm_servers :=
               gm_put (bd_Subnet event) (srv_UpdateBindingIpEvents [] [event] c) (sm_servers s)\<rparr>))"
| "processBindingIpEvents WakeAdded s =
     (case sm_delayedAdded s of
        [] \<Rightarrow> s
      | event # rest \<Rightarrow> s\<lparr>sm_delayedAdded := rest, sm_addedBindingIp := sm_addedBindingIp s @ [event]\<rparr>)"
| "processBindingIpEvents WakeDeleted s =
     (case sm_delayedDeleted s of
        [] \<Rightarrow> s
      | event # rest \<Rightarrow> s\<lparr>sm_delayedDeleted := rest, sm_deletedBindingIp := sm_deletedBindingIp s @ [event]\<rparr>)"

section \<open>The servers as a map from names to specifications\<close>

definition serving :: "subnetManager \<Rightarrow> string \<Rightarrow> SubnetSpec option" where
  "serving s n = map_option (\<lambda>srv. sn_Spec (dv_subnet (mo_s srv))) (gm_get (sm_servers s) n)"

text \<open>A subnet in the cache is served as it was cached; no server in the map has been stopped.\<close>

definition manager_ok :: "subnetManager \<Rightarrow> bool" where
  "manager_ok s \<longleftrightarrow> gm_ok (sm_servers s)
     \<and> (\<forall>n sn. SubnetCache_Get (sm_cache s) n = Some sn \<longrightarrow> serving s n = Some (sn_Spec sn))
     \<and> (\<forall>n srv. gm_get (sm_servers s) n = Some srv \<longrightarrow> \<not> dv_stopped (mo_s srv))"

lemma new_server_simps [simp]:
  "dv_subnet (mo_s (new_server env c sn)) = sn" "\<not> dv_stopped (mo_s (new_server env c sn))"
  "dv_addedBindingIp (mo_s (new_server env c sn)) = []"
  by (simp_all add: new_server_def NewDhcpServer_def Let_def)

lemma srv_stopped [simp]:
  "dv_stopped (mo_s (srv_UpdateBindingIpEvents a d st)) = dv_stopped (mo_s st)"
  "dv_stopped (mo_s (srv_UpdateService sn st)) = dv_stopped (mo_s st)"
  by (simp_all add: srv_UpdateBindingIpEvents_def UpdateBindingIpEvents_def srv_UpdateService_def UpdateService_def)

lemma manager_ok_put:
  assumes "manager_ok s" "\<not> dv_stopped (mo_s srv)" "om_Name (sn_Meta sn) = n"
    and "sn_Spec (dv_subnet (mo_s srv)) = sn_Spec sn"
  shows "manager_ok (s\<lparr>sm_servers := gm_put n srv (sm_servers s), sm_cache := SubnetCache_Set sn (sm_cache s)\<rparr>)"
  using assms unfolding manager_ok_def
  by (auto simp: serving_def subnet_cache.get_put)

lemma manager_ok_put_server:
  assumes "manager_ok s" "\<not> dv_stopped (mo_s srv)" "gm_get (sm_servers s) n = None"
  shows "manager_ok (s\<lparr>sm_servers := gm_put n srv (sm_servers s)\<rparr>)"
proof -
  have "m \<noteq> n" if "SubnetCache_Get (sm_cache s) m = Some sn" for m sn
  proof -
    have "serving s m = Some (sn_Spec sn)" using assms(1) that by (simp add: manager_ok_def)
    moreover have "serving s n = None" using assms(3) by (simp add: serving_def)
    ultimately show ?thesis by auto
  qed
  with assms(1,2) show ?thesis by (auto simp: manager_ok_def serving_def simp del: map_of_eq_Some_iff)
qed

lemma manager_ok_delete:
  assumes "manager_ok s"
  shows "manager_ok (s\<lparr>sm_cache := SubnetCache_Delete n (sm_cache s), sm_servers := gm_del n (sm_servers s)\<rparr>)"
  using assms unfolding manager_ok_def
  by (auto simp: serving_def subnet_cache.get_del)

lemma gm_del_absent: "gm_get m n = None \<Longrightarrow> gm_del n m = m"
  unfolding gm_del_def by (simp add: AList.delete_id map_of_eq_None_iff)

text \<open>Every branch of a reconciliation; the object read has the requested name.\<close>

lemma Reconcile_cases:
  assumes "Reconcile env name s = (out, w, s')" "manager_ok s"
    and "\<forall>sn. se_got env = Inr sn \<longrightarrow> om_Name (sn_Meta sn) = name"
  obtains
    (gone) "\<exists>e. se_got env = Inl e \<and> IsNotFound e" "out = (empty_result, None)" "w = None"
      "s' = s\<lparr>sm_cache := SubnetCache_Delete name (sm_cache s), sm_servers := gm_del name (sm_servers s)\<rparr>"
  | (unread) e where "se_got env = Inl e" "\<not> IsNotFound e" "out = (empty_result, Some e)" "w = None" "s' = s"
  | (unchanged) sn where "se_got env = Inr sn" "\<not> HasSpecChanged (sm_cache s) sn"
      "out = (empty_result, None)" "w = None" "s' = s"
  | (failed) sn e t where "se_got env = Inr sn" "gm_get (sm_servers s) name = None"
      "Run (se_mon env) (new_server env (sm_config s) sn) = (Inl e, t)" "s' = s"
      "w = None \<and> is_panic e \<and> snd out = Some e \<or> \<not> is_panic e \<and> (\<exists>m. (out, w) = (fst (UpdateSubnetStatus env sn ''Failed'' m),
         Some (snd (UpdateSubnetStatus env sn ''Failed'' m))))"
  | (started) sn t where "se_got env = Inr sn" "gm_get (sm_servers s) name = None"
      "Run (se_mon env) (new_server env (sm_config s) sn) = (Inr (), t)"
      "out = (empty_result, None)" "w = None"
      "s' = s\<lparr>sm_servers := gm_put name (srv_UpdateBindingIpEvents (GetInfoForSubnet (se_bindings env) name) [] t)
                (sm_servers s), sm_cache := SubnetCache_Set sn (sm_cache s)\<rparr>"
  | (updated) sn srv where "se_got env = Inr sn" "gm_get (sm_servers s) name = Some srv"
      "out = (empty_result, None)" "w = None"
      "s' = s\<lparr>sm_servers := gm_put name (srv_UpdateService sn srv) (sm_servers s),
              sm_cache := SubnetCache_Set sn (sm_cache s)\<rparr>"
proof (cases "se_got env")
  case (Inl e)
  have st: "\<not> dv_stopped (mo_s srv)" if "gm_get (sm_servers s) name = Some srv" for srv
    using assms(2) that by (auto simp: manager_ok_def)
  show ?thesis
  proof (cases "IsNotFound e")
    case True
    show ?thesis
    proof (rule gone)
      show "s' = s\<lparr>sm_cache := SubnetCache_Delete name (sm_cache s), sm_servers := gm_del name (sm_servers s)\<rparr>"
        using assms(1) Inl True st
        by (cases "gm_get (sm_servers s) name") (auto simp: Reconcile_def Reconcile_with_def Let_def Stop_def gm_del_absent)
    qed (use assms(1) Inl True st in \<open>auto simp: Reconcile_def Reconcile_with_def Let_def Stop_def split: option.splits\<close>)
  next
    case False
    with Inl assms(1) show ?thesis by (intro unread) (auto simp: Reconcile_def Reconcile_with_def)
  qed
next
  case (Inr sn)
  then have n: "om_Name (sn_Meta sn) = name" using assms(3) by simp
  show ?thesis
  proof (cases "HasSpecChanged (sm_cache s) sn")
    case False
    with Inr assms(1) show ?thesis by (intro unchanged [OF Inr]) (auto simp: Reconcile_def Reconcile_with_def)
  next
    case True
    show ?thesis
    proof (cases "gm_get (sm_servers s) name")
      case (Some srv)
      with Inr True assms(1) show ?thesis by (intro updated [OF Inr Some]) (auto simp: Reconcile_def Reconcile_with_def)
    next
      case None
      obtain r t where run: "Run (se_mon env) (new_server env (sm_config s) sn) = (r, t)"
        by (cases "Run (se_mon env) (new_server env (sm_config s) sn)")
      show ?thesis
      proof (cases r)
        case (Inl e)
        with Inr True None run assms(1) show ?thesis
          by (intro failed [OF Inr None, of e t])
            (auto simp: Reconcile_def Reconcile_with_def case_prod_unfold Let_def split: if_splits)
      next
        case r: (Inr u)
        have id: "srv_UpdateBindingIpEvents [] [] t = t"
          by (simp add: srv_UpdateBindingIpEvents_def UpdateBindingIpEvents_def)
        from r Inr True None run assms(1) n id show ?thesis
          by (intro started [OF Inr None, of t]) (auto simp: Reconcile_def Reconcile_with_def Let_def)
      qed
    qed
  qed
qed

section \<open>Events in flight\<close>

text \<open>
  All binding events the manager holds: waiting, delayed, or handed to a server that has not taken
  them yet.
\<close>

definition added_in_flight :: "subnetManager \<Rightarrow> BindingIPInfo multiset" where
  "added_in_flight s = mset (sm_addedBindingIp s) + mset (sm_delayedAdded s)
     + sum_list (map (\<lambda>p. mset (dv_addedBindingIp (mo_s (snd p)))) (sm_servers s))"

definition deleted_in_flight :: "subnetManager \<Rightarrow> BindingIPInfo multiset" where
  "deleted_in_flight s = mset (sm_deletedBindingIp s) + mset (sm_delayedDeleted s)
     + sum_list (map (\<lambda>p. mset (dv_deletedBindingIp (mo_s (snd p)))) (sm_servers s))"

lemma sum_list_put:
  assumes "gm_get m k = Some v" "f (k, v') = f (k, v) + (d :: 'a :: comm_monoid_add)"
  shows "sum_list (map f (gm_put k v' m)) = sum_list (map f m) + d"
proof -
  obtain a b where "m = a @ (k, v) # b" "gm_put k v' m = a @ (k, v') # b"
    using gm_put_split [OF assms(1)] by blast
  with assms(2) show ?thesis by (simp add: algebra_simps)
qed

lemma srv_events [simp]:
  "dv_addedBindingIp (mo_s (srv_UpdateBindingIpEvents a d st)) = dv_addedBindingIp (mo_s st) @ a"
  "dv_deletedBindingIp (mo_s (srv_UpdateBindingIpEvents a d st)) = dv_deletedBindingIp (mo_s st) @ d"
  by (rule dhcp.bind_added dhcp.bind_deleted)+

lemma added_delivered:
  assumes "gm_get m k = Some c"
  shows "sum_list (map (\<lambda>p. mset (dv_addedBindingIp (mo_s (snd p)))) (gm_put k (srv_UpdateBindingIpEvents a d c) m))
    = sum_list (map (\<lambda>p. mset (dv_addedBindingIp (mo_s (snd p)))) m) + mset a"
  by (rule sum_list_put [OF assms]) simp

lemma deleted_delivered:
  assumes "gm_get m k = Some c"
  shows "sum_list (map (\<lambda>p. mset (dv_deletedBindingIp (mo_s (snd p)))) (gm_put k (srv_UpdateBindingIpEvents a d c) m))
    = sum_list (map (\<lambda>p. mset (dv_deletedBindingIp (mo_s (snd p)))) m) + mset d"
  by (rule sum_list_put [OF assms]) simp

lemma turn_in_flight:
  assumes "\<forall>e \<in> set (sm_addedBindingIp s) \<union> set (sm_deletedBindingIp s). bd_Subnet e \<noteq> []"
  shows "added_in_flight (processBindingIpEvents t s) = added_in_flight s
    \<and> deleted_in_flight (processBindingIpEvents t s) = deleted_in_flight s"
proof (cases t)
  case TakeAdded
  show ?thesis
  proof (cases "sm_addedBindingIp s")
    case (Cons e rest)
    with assms TakeAdded show ?thesis
      by (cases "gm_get (sm_servers s) (bd_Subnet e)")
        (auto simp: added_in_flight_def deleted_in_flight_def added_delivered deleted_delivered)
  qed (simp add: TakeAdded)
next
  case TakeDeleted
  show ?thesis
  proof (cases "sm_deletedBindingIp s")
    case (Cons e rest)
    with assms TakeDeleted show ?thesis
      by (cases "gm_get (sm_servers s) (bd_Subnet e)")
        (auto simp: added_in_flight_def deleted_in_flight_def added_delivered deleted_delivered)
  qed (simp add: TakeDeleted)
qed (auto simp: added_in_flight_def deleted_in_flight_def split: list.splits)

text \<open>The subjects of all events have a subnet: preserved by every turn.\<close>

definition named_events :: "subnetManager \<Rightarrow> bool" where
  "named_events s \<longleftrightarrow> (\<forall>e \<in> set (sm_addedBindingIp s) \<union> set (sm_deletedBindingIp s)
     \<union> set (sm_delayedAdded s) \<union> set (sm_delayedDeleted s). bd_Subnet e \<noteq> [])"

lemma turn_named: "named_events s \<Longrightarrow> named_events (processBindingIpEvents t s)"
  by (cases t) (auto simp: named_events_def Let_def split: list.splits option.splits)

section \<open>Properties\<close>

text \<open>No branch breaks what the manager keeps.\<close>

lemma Reconcile_manager_ok:
  assumes "Reconcile env name s = (out, w, s')" "manager_ok s" "\<forall>sn. se_got env = Inr sn \<longrightarrow> om_Name (sn_Meta sn) = name"
  shows "manager_ok s'"
  using assms
proof (cases rule: Reconcile_cases)
  case gone
  with manager_ok_delete [OF assms(2)] show ?thesis by simp
next
  case (started sn t)
  let ?t = "srv_UpdateBindingIpEvents (GetInfoForSubnet (se_bindings env) name) [] t"
  have t: "dv_subnet (mo_s ?t) = sn" "\<not> dv_stopped (mo_s ?t)"
    using dhcp.started [OF started(3)] Run_frame [OF started(3)] by simp_all
  show ?thesis unfolding started(6) using t started(1) assms(3) by (intro manager_ok_put [OF assms(2)]) simp_all
next
  case (updated sn srv)
  have "\<not> dv_stopped (mo_s srv)" using assms(2) updated(2) by (auto simp: manager_ok_def)
  then show ?thesis
    unfolding updated(5) using updated(1) assms(3) dhcp.update_subnet by (intro manager_ok_put [OF assms(2)]) simp_all
qed (use assms(2) in simp_all)

text \<open>Property C11: a reconciliation that ends without an error or a failed status implements the
  wanted state: the server of the subnet serves the specification read, a deleted subnet has no
  server, every other subnet is served as before, and the manager's invariant is kept.\<close>

theorem Reconcile_refines:
  assumes "Reconcile env name s = (out, None, s')" "snd out = None" "manager_ok s"
    and "\<forall>sn. se_got env = Inr sn \<longrightarrow> om_Name (sn_Meta sn) = name"
  shows "manager_ok s' \<and> serving s' =
    (serving s)(name := (case se_got env of Inr sn \<Rightarrow> Some (sn_Spec sn) | Inl _ \<Rightarrow> None))"
  using assms(1,3,4)
proof (cases rule: Reconcile_cases)
  case gone
  then obtain e where e: "se_got env = Inl e" by blast
  from gone manager_ok_delete [OF assms(3)] e show ?thesis by (auto simp: serving_def fun_eq_iff)
next
  case (unread e)
  with assms(2) show ?thesis by simp
next
  case (unchanged sn)
  obtain c where c: "SubnetCache_Get (sm_cache s) name = Some c" "sn_Spec c = sn_Spec sn"
    using unchanged(1,2) assms(4) by (auto simp: HasSpecChanged_def SubnetCache_Get_def split: option.splits)
  then have "serving s name = Some (sn_Spec sn)" using assms(3) by (auto simp: manager_ok_def)
  with unchanged assms(3) show ?thesis by auto
next
  case (failed sn e t)
  with assms(2) show ?thesis by auto
next
  case (started sn t)
  let ?t = "srv_UpdateBindingIpEvents (GetInfoForSubnet (se_bindings env) name) [] t"
  have t: "dv_subnet (mo_s ?t) = sn" "\<not> dv_stopped (mo_s ?t)"
    using dhcp.started [OF started(3)] Run_frame [OF started(3)] by simp_all
  with started Reconcile_manager_ok [OF assms(1,3,4)] show ?thesis by (auto simp: serving_def fun_eq_iff)
next
  case (updated sn srv)
  with Reconcile_manager_ok [OF assms(1,3,4)] show ?thesis by (auto simp: serving_def fun_eq_iff dhcp.update_subnet)
qed

text \<open>A server that a reconciliation starts has all bindings of its subnet that are in
  the cache waiting in its queue.\<close>

theorem Reconcile_delivers_bindings:
  assumes "Reconcile env name s = (out, None, s')" "snd out = None" "manager_ok s"
    and "se_got env = Inr sn" "om_Name (sn_Meta sn) = name"
    and "gm_get (sm_servers s) name = None"
  shows "\<exists>srv. gm_get (sm_servers s') name = Some srv
    \<and> set (dv_addedBindingIp (mo_s srv)) = {i \<in> set (BindingIPCache_GetAll (se_bindings env)). bd_Subnet i = name}"
proof -
  have n: "\<forall>sn. se_got env = Inr sn \<longrightarrow> om_Name (sn_Meta sn) = name" using assms(4,5) by simp
  from assms(1,3) n show ?thesis
  proof (cases rule: Reconcile_cases)
    case (unchanged sn')
    then have "serving s name = Some (sn_Spec sn')"
      using assms(3-5) by (auto simp: HasSpecChanged_def SubnetCache_Get_def manager_ok_def split: option.splits)
    with assms(6) show ?thesis by (simp add: serving_def)
  next
    case (started sn' t)
    have "dv_addedBindingIp (mo_s t) = []" using dhcp.run_added [OF started(3)] by simp
    with started show ?thesis by (simp add: set_GetInfoForSubnet)
  qed (use assms in auto)
qed


text \<open>What the subject of a series of reconciliations looks like: each write is what the next reads.\<close>

fun reconciled :: "nat \<Rightarrow> subnet_env \<Rightarrow> string \<Rightarrow> subnetManager \<Rightarrow> Subnet \<Rightarrow> Subnet" where
  "reconciled 0 env name s sn = sn"
| "reconciled (Suc n) env name s sn =
     (let (out, w, s') = Reconcile (env\<lparr>se_got := Inr sn\<rparr>) name s
      in reconciled n env name s' (case w of None \<Rightarrow> sn | Some x \<Rightarrow> x))"

lemma Run_no_link:
  assumes "ne_LinkByName (me_net env) [] (if_Interface (sp_Interface (sn_Spec sn))) = Inl e"
  shows "\<exists>e' t. Run env (new_server senv c sn) = (Inl e', t) \<and> \<not> is_panic e'"
  using assms
  by (simp add: Run_def startDnsmasq_def setupInterface_def Let_def)
    (simp add: new_server_def)

text \<open>A subnet whose base interface does not exist gets one more failure condition at
  every reconciliation, and since each write triggers the next one, they grow without bound.\<close>

theorem failed_start_conditions_grow:
  assumes "gm_get (sm_servers s) name = None" "SubnetCache_Get (sm_cache s) name = None"
    and "om_Name (sn_Meta sn) = name" "se_status env = (\<lambda>_. None)"
    and "\<exists>e. ne_LinkByName (me_net (se_mon env)) [] (if_Interface (sp_Interface (sn_Spec sn))) = Inl e"
  shows "length (ss_Conditions (sn_Status (reconciled n env name s sn)))
    = length (ss_Conditions (sn_Status sn)) + n"
  using assms(3,5)
proof (induction n arbitrary: sn)
  case (Suc n)
  have "HasSpecChanged (sm_cache s) sn"
    using assms(2) Suc.prems(1) by (simp add: HasSpecChanged_def SubnetCache_Get_def)
  moreover obtain e' t where "Run (se_mon env) (new_server (env\<lparr>se_got := Inr sn\<rparr>) (sm_config s) sn) = (Inl e', t)"
    "\<not> is_panic e'"
    using Run_no_link Suc.prems(2) by blast
  ultimately have "\<exists>w. snd (Reconcile (env\<lparr>se_got := Inr sn\<rparr>) name s) = (Some w, s) \<and> sn_Spec w = sn_Spec sn
    \<and> om_Name (sn_Meta w) = name \<and> length (ss_Conditions (sn_Status w)) = length (ss_Conditions (sn_Status sn)) + 1"
    using assms(1,4) Suc.prems(1) by (auto simp: Reconcile_def Reconcile_with_def UpdateSubnetStatus_def Let_def)
  then obtain w where w: "snd (Reconcile (env\<lparr>se_got := Inr sn\<rparr>) name s) = (Some w, s)" "sn_Spec w = sn_Spec sn"
    "om_Name (sn_Meta w) = name" "length (ss_Conditions (sn_Status w)) = length (ss_Conditions (sn_Status sn)) + 1"
    by blast
  obtain out where "Reconcile (env\<lparr>se_got := Inr sn\<rparr>) name s = (out, Some w, s)"
    using w(1) by (metis prod.collapse)
  with Suc.IH [of w] Suc.prems w(2-4) show ?case by simp
qed simp

section \<open>A concrete manager\<close>

definition example_env :: subnet_env where
  "example_env = \<lparr>se_got = Inr example_subnet, se_status = (\<lambda>_. None), se_mon = free_env,
     se_files = installed_files, se_bindings = [(''b1'', binding_info ''aa'')], se_now = [], se_text = (\<lambda>_. [])\<rparr>"

definition example_manager :: subnetManager where
  "example_manager = NewSubnetReconciler example_config"

lemma example_manager_ok: "manager_ok example_manager"
  by (simp add: manager_ok_def example_manager_def NewSubnetReconciler_def subnet_cache.get_init)

lemma example_name: "om_Name (sn_Meta example_subnet) = ''net1''"
  by (simp add: example_subnet_def new_meta_def)

lemma example_run:
  "\<exists>t. Run free_env (new_server example_env example_config example_subnet) = (Inr (), t)"
proof -
  have n: "new_server example_env example_config example_subnet
      = \<lparr>mo_s = example_server, mo_fs = installed_files, mo_net = []\<rparr>"
    by (simp add: new_server_def example_env_def example_server_def)
  obtain h where h: "setupInterface example_net_env example_server [] = (Inr (), h)"
    using setupInterface_example by blast
  obtain s' fs' where "generateDnsmasqConfig (\<lambda>_. None) (\<lambda>d. Inr []) (example_server, installed_files) = (Inr (), s', fs')"
    using example_generate [of "\<lambda>d. Inr []" "\<lambda>d. []"] by blast
  then have "startDnsmasq free_env \<lparr>mo_s = example_server, mo_fs = installed_files, mo_net = []\<rparr>
      = (Inr (), \<lparr>mo_s = notify_status (s'\<lparr>dv_cmd := True\<rparr>), mo_fs = fs', mo_net = h\<rparr>)"
    by (simp add: startDnsmasq_def free_env_def h os_do_def)
  then show ?thesis by (simp add: n Run_def)
qed

lemma example_reconcile:
  "\<exists>s'. Reconcile example_env ''net1'' example_manager = ((empty_result, None), None, s')"
proof -
  obtain t where t: "Run (se_mon example_env) (new_server example_env (sm_config example_manager) example_subnet) = (Inr (), t)"
    using example_run by (auto simp: example_env_def example_manager_def NewSubnetReconciler_def)
  have g: "se_got example_env = Inr example_subnet" by (simp add: example_env_def)
  have h: "HasSpecChanged (sm_cache example_manager) example_subnet"
    "gm_get (sm_servers example_manager) ''net1'' = None"
    by (simp_all add: HasSpecChanged_def example_manager_def NewSubnetReconciler_def NewSubnetCache_def)
  show ?thesis unfolding Reconcile_def Reconcile_with_def Let_def g sum.case h option.case if_True t prod.case by simp
qed

lemma Reconcile_refines_witness:
  "\<exists>s'. Reconcile example_env ''net1'' example_manager = ((empty_result, None), None, s')
     \<and> serving s' ''net1'' = Some (sn_Spec example_subnet)"
proof -
  obtain s' where r: "Reconcile example_env ''net1'' example_manager = ((empty_result, None), None, s')"
    using example_reconcile by blast
  have n: "\<forall>sn. se_got example_env = Inr sn \<longrightarrow> om_Name (sn_Meta sn) = ''net1''"
    by (simp add: example_env_def example_name)
  from Reconcile_refines [OF r _ example_manager_ok n] r show ?thesis
    by (simp add: example_env_def)
qed

lemma Reconcile_delivers_bindings_witness:
  "\<exists>s' srv. Reconcile example_env ''net1'' example_manager = ((empty_result, None), None, s')
     \<and> gm_get (sm_servers s') ''net1'' = Some srv \<and> set (dv_addedBindingIp (mo_s srv)) = {binding_info ''aa''}"
proof -
  obtain s' where r: "Reconcile example_env ''net1'' example_manager = ((empty_result, None), None, s')"
    using example_reconcile by blast
  have g: "se_got example_env = Inr example_subnet" by (simp add: example_env_def)
  have n: "gm_get (sm_servers example_manager) ''net1'' = None"
    by (simp add: example_manager_def NewSubnetReconciler_def)
  have b: "{i \<in> set (BindingIPCache_GetAll (se_bindings example_env)). bd_Subnet i = ''net1''} = {binding_info ''aa''}"
    by (auto simp: example_env_def BindingIPCache_GetAll_def binding_info_def)
  from Reconcile_delivers_bindings [OF r _ example_manager_ok g example_name n] r b show ?thesis by auto
qed


lemma failed_start_conditions_grow_witness:
  "length (ss_Conditions (sn_Status (reconciled 100
     (example_env\<lparr>se_mon := free_env\<lparr>me_net := example_net_env\<lparr>ne_LinkByName := (\<lambda>_ _. Inl (SysErr []))\<rparr>\<rparr>\<rparr>)
     ''net1'' example_manager example_subnet))) = 100"
proof -
  let ?e = "example_env\<lparr>se_mon := free_env\<lparr>me_net := example_net_env\<lparr>ne_LinkByName := (\<lambda>_ _. Inl (SysErr []))\<rparr>\<rparr>\<rparr>"
  have "gm_get (sm_servers example_manager) ''net1'' = None" "SubnetCache_Get (sm_cache example_manager) ''net1'' = None"
    by (simp_all add: example_manager_def NewSubnetReconciler_def subnet_cache.get_init)
  moreover have "se_status ?e = (\<lambda>_. None)" by (simp add: example_env_def)
  ultimately show ?thesis
    by (subst failed_start_conditions_grow)
      (simp_all add: example_subnet_def zero_subnet_status_def new_meta_def)
qed

end
