(* ===== verification/BindingIpController.thy ===== *)
theory BindingIpController
  imports Tools Caches "HOL-Library.Multiset"
begin

text \<open>
  The binding IP controller (\<open>pkg/bindingip/BindingIPReconcile.go\<close>): it keeps the cache of bindings
  and the \<open>Valid\<close> field of their status, and tells the subnet manager of new and deleted bindings.
  A channel is the list of what has been sent on it. The API server's answers are parameters.
\<close>

section \<open>Definitions\<close>

record bindingIPController =
  bc_cache :: BindingIPCache
  bc_addedBindingIp :: "BindingIPInfo list"
  bc_deletedBindingIp :: "BindingIPInfo list"

record binding_env =
  be_Get :: "BindingIp result"
  be_GetSubnet :: "string \<Rightarrow> Subnet result"
  be_StatusUpdate :: "BindingIp \<Rightarrow> goerr option"

definition NewBindingIPController :: bindingIPController where
  "NewBindingIPController = \<lparr>bc_cache = BindingIPCache_init, bc_addedBindingIp = [], bc_deletedBindingIp = []\<rparr>"

definition info_of :: "BindingIp \<Rightarrow> BindingIPInfo" where
  "info_of b = \<lparr>bd_Subnet = bs_Subnet (bi_Spec b), bd_IPAddr = bs_IpAddr (bi_Spec b),
     bd_MacAddr = bs_MacAddr (bi_Spec b), bd_Valid = bst_Valid (bi_Status b), bd_Hostname = om_Name (bi_Meta b)\<rparr>"

definition spec_differs :: "BindingIPInfo \<Rightarrow> BindingIp \<Rightarrow> bool" where
  "spec_differs old b \<longleftrightarrow> bd_IPAddr old \<noteq> bs_IpAddr (bi_Spec b)
     \<or> \<not> equal_fold (bd_MacAddr old) (bs_MacAddr (bi_Spec b)) \<or> bd_Subnet old \<noteq> bs_Subnet (bi_Spec b)"

definition processBindingIP :: "BindingIp \<Rightarrow> bindingIPController \<Rightarrow> bindingIPController" where
  "processBindingIP b s =
     (let name = om_Name (bi_Meta b); info = info_of b in
      case BindingIPCache_Get (bc_cache s) name of
        None \<Rightarrow> s\<lparr>bc_cache := BindingIPCache_Add name info (bc_cache s),
                  bc_addedBindingIp := bc_addedBindingIp s @ [info]\<rparr>
      | Some oldData \<Rightarrow>
          if spec_differs oldData b then
            s\<lparr>bc_cache := BindingIPCache_Add name info (bc_cache s),
              bc_addedBindingIp := bc_addedBindingIp s @ [info]\<rparr>
          else if oldData \<noteq> info then s\<lparr>bc_cache := BindingIPCache_Add name info (bc_cache s)\<rparr>
          else s)"

text \<open>The error and the object written, none where the status stays.\<close>

definition updateBindingIPStatus :: "binding_env \<Rightarrow> BindingIp \<Rightarrow> goerr option \<times> BindingIp option" where
  "updateBindingIPStatus env b =
     (let valid = (case be_GetSubnet env (bs_Subnet (bi_Spec b)) of
             Inl _ \<Rightarrow> False
           | Inr subnet \<Rightarrow>
               (case ParseIP (bs_IpAddr (bi_Spec b)) of
                  None \<Rightarrow> False
                | Some ip \<Rightarrow> IsIPInRange ip (v4_IPRange (sp_IPv4Subnet (sn_Spec subnet)))));
          updated = b\<lparr>bi_Status := (bi_Status b)\<lparr>bst_Valid := valid\<rparr>\<rparr>
      in if bi_Status updated \<noteq> bi_Status b then (be_StatusUpdate env updated, Some updated) else (None, None))"

definition BindingReconcile ::
    "binding_env \<Rightarrow> string \<Rightarrow> bindingIPController \<Rightarrow> reconcile_out \<times> BindingIp option \<times> bindingIPController" where
  "BindingReconcile env name s =
     (case be_Get env of
        Inl e \<Rightarrow>
          if IsNotFound e then
            (case BindingIPCache_Get (bc_cache s) name of
               None \<Rightarrow> ((empty_result, None), None, s)
             | Some d \<Rightarrow>
                 (let t = \<lparr>bd_Subnet = bd_Subnet d, bd_IPAddr = bd_IPAddr d, bd_MacAddr = bd_MacAddr d,
                           bd_Valid = False, bd_Hostname = bd_Hostname d\<rparr>
                  in ((empty_result, None), None,
                      s\<lparr>bc_cache := BindingIPCache_Delete name (bc_cache s),
                        bc_deletedBindingIp := bc_deletedBindingIp s @ [t]\<rparr>)))
          else ((empty_result, Some e), None, s)
      | Inr b \<Rightarrow>
          (case updateBindingIPStatus env b of
             (Some e, w) \<Rightarrow>
               if IsConflict e then ((requeue_now, None), w, s)
               else ((empty_result, Some (Errorf ''failed to update BindingIP status: %v'' [ArgE e])), w, s)
           | (None, w) \<Rightarrow> ((requeue_after 60, None), w, processBindingIP b s)))"

section \<open>Lemmas\<close>

text \<open>Whether a binding is valid: its subnet exists and its IP is in the range.\<close>

definition valid_in :: "(string \<Rightarrow> Subnet result) \<Rightarrow> BindingIp \<Rightarrow> bool" where
  "valid_in get b \<longleftrightarrow> (\<exists>s a. get (bs_Subnet (bi_Spec b)) = Inr s \<and> ParseIP (bs_IpAddr (bi_Spec b)) = Some a
     \<and> a \<in> range_set (v4_IPRange (sp_IPv4Subnet (sn_Spec s))))"

lemma updateBindingIPStatus_eq:
  "updateBindingIPStatus env b =
     (let u = b\<lparr>bi_Status := \<lparr>bst_Valid = valid_in (be_GetSubnet env) b\<rparr>\<rparr>
      in if bst_Valid (bi_Status b) = valid_in (be_GetSubnet env) b then (None, None)
         else (be_StatusUpdate env u, Some u))"
proof -
  have "(case be_GetSubnet env (bs_Subnet (bi_Spec b)) of Inl _ \<Rightarrow> False
         | Inr subnet \<Rightarrow> (case ParseIP (bs_IpAddr (bi_Spec b)) of None \<Rightarrow> False
             | Some ip \<Rightarrow> IsIPInRange ip (v4_IPRange (sp_IPv4Subnet (sn_Spec subnet)))))
       = valid_in (be_GetSubnet env) b"
    by (auto simp: valid_in_def IsIPInRange_iff ParseIP_length split: sum.splits option.splits)
  then show ?thesis
    by (cases "bi_Status b") (simp add: updateBindingIPStatus_def Let_def)
qed

lemma processBindingIP_cache:
  "BindingIPCache_Get (bc_cache (processBindingIP b s)) k =
     (if k = om_Name (bi_Meta b) then Some (info_of b) else BindingIPCache_Get (bc_cache s) k)"
  by (auto simp: processBindingIP_def Let_def BindingIPCache_Get_def BindingIPCache_Add_def split: option.splits)

lemma processBindingIP_ok [simp]: "gm_ok (bc_cache s) \<Longrightarrow> gm_ok (bc_cache (processBindingIP b s))"
  by (auto simp: processBindingIP_def Let_def BindingIPCache_Add_def split: option.splits)

lemma processBindingIP_deleted [simp]: "bc_deletedBindingIp (processBindingIP b s) = bc_deletedBindingIp s"
  by (auto simp: processBindingIP_def Let_def split: option.splits)

text \<open>When the subnet manager has to be told of a binding.\<close>

definition announces :: "bindingIPController \<Rightarrow> BindingIp \<Rightarrow> bool" where
  "announces s b = (case BindingIPCache_Get (bc_cache s) (om_Name (bi_Meta b)) of
     None \<Rightarrow> True | Some d \<Rightarrow> spec_differs d b)"

lemma processBindingIP_added:
  "bc_addedBindingIp (processBindingIP b s) = bc_addedBindingIp s @ (if announces s b then [info_of b] else [])"
  by (auto simp: processBindingIP_def announces_def Let_def split: option.splits)

text \<open>A run of reconciliations.\<close>

fun binding_run :: "(binding_env \<times> string) list \<Rightarrow> bindingIPController \<Rightarrow> bindingIPController" where
  "binding_run [] s = s"
| "binding_run ((env, name) # rest) s = binding_run rest (snd (snd (BindingReconcile env name s)))"

text \<open>What a binding event is about.\<close>

definition event_key :: "BindingIPInfo \<Rightarrow> string \<times> string \<times> string \<times> string" where
  "event_key d = (bd_Subnet d, bd_IPAddr d, to_lower (bd_MacAddr d), bd_Hostname d)"

definition announced :: "bindingIPController \<Rightarrow> bool" where
  "announced s \<longleftrightarrow> gm_ok (bc_cache s) \<and>
     mset (map event_key (bc_addedBindingIp s)) =
       mset (map event_key (bc_deletedBindingIp s)) + mset (map (\<lambda>kv. event_key (snd kv)) (bc_cache s))"

lemma mset_gm_put:
  assumes "gm_ok m"
  shows "image_mset f (mset (gm_put k v m)) = add_mset (f (k, v)) (image_mset f (mset (gm_del k m)))"
  using assms
proof (induction m)
  case Nil
  show ?case by (simp add: gm_put_def gm_del_def)
next
  case (Cons p m)
  have d: "gm_del k m = m" if "k \<notin> fst ` set m"
    using that by (simp add: gm_del_def AList.delete_id)
  with Cons show ?case by (cases p) (auto simp: gm_put_def gm_del_def)
qed

lemma mset_gm_del:
  assumes "gm_ok m" "gm_get m k = Some v"
  shows "image_mset f (mset m) = add_mset (f (k, v)) (image_mset f (mset (gm_del k m)))"
proof -
  have "gm_put k v m = m" using assms(2) unfolding gm_put_def by (induction m) (auto split: if_splits)
  with mset_gm_put [OF assms(1), of f k v] show ?thesis by simp
qed

lemma mset_gm_del_absent: "gm_get m k = None \<Longrightarrow> gm_del k m = m"
  by (simp add: gm_del_def AList.delete_id map_of_eq_None_iff)

lemma announced_process:
  assumes "announced s"
    and "\<And>d. BindingIPCache_Get (bc_cache s) (om_Name (bi_Meta b)) = Some d \<Longrightarrow> event_key d = event_key (info_of b)"
  shows "announced (processBindingIP b s)"
proof -
  let ?n = "om_Name (bi_Meta b)" and ?f = "\<lambda>kv :: string \<times> BindingIPInfo. event_key (snd kv)"
  have ok: "gm_ok (bc_cache s)" using assms(1) by (simp add: announced_def)
  show ?thesis
  proof (cases "BindingIPCache_Get (bc_cache s) ?n")
    case None
    then have "bc_cache (processBindingIP b s) = gm_put ?n (info_of b) (bc_cache s)"
      "bc_addedBindingIp (processBindingIP b s) = bc_addedBindingIp s @ [info_of b]"
      by (simp_all add: processBindingIP_def BindingIPCache_Add_def Let_def)
    moreover have "gm_del ?n (bc_cache s) = bc_cache s"
      using None by (simp add: BindingIPCache_Get_def mset_gm_del_absent)
    ultimately show ?thesis using assms(1) ok by (simp add: announced_def mset_gm_put)
  next
    case (Some d)
    have k: "event_key d = event_key (info_of b)" using assms(2) Some .
    then have "\<not> spec_differs d b" by (simp add: event_key_def info_of_def spec_differs_def equal_fold_def)
    then have "bc_addedBindingIp (processBindingIP b s) = bc_addedBindingIp s"
      "image_mset ?f (mset (bc_cache (processBindingIP b s))) = image_mset ?f (mset (bc_cache s))"
      using Some k mset_gm_put [OF ok, of ?f ?n "info_of b"] mset_gm_del [OF ok, of ?n d ?f]
      by (auto simp: processBindingIP_def BindingIPCache_Add_def BindingIPCache_Get_def Let_def)
    with assms(1) show ?thesis by (simp add: announced_def)
  qed
qed

lemma announced_delete:
  assumes "announced s" "gm_get (bc_cache s) n = Some d" "event_key t = event_key d"
  shows "announced (s\<lparr>bc_cache := gm_del n (bc_cache s), bc_deletedBindingIp := bc_deletedBindingIp s @ [t]\<rparr>)"
  using assms mset_gm_del [of "bc_cache s" n d "\<lambda>kv. event_key (snd kv)"] by (auto simp: announced_def)

text \<open>The specifications the API server may return, as one event key per name.\<close>

definition reads_as :: "(string \<Rightarrow> string \<times> string \<times> string \<times> string) \<Rightarrow> binding_env \<Rightarrow> string \<Rightarrow> bool" where
  "reads_as spec env name \<longleftrightarrow>
     (case be_Get env of Inl _ \<Rightarrow> True
      | Inr b \<Rightarrow> om_Name (bi_Meta b) = name \<and> event_key (info_of b) = spec name)"

lemma reconcile_announced:
  assumes "announced s" "reads_as spec env name"
    and "\<And>n d. BindingIPCache_Get (bc_cache s) n = Some d \<Longrightarrow> event_key d = spec n"
  shows "announced (snd (snd (BindingReconcile env name s)))
    \<and> (\<forall>n d. BindingIPCache_Get (bc_cache (snd (snd (BindingReconcile env name s)))) n = Some d \<longrightarrow> event_key d = spec n)"
proof (cases "be_Get env")
  case (Inl e)
  show ?thesis
  proof (cases "IsNotFound e \<and> BindingIPCache_Get (bc_cache s) name \<noteq> None")
    case True
    then obtain d where d: "gm_get (bc_cache s) name = Some d" by (auto simp: BindingIPCache_Get_def)
    let ?t = "\<lparr>bd_Subnet = bd_Subnet d, bd_IPAddr = bd_IPAddr d, bd_MacAddr = bd_MacAddr d,
      bd_Valid = False, bd_Hostname = bd_Hostname d\<rparr>"
    have "snd (snd (BindingReconcile env name s)) =
        s\<lparr>bc_cache := gm_del name (bc_cache s), bc_deletedBindingIp := bc_deletedBindingIp s @ [?t]\<rparr>"
      using Inl True d by (simp add: BindingReconcile_def BindingIPCache_Get_def BindingIPCache_Delete_def)
    moreover have "event_key ?t = event_key d" by (simp add: event_key_def)
    ultimately show ?thesis using announced_delete [OF assms(1) d] assms(3)
      by (auto simp: BindingIPCache_Get_def)
  next
    case False
    with Inl assms(1,3) show ?thesis by (auto simp: BindingReconcile_def split: option.splits)
  qed
next
  case (Inr b)
  then have b: "om_Name (bi_Meta b) = name" "event_key (info_of b) = spec name"
    using assms(2) by (simp_all add: reads_as_def)
  have "announced (processBindingIP b s)"
    using announced_process [OF assms(1)] assms(3) b by simp
  moreover have "event_key d = spec n" if "BindingIPCache_Get (bc_cache (processBindingIP b s)) n = Some d" for n d
    using that assms(3) b by (auto simp: processBindingIP_cache split: if_splits)
  ultimately show ?thesis using Inr assms(1,3)
    by (auto simp: BindingReconcile_def split: prod.splits option.splits)
qed

lemma binding_run_announced:
  assumes "announced s" "\<And>n d. BindingIPCache_Get (bc_cache s) n = Some d \<Longrightarrow> event_key d = spec n"
    and "\<forall>(env, name) \<in> set ts. reads_as spec env name"
  shows "announced (binding_run ts s)"
  using assms
proof (induction ts arbitrary: s)
  case (Cons t ts)
  obtain env name where t: "t = (env, name)" by (cases t)
  with Cons.prems have "reads_as spec env name" by simp
  from reconcile_announced [OF Cons.prems(1) this Cons.prems(2)]
  show ?case unfolding t binding_run.simps using Cons.prems(3) by (intro Cons.IH) auto
qed simp

section \<open>Properties\<close>

definition plain_binding :: "string \<Rightarrow> string \<Rightarrow> BindingIp" where
  "plain_binding name ip = \<lparr>bi_Meta = new_meta name,
     bi_Spec = \<lparr>bs_Subnet = ''net1'', bs_IpAddr = ip, bs_MacAddr = ''00:11:22:33:44:55''\<rparr>,
     bi_Status = \<lparr>bst_Valid = False\<rparr>\<rparr>"

definition reads_binding :: "BindingIp result \<Rightarrow> binding_env" where
  "reads_binding r = \<lparr>be_Get = r, be_GetSubnet = (\<lambda>_. Inl (ApiErr NotFound)), be_StatusUpdate = (\<lambda>_. None)\<rparr>"

text \<open>Property C26: a reconciliation that ends without an error or a requeue leaves in the cache what it
  read and nothing else changed, announces the binding exactly if it is new or its specification
  differs from the cached one, writes the status exactly if \<open>Valid\<close> is not what the subnet and the
  range say, writes that value, and asks to be called again after a minute.\<close>

theorem BindingReconcile_tracks:
  assumes "BindingReconcile env name s = ((r, None), w, s')" "be_Get env = Inr b" "om_Name (bi_Meta b) = name"
    and "r \<noteq> requeue_now"
  shows "BindingIPCache_Get (bc_cache s') = (BindingIPCache_Get (bc_cache s))(name \<mapsto> info_of b)
    \<and> bc_addedBindingIp s' = bc_addedBindingIp s @ (if announces s b then [info_of b] else [])
    \<and> bc_deletedBindingIp s' = bc_deletedBindingIp s
    \<and> w = (if bst_Valid (bi_Status b) = valid_in (be_GetSubnet env) b then None
           else Some (b\<lparr>bi_Status := \<lparr>bst_Valid = valid_in (be_GetSubnet env) b\<rparr>\<rparr>))
    \<and> r = requeue_after 60"
proof -
  obtain e w' where u: "updateBindingIPStatus env b = (e, w')" by (cases "updateBindingIPStatus env b")
  with assms(1,2,4) have "e = None" by (auto simp: BindingReconcile_def split: option.splits if_splits)
  then have d: "w = w'" "s' = processBindingIP b s" "r = requeue_after 60"
    using assms(1,2) u by (simp_all add: BindingReconcile_def)
  have "w' = (if bst_Valid (bi_Status b) = valid_in (be_GetSubnet env) b then None
      else Some (b\<lparr>bi_Status := \<lparr>bst_Valid = valid_in (be_GetSubnet env) b\<rparr>\<rparr>))"
    using u by (auto simp: updateBindingIPStatus_eq Let_def split: if_splits)
  moreover have "BindingIPCache_Get (bc_cache s') = (BindingIPCache_Get (bc_cache s))(name \<mapsto> info_of b)"
    unfolding d fun_eq_iff by (simp add: processBindingIP_cache assms(3))
  ultimately show ?thesis by (simp add: d processBindingIP_added)
qed

lemma reads_binding_eq:
  assumes "bst_Valid (bi_Status b) = False"
  shows "BindingReconcile (reads_binding (Inr b)) name s = ((requeue_after 60, None), None, processBindingIP b s)"
proof -
  have "\<not> valid_in (\<lambda>_. Inl (ApiErr NotFound)) b" by (auto simp: valid_in_def)
  with assms show ?thesis by (simp add: BindingReconcile_def reads_binding_def updateBindingIPStatus_eq)
qed

lemma BindingReconcile_tracks_witness:
  "bc_addedBindingIp (snd (snd (BindingReconcile (reads_binding (Inr (plain_binding ''b1'' ''192.168.1.15''))) ''b1''
      NewBindingIPController))) = [info_of (plain_binding ''b1'' ''192.168.1.15'')]"
proof -
  let ?b = "plain_binding ''b1'' ''192.168.1.15''"
  have "BindingReconcile (reads_binding (Inr ?b)) ''b1'' NewBindingIPController
      = ((requeue_after 60, None), None, processBindingIP ?b NewBindingIPController)"
    by (rule reads_binding_eq) (simp add: plain_binding_def)
  from BindingReconcile_tracks [OF this, of ?b] this show ?thesis
    by (simp add: reads_binding_def plain_binding_def new_meta_def requeue_after_def requeue_now_def announces_def
        NewBindingIPController_def BindingIPCache_init_def BindingIPCache_Get_def)
qed

text \<open>Property C27: as long as the specification a name stands for does not change (the status may,
  objects may disappear and come back, reads and writes may fail), every announced binding is either
  still in the cache or has been withdrawn by exactly one deletion event: added events are deleted
  events plus the cache, as multisets.\<close>

theorem binding_events_balanced:
  assumes "\<forall>(env, name) \<in> set ts. reads_as spec env name"
  shows "mset (map event_key (bc_addedBindingIp (binding_run ts NewBindingIPController))) =
     mset (map event_key (bc_deletedBindingIp (binding_run ts NewBindingIPController)))
     + mset (map (\<lambda>kv. event_key (snd kv)) (bc_cache (binding_run ts NewBindingIPController)))"
proof -
  have "announced (binding_run ts NewBindingIPController)"
    by (rule binding_run_announced [OF _ _ assms])
      (simp_all add: announced_def NewBindingIPController_def BindingIPCache_init_def BindingIPCache_Get_def)
  then show ?thesis by (simp add: announced_def)
qed

lemma binding_events_balanced_witness:
  "mset (map event_key (bc_addedBindingIp (binding_run [(reads_binding (Inr (plain_binding ''b1'' ''192.168.1.15'')), ''b1''),
      (reads_binding (Inl (ApiErr NotFound)), ''b1'')] NewBindingIPController)))
   = mset (map event_key (bc_deletedBindingIp (binding_run [(reads_binding (Inr (plain_binding ''b1'' ''192.168.1.15'')), ''b1''),
      (reads_binding (Inl (ApiErr NotFound)), ''b1'')] NewBindingIPController)))"
proof -
  let ?ts = "[(reads_binding (Inr (plain_binding ''b1'' ''192.168.1.15'')), ''b1''),
    (reads_binding (Inl (ApiErr NotFound)), ''b1'')]"
  have "\<forall>(env, name) \<in> set ?ts. reads_as (\<lambda>_. event_key (info_of (plain_binding ''b1'' ''192.168.1.15''))) env name"
    by (simp add: reads_as_def reads_binding_def plain_binding_def new_meta_def)
  from binding_events_balanced [OF this] show ?thesis
    by (simp add: reads_binding_eq plain_binding_def new_meta_def NewBindingIPController_def BindingReconcile_def reads_binding_def
        updateBindingIPStatus_eq valid_in_def processBindingIP_def
        BindingIPCache_init_def BindingIPCache_Get_def BindingIPCache_Add_def BindingIPCache_Delete_def gm_put_def gm_del_def Let_def)
qed

text \<open>A binding whose IP is changed announces the new IP and withdraws nothing; when it is
  deleted later only the new IP is withdrawn, so the DHCP server keeps the old one for ever.\<close>

theorem binding_change_leaks:
  assumes "bs_IpAddr (bi_Spec b) \<noteq> bs_IpAddr (bi_Spec b')" "om_Name (bi_Meta b) = n" "om_Name (bi_Meta b') = n"
    and "\<not> bst_Valid (bi_Status b)" "\<not> bst_Valid (bi_Status b')"
  shows "let s = binding_run [(reads_binding (Inr b), n), (reads_binding (Inr b'), n),
              (reads_binding (Inl (ApiErr NotFound)), n)] NewBindingIPController
     in map bd_IPAddr (bc_addedBindingIp s) = [bs_IpAddr (bi_Spec b), bs_IpAddr (bi_Spec b')]
      \<and> map bd_IPAddr (bc_deletedBindingIp s) = [bs_IpAddr (bi_Spec b')] \<and> bc_cache s = []"
proof -
  have "binding_run [(reads_binding (Inr b), n), (reads_binding (Inr b'), n), (reads_binding (Inl (ApiErr NotFound)), n)]
      NewBindingIPController
    = snd (snd (BindingReconcile (reads_binding (Inl (ApiErr NotFound))) n
        (processBindingIP b' (processBindingIP b NewBindingIPController))))"
    using assms(4,5) by (simp add: reads_binding_eq)
  then show ?thesis using assms(1-3)
    by (simp add: BindingReconcile_def reads_binding_def processBindingIP_def NewBindingIPController_def
        BindingIPCache_init_def BindingIPCache_Get_def BindingIPCache_Add_def BindingIPCache_Delete_def
        gm_put_def gm_del_def spec_differs_def info_of_def Let_def)
qed

lemma binding_change_leaks_witness:
  "map bd_IPAddr (bc_deletedBindingIp (binding_run
     [(reads_binding (Inr (plain_binding ''b1'' ''192.168.1.15'')), ''b1''),
      (reads_binding (Inr (plain_binding ''b1'' ''192.168.1.16'')), ''b1''),
      (reads_binding (Inl (ApiErr NotFound)), ''b1'')] NewBindingIPController)) = [''192.168.1.16'']"
  using binding_change_leaks [of "plain_binding ''b1'' ''192.168.1.15''" "plain_binding ''b1'' ''192.168.1.16''" "''b1''"]
  by (simp add: plain_binding_def new_meta_def Let_def)

end
