(* ===== verification/SshClient.thy ===== *)
theory SshClient
  imports Caches
begin

text \<open>
  The SSH client of \<open>pkg/sshstatus/ssh/client.go\<close>: which authentication it chooses, what it dials, the
  commands it runs and how their outputs become the \<open>Info\<close> of a host. The \<open>golang.org/x/crypto/ssh\<close>
  library and the host behind it are parameters; a connection is the number \<open>Dial\<close> gave it.
\<close>

section \<open>Definitions\<close>

datatype ssh_auth = PublicKeys string | PasswordAuth string

text \<open>\<open>InsecureIgnoreHostKey\<close> and the time limit are the same for every connection.\<close>

record ssh_config =
  sg_User :: string
  sg_Auth :: "ssh_auth list"

record ssh_client =
  cl_conn :: nat
  cl_config :: ssh_config
  cl_hostInfo :: SSHConnectCon

text \<open>A run gives the standard output, the standard error and the error of \<open>session.Run\<close>.\<close>

record ssh_net =
  sx_ParsePrivateKey :: "string \<Rightarrow> string result"
  sx_Dial :: "string \<Rightarrow> ssh_config \<Rightarrow> nat result"
  sx_NewSession :: "nat \<Rightarrow> goerr option"
  sx_Run :: "nat \<Rightarrow> string \<Rightarrow> string \<times> string \<times> goerr option"
  sx_Error :: "goerr \<Rightarrow> string"

text \<open>\<open>net.JoinHostPort\<close>.\<close>

definition join_host_port :: "string \<Rightarrow> string \<Rightarrow> string" where
  "join_host_port host port =
     (if CHR '':'' \<in> set host then ''['' @ host @ '']:'' @ port else host @ '':'' @ port)"

definition auth_methods :: "ssh_net \<Rightarrow> SSHConnectCon \<Rightarrow> ssh_auth list result" where
  "auth_methods net hostInfo =
     (if sc_SSHKeyAuth hostInfo \<and> sc_SSHKey hostInfo \<noteq> [] then
        (case sx_ParsePrivateKey net (sc_SSHKey hostInfo) of
           Inl e \<Rightarrow> Inl (Errorf ''failed to parse private key: %v'' [ArgE e])
         | Inr signer \<Rightarrow> Inr ([] @ [PublicKeys signer]))
      else if sc_Username hostInfo \<noteq> [] \<and> sc_Password hostInfo \<noteq> [] then
        Inr ([] @ [PasswordAuth (sc_Password hostInfo)])
      else Inl (Errorf ''no valid authentication method provided'' []))"

definition ssh_NewClient :: "ssh_net \<Rightarrow> SSHConnectCon \<Rightarrow> ssh_client result" where
  "ssh_NewClient net hostInfo =
     and_then (auth_methods net hostInfo) (\<lambda>authMethods.
       (let config = \<lparr>sg_User = sc_Username hostInfo, sg_Auth = authMethods\<rparr>;
            addr = join_host_port (sb_IpAddr (sc_Info hostInfo)) (dec_of_int (sb_Port (sc_Info hostInfo)))
        in case sx_Dial net addr config of
             Inl e \<Rightarrow> Inl (Errorf ''failed to dial: %v'' [ArgE e])
           | Inr conn \<Rightarrow> Inr \<lparr>cl_conn = conn, cl_config = config, cl_hostInfo = hostInfo\<rparr>))"

definition RunCommand :: "ssh_net \<Rightarrow> ssh_client \<Rightarrow> string \<Rightarrow> string result" where
  "RunCommand net c cmd =
     (case sx_NewSession net (cl_conn c) of
        Some e \<Rightarrow> Inl (Errorf ''failed to create session: %v'' [ArgE e])
      | None \<Rightarrow>
          (case sx_Run net (cl_conn c) cmd of
             (stdout, stderr, Some e) \<Rightarrow> Inl (Errorf ''failed to run command: %v, stderr: %s'' [ArgE e, ArgS stderr])
           | (stdout, stderr, None) \<Rightarrow> Inr stdout))"

text \<open>One block of \<open>GetSystemInfo\<close>: a command, the format of its error and the key of its output.\<close>

definition info_step ::
    "ssh_net \<Rightarrow> ssh_client \<Rightarrow> string \<times> string \<times> string \<Rightarrow> (string, string) gomap \<times> goerr list
      \<Rightarrow> (string, string) gomap \<times> goerr list" where
  "info_step net c p r =
     (case (p, r) of ((cmd, failed, key), (info, errs)) \<Rightarrow>
        (case RunCommand net c cmd of
           Inl e \<Rightarrow> (info, errs @ [Errorf failed [ArgE e]])
         | Inr out \<Rightarrow> (gm_put key (trim_space out) info, errs)))"

definition info_commands :: "(string \<times> string \<times> string) list" where
  "info_commands =
     [(''hostname'', ''failed to get hostname: %v'', ''Hostname''),
      (''cat /etc/os-release | grep PRETTY_NAME | cut -d '' @ [CHR 0x27, CHR 0x22, CHR 0x27] @ '' -f 2'',
         ''failed to get OS info: %v'', ''OS''),
      (''uname -r'', ''failed to get kernel version: %v'', ''Kernel''),
      (''cat /proc/cpuinfo | grep '' @ [CHR 0x27] @ ''model name'' @ [CHR 0x27] @ '' | head -1 | cut -d '' @ [CHR 0x27]
         @ '':'' @ [CHR 0x27] @ '' -f 2'', ''failed to get CPU info: %v'', ''CPU''),
      (''nproc'', ''failed to get CPU cores: %v'', ''CPUCores''),
      (''free -h | grep Mem | awk '' @ [CHR 0x27] @ ''{print $2}'' @ [CHR 0x27], ''failed to get memory info: %v'', ''Memory''),
      (''lspci | grep Display | wc -l'', ''failed to get GPU count: %v'', ''GPUCount''),
      (''lspci -v | grep -i '' @ [CHR 0x27] @ ''ethernet controller'' @ [CHR 0x27] @ '' | grep -vi '' @ [CHR 0x27]
         @ ''virtual function'' @ [CHR 0x27], ''failed to get network info: %v'', ''Network''),
      (''lsblk -d -o NAME,SIZE,TYPE,TRAN | grep -E '' @ [CHR 0x27] @ ''disk|nvme'' @ [CHR 0x27] @ '' | grep -v ''
         @ [CHR 0x27] @ ''loop'' @ [CHR 0x5C] @ ''|rom'' @ [CHR 0x27] @ '' | awk '' @ [CHR 0x27] @ ''{print $1,$2}'' @ [CHR 0x27],
         ''failed to get storage info: %v'', ''Storage'')]"

definition GetSystemInfo :: "ssh_net \<Rightarrow> ssh_client \<Rightarrow> (string, string) gomap \<times> goerr option" where
  "GetSystemInfo net c =
     (case fold (info_step net c) info_commands ([], []) of
        (info, errs) \<Rightarrow>
          if length errs > 0 then
            (info, Some (Errorf (''partial system info collected, some errors occurred:'' @ [CHR 0x0A] @ ''%s'')
               [ArgS (join_with [CHR 0x0A] (map (sx_Error net) errs))]))
          else (info, None))"

definition IsHealthy :: "ssh_net \<Rightarrow> ssh_client \<Rightarrow> bool" where
  "IsHealthy net c =
     (case RunCommand net c (''echo '' @ [CHR 0x27] @ ''Connection test'' @ [CHR 0x27]) of Inl _ \<Rightarrow> False | Inr _ \<Rightarrow> True)"

section \<open>Lemmas\<close>

lemma auth_methods_Inr:
  "auth_methods net d = Inr ms \<longleftrightarrow>
     (if sc_SSHKeyAuth d \<and> sc_SSHKey d \<noteq> [] then (\<exists>k. sx_ParsePrivateKey net (sc_SSHKey d) = Inr k \<and> ms = [PublicKeys k])
      else sc_Username d \<noteq> [] \<and> sc_Password d \<noteq> [] \<and> ms = [PasswordAuth (sc_Password d)])"
  by (auto simp: auth_methods_def split: sum.splits)

lemma info_step_simps:
  "RunCommand net c cmd = Inl e \<Longrightarrow> info_step net c (cmd, failed, key) (info, errs) = (info, errs @ [Errorf failed [ArgE e]])"
  "RunCommand net c cmd = Inr out \<Longrightarrow> info_step net c (cmd, failed, key) (info, errs) = (gm_put key (trim_space out) info, errs)"
  by (simp_all add: info_step_def)

text \<open>The fold over the blocks: the keys of the commands that ran, in the order of the blocks.\<close>

lemma info_fold:
  assumes "fold (info_step net c) ps (info, errs) = (info', errs')" "distinct (map (\<lambda>p. snd (snd p)) ps)"
    and "gm_ok info" "fst ` set info \<inter> set (map (\<lambda>p. snd (snd p)) ps) = {}"
  shows "gm_ok info' \<and> (\<exists>es. errs' = errs @ es \<and> length es = length (filter (\<lambda>p. \<exists>e. RunCommand net c (fst p) = Inl e) ps))
    \<and> (\<forall>k. gm_get info' k = (case find (\<lambda>p. snd (snd p) = k) ps of
         None \<Rightarrow> gm_get info k
       | Some p \<Rightarrow> (case RunCommand net c (fst p) of Inl _ \<Rightarrow> None | Inr out \<Rightarrow> Some (trim_space out))))"
  using assms
proof (induction ps arbitrary: info errs)
  case (Cons p ps)
  obtain cmd failed key where p: "p = (cmd, failed, key)" by (metis prod_cases3)
  have k: "gm_get info key = None" using Cons.prems(4) by (auto simp: p map_of_eq_None_iff)
  have ne: "find (\<lambda>p. snd (snd p) = key) ps = None"
    using Cons.prems(2) by (force simp: p find_None_iff)
  show ?case
  proof (cases "RunCommand net c cmd")
    case (Inl e)
    then have "fold (info_step net c) ps (info, errs @ [Errorf failed [ArgE e]]) = (info', errs')"
      using Cons.prems(1) by (simp add: p info_step_simps)
    from Cons.IH [OF this] Cons.prems(2-4) Inl k ne show ?thesis by (auto simp: p)
  next
    case (Inr out)
    then have "fold (info_step net c) ps (gm_put key (trim_space out) info, errs) = (info', errs')"
      using Cons.prems(1) by (simp add: p info_step_simps)
    from Cons.IH [OF this] Cons.prems(2-4) Inr k ne show ?thesis by (auto simp: p split: option.split)
  qed
qed simp

lemma info_keys:
  "map (\<lambda>p. snd (snd p)) info_commands =
     [''Hostname'', ''OS'', ''Kernel'', ''CPU'', ''CPUCores'', ''Memory'', ''GPUCount'', ''Network'', ''Storage'']"
  by (simp add: info_commands_def)

lemma GetSystemInfo_spec:
  "gm_ok (fst (GetSystemInfo net c))
   \<and> (snd (GetSystemInfo net c) = None \<longleftrightarrow> (\<forall>p \<in> set info_commands. \<exists>out. RunCommand net c (fst p) = Inr out))
   \<and> (\<forall>k. gm_get (fst (GetSystemInfo net c)) k = (case find (\<lambda>p. snd (snd p) = k) info_commands of
         None \<Rightarrow> None
       | Some p \<Rightarrow> (case RunCommand net c (fst p) of Inl _ \<Rightarrow> None | Inr out \<Rightarrow> Some (trim_space out))))"
proof -
  obtain info errs where f: "fold (info_step net c) info_commands ([], []) = (info, errs)" by fastforce
  have d: "distinct (map (\<lambda>p. snd (snd p)) info_commands)" unfolding info_keys by simp
  note r = info_fold [OF f d, unfolded map_of.simps(1)]
  have "errs = [] \<longleftrightarrow> filter (\<lambda>p. \<exists>e. RunCommand net c (fst p) = Inl e) info_commands = []"
    using r by fastforce
  also have "\<dots> \<longleftrightarrow> (\<forall>p \<in> set info_commands. \<exists>out. RunCommand net c (fst p) = Inr out)"
    unfolding filter_empty_conv by (metis Inl_Inr_False obj_sumE)
  finally show ?thesis using r by (simp add: GetSystemInfo_def f)
qed

section \<open>Properties\<close>

text \<open>What is collected of a host over SSH: under each of the nine keys the trimmed output of its
  command where that ran, nothing where it failed and nothing under any other key; an error is reported exactly
  if one of the commands failed.\<close>

theorem GetSystemInfo_collects:
  "(snd (GetSystemInfo net c) = None \<longleftrightarrow> (\<forall>p \<in> set info_commands. \<exists>out. RunCommand net c (fst p) = Inr out))
   \<and> (\<forall>k. gm_get (fst (GetSystemInfo net c)) k = (case find (\<lambda>p. snd (snd p) = k) info_commands of
         None \<Rightarrow> None
       | Some p \<Rightarrow> (case RunCommand net c (fst p) of Inl _ \<Rightarrow> None | Inr out \<Rightarrow> Some (trim_space out))))"
  using GetSystemInfo_spec by blast

lemma GetSystemInfo_collects_witness:
  "gm_get (fst (GetSystemInfo \<lparr>sx_ParsePrivateKey = Inr, sx_Dial = (\<lambda>a b. Inr 1), sx_NewSession = (\<lambda>n. None),
     sx_Run = (\<lambda>n cmd. ('' '' @ cmd, [], None)), sx_Error = (\<lambda>e. [])\<rparr> c)) ''Kernel'' = Some (trim_space ('' uname -r''))"
  by (subst conjunct2 [OF GetSystemInfo_collects, rule_format]) (simp add: info_commands_def RunCommand_def)

text \<open>A client that was made has dialled the host of its parameters with exactly one authentication
  method, the private key where there is one and else the password, and never an empty one.\<close>

lemma ssh_NewClient_authenticated:
  assumes "ssh_NewClient net d = Inr c"
  shows "\<exists>m. sx_Dial net (join_host_port (sb_IpAddr (sc_Info d)) (dec_of_int (sb_Port (sc_Info d)))) (cl_config c) = Inr (cl_conn c)
    \<and> cl_config c = \<lparr>sg_User = sc_Username d, sg_Auth = [m]\<rparr> \<and> cl_hostInfo c = d
    \<and> (if sc_SSHKeyAuth d \<and> sc_SSHKey d \<noteq> [] then \<exists>k. sx_ParsePrivateKey net (sc_SSHKey d) = Inr k \<and> m = PublicKeys k
       else m = PasswordAuth (sc_Password d) \<and> sc_Username d \<noteq> [] \<and> sc_Password d \<noteq> [])"
proof -
  obtain ms where ms: "auth_methods net d = Inr ms"
    "sx_Dial net (join_host_port (sb_IpAddr (sc_Info d)) (dec_of_int (sb_Port (sc_Info d))))
       \<lparr>sg_User = sc_Username d, sg_Auth = ms\<rparr> = Inr (cl_conn c)"
    "cl_config c = \<lparr>sg_User = sc_Username d, sg_Auth = ms\<rparr>" "cl_hostInfo c = d"
    using assms unfolding ssh_NewClient_def Let_def and_then_Inr by (force split: sum.split_asm)
  show ?thesis using ms(2-4) ms(1) [unfolded auth_methods_Inr]
    by (cases "sc_SSHKeyAuth d \<and> sc_SSHKey d \<noteq> []") auto
qed

end
