(* ===== verification/StatusCompare.thy ===== *)
theory StatusCompare
  imports ApiTypes
begin

text \<open>
  What the controllers ask of a comparison of two statuses (\<open>compareRedfishStatus\<close>,
  \<open>compareSSHStatus\<close>): it tells whether a view of them is the same, so a status that compares as
  equal need not be written. \<open>ok\<close> says that the maps in a status are Go maps. The second part is
  the comparison of two Go maps by length and lookup, which both of them end with.
\<close>

locale comparison =
  fixes cmp :: "'a \<Rightarrow> 'a \<Rightarrow> bool"
    and view :: "'a \<Rightarrow> 'v"
    and ok :: "'a \<Rightarrow> bool"
  assumes cmp_view: "ok a \<Longrightarrow> ok b \<Longrightarrow> cmp a b \<Longrightarrow> view a = view b"
    and view_cmp: "ok a \<Longrightarrow> ok b \<Longrightarrow> view a = view b \<Longrightarrow> cmp a b"
begin

lemma cmp_iff: "ok a \<Longrightarrow> ok b \<Longrightarrow> cmp a b \<longleftrightarrow> view a = view b"
  using cmp_view view_cmp by blast

lemma cmp_refl: "ok a \<Longrightarrow> cmp a a"
  by (simp add: cmp_iff)

lemma cmp_sym: "ok a \<Longrightarrow> ok b \<Longrightarrow> cmp a b \<Longrightarrow> cmp b a"
  by (simp add: cmp_iff)

lemma cmp_trans: "ok a \<Longrightarrow> ok b \<Longrightarrow> ok c \<Longrightarrow> cmp a b \<Longrightarrow> cmp b c \<Longrightarrow> cmp a c"
  by (simp add: cmp_iff)

text \<open>A write guarded by the comparison leaves the view wanted, whether it happens or not.\<close>

lemma cmp_guard: "ok new \<Longrightarrow> ok old \<Longrightarrow> view (if cmp new old then old else new) = view new"
  using cmp_view by fastforce

end

section \<open>Maps\<close>

text \<open>Every entry of \<open>a\<close> is found in \<open>b\<close> with its value.\<close>

definition covered :: "('k, 'v) gomap \<Rightarrow> ('k, 'v) gomap \<Rightarrow> bool" where
  "covered a b \<longleftrightarrow> \<not> (\<exists>(k, v1) \<in> set a. (case gm_get b k of None \<Rightarrow> True | Some v2 \<Rightarrow> v1 \<noteq> v2))"

lemma covered_get: "covered a b \<Longrightarrow> gm_get a k = Some v \<Longrightarrow> gm_get b k = Some v"
  by (fastforce simp: covered_def dest: map_of_SomeD split: option.splits)

lemma covered_same:
  assumes "gm_ok a" "gm_ok b" "length a = length b" "covered a b"
  shows "gm_get a = gm_get b"
proof -
  have "fst ` set a \<subseteq> fst ` set b" using covered_get [OF assms(4)] by (auto simp: gm_keys_dom)
  moreover have "card (fst ` set b) = card (fst ` set a)" using assms(1-3) by (simp add: gm_length_eq_card [symmetric])
  ultimately have "fst ` set a = fst ` set b" by (metis List.finite_set card_subset_eq finite_imageI)
  then have "dom (gm_get a) = dom (gm_get b)" by (simp add: gm_keys_dom)
  show ?thesis
  proof
    fix k
    show "gm_get a k = gm_get b k"
    proof (cases "gm_get a k")
      case None
      with \<open>dom (gm_get a) = dom (gm_get b)\<close> have "k \<notin> dom (gm_get b)" by (metis domIff)
      with None show ?thesis by (simp add: domIff)
    qed (use covered_get [OF assms(4)] in simp)
  qed
qed

lemma same_covered:
  assumes "gm_ok a" "gm_ok b" "gm_get a = gm_get b"
  shows "length a = length b \<and> covered a b"
proof -
  have "fst ` set a = fst ` set b" using assms(3) by (simp add: gm_keys_dom)
  then have "length a = length b" using assms(1,2) by (simp add: gm_length_eq_card)
  moreover have "gm_get b k = Some v" if "(k, v) \<in> set a" for k v using assms that by (metis gm_get_in_set)
  ultimately show ?thesis by (fastforce simp: covered_def)
qed

end
