(* ===== verification/Locks.thy ===== *)
theory Locks
  imports Prelude
begin

text \<open>
  The lock manager of \<open>pkg/lock/lockByID.go\<close>. A \<open>*Mutex\<close> is an address; \<open>&Mutex{}\<close> is an
  address not used before. \<open>GetLock\<close> runs under the manager's read lock, which many goroutines
  can hold at once, so beside the function there is a step relation in which several goroutines
  are inside it at the same time. Its steps are the read of the map and the write of the map;
  nothing in the program takes the manager's write lock.
\<close>

record LockManager =
  lm_locks :: "(string, nat) gomap"
  lm_next :: nat

definition LockManagerInstance :: LockManager where
  "LockManagerInstance = \<lparr>lm_locks = [], lm_next = 0\<rparr>"

text \<open>The lines after the lookup failed: a new lock, stored and returned.\<close>

definition create_lock :: "string \<Rightarrow> LockManager \<Rightarrow> nat \<times> LockManager" where
  "create_lock name lm =
     (lm_next lm, lm\<lparr>lm_locks := gm_put name (lm_next lm) (lm_locks lm), lm_next := lm_next lm + 1\<rparr>)"

definition GetLock :: "string \<Rightarrow> LockManager \<Rightarrow> nat \<times> LockManager" where
  "GetLock name lm =
     (case gm_get (lm_locks lm) name of Some l \<Rightarrow> (l, lm) | None \<Rightarrow> create_lock name lm)"

text \<open>Calls one after the other.\<close>

fun GetLocks :: "string list \<Rightarrow> LockManager \<Rightarrow> nat list \<times> LockManager" where
  "GetLocks [] lm = ([], lm)"
| "GetLocks (n # ns) lm =
     (let (l, lm1) = GetLock n lm; (ls, lm2) = GetLocks ns lm1 in (l # ls, lm2))"

section \<open>Sequential calls\<close>

text \<open>No two names share a lock, and every lock in the map has been allocated.\<close>

definition locks_ok :: "LockManager \<Rightarrow> bool" where
  "locks_ok lm \<longleftrightarrow> (\<forall>n l. gm_get (lm_locks lm) n = Some l \<longrightarrow> l < lm_next lm
     \<and> (\<forall>m. gm_get (lm_locks lm) m = Some l \<longrightarrow> m = n))"

lemma create_lock_get:
  "gm_get (lm_locks (snd (create_lock name lm))) n =
     (if n = name then Some (lm_next lm) else gm_get (lm_locks lm) n)"
  by (simp add: create_lock_def)

lemma create_lock_ok: "locks_ok lm \<Longrightarrow> locks_ok (snd (create_lock name lm))"
  by (auto simp: locks_ok_def create_lock_get) (auto simp: create_lock_def less_Suc_eq split: if_splits)

lemma GetLock_ok: "locks_ok lm \<Longrightarrow> locks_ok (snd (GetLock name lm))"
  by (auto simp: GetLock_def create_lock_ok split: option.splits)

lemma GetLock_stored: "gm_get (lm_locks (snd (GetLock name lm))) name = Some (fst (GetLock name lm))"
  by (auto simp: GetLock_def create_lock_def split: option.splits)

lemma GetLock_keeps:
  "gm_get (lm_locks lm) n = Some l \<Longrightarrow> gm_get (lm_locks (snd (GetLock name lm))) n = Some l"
  by (auto simp: GetLock_def create_lock_def split: option.splits)

lemma GetLocks_keeps:
  "gm_get (lm_locks lm) n = Some l \<Longrightarrow> gm_get (lm_locks (snd (GetLocks ns lm))) n = Some l"
proof (induction ns arbitrary: lm)
  case (Cons m ns)
  from Cons.IH [OF GetLock_keeps [OF Cons.prems, of m]] show ?case
    by (simp add: case_prod_unfold Let_def)
qed simp

lemma GetLocks_ok: "locks_ok lm \<Longrightarrow> locks_ok (snd (GetLocks ns lm))"
proof (induction ns arbitrary: lm)
  case (Cons m ns)
  from Cons.IH [OF GetLock_ok [OF Cons.prems, of m]] show ?case
    by (simp add: case_prod_unfold Let_def)
qed simp

lemma GetLocks_stored:
  "i < length ns \<Longrightarrow>
   gm_get (lm_locks (snd (GetLocks ns lm))) (ns ! i) = Some (fst (GetLocks ns lm) ! i)"
proof (induction ns arbitrary: lm i)
  case (Cons m ns)
  show ?case
  proof (cases i)
    case 0
    from GetLocks_keeps [OF GetLock_stored [of m lm], of ns] 0 show ?thesis
      by (simp add: case_prod_unfold Let_def)
  next
    case (Suc j)
    with Cons show ?thesis by (simp add: case_prod_unfold Let_def)
  qed
qed simp

section \<open>Concurrent calls\<close>

datatype get_pc = Idle | InLookup string | InCreate string | Returned string nat

record lock_state =
  ls_lm :: LockManager
  ls_pc :: "nat \<Rightarrow> get_pc"

inductive get_step :: "lock_state \<Rightarrow> lock_state \<Rightarrow> bool" where
  rlock: "ls_pc s t = Idle \<Longrightarrow> get_step s (s\<lparr>ls_pc := (ls_pc s)(t := InLookup name)\<rparr>)"
| hit: "ls_pc s t = InLookup name \<Longrightarrow> gm_get (lm_locks (ls_lm s)) name = Some l \<Longrightarrow>
    get_step s (s\<lparr>ls_pc := (ls_pc s)(t := Returned name l)\<rparr>)"
| miss: "ls_pc s t = InLookup name \<Longrightarrow> gm_get (lm_locks (ls_lm s)) name = None \<Longrightarrow>
    get_step s (s\<lparr>ls_pc := (ls_pc s)(t := InCreate name)\<rparr>)"
| create: "ls_pc s t = InCreate name \<Longrightarrow> create_lock name (ls_lm s) = (l, lm') \<Longrightarrow>
    get_step s (s\<lparr>ls_lm := lm', ls_pc := (ls_pc s)(t := Returned name l)\<rparr>)"
| again: "ls_pc s t = Returned name l \<Longrightarrow> get_step s (s\<lparr>ls_pc := (ls_pc s)(t := Idle)\<rparr>)"

definition lock_init :: lock_state where
  "lock_init = \<lparr>ls_lm = LockManagerInstance, ls_pc = (\<lambda>_. Idle)\<rparr>"

inductive lock_reachable :: "lock_state \<Rightarrow> bool" where
  start: "lock_reachable lock_init"
| step: "lock_reachable s \<Longrightarrow> get_step s s' \<Longrightarrow> lock_reachable s'"

text \<open>
  An owner of every lock handed out: a ghost assignment from locks to names under which the map
  and every return agree. It is what concurrency does not break.
\<close>

definition owned :: "(nat \<Rightarrow> string) \<Rightarrow> lock_state \<Rightarrow> bool" where
  "owned owner s \<longleftrightarrow>
     (\<forall>n l. gm_get (lm_locks (ls_lm s)) n = Some l \<longrightarrow> l < lm_next (ls_lm s) \<and> owner l = n)
   \<and> (\<forall>t n l. ls_pc s t = Returned n l \<longrightarrow> l < lm_next (ls_lm s) \<and> owner l = n)"

lemma owned_step:
  assumes "owned owner s" "get_step s s'"
  shows "\<exists>owner'. owned owner' s'"
proof -
  have A: "l < lm_next (ls_lm s) \<and> owner l = n" if "gm_get (lm_locks (ls_lm s)) n = Some l" for n l
    using assms(1) that by (simp add: owned_def)
  have B: "l < lm_next (ls_lm s) \<and> owner l = n" if "ls_pc s t = Returned n l" for t n l
    using assms(1) that by (simp add: owned_def)
  from assms(2) show ?thesis
  proof (cases rule: get_step.cases)
    case (create t name l lm')
    have "owned (owner(lm_next (ls_lm s) := name)) s'"
      using create by (auto simp: owned_def create_lock_def less_Suc_eq dest: A B split: if_splits)
    then show ?thesis by blast
  qed (use assms(1) in \<open>auto simp: owned_def split: if_splits intro!: exI [of _ owner]\<close>)
qed

lemma owned_reachable: "lock_reachable s \<Longrightarrow> \<exists>owner. owned owner s"
proof (induction rule: lock_reachable.induct)
  case start
  show ?case by (auto simp: owned_def lock_init_def LockManagerInstance_def)
next
  case (step s s')
  then show ?case using owned_step by blast
qed

section \<open>Properties\<close>

text \<open>Over any sequence of calls of \<open>GetLock\<close>, two calls return the same lock exactly
  if they are for the same name.\<close>

theorem GetLocks_same_iff:
  assumes "i < length ns" "j < length ns"
  shows "fst (GetLocks ns LockManagerInstance) ! i = fst (GetLocks ns LockManagerInstance) ! j
     \<longleftrightarrow> ns ! i = ns ! j"
proof -
  have "locks_ok LockManagerInstance" by (simp add: locks_ok_def LockManagerInstance_def)
  then have ok: "locks_ok (snd (GetLocks ns LockManagerInstance))" by (rule GetLocks_ok)
  show ?thesis
    using GetLocks_stored [OF assms(1), of LockManagerInstance]
      GetLocks_stored [OF assms(2), of LockManagerInstance] ok
    by (auto simp: locks_ok_def)
qed

lemma GetLocks_same_iff_witness:
  "fst (GetLocks [''host1'', ''host1'', ''host2''] LockManagerInstance) ! 0
     = fst (GetLocks [''host1'', ''host1'', ''host2''] LockManagerInstance) ! 1
   \<and> fst (GetLocks [''host1'', ''host1'', ''host2''] LockManagerInstance) ! 0
     \<noteq> fst (GetLocks [''host1'', ''host1'', ''host2''] LockManagerInstance) ! 2"
  using GetLocks_same_iff [of 0 "[''host1'', ''host1'', ''host2'']" 1]
    GetLocks_same_iff [of 0 "[''host1'', ''host1'', ''host2'']" 2] by simp

text \<open>Property C28: \<open>GetLock\<close> creates locks under the read lock only, so two goroutines that ask for
  the same new name at the same time can be handed different locks.\<close>

theorem GetLock_race:
  "\<exists>s l1 l2. lock_reachable s \<and> ls_pc s 0 = Returned ''host1'' l1
     \<and> ls_pc s 1 = Returned ''host1'' l2 \<and> l1 \<noteq> l2"
proof -
  let ?n = "''host1''"
  define s1 where "s1 = lock_init\<lparr>ls_pc := (ls_pc lock_init)(0 := InLookup ?n)\<rparr>"
  define s2 where "s2 = s1\<lparr>ls_pc := (ls_pc s1)(1 := InLookup ?n)\<rparr>"
  define s3 where "s3 = s2\<lparr>ls_pc := (ls_pc s2)(0 := InCreate ?n)\<rparr>"
  define s4 where "s4 = s3\<lparr>ls_pc := (ls_pc s3)(1 := InCreate ?n)\<rparr>"
  define s5 where "s5 = s4\<lparr>ls_lm := \<lparr>lm_locks = [(?n, 0)], lm_next = 1\<rparr>,
    ls_pc := (ls_pc s4)(0 := Returned ?n 0)\<rparr>"
  define s6 where "s6 = s5\<lparr>ls_lm := \<lparr>lm_locks = [(?n, 1)], lm_next = 2\<rparr>,
    ls_pc := (ls_pc s5)(1 := Returned ?n 1)\<rparr>"
  note d = lock_init_def LockManagerInstance_def create_lock_def gm_put_def
  have "get_step lock_init s1" unfolding s1_def by (rule rlock) (simp add: d)
  moreover have "get_step s1 s2" unfolding s2_def by (rule rlock) (simp add: s1_def d)
  moreover have "get_step s2 s3" unfolding s3_def by (rule miss) (simp_all add: s2_def s1_def d)
  moreover have "get_step s3 s4" unfolding s4_def by (rule miss) (simp_all add: s3_def s2_def s1_def d)
  moreover have "get_step s4 s5"
    unfolding s5_def by (rule create) (simp_all add: s4_def s3_def s2_def s1_def d)
  moreover have "get_step s5 s6"
    unfolding s6_def by (rule create) (simp_all add: s5_def s4_def s3_def s2_def s1_def d)
  ultimately have "lock_reachable s6" by (meson lock_reachable.intros)
  moreover have "ls_pc s6 0 = Returned ?n 0" "ls_pc s6 1 = Returned ?n 1"
    by (simp_all add: s6_def s5_def)
  ultimately show ?thesis by (metis zero_neq_one)
qed

text \<open>Even then no lock is handed out for two different names.\<close>

theorem GetLock_distinct:
  assumes "lock_reachable s" "ls_pc s t = Returned n l" "ls_pc s t' = Returned n' l"
  shows "n = n'"
  using owned_reachable [OF assms(1)] assms(2,3) unfolding owned_def by metis

lemma GetLock_distinct_witness:
  "\<exists>s. lock_reachable s \<and> ls_pc s 0 = Returned ''host1'' 0 \<and> (\<forall>t n. ls_pc s t = Returned n 0 \<longrightarrow> n = ''host1'')"
proof -
  let ?n = "''host1''"
  define s1 where "s1 = lock_init\<lparr>ls_pc := (ls_pc lock_init)(0 := InLookup ?n)\<rparr>"
  define s2 where "s2 = s1\<lparr>ls_pc := (ls_pc s1)(0 := InCreate ?n)\<rparr>"
  define s3 where "s3 = s2\<lparr>ls_lm := \<lparr>lm_locks = [(?n, 0)], lm_next = 1\<rparr>,
    ls_pc := (ls_pc s2)(0 := Returned ?n 0)\<rparr>"
  note d = lock_init_def LockManagerInstance_def create_lock_def gm_put_def
  have "get_step lock_init s1" unfolding s1_def by (rule rlock) (simp add: d)
  moreover have "get_step s1 s2" unfolding s2_def by (rule miss) (simp_all add: s1_def d)
  moreover have "get_step s2 s3" unfolding s3_def by (rule create) (simp_all add: s2_def s1_def d)
  ultimately have r: "lock_reachable s3" by (meson lock_reachable.intros)
  have p: "ls_pc s3 0 = Returned ?n 0" by (simp add: s3_def)
  from GetLock_distinct [OF r _ p] r p show ?thesis by blast
qed

end
