(* ===== verification/SshStatusController.thy ===== *)
theory SshStatusController
  imports SshClient StatusCompare Locks
begin

text \<open>
  The SSHStatus controller (\<open>pkg/sshstatus/ssh_status_reconcile.go\<close>, \<open>tools.go\<close>, \<open>manager.go\<close>): it
  fills a new SSHStatus from the HostEndpoint that owns it, caches its connection and reads the host at
  an interval. The API server, the clock, the decoding of JSON and the SSH library are parameters.
\<close>

section \<open>State\<close>

record sshStatusController =
  ssc_config :: AgentConfig
  ssc_cache :: SSHHostCache
  ssc_locks :: LockManager
  ssc_events :: "(string \<times> string \<times> string) list"
  ssc_writes :: "SSHStatus list"

definition NewSSHStatusController :: "AgentConfig \<Rightarrow> sshStatusController" where
  "NewSSHStatusController config = \<lparr>ssc_config = config, ssc_cache = NewSSHHostCache,
     ssc_locks = LockManagerInstance, ssc_events = [], ssc_writes = []\<rparr>"

text \<open>\<open>sa_json_keys\<close> decodes a JSON object and gives its keys.\<close>

record ssh_env =
  sa_Get :: "string \<Rightarrow> SSHStatus result"
  sa_GetEndpoint :: "string \<Rightarrow> HostEndpoint result"
  sa_ListSubnets :: "Subnet list result"
  sa_StatusUpdate :: "SSHStatus \<Rightarrow> SSHStatus result"
  sa_Secret :: "string \<Rightarrow> string \<Rightarrow> (string, string) gomap result"
  sa_json_keys :: "string \<Rightarrow> string list result"
  sa_now :: string
  sa_net :: ssh_net

section \<open>Tools\<close>

definition data_field :: "(string, string) gomap \<Rightarrow> string \<Rightarrow> string" where
  "data_field data k = (case gm_get data k of None \<Rightarrow> [] | Some v \<Rightarrow> v)"

definition ssh_getSecretData :: "ssh_env \<Rightarrow> string \<Rightarrow> string \<Rightarrow> (string \<times> string \<times> string \<times> bool) result" where
  "ssh_getSecretData env secretName secretNamespace =
     and_then (sa_Secret env secretNamespace secretName) (\<lambda>data.
       (let sshKey = data_field data ''ssh-privatekey''
        in Inr (data_field data ''username'', data_field data ''password'', sshKey, sshKey \<noteq> [])))"

definition compareSSHStatus :: "SSHStatusStatus \<Rightarrow> SSHStatusStatus \<Rightarrow> bool" where
  "compareSSHStatus a b \<longleftrightarrow>
     (if s_Healthy a \<noteq> s_Healthy b then False
      else if s_LastUpdateTime a \<noteq> s_LastUpdateTime b then False
      else if sb_Type (s_Basic a) \<noteq> sb_Type (s_Basic b) then False
      else if sb_IpAddr (s_Basic a) \<noteq> sb_IpAddr (s_Basic b) then False
      else if sb_Port (s_Basic a) \<noteq> sb_Port (s_Basic b) then False
      else if sb_SecretName (s_Basic a) \<noteq> sb_SecretName (s_Basic b) then False
      else if sb_SecretNamespace (s_Basic a) \<noteq> sb_SecretNamespace (s_Basic b) then False
      else if sb_SSHKeyAuth (s_Basic a) \<noteq> sb_SSHKeyAuth (s_Basic b) then False
      else if sb_ClusterName (s_Basic a) \<noteq> sb_ClusterName (s_Basic b) then False
      else if length (s_Info a) \<noteq> length (s_Info b) then False
      else if \<not> covered (s_Info a) (s_Info b) then False
      else True)"

text \<open>\<open>GenerateEvents\<close> of \<open>tools.go\<close>; an event is its object, its type and its message.\<close>

record ssh_log_summary =
  slg_LatestTime :: string
  slg_LatestMsg :: string
  slg_WarningTime :: string
  slg_WarningMsg :: string
  slg_Total :: int
  slg_Warnings :: int
  slg_New :: int

definition ssh_no_logs :: ssh_log_summary where
  "ssh_no_logs = \<lparr>slg_LatestTime = [], slg_LatestMsg = [], slg_WarningTime = [], slg_WarningMsg = [],
     slg_Total = 0, slg_Warnings = 0, slg_New = 0\<rparr>"

definition ssh_log_msg :: "(string, string) gomap \<Rightarrow> string" where
  "ssh_log_msg entry = ''['' @ data_field entry ''timestamp'' @ ''][''  @ data_field entry ''level'' @ '']: ''
     @ data_field entry ''message''"

fun ssh_events_loop ::
    "string \<Rightarrow> string \<Rightarrow> nat \<Rightarrow> (string, string) gomap list \<Rightarrow> ssh_log_summary \<times> (string \<times> string \<times> string) list
      \<Rightarrow> ssh_log_summary \<times> (string \<times> string \<times> string) list" where
  "ssh_events_loop name lastLogTime i [] r = r"
| "ssh_events_loop name lastLogTime i (entry # entries) (g, evs) =
     (let timestamp = data_field entry ''timestamp''; level = data_field entry ''level''; msg = ssh_log_msg entry;
          warning = (level = ''ERROR'' \<or> level = ''WARNING'');
          g1 = (if warning then
                  (if slg_WarningMsg g = [] then g\<lparr>slg_WarningTime := timestamp, slg_WarningMsg := msg\<rparr> else g)
                    \<lparr>slg_Warnings := slg_Warnings g + 1\<rparr>
                else g);
          (g2, evs1) = (if timestamp \<noteq> lastLogTime then
                  ((if i = 0 then g1\<lparr>slg_LatestTime := timestamp, slg_LatestMsg := msg\<rparr> else g1)\<lparr>slg_New := slg_New g1 + 1\<rparr>,
                   evs @ [(name, if warning then ''Warning'' else ''Normal'', msg)])
                else (g1, evs))
      in ssh_events_loop name lastLogTime (i + 1) entries (g2, evs1))"

definition ssh_GenerateEvents ::
    "(string, string) gomap list \<Rightarrow> string \<Rightarrow> string \<Rightarrow> sshStatusController \<Rightarrow> ssh_log_summary \<times> sshStatusController" where
  "ssh_GenerateEvents logEntries sshStatusName lastLogTime s =
     (if length logEntries = 0 then (ssh_no_logs, s)
      else (case ssh_events_loop sshStatusName lastLogTime 0 logEntries (ssh_no_logs\<lparr>slg_Total := int (length logEntries)\<rparr>, []) of
              (g, evs) \<Rightarrow> (g, s\<lparr>ssc_events := ssc_events s @ evs\<rparr>)))"

section \<open>Updating one status\<close>

definition ssh_sent :: "SSHStatus \<Rightarrow> sshStatusController \<Rightarrow> sshStatusController" where
  "ssh_sent obj s = s\<lparr>ssc_writes := ssc_writes s @ [obj]\<rparr>"

text \<open>
  The status after reading the host, and what the call returns as its health. An error of
  \<open>GetSystemInfo\<close> leaves \<open>Info\<close> as it was. The deferred \<open>Close\<close> changes nothing modelled here.
\<close>

definition ssh_new_status ::
    "ssh_env \<Rightarrow> SSHConnectCon \<Rightarrow> SSHStatusStatus \<Rightarrow> bool \<times> SSHStatusStatus" where
  "ssh_new_status env d st =
     (let client = ssh_NewClient (sa_net env) d;
          healthy = (case client of Inl _ \<Rightarrow> False | Inr c \<Rightarrow> IsHealthy (sa_net env) c);
          st1 = (if sb_IpAddr (s_Basic st) = [] then st\<lparr>s_Basic := sc_Info d\<rparr> else st);
          st2 = st1\<lparr>s_Healthy := healthy, s_LastUpdateTime := sa_now env\<rparr>
      in case client of
           Inl _ \<Rightarrow> (healthy, st2)
         | Inr c \<Rightarrow>
             if \<not> healthy then (healthy, st2)
             else
               (case GetSystemInfo (sa_net env) c of
                  (infoData, None) \<Rightarrow> (healthy, st2\<lparr>s_Info := infoData\<rparr>)
                | (_, Some _) \<Rightarrow> (False, st2)))"

definition UpdateSSHStatusInfo ::
    "ssh_env \<Rightarrow> string \<Rightarrow> SSHConnectCon \<Rightarrow> sshStatusController \<Rightarrow> (bool \<times> goerr option) \<times> sshStatusController" where
  "UpdateSSHStatusInfo env name d s =
     (let s1 = s\<lparr>ssc_locks := snd (GetLock name (ssc_locks s))\<rparr> in
      case sa_Get env name of
        Inl e \<Rightarrow> ((False, Some e), s1)
      | Inr existing \<Rightarrow>
          (let (healthy, st) = ssh_new_status env d (sh_Status existing); updated = existing\<lparr>sh_Status := st\<rparr> in
           if compareSSHStatus (sh_Status updated) (sh_Status existing) then ((healthy, None), s1)
           else
             (case sa_StatusUpdate env updated of
                Inl e \<Rightarrow> ((healthy, Some e), ssh_sent updated s1)
              | Inr _ \<Rightarrow> ((healthy, None), ssh_sent updated s1))))"

text \<open>The loop over all hosts ignores errors.\<close>

fun ssh_update_all :: "ssh_env \<Rightarrow> (string, SSHConnectCon) gomap \<Rightarrow> sshStatusController \<Rightarrow> sshStatusController" where
  "ssh_update_all env [] s = s"
| "ssh_update_all env ((name, d) # hosts) s = ssh_update_all env hosts (snd (UpdateSSHStatusInfo env name d s))"

definition UpdateSSHStatusInfoWrapper ::
    "ssh_env \<Rightarrow> string \<Rightarrow> sshStatusController \<Rightarrow> goerr option \<times> sshStatusController" where
  "UpdateSSHStatusInfoWrapper env name s =
     (if name \<noteq> [] then
        (case SSHHostCache_Get (ssc_cache s) name of
           None \<Rightarrow> (Some (Errorf ''SSHStatus %s not found in cache'' [ArgS name]), s)
         | Some d \<Rightarrow>
             (case UpdateSSHStatusInfo env name d s of ((_, err), s1) \<Rightarrow> (err, s1)))
      else (None, ssh_update_all env (SSHHostCache_GetAll (ssc_cache s)) s))"

definition UpdateSSHStatusAtInterval_tick :: "ssh_env \<Rightarrow> sshStatusController \<Rightarrow> sshStatusController" where
  "UpdateSSHStatusAtInterval_tick env s = snd (UpdateSSHStatusInfoWrapper env [] s)"

section \<open>Reconciliation\<close>

text \<open>
  The subnet whose DHCP details name the address: the first that does decides. The object that comes
  back is the one the caller holds, changed in place.
\<close>

fun subnet_loop ::
    "ssh_env \<Rightarrow> Subnet list \<Rightarrow> SSHStatus \<Rightarrow> sshStatusController \<Rightarrow> goerr option \<times> SSHStatus \<times> sshStatusController" where
  "subnet_loop env [] obj s = (None, obj, s)"
| "subnet_loop env (subnet # subnets) obj s =
     (if ss_DhcpClientDetails (sn_Status subnet) = [] then subnet_loop env subnets obj s
      else
        (case sa_json_keys env (ss_DhcpClientDetails (sn_Status subnet)) of
           Inl _ \<Rightarrow> subnet_loop env subnets obj s
         | Inr dhcpClients \<Rightarrow>
             if sb_IpAddr (s_Basic (sh_Status obj)) \<in> set dhcpClients then
               (let name = om_Name (sn_Meta subnet); basic = s_Basic (sh_Status obj) in
                if sb_SubnetName basic = None \<or> the (sb_SubnetName basic) \<noteq> name then
                  (let obj1 = obj\<lparr>sh_Status := (sh_Status obj)\<lparr>s_Basic := basic\<lparr>sb_SubnetName := Some name\<rparr>\<rparr>\<rparr>
                   in case sa_StatusUpdate env obj1 of
                        Inl e \<Rightarrow> (Some (Errorf ''failed to update SSHStatus %s: %v'' [ArgS (om_Name (sh_Meta obj)), ArgE e]),
                                  obj1, ssh_sent obj1 s)
                      | Inr stored \<Rightarrow> (None, stored, ssh_sent obj1 s))
                else (None, obj, s))
             else subnet_loop env subnets obj s))"

definition updateSubnetNameFromDhcpClientDetails ::
    "ssh_env \<Rightarrow> SSHStatus \<Rightarrow> sshStatusController \<Rightarrow> goerr option \<times> SSHStatus \<times> sshStatusController" where
  "updateSubnetNameFromDhcpClientDetails env obj s =
     (if sb_IpAddr (s_Basic (sh_Status obj)) = [] then (None, obj, s)
      else
        (case sa_ListSubnets env of
           Inl e \<Rightarrow> (Some (Errorf ''failed to list subnets: %v'' [ArgE e]), obj, s)
         | Inr items \<Rightarrow> subnet_loop env items obj s))"

text \<open>The status a HostEndpoint gives; \<open>*Spec.Port\<close> is read without a test for nil.\<close>

definition status_from_endpoint :: "ssh_env \<Rightarrow> HostEndpoint \<Rightarrow> SSHStatusStatus result" where
  "status_from_endpoint env e =
     (let spec = hep_Spec e; clusterName = (case he_ClusterName spec of Some c \<Rightarrow> c | None \<Rightarrow> []) in
      case he_Port spec of
        None \<Rightarrow> Inl (Panic ''nil pointer dereference'')
      | Some port \<Rightarrow>
          (let b0 = zero_ssh_basic\<lparr>sb_Type := HostTypeEndpoint, sb_IpAddr := he_IPAddr spec, sb_Port := port,
                      sb_ClusterName := clusterName\<rparr>;
               b1 = (case he_SecretName spec of Some x \<Rightarrow> b0\<lparr>sb_SecretName := x\<rparr> | None \<Rightarrow> b0);
               b2 = (case he_SecretNamespace spec of Some x \<Rightarrow> b1\<lparr>sb_SecretNamespace := x\<rparr> | None \<Rightarrow> b1)
           in Inr \<lparr>s_Healthy = False, s_LastUpdateTime = sa_now env, s_Basic = b2, s_Info = []\<rparr>))"

text \<open>The loop over the owners: the first HostEndpoint among them.\<close>

fun owner_loop :: "ssh_env \<Rightarrow> OwnerReference list \<Rightarrow> SSHStatus \<Rightarrow> SSHStatus result" where
  "owner_loop env [] obj = Inr obj"
| "owner_loop env (ownerRef # refs) obj =
     (if or_Kind ownerRef = ''HostEndpoint'' then
        and_then (sa_GetEndpoint env (or_Name ownerRef)) (\<lambda>e.
          and_then (status_from_endpoint env e) (\<lambda>st. Inr (obj\<lparr>sh_Status := st\<rparr>)))
      else owner_loop env refs obj)"

definition ssh_credentials :: "ssh_env \<Rightarrow> SSHBasicInfo \<Rightarrow> (string \<times> string \<times> string \<times> bool) result" where
  "ssh_credentials env basic =
     (if length (sb_SecretName basic) > 0 \<and> length (sb_SecretNamespace basic) > 0
      then ssh_getSecretData env (sb_SecretName basic) (sb_SecretNamespace basic)
      else Inr ([], [], [], False))"

definition ssh_con :: "SSHBasicInfo \<Rightarrow> string \<times> string \<times> string \<times> bool \<Rightarrow> SSHConnectCon" where
  "ssh_con basic c = (case c of (username, password, sshKey, sshKeyAuth) \<Rightarrow>
     \<lparr>sc_Info = basic, sc_Username = username, sc_Password = password, sc_SSHKey = sshKey, sc_SSHKeyAuth = sshKeyAuth\<rparr>)"

text \<open>
  The parameters hold a pointer to the basic data of the object, in the cache too: what happens to
  the object between the first \<open>Add\<close> and the update of the status shows in both.
\<close>

definition processSSHStatus ::
    "ssh_env \<Rightarrow> SSHStatus \<Rightarrow> sshStatusController \<Rightarrow> goerr option \<times> sshStatusController" where
  "processSSHStatus env sshStatus s =
     (case (if length (sb_IpAddr (s_Basic (sh_Status sshStatus))) = 0 \<and> length (om_OwnerReferences (sh_Meta sshStatus)) > 0
            then owner_loop env (om_OwnerReferences (sh_Meta sshStatus)) sshStatus else Inr sshStatus) of
        Inl e \<Rightarrow> (Some e, s)
      | Inr obj \<Rightarrow>
          (case ssh_credentials env (s_Basic (sh_Status obj)) of
             Inl e \<Rightarrow> (Some e, s)
           | Inr creds \<Rightarrow>
               (let name = om_Name (sh_Meta obj);
                    s1 = s\<lparr>ssc_cache := SSHHostCache_Add name (ssh_con (s_Basic (sh_Status obj)) creds) (ssc_cache s)\<rparr>
                in case updateSubnetNameFromDhcpClientDetails env obj s1 of
                     (_, obj1, s2) \<Rightarrow>
                       (let con = ssh_con (s_Basic (sh_Status obj1)) creds;
                            s3 = s2\<lparr>ssc_cache := SSHHostCache_Add name con (ssc_cache s2)\<rparr>
                        in case UpdateSSHStatusInfo env (om_Name (sh_Meta obj1)) con s3 of
                             ((_, err), s4) \<Rightarrow> (err, s4)))))"

definition SSHReconcile :: "ssh_env \<Rightarrow> string \<Rightarrow> sshStatusController \<Rightarrow> reconcile_out \<times> sshStatusController" where
  "SSHReconcile env name s =
     (case sa_Get env name of
        Inl e \<Rightarrow>
          if IsNotFound e then
            ((empty_result, None),
             (case SSHHostCache_Get (ssc_cache s) name of
                Some _ \<Rightarrow> s\<lparr>ssc_cache := SSHHostCache_Delete name (ssc_cache s)\<rparr>
              | None \<Rightarrow> s))
          else ((empty_result, Some e), s)
      | Inr sshStatus \<Rightarrow>
          if length (sb_IpAddr (s_Basic (sh_Status sshStatus))) \<noteq> 0 then ((empty_result, None), s)
          else
            (case processSSHStatus env sshStatus s of
               (Some (Panic p), s1) \<Rightarrow> ((empty_result, Some (Panic p)), s1)
             | (Some _, s1) \<Rightarrow> ((requeue_after 5, None), s1)
             | (None, s1) \<Rightarrow> ((empty_result, None), s1)))"

text \<open>\<open>UpdateSecret\<close> of the controller only logs.\<close>

definition SSHUpdateSecret :: "string \<Rightarrow> string \<Rightarrow> string \<Rightarrow> string \<Rightarrow> sshStatusController \<Rightarrow> sshStatusController" where
  "SSHUpdateSecret secretName secretNamespace username password s = s"

section \<open>Lemmas\<close>

text \<open>What the comparison looks at.\<close>

definition ssh_view ::
    "SSHStatusStatus \<Rightarrow> bool \<times> string \<times> (string \<times> string \<times> int \<times> string \<times> string \<times> bool \<times> string) \<times> (string \<rightharpoonup> string)" where
  "ssh_view st = (s_Healthy st, s_LastUpdateTime st,
     (sb_Type (s_Basic st), sb_IpAddr (s_Basic st), sb_Port (s_Basic st), sb_SecretName (s_Basic st),
      sb_SecretNamespace (s_Basic st), sb_SSHKeyAuth (s_Basic st), sb_ClusterName (s_Basic st)), gm_get (s_Info st))"

interpretation ssh_comparison: comparison compareSSHStatus ssh_view "\<lambda>st. gm_ok (s_Info st)"
proof unfold_locales
  fix a b :: SSHStatusStatus
  show "ssh_view a = ssh_view b" if "gm_ok (s_Info a)" "gm_ok (s_Info b)" "compareSSHStatus a b"
    using that covered_same by (auto simp: compareSSHStatus_def ssh_view_def split: if_splits)
  show "compareSSHStatus a b" if "gm_ok (s_Info a)" "gm_ok (s_Info b)" "ssh_view a = ssh_view b"
    using that same_covered [of "s_Info a" "s_Info b"] by (simp add: compareSSHStatus_def ssh_view_def)
qed

lemma ssh_sent_simps [simp]:
  "ssc_writes (ssh_sent obj s) = ssc_writes s @ [obj]" "ssc_cache (ssh_sent obj s) = ssc_cache s"
  by (simp_all add: ssh_sent_def)

text \<open>A status is written whenever time has passed since the last one.\<close>

lemma ssh_new_status_time: "ssh_new_status env d st = (h, st') \<Longrightarrow> s_LastUpdateTime st' = sa_now env"
  by (auto simp: ssh_new_status_def Let_def split: sum.splits if_splits prod.splits option.splits)

lemma compareSSH_time: "s_LastUpdateTime a \<noteq> s_LastUpdateTime b \<Longrightarrow> \<not> compareSSHStatus a b"
  by (simp add: compareSSHStatus_def)

lemma UpdateSSH_cache: "ssc_cache (snd (UpdateSSHStatusInfo env name d s)) = ssc_cache s"
  by (simp add: UpdateSSHStatusInfo_def Let_def split: sum.split prod.split)

text \<open>What a run of the subnet loop may change.\<close>

definition keeps_basic :: "ssh_env \<Rightarrow> bool" where
  "keeps_basic env \<longleftrightarrow> (\<forall>obj stored. sa_StatusUpdate env obj = Inr stored \<longrightarrow>
     s_Basic (sh_Status stored) = s_Basic (sh_Status obj) \<and> om_Name (sh_Meta stored) = om_Name (sh_Meta obj))"

lemma subnet_loop_result:
  assumes "subnet_loop env subnets obj s = (err, obj', s')" "keeps_basic env"
  shows "ssc_cache s' = ssc_cache s \<and> om_Name (sh_Meta obj') = om_Name (sh_Meta obj)
    \<and> (\<exists>sn. s_Basic (sh_Status obj') = (s_Basic (sh_Status obj))\<lparr>sb_SubnetName := sn\<rparr>)"
  using assms(1)
proof (induction subnets)
  case Nil
  then show ?case by (intro conjI exI [of _ "sb_SubnetName (s_Basic (sh_Status obj))"]) auto
next
  case (Cons subnet subnets)
  have id: "\<exists>sn. b = b\<lparr>sb_SubnetName := sn\<rparr>" for b :: SSHBasicInfo
    by (intro exI [of _ "sb_SubnetName b"]) simp
  from Cons assms(2) id show ?case
    by (auto simp: keeps_basic_def Let_def split: if_splits sum.splits)
qed

lemma subnet_name_result:
  assumes "updateSubnetNameFromDhcpClientDetails env obj s = (err, obj', s')" "keeps_basic env"
  shows "ssc_cache s' = ssc_cache s \<and> om_Name (sh_Meta obj') = om_Name (sh_Meta obj)
    \<and> (\<exists>sn. s_Basic (sh_Status obj') = (s_Basic (sh_Status obj))\<lparr>sb_SubnetName := sn\<rparr>)"
proof (cases "sb_IpAddr (s_Basic (sh_Status obj)) \<noteq> [] \<and> (\<exists>items. sa_ListSubnets env = Inr items)")
  case True
  then obtain items where "subnet_loop env items obj s = (err, obj', s')"
    using assms(1) by (auto simp: updateSubnetNameFromDhcpClientDetails_def)
  from subnet_loop_result [OF this assms(2)] show ?thesis .
next
  case False
  then have "obj' = obj" "s' = s"
    using assms(1) by (auto simp: updateSubnetNameFromDhcpClientDetails_def split: if_splits sum.splits)
  then show ?thesis by (intro conjI exI [of _ "sb_SubnetName (s_Basic (sh_Status obj))"]) simp_all
qed

section \<open>Properties\<close>

text \<open>An update of an SSHStatus that reports no error, made after the clock has moved on since
  the last one, sends the API server the status of the host: healthy exactly if the host could be logged in to and ran the
  test command; \<open>Info\<close> is what was collected if nothing failed, and else what it was; the basic
  data stays, or is that of the connection where there was none. It is sent even if nothing but the
  time has changed.\<close>

theorem UpdateSSHStatusInfo_reports:
  assumes "UpdateSSHStatusInfo env name d s = ((h, None), s')" "sa_Get env name = Inr existing"
    and "sa_now env \<noteq> s_LastUpdateTime (sh_Status existing)"
  shows "\<exists>obj. ssc_writes s' = ssc_writes s @ [obj] \<and> sh_Meta obj = sh_Meta existing
    \<and> (s_Healthy (sh_Status obj) \<longleftrightarrow> (\<exists>c. ssh_NewClient (sa_net env) d = Inr c \<and> IsHealthy (sa_net env) c))
    \<and> s_Info (sh_Status obj) =
        (case ssh_NewClient (sa_net env) d of
           Inl _ \<Rightarrow> s_Info (sh_Status existing)
         | Inr c \<Rightarrow> if IsHealthy (sa_net env) c \<and> snd (GetSystemInfo (sa_net env) c) = None
             then fst (GetSystemInfo (sa_net env) c) else s_Info (sh_Status existing))
    \<and> s_Basic (sh_Status obj) =
        (if sb_IpAddr (s_Basic (sh_Status existing)) = [] then sc_Info d else s_Basic (sh_Status existing))
    \<and> s_LastUpdateTime (sh_Status obj) = sa_now env"
proof -
  obtain h' st where n: "ssh_new_status env d (sh_Status existing) = (h', st)" by fastforce
  then have "\<not> compareSSHStatus st (sh_Status existing)"
    using ssh_new_status_time [OF n] assms(3) by (intro compareSSH_time) simp
  then have "ssc_writes s' = ssc_writes s @ [existing\<lparr>sh_Status := st\<rparr>]"
    using assms(1,2) n by (auto simp: UpdateSSHStatusInfo_def Let_def split: sum.splits)
  then show ?thesis using n
    by (intro exI [of _ "existing\<lparr>sh_Status := st\<rparr>"])
      (cases "ssh_NewClient (sa_net env) d";
        auto simp: ssh_new_status_def Let_def split: if_splits prod.splits option.splits)
qed

definition example_ssh_net :: ssh_net where
  "example_ssh_net = \<lparr>sx_ParsePrivateKey = Inr, sx_Dial = (\<lambda>a b. Inr 1), sx_NewSession = (\<lambda>n. None),
     sx_Run = (\<lambda>n cmd. (cmd, [], None)), sx_Error = (\<lambda>e. [])\<rparr>"

definition example_ssh_endpoint :: HostEndpoint where
  "example_ssh_endpoint = \<lparr>hep_Meta = new_meta ''h1'', hep_Spec = \<lparr>he_ClusterName = Some ''c1'', he_IPAddr = ''10.0.0.9'',
     he_SecretName = Some ''s'', he_SecretNamespace = Some ''ns'', he_HTTPS = None, he_Port = Some 22,
     he_Type = Some EndpointTypeSSH\<rparr>\<rparr>"

definition example_sshstatus :: SSHStatus where
  "example_sshstatus = \<lparr>sh_Meta = (new_meta ''h1'')\<lparr>om_OwnerReferences := [\<lparr>or_APIVersion = APIVersion, or_Kind = KindHostEndpoint,
     or_Name = ''h1'', or_UID = [], or_Controller = Some True, or_BlockOwnerDeletion = Some True\<rparr>]\<rparr>,
     sh_Status = zero_ssh_status\<rparr>"

definition example_ssh_env :: ssh_env where
  "example_ssh_env = \<lparr>sa_Get = (\<lambda>n. Inr example_sshstatus), sa_GetEndpoint = (\<lambda>n. Inr example_ssh_endpoint), sa_ListSubnets = Inr [],
     sa_StatusUpdate = Inr, sa_Secret = (\<lambda>a b. Inr [(''username'', ''root''), (''password'', ''pw'')]),
     sa_json_keys = (\<lambda>x. Inr []), sa_now = ''now'', sa_net = example_ssh_net\<rparr>"

definition example_ssh_con :: SSHConnectCon where
  "example_ssh_con = \<lparr>sc_Info = zero_ssh_basic\<lparr>sb_IpAddr := ''10.0.0.9''\<rparr>, sc_Username = ''root'', sc_Password = ''pw'',
     sc_SSHKey = [], sc_SSHKeyAuth = False\<rparr>"

lemma example_ssh_simps [simp]:
  "sa_Get example_ssh_env n = Inr example_sshstatus" "sa_GetEndpoint example_ssh_env n = Inr example_ssh_endpoint"
  "sa_ListSubnets example_ssh_env = Inr []" "sa_StatusUpdate example_ssh_env = Inr" "sa_now example_ssh_env = ''now''"
  "sa_Secret example_ssh_env a b = Inr [(''username'', ''root''), (''password'', ''pw'')]"
  "sa_net example_ssh_env = example_ssh_net" "sh_Status example_sshstatus = zero_ssh_status"
  by (simp_all add: example_ssh_env_def example_sshstatus_def)

lemma UpdateSSHStatusInfo_reports_witness:
  "\<exists>obj. ssc_writes (snd (UpdateSSHStatusInfo example_ssh_env ''h1'' example_ssh_con (NewSSHStatusController example_config))) = [obj]
     \<and> s_Healthy (sh_Status obj) \<and> sb_IpAddr (s_Basic (sh_Status obj)) = ''10.0.0.9''"
proof -
  let ?U = "UpdateSSHStatusInfo example_ssh_env ''h1'' example_ssh_con (NewSSHStatusController example_config)"
  have "snd (fst ?U) = None"
    by (simp add: UpdateSSHStatusInfo_def Let_def split: prod.split)
  then have u: "?U = ((fst (fst ?U), None), snd ?U)" by (metis prod.collapse)
  have c: "ssh_NewClient example_ssh_net example_ssh_con =
      Inr \<lparr>cl_conn = 1, cl_config = \<lparr>sg_User = ''root'', sg_Auth = [PasswordAuth ''pw'']\<rparr>, cl_hostInfo = example_ssh_con\<rparr>"
    by (simp add: ssh_NewClient_def auth_methods_def example_ssh_con_def example_ssh_net_def Let_def)
  have i: "IsHealthy example_ssh_net x" for x
    by (simp add: IsHealthy_def RunCommand_def example_ssh_net_def)
  have e: "sa_Get example_ssh_env ''h1'' = Inr example_sshstatus" "ssc_writes (NewSSHStatusController example_config) = []"
    "sa_now example_ssh_env \<noteq> s_LastUpdateTime (sh_Status example_sshstatus)"
    by (simp_all add: NewSSHStatusController_def zero_ssh_status_def)
  from UpdateSSHStatusInfo_reports [OF u e(1,3)] show ?thesis
    using c i e(2) by (auto simp: zero_ssh_status_def zero_ssh_basic_def example_ssh_con_def)
qed

text \<open>A new SSHStatus owned by a HostEndpoint is entered in the cache under its name with the address,
  port, cluster and secret of that endpoint and the credentials found in the secret, whether or not the host can be read;
  an endpoint without a port makes the reconciliation panic.\<close>

theorem SSHReconcile_caches_endpoint:
  assumes "sa_Get env name = Inr obj" "sb_IpAddr (s_Basic (sh_Status obj)) = []" "om_Name (sh_Meta obj) = name"
    and "om_OwnerReferences (sh_Meta obj) = ref # refs" "or_Kind ref = KindHostEndpoint"
    and "sa_GetEndpoint env (or_Name ref) = Inr e" "keeps_basic env"
    and "\<And>st. status_from_endpoint env e = Inr st \<Longrightarrow> ssh_credentials env (s_Basic st) = Inr creds"
    and "SSHReconcile env name s = (out, s')"
  shows "if he_Port (hep_Spec e) = None then out = (empty_result, Some (Panic ''nil pointer dereference'')) \<and> s' = s
    else \<exists>con. SSHHostCache_Get (ssc_cache s') = (SSHHostCache_Get (ssc_cache s))(name \<mapsto> con)
      \<and> con = ssh_con (sc_Info con) creds \<and> sb_IpAddr (sc_Info con) = he_IPAddr (hep_Spec e)
      \<and> Some (sb_Port (sc_Info con)) = he_Port (hep_Spec e)
      \<and> sb_ClusterName (sc_Info con) = (case he_ClusterName (hep_Spec e) of Some c \<Rightarrow> c | None \<Rightarrow> [])
      \<and> sb_SecretName (sc_Info con) = (case he_SecretName (hep_Spec e) of Some c \<Rightarrow> c | None \<Rightarrow> [])"
proof -
  have own: "owner_loop env (om_OwnerReferences (sh_Meta obj)) obj =
      and_then (status_from_endpoint env e) (\<lambda>st. Inr (obj\<lparr>sh_Status := st\<rparr>))"
    using assms(4-6) by (simp add: KindHostEndpoint_def)
  show ?thesis
  proof (cases "he_Port (hep_Spec e)")
    case None
    then have "processSSHStatus env obj s = (Some (Panic ''nil pointer dereference''), s)"
      using assms(2,4) own by (simp add: processSSHStatus_def status_from_endpoint_def Let_def)
    then show ?thesis using assms(1,2,9) None by (auto simp: SSHReconcile_def)
  next
    case (Some port)
    then obtain st where st: "status_from_endpoint env e = Inr st" by (simp add: status_from_endpoint_def Let_def)
    then have b: "sb_IpAddr (s_Basic st) = he_IPAddr (hep_Spec e)" "sb_Port (s_Basic st) = port"
      "sb_ClusterName (s_Basic st) = (case he_ClusterName (hep_Spec e) of Some c \<Rightarrow> c | None \<Rightarrow> [])"
      "sb_SecretName (s_Basic st) = (case he_SecretName (hep_Spec e) of Some c \<Rightarrow> c | None \<Rightarrow> [])"
      using Some by (auto simp: status_from_endpoint_def Let_def zero_ssh_basic_def split: option.split)
    let ?obj = "obj\<lparr>sh_Status := st\<rparr>"
    let ?s1 = "s\<lparr>ssc_cache := SSHHostCache_Add name (ssh_con (s_Basic st) creds) (ssc_cache s)\<rparr>"
    obtain err1 obj1 s2 where u: "updateSubnetNameFromDhcpClientDetails env ?obj ?s1 = (err1, obj1, s2)" by (metis prod_cases3)
    then have r: "ssc_cache s2 = ssc_cache ?s1 \<and> om_Name (sh_Meta obj1) = name
        \<and> (\<exists>sn. s_Basic (sh_Status obj1) = (s_Basic st)\<lparr>sb_SubnetName := sn\<rparr>)"
      using subnet_name_result [OF u assms(7)] assms(3) by simp
    let ?con = "ssh_con (s_Basic (sh_Status obj1)) creds"
    let ?s3 = "s2\<lparr>ssc_cache := SSHHostCache_Add name ?con (ssc_cache s2)\<rparr>"
    have "snd (processSSHStatus env obj s) = snd (UpdateSSHStatusInfo env (om_Name (sh_Meta obj1)) ?con ?s3)"
      using assms(2-4) own st assms(8) [OF st] u r by (simp add: processSSHStatus_def Let_def split: prod.split)
    moreover have "s' = snd (processSSHStatus env obj s)"
      using assms(1,2,9) by (auto simp: SSHReconcile_def split: prod.splits option.splits goerr.splits)
    ultimately have "ssc_cache s' = SSHHostCache_Add name ?con (SSHHostCache_Add name (ssh_con (s_Basic st) creds) (ssc_cache s))"
      using UpdateSSH_cache r by simp
    then have "SSHHostCache_Get (ssc_cache s') = (SSHHostCache_Get (ssc_cache s))(name \<mapsto> ?con)"
      using ssh_cache.get_put [of "(name, _)"] by (auto simp: fun_eq_iff)
    moreover have "sc_Info ?con = s_Basic (sh_Status obj1)" by (simp add: ssh_con_def split: prod.split)
    ultimately show ?thesis using r b Some by auto
  qed
qed

lemma SSHReconcile_caches_endpoint_witness:
  "\<exists>con. SSHHostCache_Get (ssc_cache (snd (SSHReconcile example_ssh_env ''h1'' (NewSSHStatusController example_config)))) ''h1'' = Some con
     \<and> sb_Port (sc_Info con) = 22 \<and> sb_IpAddr (sc_Info con) = ''10.0.0.9'' \<and> sc_Password con = ''pw''"
proof -
  let ?R = "SSHReconcile example_ssh_env ''h1'' (NewSSHStatusController example_config)"
  have r: "?R = (fst ?R, snd ?R)" by simp
  have g: "sb_IpAddr (s_Basic (sh_Status example_sshstatus)) = []" "om_Name (sh_Meta example_sshstatus) = ''h1''"
    "keeps_basic example_ssh_env" "he_Port (hep_Spec example_ssh_endpoint) = Some 22" "he_IPAddr (hep_Spec example_ssh_endpoint) = ''10.0.0.9''"
    by (simp_all add: example_sshstatus_def zero_ssh_status_def zero_ssh_basic_def new_meta_def keeps_basic_def
        example_ssh_endpoint_def)
  let ?ref = "\<lparr>or_APIVersion = APIVersion, or_Kind = KindHostEndpoint, or_Name = ''h1'', or_UID = [],
     or_Controller = Some True, or_BlockOwnerDeletion = Some True\<rparr>"
  have o: "om_OwnerReferences (sh_Meta example_sshstatus) = ?ref # []" by (simp add: example_sshstatus_def)
  have c: "ssh_credentials example_ssh_env (s_Basic st) = Inr (''root'', ''pw'', [], False)"
    if "status_from_endpoint example_ssh_env example_ssh_endpoint = Inr st" for st
    using that by (auto simp: status_from_endpoint_def example_ssh_endpoint_def ssh_credentials_def ssh_getSecretData_def
        data_field_def Let_def)
  from SSHReconcile_caches_endpoint [OF _ g(1,2) o _ _ g(3) c r] g(4,5) obtain con where
    "SSHHostCache_Get (ssc_cache (snd ?R)) ''h1'' = Some con" "con = ssh_con (sc_Info con) (''root'', ''pw'', [], False)"
    "sb_IpAddr (sc_Info con) = ''10.0.0.9''" "sb_Port (sc_Info con) = 22"
    by auto
  moreover have "sc_Password (ssh_con b (''root'', ''pw'', [], False)) = ''pw''" for b by (simp add: ssh_con_def)
  ultimately show ?thesis by metis
qed

text \<open>An agent that starts with SSH hosts already known never reads them: reconciling objects that
  have their address leaves the empty cache empty, so a tick of the interval does nothing, and a changed secret
  is not taken up either.\<close>

theorem ssh_restart_forgets:
  assumes "\<forall>(env, name) \<in> set events. \<exists>obj. sa_Get env name = Inr obj \<and> sb_IpAddr (s_Basic (sh_Status obj)) \<noteq> []"
    and "s = fold (\<lambda>(env, name) s. snd (SSHReconcile env name s)) events (NewSSHStatusController config)"
  shows "UpdateSSHStatusAtInterval_tick env (SSHUpdateSecret sn ns u p s) = NewSSHStatusController config"
proof -
  have r: "snd (SSHReconcile env name x) = x" if "sa_Get env name = Inr obj" "sb_IpAddr (s_Basic (sh_Status obj)) \<noteq> []" for env name x obj
    using that by (simp add: SSHReconcile_def)
  have "fold (\<lambda>(env, name) s. snd (SSHReconcile env name s)) events x = x" for x
    using assms(1) by (induction events arbitrary: x) (auto simp: r)
  then have "s = NewSSHStatusController config" using assms(2) by simp
  then show ?thesis
    by (simp add: UpdateSSHStatusAtInterval_tick_def UpdateSSHStatusInfoWrapper_def SSHUpdateSecret_def
        NewSSHStatusController_def NewSSHHostCache_def SSHHostCache_GetAll_def)
qed

lemma ssh_restart_forgets_witness:
  "UpdateSSHStatusAtInterval_tick example_ssh_env (SSHUpdateSecret ''s'' ''ns'' ''root'' ''new''
     (snd (SSHReconcile (example_ssh_env\<lparr>sa_Get := (\<lambda>n. Inr (example_sshstatus\<lparr>sh_Status := zero_ssh_status\<lparr>s_Basic :=
        zero_ssh_basic\<lparr>sb_IpAddr := ''10.0.0.9''\<rparr>\<rparr>\<rparr>))\<rparr>) ''h1'' (NewSSHStatusController example_config))))
   = NewSSHStatusController example_config"
proof (rule ssh_restart_forgets)
  let ?env = "example_ssh_env\<lparr>sa_Get := (\<lambda>n. Inr (example_sshstatus\<lparr>sh_Status := zero_ssh_status\<lparr>s_Basic :=
        zero_ssh_basic\<lparr>sb_IpAddr := ''10.0.0.9''\<rparr>\<rparr>\<rparr>))\<rparr>"
  show "\<forall>(env, name) \<in> set [(?env, ''h1'')]. \<exists>obj. sa_Get env name = Inr obj \<and> sb_IpAddr (s_Basic (sh_Status obj)) \<noteq> []"
    by simp
  show "snd (SSHReconcile ?env ''h1'' (NewSSHStatusController example_config)) =
      fold (\<lambda>(env, name) s. snd (SSHReconcile env name s)) [(?env, ''h1'')] (NewSSHStatusController example_config)"
    by simp
qed

end
