(* ===== verification/GoFormat.thy ===== *)
theory GoFormat
  imports Prelude
begin

text \<open>
  \<open>fmt.Sprintf\<close> of floating point numbers, as far as the program uses it: \<open>%.2f\<close> of
  \<open>float64(n)/d\<close> for an integer \<open>n\<close> below \<open>2^53\<close>, and \<open>%.0f\<close> of a \<open>float32\<close>. The quotient is first
  rounded to a double (53 significant bits, ties to even), then its exact value to the digits printed,
  ties to even again.
\<close>

text \<open>\<open>n / d\<close> rounded to an integer, ties to even.\<close>

definition round_half_even :: "nat \<Rightarrow> nat \<Rightarrow> nat" where
  "round_half_even n d =
     (let q = n div d; r = n mod d in
      if 2 * r < d then q else if 2 * r > d then q + 1 else if even q then q else q + 1)"

text \<open>How often \<open>n\<close> must be doubled to have 53 bits over \<open>d\<close>.\<close>

function shift_of :: "nat \<Rightarrow> nat \<Rightarrow> nat" where
  "shift_of n d = (if n = 0 \<or> n \<ge> 4503599627370496 * d then 0 else Suc (shift_of (2 * n) d))"
  by pat_completeness auto
termination
  by (relation "measure (\<lambda>(n, d). 4503599627370496 * d - n)") auto

declare shift_of.simps [simp del]

text \<open>The double nearest to \<open>n / d\<close> as a numerator over a power of two.\<close>

definition double_div :: "nat \<Rightarrow> nat \<Rightarrow> nat \<times> nat" where
  "double_div n d = (let k = shift_of n d in (round_half_even (n * 2 ^ k) d, 2 ^ k))"

definition fixed2 :: "nat \<Rightarrow> nat \<Rightarrow> string" where
  "fixed2 n d =
     (let (m, e) = (if n = 0 then (0, 1) else double_div n d); q = round_half_even (m * 100) e
      in dec_of_nat (q div 100) @ ''.'' @ [digit_char (q mod 100 div 10), digit_char (q mod 10)])"

definition sprintf_f2 :: "int \<Rightarrow> nat \<Rightarrow> string" where
  "sprintf_f2 n d = (if n < 0 then CHR ''-'' # fixed2 (nat (- n)) d else fixed2 (nat n) d)"

text \<open>A finite \<open>float32\<close> is a mantissa and an exponent of two.\<close>

type_synonym float = "int \<times> int"

definition sprintf_f0 :: "float \<Rightarrow> string" where
  "sprintf_f0 x =
     (case x of (m, e) \<Rightarrow>
        (let a = nat \<bar>m\<bar>; v = (if e \<ge> 0 then a * 2 ^ nat e else round_half_even a (2 ^ nat (- e)))
         in (if m < 0 then ''-'' else []) @ dec_of_nat v))"

section \<open>Rounding\<close>

lemma round_half_even_mult [simp]: "0 < d \<Longrightarrow> round_half_even (q * d) d = q"
  by (simp add: round_half_even_def)

text \<open>The result is as near as an integer can be.\<close>

lemma round_half_even_near:
  assumes "0 < d"
  shows "2 * \<bar>int (round_half_even n d * d) - int n\<bar> \<le> int d"
proof -
  let ?q = "n div d" and ?r = "n mod d"
  have n: "n = ?q * d + ?r" by simp
  have r: "?r < d" using assms by simp
  consider "round_half_even n d = ?q" "2 * ?r \<le> d" | "round_half_even n d = ?q + 1" "2 * ?r \<ge> d"
    unfolding round_half_even_def Let_def by (cases "2 * ?r < d"; cases "2 * ?r > d"; cases "even ?q") auto
  then show ?thesis
  proof cases
    case 1
    moreover have "int (?q * d) - int n = - int ?r" using n by linarith
    ultimately have "int (round_half_even n d * d) - int n = - int ?r" by (simp only:)
    with 1 show ?thesis by simp
  next
    case 2
    moreover have "int ((?q + 1) * d) - int n = int d - int ?r" using n by (simp add: algebra_simps flip: of_nat_mult of_nat_add)
    ultimately have "int (round_half_even n d * d) - int n = int d - int ?r" by (simp only:)
    with 2 r show ?thesis by simp
  qed
qed

text \<open>The quotient of \<open>double_div\<close> has 53 bits, unless it is an integer above that.\<close>

lemma shift_of_bits: "0 < n \<Longrightarrow> 4503599627370496 * d \<le> n * 2 ^ shift_of n d"
proof (induction n d rule: shift_of.induct)
  case (1 n d)
  show ?case
  proof (cases "n \<ge> 4503599627370496 * d")
    case True
    then show ?thesis by (subst shift_of.simps) simp
  next
    case False
    with 1 have "4503599627370496 * d \<le> 2 * n * 2 ^ shift_of (2 * n) d" by simp
    with False 1 show ?thesis by (subst shift_of.simps) (simp add: mult_ac)
  qed
qed

lemma examples_f2:
  "sprintf_f2 16384 1024 = ''16.00''" "sprintf_f2 1005 1000 = ''1.00''" "sprintf_f2 1015 1000 = ''1.01''"
  by (simp_all add: sprintf_f2_def fixed2_def double_div_def shift_of.simps round_half_even_def Let_def
      dec_of_nat.simps digit_char_def char_of_def bit_0)

end
