(* ===== verification/RedfishService.thy ===== *)
theory RedfishService
  imports GoFormat Caches
begin

text \<open>
  What the program uses of the Redfish library \<open>gofish\<close>, as parameters. The objects a query returns
  carry the answers of the queries the program makes on them, each of which it makes at most once
  per object. What a service answers may depend on everything done before: it is a function of the
  history, the list of the calls so far.
\<close>

section \<open>Resources\<close>

record GoLogEntry =
  ge_Created :: string
  ge_Severity :: string
  ge_OemSensorType :: string
  ge_Message :: string

record LogService =
  lg_Name :: string
  lg_State :: string
  lg_Entries :: "GoLogEntry list result"

record GoManager =
  mg_FirmwareVersion :: string
  mg_Health :: string
  mg_LogServices :: "LogService list result"

record GoProcessor =
  pr_Manufacturer :: string
  pr_ProcessorType :: string
  pr_Health :: string
  pr_State :: string

record GoMemory =
  mm_Manufacturer :: string
  mm_MemoryType :: string
  mm_MemoryDeviceType :: string
  mm_Model :: string
  mm_CapacityMiB :: int
  mm_Health :: string
  mm_State :: string

record GoDrive =
  dr_Name :: string
  dr_Model :: string
  dr_Manufacturer :: string
  dr_SerialNumber :: string
  dr_MediaType :: string
  dr_Protocol :: string
  dr_CapacityBytes :: int
  dr_Health :: string
  dr_State :: string

record GoStorage =
  sg_Name :: string
  sg_ID :: string
  sg_Health :: string
  sg_State :: string
  sg_Drives :: "GoDrive list result"

record GoEthernet =
  et_MACAddress :: string
  et_SpeedMbps :: int
  et_State :: string
  et_Health :: string

record GoController =
  sc_Health :: string
  sc_State :: string

record PCIeFunction =
  pf_EthernetInterfaces :: "GoEthernet list result"
  pf_StorageControllers :: "GoController list result"

record PCIeDevice =
  pd_Name :: string
  pd_Manufacturer :: string
  pd_Model :: string
  pd_Description :: string
  pd_FirmwareVersion :: string
  pd_PCIeType :: string
  pd_MaxPCIeType :: string
  pd_LanesInUse :: int
  pd_MaxLanes :: int
  pd_Health :: string
  pd_State :: string
  pd_PCIeFunctions :: "PCIeFunction list result"

record GoChassis =
  ch_PCIeDevices :: "PCIeDevice list result"

record ComputerSystem =
  cs_ID :: string
  cs_Name :: string
  cs_ETag :: string
  cs_BIOSVersion :: string
  cs_HostName :: string
  cs_Manufacturer :: string
  cs_PowerState :: string
  cs_Health :: string
  cs_SupportedResetTypes :: "string list"
  cs_CpuCount :: int
  cs_CpuLogicalCount :: int
  cs_CpuModel :: string
  cs_CpuHealth :: string
  cs_MemoryGiB :: float
  cs_MemoryHealth :: string
  cs_BootOptions :: "unit result"
  cs_Processors :: "GoProcessor list result"
  cs_Memory :: "GoMemory list result"
  cs_Storage :: "GoStorage list result"
  cs_LogServices :: "LogService list result"

section \<open>The program's own types\<close>

text \<open>A parameter of a \<open>ResetActionInfo\<close>; of the JSON object only the parameters are read.\<close>

record ResetParameter =
  rp_AllowableValues :: "string list"
  rp_DataType :: string
  rp_Name :: string
  rp_Required :: bool

record ResetActionInfo =
  ra_Description :: string
  ra_Id :: string
  ra_Name :: string
  ra_Parameters :: "ResetParameter list"

record ClientConfig =
  gc_Endpoint :: string
  gc_Username :: string
  gc_Password :: string
  gc_Insecure :: bool
  gc_ReuseConnections :: bool

text \<open>A session is what \<open>gofish.Connect\<close> returned, here its number.\<close>

record redfishClient =
  rd_config :: ClientConfig
  rd_client :: nat

type_synonym redfishClients = "(string, redfishClient) gomap"

section \<open>Calls and their answers\<close>

record Boot =
  bo_Target :: string
  bo_Enabled :: string

datatype red_op =
    RConnect ClientConfig
  | RLogout nat
  | RSystems nat
  | RManagers nat
  | RChassis nat
  | RGet nat string
  | RSetBoot nat ComputerSystem Boot
  | RReset nat ComputerSystem string

type_synonym red_hist = "red_op list"

text \<open>
  \<open>g_ResetActionInfo\<close> is the GET of the path, the read of its body and its decoding; every error of
  the three is treated alike. \<open>g_Chassis\<close> returns what it could read beside its error.
\<close>

record red_env =
  g_Connect :: "red_hist \<Rightarrow> ClientConfig \<Rightarrow> nat result"
  g_Systems :: "red_hist \<Rightarrow> nat \<Rightarrow> ComputerSystem list result"
  g_Managers :: "red_hist \<Rightarrow> nat \<Rightarrow> GoManager list result"
  g_Chassis :: "red_hist \<Rightarrow> nat \<Rightarrow> GoChassis list \<times> goerr option"
  g_RedfishVersion :: "nat \<Rightarrow> string"
  g_Vendor :: "nat \<Rightarrow> string"
  g_ResetActionInfo :: "red_hist \<Rightarrow> nat \<Rightarrow> string \<Rightarrow> ResetActionInfo result"
  g_SetBoot :: "red_hist \<Rightarrow> nat \<Rightarrow> ComputerSystem \<Rightarrow> Boot \<Rightarrow> goerr option"
  g_Reset :: "red_hist \<Rightarrow> nat \<Rightarrow> ComputerSystem \<Rightarrow> string \<Rightarrow> goerr option"

definition get_systems :: "red_env \<Rightarrow> nat \<Rightarrow> red_hist \<Rightarrow> ComputerSystem list result \<times> red_hist" where
  "get_systems env c h = (g_Systems env h c, h @ [RSystems c])"

definition get_managers :: "red_env \<Rightarrow> nat \<Rightarrow> red_hist \<Rightarrow> GoManager list result \<times> red_hist" where
  "get_managers env c h = (g_Managers env h c, h @ [RManagers c])"

definition get_chassis :: "red_env \<Rightarrow> nat \<Rightarrow> red_hist \<Rightarrow> (GoChassis list \<times> goerr option) \<times> red_hist" where
  "get_chassis env c h = (g_Chassis env h c, h @ [RChassis c])"

definition set_boot :: "red_env \<Rightarrow> nat \<Rightarrow> ComputerSystem \<Rightarrow> Boot \<Rightarrow> red_hist \<Rightarrow> goerr option \<times> red_hist" where
  "set_boot env c s b h = (g_SetBoot env h c s b, h @ [RSetBoot c s b])"

definition reset_system :: "red_env \<Rightarrow> nat \<Rightarrow> ComputerSystem \<Rightarrow> string \<Rightarrow> red_hist \<Rightarrow> goerr option \<times> red_hist" where
  "reset_system env c s t h = (g_Reset env h c s t, h @ [RReset c s t])"

lemmas red_calls = get_systems_def get_managers_def get_chassis_def set_boot_def reset_system_def

text \<open>The calls that change a machine.\<close>

fun acts :: "red_op \<Rightarrow> bool" where
  "acts (RSetBoot _ _ _) = True"
| "acts (RReset _ _ _) = True"
| "acts _ = False"

definition actions :: "red_hist \<Rightarrow> red_hist" where
  "actions h = filter acts h"

lemma actions_simps [simp]:
  "actions [] = []" "actions (x # h) = (if acts x then x # actions h else actions h)"
  "actions (h @ h') = actions h @ actions h'"
  by (simp_all add: actions_def)

end
