(* ===== verification/RedfishPower.thy ===== *)
theory RedfishPower
  imports RedfishService
begin

text \<open>
  The Redfish client of \<open>pkg/redfish\<close>: the cache of connections (\<open>interface.go\<close>), the reset types a
  machine supports (\<open>getinfo.go\<close>) and power operations (\<open>power.go\<close>).
\<close>

section \<open>Definitions\<close>

definition buildRedfishEndpoint :: "RedfishConnectCon \<Rightarrow> string" where
  "buildRedfishEndpoint con =
     (if b_Https (rc_Info con) then ''https'' else ''http'') @ ''://'' @ b_IpAddr (rc_Info con) @ '':''
       @ dec_of_int (b_Port (rc_Info con))"

definition config_of :: "RedfishConnectCon \<Rightarrow> ClientConfig" where
  "config_of con = \<lparr>gc_Endpoint = buildRedfishEndpoint con, gc_Username = rc_Username con,
     gc_Password = rc_Password con, gc_Insecure = True, gc_ReuseConnections = True\<rparr>"

text \<open>The end of \<open>NewClient\<close>: a new connection, stored in the cache.\<close>

definition connect_new ::
    "red_env \<Rightarrow> RedfishConnectCon \<Rightarrow> redfishClients \<Rightarrow> red_hist \<Rightarrow> redfishClient result \<times> redfishClients \<times> red_hist" where
  "connect_new env con cache h =
     (let config = config_of con; h1 = h @ [RConnect config] in
      case g_Connect env h config of
        Inl e \<Rightarrow> (Inl (Errorf ''failed to connect: %+v'' [ArgE e]), cache, h1)
      | Inr session \<Rightarrow>
          (let c = \<lparr>rd_config = config, rd_client = session\<rparr>
           in (Inr c, gm_put (b_IpAddr (rc_Info con)) c cache, h1)))"

definition NewClient ::
    "red_env \<Rightarrow> RedfishConnectCon \<Rightarrow> redfishClients \<Rightarrow> red_hist \<Rightarrow> redfishClient result \<times> redfishClients \<times> red_hist" where
  "NewClient env con cache h =
     (let ip = b_IpAddr (rc_Info con) in
      case gm_get cache ip of
        None \<Rightarrow> connect_new env con cache h
      | Some c \<Rightarrow>
          (let (ok, h1) = (if config_of con = rd_config c then
                 (case get_systems env (rd_client c) h of (Inr _, h') \<Rightarrow> (True, h') | (Inl _, h') \<Rightarrow> (False, h'))
               else (False, h))
           in if ok then (Inr c, cache, h1)
              else connect_new env con (gm_del ip cache) (h1 @ [RLogout (rd_client c)])))"

text \<open>\<open>joinStr\<close> built in a loop.\<close>

fun join_loop :: "string \<Rightarrow> string list \<Rightarrow> string" where
  "join_loop joinStr [] = joinStr"
| "join_loop joinStr (item # items) =
     join_loop ((if length joinStr > 0 then joinStr @ '','' else joinStr) @ item) items"

definition GetSupportedResetTypes ::
    "red_env \<Rightarrow> redfishClient \<Rightarrow> ComputerSystem \<Rightarrow> red_hist \<Rightarrow> string \<times> red_hist" where
  "GetSupportedResetTypes env c system h =
     (let joinStr = join_loop [] (cs_SupportedResetTypes system) in
      if joinStr \<noteq> [] then (joinStr, h)
      else
        (let path = ''/redfish/v1/Systems/'' @ cs_ID system @ ''/ResetActionInfo'';
             h1 = h @ [RGet (rd_client c) path]
         in case g_ResetActionInfo env h (rd_client c) path of
              Inl _ \<Rightarrow> ([], h1)
            | Inr actionInfo \<Rightarrow>
                (case find (\<lambda>p. rp_Name p = ''ResetType'') (ra_Parameters actionInfo) of
                   None \<Rightarrow> ([], h1)
                 | Some param \<Rightarrow> (join_loop joinStr (rp_AllowableValues param), h1))))"

definition pxe_once :: Boot where
  "pxe_once = \<lparr>bo_Target = ''Pxe'', bo_Enabled = ''Once''\<rparr>"

text \<open>The refresh before a further attempt: the system of the same ID in a new answer.\<close>

definition refresh_system ::
    "red_env \<Rightarrow> redfishClient \<Rightarrow> ComputerSystem \<Rightarrow> red_hist \<Rightarrow> ComputerSystem result \<times> red_hist" where
  "refresh_system env c system h =
     (case get_systems env (rd_client c) h of
        (Inl e, h1) \<Rightarrow> (Inl (Errorf ''failed to refresh system info: %+v'' [ArgE e]), h1)
      | (Inr systems, h1) \<Rightarrow>
          if systems = [] then (Inl (Errorf ''no systems found during refresh'' []), h1)
          else (case find (\<lambda>s. cs_ID s = cs_ID system) systems of
                  None \<Rightarrow> (Inl (Errorf ''system %s not found after refresh'' [ArgS (cs_ID system)]), h1)
                | Some s \<Rightarrow> (Inr s, h1)))"

text \<open>One attempt: the override, then the restart; none where both succeed.\<close>

definition pxe_attempt ::
    "red_env \<Rightarrow> redfishClient \<Rightarrow> ComputerSystem \<Rightarrow> Boot \<Rightarrow> string \<Rightarrow> red_hist \<Rightarrow> goerr option \<times> red_hist" where
  "pxe_attempt env c system boot resetTypes h =
     (case set_boot env (rd_client c) system boot h of
        (Some e, h1) \<Rightarrow> (Some e, h1)
      | (None, h1) \<Rightarrow>
          reset_system env (rd_client c) system
            (if str_contains resetTypes ''GracefulRestart'' then ''GracefulRestart'' else ''ForceRestart'') h1)"

text \<open>The loop of \<open>pxeRebootWithRetry\<close> from iteration \<open>i\<close> on, with \<open>n\<close> iterations left.\<close>

fun pxe_loop ::
    "red_env \<Rightarrow> redfishClient \<Rightarrow> nat \<Rightarrow> nat \<Rightarrow> ComputerSystem \<Rightarrow> Boot \<Rightarrow> string \<Rightarrow> goerr list \<Rightarrow> red_hist
      \<Rightarrow> unit result \<times> red_hist" where
  "pxe_loop env c i 0 system boot resetTypes lastErr h =
     (Inl (Errorf ''failed to set boot options after %d retries: %+v'' (ArgI (int i) # map ArgE lastErr)), h)"
| "pxe_loop env c i (Suc n) system boot resetTypes lastErr h =
     (case (if i > 0 then refresh_system env c system h else (Inr system, h)) of
        (Inl e, h1) \<Rightarrow> (Inl e, h1)
      | (Inr s, h1) \<Rightarrow>
          (case pxe_attempt env c s boot resetTypes h1 of
             (Some e, h2) \<Rightarrow> pxe_loop env c (i + 1) n s boot resetTypes [e] h2
           | (None, h2) \<Rightarrow> (Inr (), h2)))"

definition pxeRebootWithRetry ::
    "red_env \<Rightarrow> redfishClient \<Rightarrow> ComputerSystem \<Rightarrow> Boot \<Rightarrow> string \<Rightarrow> red_hist \<Rightarrow> unit result \<times> red_hist" where
  "pxeRebootWithRetry env c system boot resetTypes h = pxe_loop env c 0 3 system boot resetTypes [] h"

definition reset_cmds :: "string list" where
  "reset_cmds = [BootCmdOn, BootCmdForceOn, BootCmdForceOff, BootCmdGracefulShutdown, BootCmdForceRestart,
     BootCmdGracefulRestart]"

text \<open>The body of the loop of \<open>Power\<close>.\<close>

definition power_system ::
    "red_env \<Rightarrow> redfishClient \<Rightarrow> string \<Rightarrow> ComputerSystem \<Rightarrow> red_hist \<Rightarrow> unit result \<times> red_hist" where
  "power_system env c bootCmd system h =
     (case cs_BootOptions system of
        Inl e \<Rightarrow> (Inl e, h)
      | Inr _ \<Rightarrow>
          (let (resetTypes, h1) = GetSupportedResetTypes env c system h in
           if bootCmd \<in> set reset_cmds then
             (case reset_system env (rd_client c) system bootCmd h1 of
                (Some e, h2) \<Rightarrow> (Inl (Errorf ''failed to operate '' []), h2)
              | (None, h2) \<Rightarrow> (Inr (), h2))
           else if bootCmd = BootCmdResetPxeOnce then
             (if \<not> str_contains resetTypes ''GracefulRestart'' \<and> \<not> str_contains resetTypes ''ForceRestart'' then
                (Inl (Errorf ''neither GracefulRestart nor ForceRestart is supported by system %s, supported types: %v''
                   [ArgS (cs_Name system), ArgS resetTypes]), h1)
              else
                (case pxeRebootWithRetry env c system pxe_once resetTypes h1 of
                   (Inl e, h2) \<Rightarrow> (Inl (Errorf ''failed to set boot options: %+v'' [ArgE e]), h2)
                 | (Inr _, h2) \<Rightarrow> (Inr (), h2)))
           else (Inl (Errorf ''unknown boot cmd: %+v'' [ArgS bootCmd]), h1)))"

fun power_loop ::
    "red_env \<Rightarrow> redfishClient \<Rightarrow> string \<Rightarrow> ComputerSystem list \<Rightarrow> red_hist \<Rightarrow> unit result \<times> red_hist" where
  "power_loop env c bootCmd [] h = (Inr (), h)"
| "power_loop env c bootCmd (system # ss) h =
     (case power_system env c bootCmd system h of
        (Inl e, h1) \<Rightarrow> (Inl e, h1)
      | (Inr _, h1) \<Rightarrow> power_loop env c bootCmd ss h1)"

definition Power :: "red_env \<Rightarrow> redfishClient \<Rightarrow> string \<Rightarrow> red_hist \<Rightarrow> unit result \<times> red_hist" where
  "Power env c bootCmd h =
     (case get_systems env (rd_client c) h of
        (Inl e, h1) \<Rightarrow> (Inl e, h1)
      | (Inr ss, h1) \<Rightarrow>
          if ss = [] then (Inl (Errorf ''no system found'' []), h1) else power_loop env c bootCmd ss h1)"

section \<open>Connections\<close>

lemma connect_new_result:
  assumes "connect_new env con cache h = (r, cache', h')" "gm_get cache (b_IpAddr (rc_Info con)) = None"
  shows "gm_get cache' = (gm_get cache)(b_IpAddr (rc_Info con) := (case r of Inl _ \<Rightarrow> None | Inr c \<Rightarrow> Some c))"
    and "r = Inr c \<Longrightarrow> rd_config c = config_of con"
  using assms by (auto simp: connect_new_def Let_def split: sum.splits)

lemma NewClient_result:
  assumes "NewClient env con cache h = (r, cache', h')"
  shows "gm_get cache' = (gm_get cache)(b_IpAddr (rc_Info con) := (case r of Inl _ \<Rightarrow> None | Inr c \<Rightarrow> Some c))"
    and "r = Inr c \<Longrightarrow> rd_config c = config_of con"
proof -
  let ?ip = "b_IpAddr (rc_Info con)"
  have "gm_get cache' = (gm_get cache)(?ip := (case r of Inl _ \<Rightarrow> None | Inr c \<Rightarrow> Some c))
    \<and> (\<forall>c. r = Inr c \<longrightarrow> rd_config c = config_of con)"
  proof (cases "gm_get cache ?ip")
    case None
    then have "connect_new env con cache h = (r, cache', h')" using assms by (simp add: NewClient_def Let_def)
    from connect_new_result [OF this None] show ?thesis by blast
  next
    case (Some c0)
    show ?thesis
    proof (cases "config_of con = rd_config c0 \<and> (\<exists>ss. g_Systems env h (rd_client c0) = Inr ss)")
      case True
      then have "r = Inr c0" "cache' = cache" using assms Some
        by (auto simp: NewClient_def Let_def red_calls)
      with True Some show ?thesis by (auto simp: fun_eq_iff)
    next
      case False
      then obtain h1 where d: "connect_new env con (gm_del ?ip cache) h1 = (r, cache', h')"
        using assms Some that by (cases "config_of con = rd_config c0"; cases "g_Systems env h (rd_client c0)")
          (auto simp: NewClient_def Let_def red_calls)
      have "gm_get (gm_del ?ip cache) ?ip = None" by simp
      from connect_new_result [OF d this] show ?thesis by (auto simp: fun_eq_iff)
    qed
  qed
  then show "gm_get cache' = (gm_get cache)(?ip := (case r of Inl _ \<Rightarrow> None | Inr c \<Rightarrow> Some c))"
    "r = Inr c \<Longrightarrow> rd_config c = config_of con" by blast+
qed

lemma NewClient_actions:
  "NewClient env con cache h = (r, cache', h') \<Longrightarrow> actions h' = actions h"
  by (auto simp: NewClient_def connect_new_def red_calls Let_def split: option.splits sum.splits if_splits)

section \<open>Reset types\<close>

lemma join_loop_join: "acc \<noteq> [] \<Longrightarrow> join_loop acc xs = join_with '','' (acc # xs)"
proof (induction xs arbitrary: acc)
  case (Cons x xs)
  then have "join_loop acc (x # xs) = join_with '','' ((acc @ '','' @ x) # xs)" by simp
  also have "\<dots> = join_with '','' (acc # x # xs)" by (cases xs) simp_all
  finally show ?case .
qed simp

text \<open>The loop joins with commas what is not empty at the front.\<close>

lemma join_loop_Nil: "join_loop [] xs = join_with '','' (dropWhile (\<lambda>x. x = []) xs)"
  by (induction xs) (auto simp: join_loop_join)

lemma GetSupportedResetTypes_actions:
  "GetSupportedResetTypes env c s h = (t, h') \<Longrightarrow> actions h' = actions h"
  by (auto simp: GetSupportedResetTypes_def Let_def split: if_splits sum.splits option.splits)

section \<open>Traces of power operations\<close>

text \<open>The actions of one attempt of a PXE reboot of the machine with ID \<open>i\<close>: with \<open>ok\<close> it went through.\<close>

definition pxe_try :: "nat \<Rightarrow> string \<Rightarrow> bool \<Rightarrow> red_op list \<Rightarrow> bool" where
  "pxe_try c i ok t \<longleftrightarrow> (\<exists>s. cs_ID s = i \<and>
     (t = [RSetBoot c s pxe_once] \<and> \<not> ok
      \<or> (\<exists>rt \<in> {''GracefulRestart'', ''ForceRestart''}. t = [RSetBoot c s pxe_once, RReset c s rt])))"

definition pxe_tries :: "nat \<Rightarrow> string \<Rightarrow> bool \<Rightarrow> red_op list list \<Rightarrow> bool" where
  "pxe_tries c i ok ts \<longleftrightarrow> (\<forall>t \<in> set ts. \<exists>b. pxe_try c i b t) \<and> (ok \<longrightarrow> ts \<noteq> [] \<and> pxe_try c i True (last ts))"

lemma refresh_system_result:
  "refresh_system env c s h = (r, h') \<Longrightarrow> actions h' = actions h \<and> (\<forall>s'. r = Inr s' \<longrightarrow> cs_ID s' = cs_ID s)"
  by (auto simp: refresh_system_def red_calls find_Some_iff split: sum.splits option.splits if_splits)

lemma pxe_attempt_result:
  assumes "pxe_attempt env c s pxe_once rt h = (r, h')"
  shows "\<exists>t. actions h' = actions h @ t \<and> pxe_try (rd_client c) (cs_ID s) (r = None) t"
proof (cases "g_SetBoot env h (rd_client c) s pxe_once")
  case None
  with assms show ?thesis by (auto simp: pxe_attempt_def red_calls pxe_try_def split: if_splits)
next
  case (Some e)
  with assms have "r = Some e" "h' = h @ [RSetBoot (rd_client c) s pxe_once]"
    by (simp_all add: pxe_attempt_def red_calls)
  then show ?thesis by (auto simp: pxe_try_def)
qed

lemma pxe_loop_trace:
  assumes "pxe_loop env c i n s pxe_once rt err h = (r, h')"
  shows "\<exists>ts. actions h' = actions h @ concat ts \<and> length ts \<le> n
    \<and> pxe_tries (rd_client c) (cs_ID s) (r = Inr ()) ts"
  using assms
proof (induction n arbitrary: i s err h)
  case 0
  then show ?case by (intro exI [of _ "[]"]) (auto simp: pxe_tries_def)
next
  case (Suc n)
  obtain r1 h1 where r1: "(if i > 0 then refresh_system env c s h else (Inr s, h)) = (r1, h1)" by force
  then have a1: "actions h1 = actions h" "\<And>s'. r1 = Inr s' \<Longrightarrow> cs_ID s' = cs_ID s"
    using refresh_system_result [of env c s h r1 h1] by (auto split: if_splits)
  show ?case
  proof (cases r1)
    case (Inl e)
    then show ?thesis using Suc.prems r1 a1 by (intro exI [of _ "[]"]) (auto simp: pxe_tries_def)
  next
    case (Inr s1)
    then have s1: "cs_ID s1 = cs_ID s" using a1(2) by blast
    obtain r2 h2 where r2: "pxe_attempt env c s1 pxe_once rt h1 = (r2, h2)" by force
    then obtain t where t: "actions h2 = actions h1 @ t" "pxe_try (rd_client c) (cs_ID s) (r2 = None) t"
      using pxe_attempt_result s1 by metis
    show ?thesis
    proof (cases r2)
      case None
      then have "r = Inr ()" "h' = h2" using Suc.prems r1 r2 Inr by auto
      with t None a1 show ?thesis by (intro exI [of _ "[t]"]) (auto simp: pxe_tries_def)
    next
      case (Some e)
      then have "pxe_loop env c (i + 1) n s1 pxe_once rt [e] h2 = (r, h')" using Suc.prems r1 r2 Inr by auto
      from Suc.IH [OF this] obtain ts where ts: "actions h' = actions h2 @ concat ts" "length ts \<le> n"
        "pxe_tries (rd_client c) (cs_ID s) (r = Inr ()) ts" unfolding s1 by blast
      have "pxe_tries (rd_client c) (cs_ID s) (r = Inr ()) (t # ts)" using ts(3) t(2) by (auto simp: pxe_tries_def)
      with ts t(1) a1(1) show ?thesis by (intro exI [of _ "t # ts"]) simp
    qed
  qed
qed

lemma power_system_reset:
  assumes "power_system env c cmd s h = (r, h')" "cmd \<in> set reset_cmds"
  shows "actions h' = actions h @ [RReset (rd_client c) s cmd] \<or> actions h' = actions h \<and> r \<noteq> Inr ()"
  using assms GetSupportedResetTypes_actions [of env c s h]
  by (auto simp: power_system_def red_calls split: prod.splits sum.splits option.splits if_splits)

lemma power_system_pxe:
  assumes "power_system env c BootCmdResetPxeOnce s h = (r, h')"
  shows "\<exists>ts. actions h' = actions h @ concat ts \<and> length ts \<le> 3 \<and> pxe_tries (rd_client c) (cs_ID s) (r = Inr ()) ts"
proof -
  have n: "BootCmdResetPxeOnce \<notin> set reset_cmds" by (simp add: reset_cmds_def boot_cmd_defs)
  have none: "pxe_tries (rd_client c) (cs_ID s) False []" by (simp add: pxe_tries_def)
  obtain t h1 where g: "GetSupportedResetTypes env c s h = (t, h1)" by force
  then have h1: "actions h1 = actions h" by (rule GetSupportedResetTypes_actions)
  obtain r2 h2 where p: "pxe_loop env c 0 3 s pxe_once t [] h1 = (r2, h2)" by force
  from pxe_loop_trace [OF p] obtain ts where ts: "actions h2 = actions h1 @ concat ts" "length ts \<le> 3"
    "pxe_tries (rd_client c) (cs_ID s) (r2 = Inr ()) ts" by blast
  show ?thesis
  proof (cases "h' = h2 \<and> (r = Inr ()) = (r2 = Inr ())")
    case True
    with ts h1 show ?thesis by auto
  next
    case False
    then have "actions h' = actions h \<and> r \<noteq> Inr ()" using assms n g p h1
      by (auto simp: power_system_def pxeRebootWithRetry_def split: sum.splits if_splits)
    with none show ?thesis by (intro exI [of _ "[]"]) auto
  qed
qed

lemma power_loop_reset:
  assumes "power_loop env c cmd ss h = (r, h')" "cmd \<in> set reset_cmds"
  shows "\<exists>k \<le> length ss. actions h' = actions h @ map (\<lambda>s. RReset (rd_client c) s cmd) (take k ss)
    \<and> (r = Inr () \<longrightarrow> k = length ss)"
  using assms(1)
proof (induction ss arbitrary: h)
  case (Cons s ss)
  obtain r1 h1 where p: "power_system env c cmd s h = (r1, h1)" by force
  note a = power_system_reset [OF p assms(2)]
  show ?case
  proof (cases r1)
    case (Inl e)
    then have "r = Inl e" "h' = h1" using Cons.prems p by simp_all
    with a show ?thesis by (elim disjE) (auto intro: exI [of _ "0"] exI [of _ "Suc 0"])
  next
    case (Inr u)
    then have "power_loop env c cmd ss h1 = (r, h')" using Cons.prems p by simp
    from Cons.IH [OF this] obtain k where "k \<le> length ss"
      "actions h' = actions h1 @ map (\<lambda>s. RReset (rd_client c) s cmd) (take k ss)" "r = Inr () \<longrightarrow> k = length ss" by blast
    with a Inr show ?thesis by (intro exI [of _ "Suc k"]) auto
  qed
qed simp

lemma power_loop_pxe:
  assumes "power_loop env c BootCmdResetPxeOnce ss h = (r, h')"
  shows "\<exists>tss. actions h' = actions h @ concat (map concat tss) \<and> length tss \<le> length ss
    \<and> (\<forall>k < length tss. length (tss ! k) \<le> 3
         \<and> pxe_tries (rd_client c) (cs_ID (ss ! k)) (r = Inr () \<or> k + 1 < length tss) (tss ! k))
    \<and> (r = Inr () \<longrightarrow> length tss = length ss)"
  using assms
proof (induction ss arbitrary: h)
  case (Cons s ss)
  obtain r1 h1 where p: "power_system env c BootCmdResetPxeOnce s h = (r1, h1)" by force
  from power_system_pxe [OF p] obtain ts where ts: "actions h1 = actions h @ concat ts" "length ts \<le> 3"
    "pxe_tries (rd_client c) (cs_ID s) (r1 = Inr ()) ts" by blast
  show ?case
  proof (cases r1)
    case (Inl e)
    then have "r = Inl e" "h' = h1" using Cons.prems p by simp_all
    with ts Inl show ?thesis by (intro exI [of _ "[ts]"]) auto
  next
    case (Inr u)
    then have "power_loop env c BootCmdResetPxeOnce ss h1 = (r, h')" using Cons.prems p by simp
    from Cons.IH [OF this] obtain tss where i: "actions h' = actions h1 @ concat (map concat tss)"
      "length tss \<le> length ss" "r = Inr () \<longrightarrow> length tss = length ss"
      "\<And>k. k < length tss \<Longrightarrow> length (tss ! k) \<le> 3
         \<and> pxe_tries (rd_client c) (cs_ID (ss ! k)) (r = Inr () \<or> k + 1 < length tss) (tss ! k)" by blast
    have w: "pxe_tries c i ok ts" if "pxe_tries c i True ts" for c i ok and ts :: "red_op list list"
      using that by (simp add: pxe_tries_def)
    show ?thesis using i ts Inr
      by (intro exI [of _ "ts # tss"]) (auto simp: nth_Cons intro: w split: nat.splits)
  qed
qed (auto intro: exI [of _ "[]"])

section \<open>A concrete machine\<close>

text \<open>The machine refuses the first change of its boot options (a stale ETag).\<close>

definition example_system :: ComputerSystem where
  "example_system = \<lparr>cs_ID = ''1'', cs_Name = ''node'', cs_ETag = ''a'', cs_BIOSVersion = [], cs_HostName = [],
     cs_Manufacturer = [], cs_PowerState = ''On'', cs_Health = ''OK'',
     cs_SupportedResetTypes = [''On'', ''GracefulRestart''], cs_CpuCount = 2, cs_CpuLogicalCount = 8, cs_CpuModel = [],
     cs_CpuHealth = ''OK'', cs_MemoryGiB = (1, 4), cs_MemoryHealth = ''OK'', cs_BootOptions = Inr (), cs_Processors = Inr [],
     cs_Memory = Inr [], cs_Storage = Inr [], cs_LogServices = Inr []\<rparr>"

definition example_machine :: red_env where
  "example_machine = \<lparr>g_Connect = (\<lambda>h config. Inr 1), g_Systems = (\<lambda>h c. Inr [example_system]),
     g_Managers = (\<lambda>h c. Inr []), g_Chassis = (\<lambda>h c. ([], None)), g_RedfishVersion = (\<lambda>c. ''1.15''),
     g_Vendor = (\<lambda>c. []), g_ResetActionInfo = (\<lambda>h c p. Inl (SysErr ''404'')),
     g_SetBoot = (\<lambda>h c s b. if RSetBoot c s b \<in> set h then None else Some (SysErr ''412'')),
     g_Reset = (\<lambda>h c s t. None)\<rparr>"

definition example_rc :: redfishClient where
  "example_rc = \<lparr>rd_config = config_of example_con, rd_client = 1\<rparr>"

lemmas example_machine_defs =
  example_machine_def example_rc_def example_system_def Power_def red_calls power_system_def
  GetSupportedResetTypes_def pxeRebootWithRetry_def pxe_attempt_def refresh_system_def

section \<open>Properties\<close>

text \<open>\<open>NewClient\<close> never hands out a connection made for other parameters: what it returns
  was made with the URL, user name and password given, and it is the cached connection for that
  address; after an error none is cached; connections of other addresses stay.\<close>

theorem NewClient_current:
  assumes "NewClient env con cache h = (r, cache', h')"
  shows "gm_get cache' = (gm_get cache)(b_IpAddr (rc_Info con) := (case r of Inl _ \<Rightarrow> None | Inr c \<Rightarrow> Some c))
    \<and> (case r of Inl _ \<Rightarrow> True | Inr c \<Rightarrow> rd_config c = config_of con) \<and> actions h' = actions h"
proof (intro conjI)
  show "case r of Inl _ \<Rightarrow> True | Inr c \<Rightarrow> rd_config c = config_of con"
    using NewClient_result(2) [OF assms] by (cases r) simp_all
qed (rule NewClient_result(1) [OF assms], rule NewClient_actions [OF assms])

lemma NewClient_current_witness:
  "gm_get (fst (snd (NewClient example_machine example_con [] []))) [] = Some example_rc"
proof -
  obtain r cache' h' where n: "NewClient example_machine example_con [] [] = (r, cache', h')"
    by (cases "NewClient example_machine example_con [] []")
  moreover have "r = Inr example_rc" using n
    by (auto simp: NewClient_def connect_new_def example_machine_def example_rc_def Let_def)
  moreover have "b_IpAddr (rc_Info example_con) = []" by (simp add: example_con_def zero_basic_def)
  ultimately show ?thesis using NewClient_current [OF n] by simp
qed

text \<open>Property C30: a reset command that \<open>Power\<close> reports done has been sent exactly once to every system
  of the machine, in order, and nothing else has been done to it; when it reports an error, a first
  part of the systems has got it.\<close>

theorem Power_reset:
  assumes "Power env c cmd h = (r, h')" "cmd \<in> set reset_cmds" "g_Systems env h (rd_client c) = Inr ss"
  shows "\<exists>k \<le> length ss. actions h' = actions h @ map (\<lambda>s. RReset (rd_client c) s cmd) (take k ss)
    \<and> (r = Inr () \<longrightarrow> k = length ss \<and> ss \<noteq> [])"
proof (cases "ss = []")
  case True
  then show ?thesis using assms(1,3) by (auto simp: Power_def red_calls)
next
  case False
  then have "power_loop env c cmd ss (h @ [RSystems (rd_client c)]) = (r, h')"
    using assms(1,3) by (simp add: Power_def red_calls)
  from power_loop_reset [OF this assms(2)] False show ?thesis by auto
qed

lemma Power_reset_witness:
  "actions (snd (Power example_machine example_rc BootCmdOn [])) = [RReset 1 example_system ''On'']"
proof -
  obtain r h' where p: "Power example_machine example_rc BootCmdOn [] = (r, h')"
    by (cases "Power example_machine example_rc BootCmdOn []")
  have r: "r = Inr ()" using p
    by (auto simp: example_machine_defs reset_cmds_def boot_cmd_defs Let_def split: if_splits)
  have "BootCmdOn \<in> set reset_cmds" by (simp add: reset_cmds_def)
  from Power_reset [OF p this] r have "actions h' = [RReset 1 example_system ''On'']"
    by (auto simp: example_machine_def example_rc_def BootCmdOn_def)
  then show ?thesis unfolding p by simp
qed

text \<open>Property C31: a PXE reboot that \<open>Power\<close> reports done: for every system, in order, between one and
  three attempts, each setting the boot override to PXE once before it resets the same system, the
  last of them complete; no system is reset without the override.\<close>

theorem Power_pxe:
  assumes "Power env c BootCmdResetPxeOnce h = (Inr (), h')" "g_Systems env h (rd_client c) = Inr ss"
  shows "\<exists>tss. actions h' = actions h @ concat (map concat tss) \<and> length tss = length ss
    \<and> (\<forall>k < length ss. 1 \<le> length (tss ! k) \<and> length (tss ! k) \<le> 3 \<and> pxe_tries (rd_client c) (cs_ID (ss ! k)) True (tss ! k))"
proof -
  have "power_loop env c BootCmdResetPxeOnce ss (h @ [RSystems (rd_client c)]) = (Inr (), h')"
    using assms by (auto simp: Power_def red_calls split: if_splits)
  from power_loop_pxe [OF this] obtain tss where t: "actions h' = actions h @ concat (map concat tss)"
    "length tss = length ss" "\<forall>k < length tss. length (tss ! k) \<le> 3
       \<and> pxe_tries (rd_client c) (cs_ID (ss ! k)) True (tss ! k)" by auto
  have "1 \<le> length (tss ! k)" if "k < length ss" for k
    using t(2,3) that by (cases "tss ! k") (auto simp: pxe_tries_def)
  with t show ?thesis by (intro exI [of _ tss]) auto
qed

lemma Power_pxe_witness:
  "\<exists>tss. concat (map concat tss) = [RSetBoot 1 example_system pxe_once, RSetBoot 1 example_system pxe_once,
       RReset 1 example_system ''GracefulRestart''] \<and> pxe_tries 1 ''1'' True (tss ! 0) \<and> length (tss ! 0) \<le> 3"
proof -
  let ?h = "[RSystems 1, RSetBoot 1 example_system pxe_once, RSystems 1, RSetBoot 1 example_system pxe_once,
    RReset 1 example_system ''GracefulRestart'']"
  have c: "str_contains ''On,GracefulRestart'' ''GracefulRestart''" by simp
  have p: "Power example_machine example_rc BootCmdResetPxeOnce [] = (Inr (), ?h)"
    using c by (simp add: example_machine_defs reset_cmds_def boot_cmd_defs Let_def numeral_3_eq_3)
  have "g_Systems example_machine [] (rd_client example_rc) = Inr [example_system]" by (simp add: example_machine_def)
  from Power_pxe [OF p this] obtain tss where "actions ?h = concat (map concat tss)"
    "length (tss ! 0) \<le> 3" "pxe_tries 1 ''1'' True (tss ! 0)" by (auto simp: example_rc_def example_system_def)
  then show ?thesis by (intro exI [of _ tss]) simp
qed

end
