(* ===== verification/RedfishDhcp.thy ===== *)
theory RedfishDhcp
  imports RedfishPower DhcpServer Locks "HOL-Library.Multiset"
begin

text \<open>
  The side of the RedfishStatus controller that follows the DHCP server
  (\<open>pkg/redfishstatus/dhcp.go\<close>, with \<open>tools.go\<close> and the state of \<open>manager.go\<close>): a new lease makes
  a RedfishStatus and, where the subnet asks for it, a BindingIp; a lease that goes away marks the
  RedfishStatus inactive. The answers of the API server, the clock and the formatting of a time
  are parameters; what is sent to the API server is recorded in order.
\<close>

section \<open>State\<close>

datatype api_write =
    WCreate RedfishStatus
  | WStatusUpdate RedfishStatus
  | WUpdate RedfishStatus
  | WBinding BindingIp

text \<open>An event of the recorder: its object, type, reason and message.\<close>

record bmc_event =
  ev_Name :: string
  ev_Namespace :: string
  ev_Type :: string
  ev_Reason :: string
  ev_Message :: string

text \<open>
  The controller and the two package variables it works on, \<open>RedfishCacheDatabase\<close> and
  \<open>CacheClient\<close>. \<open>rsc_retryAdd\<close> and \<open>rsc_retryDelete\<close> are the events that sleep in a goroutine
  before they are sent again.
\<close>

record redfishStatusController =
  rsc_config :: AgentConfig
  rsc_addChan :: "DhcpClientInfo list"
  rsc_deleteChan :: "DhcpClientInfo list"
  rsc_retryAdd :: "DhcpClientInfo list"
  rsc_retryDelete :: "DhcpClientInfo list"
  rsc_cache :: RedfishCache
  rsc_clients :: redfishClients
  rsc_locks :: LockManager
  rsc_hist :: red_hist
  rsc_events :: "bmc_event list"
  rsc_writes :: "api_write list"

definition NewRedfishStatusController :: "AgentConfig \<Rightarrow> redfishStatusController" where
  "NewRedfishStatusController config = \<lparr>rsc_config = config, rsc_addChan = [], rsc_deleteChan = [],
     rsc_retryAdd = [], rsc_retryDelete = [], rsc_cache = RedfishCache_init, rsc_clients = [],
     rsc_locks = LockManagerInstance, rsc_hist = [], rsc_events = [], rsc_writes = []\<rparr>"

text \<open>\<open>Create\<close> and \<open>Status().Update\<close> fill the object they are given from the server's answer.\<close>

record rs_env =
  ra_Get :: "string \<Rightarrow> RedfishStatus result"
  ra_ListBindingIps :: "BindingIp list result"
  ra_Create :: "RedfishStatus \<Rightarrow> RedfishStatus result"
  ra_CreateBindingIp :: "BindingIp \<Rightarrow> goerr option"
  ra_StatusUpdate :: "RedfishStatus \<Rightarrow> RedfishStatus result"
  ra_Update :: "RedfishStatus \<Rightarrow> goerr option"
  ra_Secret :: "string \<Rightarrow> string \<Rightarrow> (string, string) gomap result"
  ra_now :: string
  ra_format :: "int \<Rightarrow> string"
  ra_red :: red_env

definition sent :: "api_write list \<Rightarrow> redfishStatusController \<Rightarrow> redfishStatusController" where
  "sent ws s = s\<lparr>rsc_writes := rsc_writes s @ ws\<rparr>"

lemma sent_simps [simp]:
  "rsc_writes (sent ws s) = rsc_writes s @ ws" "rsc_config (sent ws s) = rsc_config s"
  "rsc_addChan (sent ws s) = rsc_addChan s" "rsc_deleteChan (sent ws s) = rsc_deleteChan s"
  "rsc_retryAdd (sent ws s) = rsc_retryAdd s" "rsc_retryDelete (sent ws s) = rsc_retryDelete s"
  "rsc_cache (sent ws s) = rsc_cache s" "rsc_clients (sent ws s) = rsc_clients s"
  "rsc_hist (sent ws s) = rsc_hist s" "rsc_events (sent ws s) = rsc_events s" "sent [] s = s"
  "rsc_locks (sent ws s) = rsc_locks s"
  by (simp_all add: sent_def)

section \<open>Tools\<close>

definition formatRedfishStatusName :: "string \<Rightarrow> string" where
  "formatRedfishStatusName ip = replace_char CHR ''.'' CHR ''-'' ip"

text \<open>A key that is not in the secret reads as the empty string.\<close>

definition secret_field :: "(string, string) gomap \<Rightarrow> string \<Rightarrow> string" where
  "secret_field data k = (case gm_get data k of None \<Rightarrow> [] | Some v \<Rightarrow> v)"

definition getSecretData :: "rs_env \<Rightarrow> string \<Rightarrow> string \<Rightarrow> (string \<times> string) result" where
  "getSecretData env secretName secretNamespace =
     and_then (ra_Secret env secretNamespace secretName)
       (\<lambda>data. Inr (secret_field data ''username'', secret_field data ''password''))"

section \<open>Bindings\<close>

definition binding_for :: "DhcpClientInfo \<Rightarrow> string \<Rightarrow> BindingIp" where
  "binding_for client ownerUid =
     (let name = formatRedfishStatusName (dc_IP client) in
      \<lparr>bi_Meta = (new_meta name)\<lparr>om_Labels := Some [(LabelRedfishStatus, name)],
         om_OwnerReferences := [\<lparr>or_APIVersion = APIVersion, or_Kind = KindredfishStatus, or_Name = name,
           or_UID = ownerUid, or_Controller = None, or_BlockOwnerDeletion = Some True\<rparr>]\<rparr>,
       bi_Spec = \<lparr>bs_Subnet = dc_SubnetName client, bs_IpAddr = dc_IP client, bs_MacAddr = dc_MAC client\<rparr>,
       bi_Status = \<lparr>bst_Valid = False\<rparr>\<rparr>)"

text \<open>The loop over the existing bindings: whether one of its three tests returns.\<close>

fun binding_found :: "BindingIp \<Rightarrow> BindingIp list \<Rightarrow> bool" where
  "binding_found b [] = False"
| "binding_found b (x # xs) =
     (if bs_IpAddr (bi_Spec x) = bs_IpAddr (bi_Spec b) \<and> equal_fold (bs_MacAddr (bi_Spec x)) (bs_MacAddr (bi_Spec b))
      then True
      else if om_Name (bi_Meta x) = om_Name (bi_Meta b) then True
      else if bs_IpAddr (bi_Spec x) = bs_IpAddr (bi_Spec b) then True
      else binding_found b xs)"

definition createBindingIpForredfishstatus ::
    "rs_env \<Rightarrow> DhcpClientInfo \<Rightarrow> string \<Rightarrow> redfishStatusController \<Rightarrow> bool \<times> redfishStatusController" where
  "createBindingIpForredfishstatus env client ownerUid s =
     (if dc_EnableBindIpForRedfishstatus client = None \<or> dc_EnableBindIpForRedfishstatus client = Some False
      then (False, s)
      else
        (let bindingIP = binding_for client ownerUid in
         case ra_ListBindingIps env of
           Inl _ \<Rightarrow> (True, s)
         | Inr items \<Rightarrow>
             if binding_found bindingIP items then (False, s)
             else (ra_CreateBindingIp env bindingIP \<noteq> None, sent [WBinding bindingIP] s)))"

section \<open>Events\<close>

text \<open>What an add event changes in the object that exists.\<close>

definition refresh_lease :: "(int \<Rightarrow> string) \<Rightarrow> DhcpClientInfo \<Rightarrow> RedfishStatus \<Rightarrow> RedfishStatus" where
  "refresh_lease fmt client existing =
     (let st = rf_Status existing; basic = r_Basic st;
          basic1 = (if b_Mac basic \<noteq> dc_MAC client then basic\<lparr>b_Mac := dc_MAC client\<rparr> else basic);
          expireTimeStr = fmt (dc_DhcpExpireTime client);
          basic2 = (if b_DhcpExpireTime basic1 = None \<or> the (b_DhcpExpireTime basic1) \<noteq> expireTimeStr
                    then basic1\<lparr>b_DhcpExpireTime := Some expireTimeStr\<rparr> else basic1)
      in existing\<lparr>rf_Status := st\<lparr>r_Basic := basic2\<rparr>\<rparr>)"

definition lease_basic :: "AgentConfig \<Rightarrow> (int \<Rightarrow> string) \<Rightarrow> DhcpClientInfo \<Rightarrow> BasicInfo" where
  "lease_basic config fmt client =
     \<lparr>b_ClusterName = dc_ClusterName client, b_Type = HostTypeDHCP, b_IpAddr = dc_IP client,
      b_SecretName = [], b_SecretNamespace = [], b_Https = cf_RedfishHttps config,
      b_Port = int32_of (cf_RedfishPort config), b_Mac = dc_MAC client, b_ActiveDhcpClient = True,
      b_DhcpExpireTime = Some (fmt (dc_DhcpExpireTime client)), b_SubnetName = Some (dc_SubnetName client),
      b_Hostname = Some (dc_Hostname client)\<rparr>"

definition lease_con :: "AgentConfig \<Rightarrow> BasicInfo \<Rightarrow> string \<Rightarrow> string \<Rightarrow> RedfishConnectCon" where
  "lease_con config basicInfo username password =
     \<lparr>rc_Info = basicInfo, rc_Username = username, rc_Password = password, rc_DhcpHost = True\<rparr>"

definition new_redfishstatus :: "DhcpClientInfo \<Rightarrow> RedfishStatus" where
  "new_redfishstatus client =
     \<lparr>rf_Meta = (new_meta (formatRedfishStatusName (dc_IP client)))
        \<lparr>om_Labels := Some [(LabelSubnetName, dc_SubnetName client)]\<rparr>,
      rf_Status = zero_redfish_status\<rparr>"

text \<open>The status of the new object and its labels, set after the creation.\<close>

definition first_status :: "AgentConfig \<Rightarrow> string \<Rightarrow> BasicInfo \<Rightarrow> RedfishStatusStatus" where
  "first_status config now basicInfo =
     (let basic1 = (if cf_RedfishSecretName config \<noteq> [] then basicInfo\<lparr>b_SecretName := cf_RedfishSecretName config\<rparr>
            else basicInfo);
          basic2 = (if cf_RedfishSecretNamespace config \<noteq> []
            then basic1\<lparr>b_SecretNamespace := cf_RedfishSecretNamespace config\<rparr> else basic1)
      in \<lparr>r_Healthy = False, r_LastUpdateTime = now, r_Basic = basic2, r_Info = [], r_Log = zero_log\<rparr>)"

definition lease_labels :: "BasicInfo \<Rightarrow> ObjectMeta \<Rightarrow> ObjectMeta" where
  "lease_labels basic m =
     set_label LabelClientActive ''true'' (set_label LabelClientMode HostTypeDHCP
       (set_label LabelIPAddr (hd (split_on CHR ''/'' (b_IpAddr basic)))
         (set_label LabelClusterName (b_ClusterName basic) (make_labels m))))"

definition make_binding ::
    "rs_env \<Rightarrow> DhcpClientInfo \<Rightarrow> string \<Rightarrow> redfishStatusController \<Rightarrow> goerr option \<times> redfishStatusController" where
  "make_binding env client ownerUid s =
     (case createBindingIpForredfishstatus env client ownerUid s of
        (retry, s1) \<Rightarrow>
          (if retry then Some (Errorf ''failed to create binding ip for redfishstatus %s: %+v''
             [ArgS (formatRedfishStatusName (dc_IP client)), ArgS (dc_IP client)]) else None, s1))"

text \<open>The two halves of \<open>handleDHCPAdd\<close>: the object exists, and it does not.\<close>

definition add_existing ::
    "rs_env \<Rightarrow> DhcpClientInfo \<Rightarrow> RedfishStatus \<Rightarrow> redfishStatusController \<Rightarrow> goerr option \<times> redfishStatusController" where
  "add_existing env client existing s =
     (let updated = refresh_lease (ra_format env) client existing in
      if rf_Status existing \<noteq> rf_Status updated then
        (let updated1 = updated\<lparr>rf_Status := (rf_Status updated)\<lparr>r_LastUpdateTime := ra_now env\<rparr>\<rparr>;
             s1 = sent [WStatusUpdate updated1] s
         in case ra_StatusUpdate env updated1 of
              Inl e \<Rightarrow> (Some e, s1)
            | Inr _ \<Rightarrow> make_binding env client (om_UID (rf_Meta existing)) s1)
      else make_binding env client (om_UID (rf_Meta existing)) s)"

definition add_new ::
    "rs_env \<Rightarrow> DhcpClientInfo \<Rightarrow> redfishStatusController \<Rightarrow> goerr option \<times> redfishStatusController" where
  "add_new env client s =
     (let config = rsc_config s; basicInfo = lease_basic config (ra_format env) client in
      case getSecretData env (cf_RedfishSecretName config) (cf_RedfishSecretNamespace config) of
        Inl e \<Rightarrow> (Some e, s)
      | Inr (username, password) \<Rightarrow>
          (case NewClient (ra_red env) (lease_con config basicInfo username password) (rsc_clients s) (rsc_hist s) of
             (r, clients1, h1) \<Rightarrow>
               (let s1 = s\<lparr>rsc_clients := clients1, rsc_hist := h1\<rparr> in
                case r of
                  Inl _ \<Rightarrow> (None, s1)
                | Inr _ \<Rightarrow>
                    (let obj = new_redfishstatus client; s2 = sent [WCreate obj] s1 in
                     case ra_Create env obj of
                       Inl e \<Rightarrow> (Some e, s2)
                     | Inr made \<Rightarrow>
                         (let status = first_status config (ra_now env) basicInfo;
                              obj1 = \<lparr>rf_Meta = lease_labels (r_Basic status) (rf_Meta made), rf_Status = status\<rparr>;
                              s3 = sent [WStatusUpdate obj1] s2
                          in case ra_StatusUpdate env obj1 of
                               Inl e \<Rightarrow> (Some e, s3)
                             | Inr stored \<Rightarrow> make_binding env client (om_UID (rf_Meta stored)) s3)))))"

definition handleDHCPAdd ::
    "rs_env \<Rightarrow> DhcpClientInfo \<Rightarrow> redfishStatusController \<Rightarrow> goerr option \<times> redfishStatusController" where
  "handleDHCPAdd env client s =
     (case ra_Get env (formatRedfishStatusName (dc_IP client)) of
        Inr existing \<Rightarrow> add_existing env client existing s
      | Inl e \<Rightarrow> if \<not> IsNotFound e then (Some e, s) else add_new env client s)"

definition deactivated :: "RedfishStatus \<Rightarrow> RedfishStatus" where
  "deactivated existing =
     existing\<lparr>rf_Meta := set_label LabelClientActive ''false'' (make_labels (rf_Meta existing)),
       rf_Status := (rf_Status existing)\<lparr>r_Basic := (r_Basic (rf_Status existing))\<lparr>b_ActiveDhcpClient := False\<rparr>\<rparr>\<rparr>"

definition handleDHCPDelete ::
    "rs_env \<Rightarrow> DhcpClientInfo \<Rightarrow> redfishStatusController \<Rightarrow> goerr option \<times> redfishStatusController" where
  "handleDHCPDelete env client s =
     (case ra_Get env (formatRedfishStatusName (dc_IP client)) of
        Inl e \<Rightarrow> if IsNotFound e then (None, s) else (Some e, s)
      | Inr existing \<Rightarrow>
          (let updated = deactivated existing in (ra_Update env updated, sent [WUpdate updated] s)))"

definition shouldRetry :: "goerr \<Rightarrow> bool" where
  "shouldRetry e \<longleftrightarrow> IsConflict e \<or> IsServerTimeout e \<or> IsTooManyRequests e"

section \<open>The event loop\<close>

definition retried :: "goerr option \<Rightarrow> bool" where
  "retried err = (case err of None \<Rightarrow> False | Some e \<Rightarrow> shouldRetry e)"

text \<open>
  One round of \<open>processDHCPEvents\<close> that takes an add event, and one that takes a delete event, with
  the event and its outcome.
\<close>

definition add_turn ::
    "rs_env \<Rightarrow> redfishStatusController \<Rightarrow> (DhcpClientInfo \<times> goerr option) option \<times> redfishStatusController" where
  "add_turn env s =
     (case rsc_addChan s of
        [] \<Rightarrow> (None, s)
      | event # events \<Rightarrow>
          (case handleDHCPAdd env event (s\<lparr>rsc_addChan := events\<rparr>) of
             (err, s1) \<Rightarrow> (Some (event, err),
               if retried err then s1\<lparr>rsc_retryAdd := rsc_retryAdd s1 @ [event]\<rparr> else s1)))"

definition delete_turn ::
    "rs_env \<Rightarrow> redfishStatusController \<Rightarrow> (DhcpClientInfo \<times> goerr option) option \<times> redfishStatusController" where
  "delete_turn env s =
     (case rsc_deleteChan s of
        [] \<Rightarrow> (None, s)
      | event # events \<Rightarrow>
          (case handleDHCPDelete env event (s\<lparr>rsc_deleteChan := events\<rparr>) of
             (err, s1) \<Rightarrow> (Some (event, err),
               if retried err then s1\<lparr>rsc_retryDelete := rsc_retryDelete s1 @ [event]\<rparr> else s1)))"

text \<open>
  The loop beside the goroutines that retry and the DHCP servers that send: \<open>select\<close> takes any
  channel that is ready, sleepers wake in any order. \<open>A\<close> and \<open>D\<close> are the add and delete events
  sent so far, \<open>P\<close> and \<open>Q\<close> those the loop is done with, each with its outcome.
\<close>

inductive dhcp_loop ::
    "redfishStatusController \<Rightarrow> DhcpClientInfo multiset \<Rightarrow> DhcpClientInfo multiset
      \<Rightarrow> (DhcpClientInfo \<times> goerr option) multiset \<Rightarrow> (DhcpClientInfo \<times> goerr option) multiset
      \<Rightarrow> redfishStatusController \<Rightarrow> bool"
  for s0 where
  start: "dhcp_loop s0 {#} {#} {#} {#} s0"
| arrive_add: "dhcp_loop s0 A D P Q s \<Longrightarrow>
    dhcp_loop s0 (add_mset e A) D P Q (s\<lparr>rsc_addChan := rsc_addChan s @ [e]\<rparr>)"
| arrive_delete: "dhcp_loop s0 A D P Q s \<Longrightarrow>
    dhcp_loop s0 A (add_mset e D) P Q (s\<lparr>rsc_deleteChan := rsc_deleteChan s @ [e]\<rparr>)"
| take_add: "dhcp_loop s0 A D P Q s \<Longrightarrow> add_turn env s = (Some (e, err), s') \<Longrightarrow>
    dhcp_loop s0 A D (if retried err then P else add_mset (e, err) P) Q s'"
| take_delete: "dhcp_loop s0 A D P Q s \<Longrightarrow> delete_turn env s = (Some (e, err), s') \<Longrightarrow>
    dhcp_loop s0 A D P (if retried err then Q else add_mset (e, err) Q) s'"
| wake_add: "dhcp_loop s0 A D P Q s \<Longrightarrow> rsc_retryAdd s = us @ e # vs \<Longrightarrow>
    dhcp_loop s0 A D P Q (s\<lparr>rsc_retryAdd := us @ vs, rsc_addChan := rsc_addChan s @ [e]\<rparr>)"
| wake_delete: "dhcp_loop s0 A D P Q s \<Longrightarrow> rsc_retryDelete s = us @ e # vs \<Longrightarrow>
    dhcp_loop s0 A D P Q (s\<lparr>rsc_retryDelete := us @ vs, rsc_deleteChan := rsc_deleteChan s @ [e]\<rparr>)"

section \<open>Lemmas\<close>

text \<open>What an event handler leaves alone.\<close>

definition same_queues :: "redfishStatusController \<Rightarrow> redfishStatusController \<Rightarrow> bool" where
  "same_queues s s' \<longleftrightarrow> rsc_addChan s' = rsc_addChan s \<and> rsc_deleteChan s' = rsc_deleteChan s
     \<and> rsc_retryAdd s' = rsc_retryAdd s \<and> rsc_retryDelete s' = rsc_retryDelete s
     \<and> rsc_cache s' = rsc_cache s \<and> rsc_config s' = rsc_config s \<and> actions (rsc_hist s') = actions (rsc_hist s)"

lemma same_queues_sent [simp]: "same_queues s (sent ws s1) = same_queues s s1"
  by (simp add: same_queues_def)

lemma same_queues_from_sent [simp]: "same_queues (sent ws s) s1 = same_queues s s1"
  by (simp add: same_queues_def)

lemma same_queues_refl [simp]: "same_queues s s"
  by (simp add: same_queues_def)

lemma createBinding_writes:
  assumes "createBindingIpForredfishstatus env client uid s = (retry, s')"
  shows "s' = s \<or> (s' = sent [WBinding (binding_for client uid)] s
    \<and> dc_EnableBindIpForRedfishstatus client = Some True
    \<and> (\<exists>items. ra_ListBindingIps env = Inr items \<and> \<not> binding_found (binding_for client uid) items))"
  using assms by (auto simp: createBindingIpForredfishstatus_def Let_def split: if_splits sum.splits)

lemma make_binding_writes:
  assumes "make_binding env client uid s = (err, s')"
  shows "s' = s \<or> (s' = sent [WBinding (binding_for client uid)] s
    \<and> dc_EnableBindIpForRedfishstatus client = Some True
    \<and> (\<exists>items. ra_ListBindingIps env = Inr items \<and> \<not> binding_found (binding_for client uid) items))"
  using assms createBinding_writes by (fastforce simp: make_binding_def split: prod.splits)

lemma make_binding_queues:
  assumes "make_binding env client uid s = (err, s')"
  shows "same_queues s s'"
  using make_binding_writes [OF assms] by auto

lemma binding_found_iff:
  "binding_found b items \<longleftrightarrow> (\<exists>x \<in> set items. bs_IpAddr (bi_Spec x) = bs_IpAddr (bi_Spec b)
     \<or> om_Name (bi_Meta x) = om_Name (bi_Meta b))"
  by (induction items) auto

lemma binding_found_for:
  "binding_found (binding_for client uid) items \<longleftrightarrow> (\<exists>x \<in> set items. bs_IpAddr (bi_Spec x) = dc_IP client
     \<or> om_Name (bi_Meta x) = formatRedfishStatusName (dc_IP client))"
  by (simp add: binding_found_iff binding_for_def Let_def new_meta_def)

lemma add_existing_queues: "add_existing env client existing s = (err, s') \<Longrightarrow> same_queues s s'"
  by (auto simp: add_existing_def Let_def split: if_splits sum.splits dest!: make_binding_queues)

lemma add_new_queues:
  assumes "add_new env client s = (err, s')"
  shows "same_queues s s'"
proof -
  have n: "NewClient e d (rsc_clients s) (rsc_hist s) = (r, c1, h1) \<Longrightarrow>
      same_queues s (s\<lparr>rsc_clients := c1, rsc_hist := h1\<rparr>)" for e d r c1 h1
    by (simp add: same_queues_def NewClient_actions)
  have t: "same_queues s s1 \<Longrightarrow> same_queues s1 s2 \<Longrightarrow> same_queues s s2" for s1 s2
    by (simp add: same_queues_def)
  show ?thesis
    using assms
    by (auto simp: add_new_def Let_def split: sum.splits prod.splits dest!: make_binding_queues n intro: t)
qed

lemma handleDHCPAdd_queues: "handleDHCPAdd env client s = (err, s') \<Longrightarrow> same_queues s s'"
  by (auto simp: handleDHCPAdd_def add_existing_queues add_new_queues split: sum.splits if_splits)

lemma handleDHCPDelete_queues: "handleDHCPDelete env client s = (err, s') \<Longrightarrow> same_queues s s'"
  by (auto simp: handleDHCPDelete_def Let_def split: sum.splits if_splits)

text \<open>A binding that is asked for exists or is created.\<close>

lemma make_binding_done:
  assumes "make_binding env client uid s = (None, s')" "dc_EnableBindIpForRedfishstatus client = Some True"
  shows "\<exists>items. ra_ListBindingIps env = Inr items
    \<and> (if binding_found (binding_for client uid) items then s' = s
       else ra_CreateBindingIp env (binding_for client uid) = None \<and> s' = sent [WBinding (binding_for client uid)] s)"
  using assms by (auto simp: make_binding_def createBindingIpForredfishstatus_def Let_def split: if_splits sum.splits)

lemma make_binding_bs:
  assumes "make_binding env client uid s = (None, s')"
  obtains bs where "s' = sent (map WBinding bs) s" "set bs \<subseteq> {binding_for client uid}"
    "if dc_EnableBindIpForRedfishstatus client = Some True then \<exists>items. ra_ListBindingIps env = Inr items
       \<and> length bs = (if binding_found (binding_for client uid) items then 0 else 1) else bs = []"
proof (cases "dc_EnableBindIpForRedfishstatus client = Some True")
  case True
  then obtain items where i: "ra_ListBindingIps env = Inr items" and
    d: "if binding_found (binding_for client uid) items then s' = s else s' = sent [WBinding (binding_for client uid)] s"
    using make_binding_done [OF assms] by (auto split: if_splits)
  show ?thesis
    using that [of "if binding_found (binding_for client uid) items then [] else [binding_for client uid]"] True i d
    by (simp split: if_splits)
next
  case False
  then have "s' = s" using make_binding_writes [OF assms] by auto
  with False show ?thesis using that [of "[]"] by simp
qed

lemma refresh_lease_simps [simp]:
  "rf_Meta (refresh_lease fmt client existing) = rf_Meta existing"
  "b_Mac (r_Basic (rf_Status (refresh_lease fmt client existing))) = dc_MAC client"
  "b_DhcpExpireTime (r_Basic (rf_Status (refresh_lease fmt client existing))) = Some (fmt (dc_DhcpExpireTime client))"
  "b_ActiveDhcpClient (r_Basic (rf_Status (refresh_lease fmt client existing)))
     = b_ActiveDhcpClient (r_Basic (rf_Status existing))"
  "b_IpAddr (r_Basic (rf_Status (refresh_lease fmt client existing))) = b_IpAddr (r_Basic (rf_Status existing))"
  by (auto simp: refresh_lease_def Let_def)

lemma replace_char_inj:
  "y \<notin> set a \<Longrightarrow> y \<notin> set b \<Longrightarrow> replace_char x y a = replace_char x y b \<Longrightarrow> a = b"
  unfolding replace_char_def by (rule map_inj_on [where f = "\<lambda>c. if c = x then y else c"]) (auto simp: inj_on_def)

text \<open>Two addresses share a RedfishStatus only if they are the same address.\<close>

lemma formatRedfishStatusName_inj:
  "CHR ''-'' \<notin> set a \<Longrightarrow> CHR ''-'' \<notin> set b \<Longrightarrow> formatRedfishStatusName a = formatRedfishStatusName b \<Longrightarrow> a = b"
  unfolding formatRedfishStatusName_def by (rule replace_char_inj)

section \<open>Properties\<close>

text \<open>Property C35: no DHCP event is lost or served twice: every event that was sent is waiting in its
  channel, asleep before a retry, or done, and an event is done exactly if its last outcome was no
  error or an error that is not retried, however sends, retries and rounds of the loop interleave.\<close>

theorem dhcp_events_conserved:
  assumes "dhcp_loop s0 A D P Q s"
    and "rsc_addChan s0 = []" "rsc_deleteChan s0 = []" "rsc_retryAdd s0 = []" "rsc_retryDelete s0 = []"
  shows "A = image_mset fst P + mset (rsc_addChan s) + mset (rsc_retryAdd s)
    \<and> D = image_mset fst Q + mset (rsc_deleteChan s) + mset (rsc_retryDelete s)
    \<and> (\<forall>x \<in># P + Q. \<not> retried (snd x))"
  using assms
proof (induction rule: dhcp_loop.induct)
  case (take_add A D P Q s env e err s')
  then obtain es s1 where t: "rsc_addChan s = e # es" "handleDHCPAdd env e (s\<lparr>rsc_addChan := es\<rparr>) = (err, s1)"
    "s' = (if retried err then s1\<lparr>rsc_retryAdd := rsc_retryAdd s1 @ [e]\<rparr> else s1)"
    by (auto simp: add_turn_def split: list.splits prod.splits)
  from handleDHCPAdd_queues [OF t(2)] take_add t(1,3) show ?case
    by (auto simp: same_queues_def)
next
  case (take_delete A D P Q s env e err s')
  then obtain es s1 where t: "rsc_deleteChan s = e # es" "handleDHCPDelete env e (s\<lparr>rsc_deleteChan := es\<rparr>) = (err, s1)"
    "s' = (if retried err then s1\<lparr>rsc_retryDelete := rsc_retryDelete s1 @ [e]\<rparr> else s1)"
    by (auto simp: delete_turn_def split: list.splits prod.splits)
  from handleDHCPDelete_queues [OF t(2)] take_delete t(1,3) show ?case
    by (auto simp: same_queues_def)
qed auto

definition example_lease :: DhcpClientInfo where
  "example_lease = \<lparr>dc_MAC = ''00:11:22:33:44:55'', dc_IP = ''10.0.0.5'', dc_Hostname = ''h5'', dc_Active = True,
     dc_DhcpExpireTime = 7, dc_Subnet = ''10.0.0.0/24'', dc_SubnetName = ''net1'', dc_ClusterName = ''c1'',
     dc_EnableBindIpForRedfishstatus = Some True\<rparr>"

definition example_rs_env :: "(string \<Rightarrow> RedfishStatus result) \<Rightarrow> rs_env" where
  "example_rs_env get = \<lparr>ra_Get = get, ra_ListBindingIps = Inr [], ra_Create = Inr, ra_CreateBindingIp = (\<lambda>b. None),
     ra_StatusUpdate = Inr, ra_Update = (\<lambda>x. None), ra_Secret = (\<lambda>n s. Inr [(''username'', ''root''), (''password'', ''pw'')]),
     ra_now = ''now'', ra_format = dec_of_int, ra_red = example_machine\<rparr>"

definition example_ctl :: redfishStatusController where
  "example_ctl = NewRedfishStatusController example_config"

lemma example_rs_env_simps [simp]:
  "ra_Get (example_rs_env get) = get" "ra_ListBindingIps (example_rs_env get) = Inr []"
  "ra_Create (example_rs_env get) = Inr" "ra_CreateBindingIp (example_rs_env get) bi = None"
  "ra_StatusUpdate (example_rs_env get) = Inr" "ra_Update (example_rs_env get) x = None"
  "ra_Secret (example_rs_env get) a b = Inr [(''username'', ''root''), (''password'', ''pw'')]"
  "ra_now (example_rs_env get) = ''now''" "ra_format (example_rs_env get) = dec_of_int"
  "ra_red (example_rs_env get) = example_machine"
  by (simp_all add: example_rs_env_def)

lemma example_ctl_simps [simp]:
  "rsc_config example_ctl = example_config" "rsc_addChan example_ctl = []" "rsc_deleteChan example_ctl = []"
  "rsc_retryAdd example_ctl = []" "rsc_retryDelete example_ctl = []" "rsc_clients example_ctl = []"
  "rsc_hist example_ctl = []" "rsc_writes example_ctl = []" "rsc_cache example_ctl = []"
  by (simp_all add: example_ctl_def NewRedfishStatusController_def RedfishCache_init_def)

text \<open>An add event, refused with a conflict, beside a delete event that still waits.\<close>

lemma dhcp_events_conserved_witness:
  "\<exists>s. dhcp_loop example_ctl {#example_lease#} {#example_lease#} {#} {#} s
     \<and> mset (rsc_addChan s) + mset (rsc_retryAdd s) = {#example_lease#} \<and> mset (rsc_deleteChan s) = {#example_lease#}"
proof -
  let ?env = "example_rs_env (\<lambda>n. Inl (ApiErr Conflict))"
  let ?s = "example_ctl\<lparr>rsc_addChan := [example_lease], rsc_deleteChan := [example_lease]\<rparr>"
  let ?t = "example_ctl\<lparr>rsc_retryAdd := [example_lease], rsc_deleteChan := [example_lease]\<rparr>"
  have 1: "dhcp_loop example_ctl {#example_lease#} {#example_lease#} {#} {#} ?s"
    using arrive_delete [OF arrive_add [OF start [of example_ctl], of example_lease], of example_lease] by simp
  have "add_turn ?env ?s = (Some (example_lease, Some (ApiErr Conflict)), ?t)"
    by (simp add: add_turn_def handleDHCPAdd_def retried_def shouldRetry_def)
  from take_add [OF 1 this] have 2: "dhcp_loop example_ctl {#example_lease#} {#example_lease#} {#} {#} ?t"
    by (simp add: retried_def shouldRetry_def)
  from dhcp_events_conserved [OF 2] have
    "{#example_lease#} = image_mset fst {#} + mset (rsc_addChan ?t) + mset (rsc_retryAdd ?t)
      \<and> {#example_lease#} = image_mset fst {#} + mset (rsc_deleteChan ?t) + mset (rsc_retryDelete ?t)" by simp
  with 2 show ?thesis by (intro exI [of _ ?t]) simp
qed



text \<open>An address that is leased again stays inactive. The only object a lease of a
  known RedfishStatus writes has the metadata of the known one, its inactive label with it, and its
  \<open>ActiveDhcpClient\<close>; only the MAC, the expiry and the time of the update follow the lease.\<close>

theorem handleDHCPAdd_known:
  assumes "handleDHCPAdd env client s = (err, s')" "ra_Get env (formatRedfishStatusName (dc_IP client)) = Inr existing"
    and "WStatusUpdate obj \<in> set (rsc_writes s') - set (rsc_writes s)"
  shows "rf_Meta obj = rf_Meta existing \<and> b_Mac (r_Basic (rf_Status obj)) = dc_MAC client
    \<and> b_DhcpExpireTime (r_Basic (rf_Status obj)) = Some (ra_format env (dc_DhcpExpireTime client))
    \<and> b_ActiveDhcpClient (r_Basic (rf_Status obj)) = b_ActiveDhcpClient (r_Basic (rf_Status existing))
    \<and> r_Basic (rf_Status obj) \<noteq> r_Basic (rf_Status existing)"
proof -
  let ?u = "refresh_lease (ra_format env) client existing"
  have a: "add_existing env client existing s = (err, s')"
    using assms(1,2) by (simp add: handleDHCPAdd_def)
  have "obj = ?u\<lparr>rf_Status := (rf_Status ?u)\<lparr>r_LastUpdateTime := ra_now env\<rparr>\<rparr> \<and> rf_Status existing \<noteq> rf_Status ?u"
    using a assms(3)
    by (auto simp: add_existing_def Let_def split: if_splits sum.splits dest!: make_binding_writes)
  moreover have "rf_Status ?u = (rf_Status existing)\<lparr>r_Basic := r_Basic (rf_Status ?u)\<rparr>"
    by (simp add: refresh_lease_def Let_def)
  ultimately show ?thesis by auto
qed

definition example_known :: RedfishStatus where
  "example_known = deactivated \<lparr>rf_Meta = new_meta ''10-0-0-5'',
     rf_Status = zero_redfish_status\<lparr>r_Basic := zero_basic\<lparr>b_Mac := ''00:11:22:33:44:66'', b_IpAddr := ''10.0.0.5''\<rparr>\<rparr>\<rparr>"

lemma example_known_simps [simp]:
  "get_label LabelClientActive (rf_Meta example_known) = ''false''"
  "b_ActiveDhcpClient (r_Basic (rf_Status example_known)) = False"
  "b_Mac (r_Basic (rf_Status example_known)) = ''00:11:22:33:44:66''"
  by (simp_all add: example_known_def deactivated_def get_set_label zero_redfish_status_def zero_basic_def)

lemma handleDHCPAdd_known_witness:
  "\<exists>s' obj. handleDHCPAdd (example_rs_env (\<lambda>n. Inr example_known)) example_lease example_ctl = (None, s')
     \<and> WStatusUpdate obj \<in> set (rsc_writes s') \<and> get_label LabelClientActive (rf_Meta obj) = ''false''
     \<and> \<not> b_ActiveDhcpClient (r_Basic (rf_Status obj)) \<and> b_Mac (r_Basic (rf_Status obj)) = ''00:11:22:33:44:55''"
proof -
  let ?u = "refresh_lease dec_of_int example_lease example_known"
  have "b_Mac (r_Basic (rf_Status ?u)) \<noteq> b_Mac (r_Basic (rf_Status example_known))"
    by (simp add: example_lease_def)
  then have ne: "rf_Status example_known \<noteq> rf_Status ?u" by metis
  obtain s' where h: "handleDHCPAdd (example_rs_env (\<lambda>n. Inr example_known)) example_lease example_ctl = (None, s')"
    "WStatusUpdate (?u\<lparr>rf_Status := (rf_Status ?u)\<lparr>r_LastUpdateTime := ''now''\<rparr>\<rparr>) \<in> set (rsc_writes s') - set (rsc_writes example_ctl)"
    using ne by (simp add: handleDHCPAdd_def add_existing_def make_binding_def createBindingIpForredfishstatus_def
        example_lease_def Let_def)
  from handleDHCPAdd_known [OF h(1) _ h(2)] h show ?thesis
    by (auto simp: example_lease_def intro!: exI [of _ s'])
qed

text \<open>A lease that goes away is not recorded in the status of its RedfishStatus. The one
  write sends the object with the label \<open>false\<close> and \<open>ActiveDhcpClient\<close> cleared through \<open>Update\<close>, and
  an API server that, as for every resource with a status subresource, takes the metadata but not
  the status of an \<open>Update\<close> stores an object that its label calls inactive and its status as active
  as before.\<close>

theorem handleDHCPDelete_status_lost:
  assumes "handleDHCPDelete env client s = (None, s')"
    and "ra_Get env (formatRedfishStatusName (dc_IP client)) = Inr stored"
    and "\<forall>old new. rf_Status (apply_update old new) = rf_Status old"
    and "\<forall>old new. om_Labels (rf_Meta (apply_update old new)) = om_Labels (rf_Meta new)"
  shows "\<exists>obj. rsc_writes s' = rsc_writes s @ [WUpdate obj] \<and> \<not> b_ActiveDhcpClient (r_Basic (rf_Status obj))
    \<and> get_label LabelClientActive (rf_Meta (apply_update stored obj)) = ''false''
    \<and> b_ActiveDhcpClient (r_Basic (rf_Status (apply_update stored obj))) = b_ActiveDhcpClient (r_Basic (rf_Status stored))"
proof -
  have w: "rsc_writes s' = rsc_writes s @ [WUpdate (deactivated stored)]"
    using assms(1,2) by (auto simp: handleDHCPDelete_def Let_def)
  have "get_label LabelClientActive (rf_Meta (apply_update stored (deactivated stored)))
      = get_label LabelClientActive (rf_Meta (deactivated stored))"
    using assms(4) by (simp add: get_label_def)
  also have "\<dots> = ''false''" by (simp add: deactivated_def get_set_label)
  finally show ?thesis using w assms(3) by (intro exI [of _ "deactivated stored"]) (simp add: deactivated_def)
qed

definition example_active :: RedfishStatus where
  "example_active = \<lparr>rf_Meta = new_meta ''10-0-0-5'',
     rf_Status = zero_redfish_status\<lparr>r_Basic := zero_basic\<lparr>b_ActiveDhcpClient := True\<rparr>\<rparr>\<rparr>"

lemma handleDHCPDelete_status_lost_witness:
  "\<exists>s' obj. handleDHCPDelete (example_rs_env (\<lambda>n. Inr example_active)) example_lease example_ctl = (None, s')
     \<and> rsc_writes s' = [WUpdate obj] \<and> get_label LabelClientActive (rf_Meta obj) = ''false''
     \<and> b_ActiveDhcpClient (r_Basic (rf_Status (obj\<lparr>rf_Status := rf_Status example_active\<rparr>)))"
proof -
  have h: "handleDHCPDelete (example_rs_env (\<lambda>n. Inr example_active)) example_lease example_ctl =
      (None, sent [WUpdate (deactivated example_active)] example_ctl)"
    by (simp add: handleDHCPDelete_def Let_def)
  from handleDHCPDelete_status_lost [OF h, of example_active "\<lambda>old new. new\<lparr>rf_Status := rf_Status old\<rparr>"]
  have "get_label LabelClientActive (rf_Meta (deactivated example_active)) = ''false''" by auto
  with h show ?thesis by (simp add: example_active_def)
qed

end
