(* ===== verification/RedfishInfo.thy ===== *)
theory RedfishInfo
  imports RedfishPower
begin

text \<open>
  What the Redfish client reads of a machine: \<open>GetInfo\<close> (\<open>pkg/redfish/getinfo.go\<close>), a map from keys to
  texts, and the log entries (\<open>pkg/redfish/log.go\<close>).
\<close>

section \<open>Information\<close>

type_synonym info = "(string, string) gomap"

text \<open>Both branches of \<open>setData\<close> store the value.\<close>

definition setData :: "string \<Rightarrow> string \<Rightarrow> info \<Rightarrow> info" where
  "setData key v result = (if length v = 0 then gm_put key [] result else gm_put key v result)"

text \<open>A run of \<open>setData\<close> whose keys have a common front.\<close>

fun set_fields :: "string \<Rightarrow> (string \<times> string) list \<Rightarrow> info \<Rightarrow> info" where
  "set_fields front [] result = result"
| "set_fields front ((k, v) # kvs) result = set_fields front kvs (setData (front @ k) v result)"

text \<open>\<open>for n, x := range xs\<close>.\<close>

fun indexed :: "(nat \<Rightarrow> 'a \<Rightarrow> info \<Rightarrow> info) \<Rightarrow> nat \<Rightarrow> 'a list \<Rightarrow> info \<Rightarrow> info" where
  "indexed f n [] result = result"
| "indexed f n (x # xs) result = indexed f (n + 1) xs (f n x result)"

definition idx :: "string \<Rightarrow> nat \<Rightarrow> string" where
  "idx name n = name @ ''['' @ dec_of_nat n @ '']''"

definition cpu_info :: "nat \<Rightarrow> GoProcessor \<Rightarrow> info \<Rightarrow> info" where
  "cpu_info n cpu = set_fields (idx ''Cpu'' n)
     [(''.Manufacturer'', pr_Manufacturer cpu), (''.ProcessorType'', pr_ProcessorType cpu),
      (''.Health'', pr_Health cpu), (''.State'', pr_State cpu)]"

definition memory_info :: "nat \<Rightarrow> GoMemory \<Rightarrow> info \<Rightarrow> info" where
  "memory_info n mm = set_fields (idx ''Memory'' n)
     [(''.Manufacturer'', mm_Manufacturer mm), (''.MemoryType'', mm_MemoryType mm),
      (''.MemoryDeviceType'', mm_MemoryDeviceType mm), (''.Manufacturer'', mm_Manufacturer mm),
      (''.Model'', mm_Model mm), (''.CapacityGiB'', sprintf_f2 (mm_CapacityMiB mm) 1024),
      (''.Health'', mm_Health mm), (''.State'', mm_State mm)]"

definition drive_info :: "nat \<Rightarrow> nat \<Rightarrow> GoDrive \<Rightarrow> info \<Rightarrow> info" where
  "drive_info n m drive = set_fields (idx ''Storage'' n @ idx ''.Drive'' m)
     [(''.Name'', dr_Name drive), (''.Model'', dr_Model drive), (''.Manufacturer'', dr_Manufacturer drive),
      (''.SerialNumber'', dr_SerialNumber drive), (''.MediaType'', dr_MediaType drive),
      (''.Protocol'', dr_Protocol drive), (''.CapacityGiB'', sprintf_f2 (dr_CapacityBytes drive) 1073741824),
      (''.Health'', dr_Health drive), (''.State'', dr_State drive)]"

definition storage_info :: "nat \<Rightarrow> GoStorage \<Rightarrow> info \<Rightarrow> info" where
  "storage_info n st result =
     (let r1 = set_fields (idx ''Storage'' n)
            [(''.Name'', sg_Name st), (''.Id'', sg_ID st), (''.Health'', sg_Health st), (''.State'', sg_State st)] result
      in case sg_Drives st of
           Inl _ \<Rightarrow> r1
         | Inr drives \<Rightarrow> indexed (drive_info n) 0 drives r1)"

definition DeviceType_Unknown :: string where "DeviceType_Unknown = ''Unknown''"
definition DeviceType_GPU :: string where "DeviceType_GPU = ''GPU''"
definition DeviceType_Storage :: string where "DeviceType_Storage = ''STORAGE''"
definition DeviceType_NIC :: string where "DeviceType_NIC = ''NIC''"

text \<open>The \<open>switch\<close> on the lower-cased description.\<close>

definition device_type :: "string \<Rightarrow> string" where
  "device_type description =
     (let d = to_lower description in
      if d = ''GPU Device'' then DeviceType_GPU
      else if d = ''NVMeSSD Device'' then DeviceType_Storage
      else if d = ''NIC device'' then DeviceType_NIC
      else DeviceType_Unknown)"

definition ethernet_info :: "nat \<Rightarrow> nat \<Rightarrow> nat \<Rightarrow> GoEthernet \<Rightarrow> info \<Rightarrow> info" where
  "ethernet_info m n t netint = set_fields (idx ''PCIeDevices'' m @ idx ''.Functions'' n @ idx ''.EthernetInterfaces'' t)
     [(''.MACAddress'', et_MACAddress netint), (''.SpeedGbps'', sprintf_f2 (et_SpeedMbps netint) 1000),
      (''.State'', et_State netint), (''.Health'', et_Health netint)]"

definition controller_info :: "nat \<Rightarrow> nat \<Rightarrow> nat \<Rightarrow> GoController \<Rightarrow> info \<Rightarrow> info" where
  "controller_info m n t stor = set_fields (idx ''PCIeDevices'' m @ idx ''.Functions'' n @ idx ''.StorageControllers'' t)
     [(''.Health'', GoController.sc_Health stor), (''.State'', GoController.sc_State stor)]"

text \<open>The loop over the functions of a device, which ends at the first one with interfaces or controllers.\<close>

fun functions_info :: "nat \<Rightarrow> nat \<Rightarrow> PCIeFunction list \<Rightarrow> info \<Rightarrow> info" where
  "functions_info m n [] result = result"
| "functions_info m n (pfc # pfcs) result =
     (case pf_EthernetInterfaces pfc of
        Inr (i # is) \<Rightarrow>
          indexed (ethernet_info m n) 0 (i # is)
            (setData (idx ''PCIeDevices'' m @ ''.NetworkInterfacePortCount'') (dec_of_nat (length (i # is))) result)
      | _ \<Rightarrow>
          (case pf_StorageControllers pfc of
             Inr (s # ss) \<Rightarrow>
               indexed (controller_info m n) 0 (s # ss)
                 (setData (idx ''PCIeDevices'' m @ ''.StorageControllerPortCount'') (dec_of_nat (length (s # ss))) result)
           | _ \<Rightarrow> functions_info m (n + 1) pfcs result))"

definition device_info :: "nat \<Rightarrow> PCIeDevice \<Rightarrow> info \<Rightarrow> info" where
  "device_info m item result =
     (let r1 = set_fields (idx ''PCIeDevices'' m)
            [(''.DeviceType'', device_type (pd_Description item)),
             (''.Name'', pd_Name item), (''.Manufacturer'', pd_Manufacturer item), (''.Model'', pd_Model item),
             (''.Description'', pd_Description item), (''.FirmwareVersion'', pd_FirmwareVersion item),
             (''.PCIeType'', pd_PCIeType item), (''.MaxPCIeType'', pd_MaxPCIeType item),
             (''.LanesInUse'', dec_of_int (pd_LanesInUse item)), (''.MaxLanes'', dec_of_int (pd_MaxLanes item)),
             (''.Health'', pd_Health item), (''.State'', pd_State item)] result
      in case pd_PCIeFunctions item of
           Inl _ \<Rightarrow> r1
         | Inr pfcs \<Rightarrow> functions_info m 0 pfcs r1)"

text \<open>The first chassis with devices, or the first error.\<close>

fun chassis_info :: "GoChassis list \<Rightarrow> info \<Rightarrow> info result" where
  "chassis_info [] result = Inr result"
| "chassis_info (chassis # cs) result =
     (case ch_PCIeDevices chassis of
        Inl e \<Rightarrow> Inl e
      | Inr pcieList \<Rightarrow>
          if pcieList = [] then chassis_info cs result else Inr (indexed device_info 0 pcieList result))"

text \<open>What is read of the first system, the supported reset types given.\<close>

definition system_info :: "string \<Rightarrow> string \<Rightarrow> string \<Rightarrow> ComputerSystem \<Rightarrow> info \<Rightarrow> info result" where
  "system_info version vendor resetTypes system r0 =
     (let r1 = set_fields []
            [(''BiosVerison'', cs_BIOSVersion system), (''HostName'', cs_HostName system),
             (''Manufacturer'', cs_Manufacturer system), (''PowerState'', cs_PowerState system),
             (''SystemStatus'', cs_Health system), (''RedfishVersion'', version), (''Vendor'', vendor),
             (''SupportedReset'', resetTypes),
             (''CpuPhysicalCore'', dec_of_int (cs_CpuCount system)),
             (''CpuLogicalCore'', dec_of_int (cs_CpuLogicalCount system)),
             (''CpuModel'', cs_CpuModel system), (''CpuStatus'', cs_CpuHealth system)] r0
      in and_then (cs_Processors system) (\<lambda>cpus.
      let r2 = indexed cpu_info 0 cpus r1;
          r3 = set_fields [] [(''MemoryTotalGiB'', sprintf_f0 (cs_MemoryGiB system)), (''MemoryStatus'', cs_MemoryHealth system)] r2
      in and_then (cs_Memory system) (\<lambda>mms.
      let r4 = indexed memory_info 0 mms (set_fields [] [(''MemoryChipsAccount'', dec_of_nat (length mms))] r3)
      in and_then (cs_Storage system) (\<lambda>storages. Inr (indexed storage_info 0 storages r4)))))"

definition GetInfo :: "red_env \<Rightarrow> redfishClient \<Rightarrow> red_hist \<Rightarrow> info result \<times> red_hist" where
  "GetInfo env c h =
     (let s = rd_client c in
      case get_managers env s h of
        (Inl e, h1) \<Rightarrow> (Inl e, h1)
      | (Inr [], h1) \<Rightarrow> (Inl (Errorf ''failed to get bmc'' []), h1)
      | (Inr (bmc # _), h1) \<Rightarrow>
          (let r1 = set_fields [] [(''BmcFirmwareVersion'', mg_FirmwareVersion bmc), (''BmcStatus'', mg_Health bmc)] [] in
           case get_systems env s h1 of
             (Inl e, h2) \<Rightarrow> (Inl e, h2)
           | (Inr [], h2) \<Rightarrow> (Inl (Errorf ''failed to get system'' []), h2)
           | (Inr (system # _), h2) \<Rightarrow>
               (let (resetTypes, h3) = GetSupportedResetTypes env c system h2 in
                case system_info (g_RedfishVersion env s) (g_Vendor env s) resetTypes system r1 of
                  Inl e \<Rightarrow> (Inl e, h3)
                | Inr r2 \<Rightarrow>
                    (case get_chassis env s h3 of
                       ((cs, err), h4) \<Rightarrow>
                         if err \<noteq> None \<and> cs = [] then (Inl (Errorf ''failed to get chassis'' []), h4)
                         else (chassis_info cs r2, h4)))))"

section \<open>Log entries\<close>

text \<open>The loop over the log services: disabled ones are skipped, an error ends it.\<close>

fun entries_loop :: "LogService list \<Rightarrow> GoLogEntry list \<Rightarrow> GoLogEntry list result" where
  "entries_loop [] result = Inr result"
| "entries_loop (t # ls) result =
     (if lg_State t \<noteq> ''Enabled'' then entries_loop ls result
      else and_then (lg_Entries t) (\<lambda>entries.
        if length entries > 0 then entries_loop ls (result @ entries) else entries_loop ls result))"

definition GetManagerLog :: "red_env \<Rightarrow> redfishClient \<Rightarrow> red_hist \<Rightarrow> GoLogEntry list result \<times> red_hist" where
  "GetManagerLog env c h =
     (case get_managers env (rd_client c) h of
        (Inl e, h1) \<Rightarrow> (Inl e, h1)
      | (Inr [], h1) \<Rightarrow> (Inl (Errorf ''failed to get manager'' []), h1)
      | (Inr (manager # _), h1) \<Rightarrow>
          (case mg_LogServices manager of
             Inl e \<Rightarrow> (Inl e, h1)
           | Inr ls \<Rightarrow> if ls = [] then (Inr [], h1) else (entries_loop ls [], h1)))"

definition GetManagersLogEntries :: "red_env \<Rightarrow> redfishClient \<Rightarrow> red_hist \<Rightarrow> GoLogEntry list result \<times> red_hist" where
  "GetManagersLogEntries env c h = GetManagerLog env c h"

definition GetSystemsLogEntries :: "red_env \<Rightarrow> redfishClient \<Rightarrow> red_hist \<Rightarrow> GoLogEntry list result \<times> red_hist" where
  "GetSystemsLogEntries env c h =
     (case get_systems env (rd_client c) h of
        (Inl e, h1) \<Rightarrow> (Inl e, h1)
      | (Inr [], h1) \<Rightarrow> (Inl (Errorf ''failed to get system'' []), h1)
      | (Inr (system # _), h1) \<Rightarrow>
          (case cs_LogServices system of
             Inl e \<Rightarrow> (Inl e, h1)
           | Inr ls \<Rightarrow> if ls = [] then (Inr [], h1) else (entries_loop ls [], h1)))"

text \<open>\<open>GetLog\<close> leaves the manager's log out where it cannot be read.\<close>

definition GetLog :: "red_env \<Rightarrow> redfishClient \<Rightarrow> red_hist \<Rightarrow> GoLogEntry list result \<times> red_hist" where
  "GetLog env c h =
     (case get_systems env (rd_client c) h of
        (Inl e, h1) \<Rightarrow> (Inl e, h1)
      | (Inr [], h1) \<Rightarrow> (Inl (Errorf ''failed to get system'' []), h1)
      | (Inr (system # _), h1) \<Rightarrow>
          (case cs_LogServices system of
             Inl e \<Rightarrow> (Inl e, h1)
           | Inr ls \<Rightarrow>
               if ls = [] then (Inr [], h1)
               else
                 (case entries_loop ls [] of
                    Inl e \<Rightarrow> (Inl e, h1)
                  | Inr result \<Rightarrow>
                      (case GetManagerLog env c h1 of
                         (Inl _, h2) \<Rightarrow> (Inr result, h2)
                       | (Inr managerLogs, h2) \<Rightarrow>
                           (Inr (if length managerLogs > 0 then result @ managerLogs else result), h2)))))"

section \<open>Keys\<close>

lemma setData_put: "setData k v r = gm_put k v r"
  by (simp add: setData_def)

lemma setData_get [simp]: "gm_get (setData k v r) = (gm_get r)(k \<mapsto> v)"
  by (simp add: setData_put del: fun_upd_apply)

text \<open>\<open>f\<close> changes the map only at keys in \<open>P\<close>, and there only to values in \<open>Q\<close>.\<close>

definition writes :: "(string \<Rightarrow> string \<Rightarrow> bool) \<Rightarrow> (info \<Rightarrow> info) \<Rightarrow> bool" where
  "writes P f \<longleftrightarrow> (\<forall>r k. gm_get (f r) k = gm_get r k \<or> (\<exists>v. gm_get (f r) k = Some v \<and> P k v))"

lemma writes_get: "writes P f \<Longrightarrow> gm_get (f r) k = gm_get r k \<or> (\<exists>v. gm_get (f r) k = Some v \<and> P k v)"
  by (simp add: writes_def)

lemma writes_id [intro]: "writes P (\<lambda>r. r)"
  by (simp add: writes_def)

lemma writes_comp: "writes P f \<Longrightarrow> writes P g \<Longrightarrow> writes P (\<lambda>r. f (g r))"
  unfolding writes_def by metis

lemma writes_setData: "P k v \<Longrightarrow> writes P (setData k v)"
  by (simp add: writes_def)

lemma writes_fields: "(\<And>k v. (k, v) \<in> set kvs \<Longrightarrow> P (front @ k) v) \<Longrightarrow> writes P (set_fields front kvs)"
proof (induction kvs)
  case Nil
  have "set_fields front [] = (\<lambda>r. r)" by (simp add: fun_eq_iff)
  then show ?case by (simp only: writes_id)
next
  case (Cons kv kvs)
  obtain k v where kv: "kv = (k, v)" by (cases kv)
  have "P (front @ k) v" using Cons.prems kv by simp
  moreover have "writes P (set_fields front kvs)" using Cons by simp
  ultimately have "writes P (\<lambda>r. set_fields front kvs (setData (front @ k) v r))"
    by (rule writes_comp [OF _ writes_setData, rotated])
  then show ?case by (simp only: kv set_fields.simps(2) [abs_def])
qed

lemma writes_indexed:
  assumes "\<And>n x. writes P (f n x)"
  shows "writes P (indexed f n xs)"
proof (induction xs arbitrary: n)
  case Nil
  have "indexed f n [] = (\<lambda>r. r)" by (simp add: fun_eq_iff)
  then show ?case by (simp only: writes_id)
next
  case (Cons x xs)
  have "writes P (\<lambda>r. indexed f (n + 1) xs (f n x r))"
    by (rule writes_comp [OF Cons.IH assms])
  then show ?case by (simp only: indexed.simps(2) [abs_def])
qed

lemma writes_functions:
  assumes "\<And>n t e. writes P (ethernet_info m n t e)" "\<And>n t s. writes P (controller_info m n t s)"
    and "\<And>v. P (idx ''PCIeDevices'' m @ ''.NetworkInterfacePortCount'') v"
    and "\<And>v. P (idx ''PCIeDevices'' m @ ''.StorageControllerPortCount'') v"
  shows "writes P (functions_info m n pfcs)"
proof (induction pfcs arbitrary: n)
  case Nil
  have "functions_info m n [] = (\<lambda>r. r)" by (simp add: fun_eq_iff)
  then show ?case by (simp only: writes_id)
next
  case (Cons pfc pfcs)
  have e: "writes P (\<lambda>r. indexed (ethernet_info m n) 0 is (setData (idx ''PCIeDevices'' m @ ''.NetworkInterfacePortCount'') c r))" for "is" c
    by (rule writes_comp [OF writes_indexed [OF assms(1)] writes_setData, OF assms(3)])
  have s: "writes P (\<lambda>r. indexed (controller_info m n) 0 ss (setData (idx ''PCIeDevices'' m @ ''.StorageControllerPortCount'') c r))" for ss c
    by (rule writes_comp [OF writes_indexed [OF assms(2)] writes_setData, OF assms(4)])
  let ?is = "case pf_EthernetInterfaces pfc of Inr is \<Rightarrow> is | Inl _ \<Rightarrow> []"
  let ?ss = "case pf_StorageControllers pfc of Inr ss \<Rightarrow> ss | Inl _ \<Rightarrow> []"
  have eq: "functions_info m n (pfc # pfcs) =
     (if ?is \<noteq> [] then (\<lambda>r. indexed (ethernet_info m n) 0 ?is
         (setData (idx ''PCIeDevices'' m @ ''.NetworkInterfacePortCount'') (dec_of_nat (length ?is)) r))
      else if ?ss \<noteq> [] then (\<lambda>r. indexed (controller_info m n) 0 ?ss
         (setData (idx ''PCIeDevices'' m @ ''.StorageControllerPortCount'') (dec_of_nat (length ?ss)) r))
      else functions_info m (n + 1) pfcs)"
    by (rule ext) (simp split: sum.splits list.splits)
  show ?case unfolding eq
  proof (split if_split, intro conjI impI)
    show "writes P (if ?ss \<noteq> [] then (\<lambda>r. indexed (controller_info m n) 0 ?ss
         (setData (idx ''PCIeDevices'' m @ ''.StorageControllerPortCount'') (dec_of_nat (length ?ss)) r))
      else functions_info m (n + 1) pfcs)"
      by (split if_split, intro conjI impI) (rule s, rule Cons.IH)
  qed (rule e)
qed

text \<open>Every key a list contributes has a bracket.\<close>

abbreviation bracketed :: "string \<Rightarrow> string \<Rightarrow> bool" where
  "bracketed \<equiv> (\<lambda>k v. CHR ''['' \<in> set k)"

lemma bracketed_writes:
  "writes bracketed (cpu_info n p)" "writes bracketed (memory_info n m)" "writes bracketed (storage_info n st)"
  "writes bracketed (device_info n d)"
proof -
  show "writes bracketed (cpu_info n p)" "writes bracketed (memory_info n m)"
    unfolding cpu_info_def memory_info_def by (rule writes_fields, simp add: idx_def)+
  have "writes bracketed (drive_info n i x)" for i x
    unfolding drive_info_def by (rule writes_fields) (simp add: idx_def)
  then have d: "writes bracketed (indexed (drive_info n) 0 ds)" for ds by (rule writes_indexed)
  have f: "writes bracketed (set_fields (idx x n @ y) kvs)" for x y kvs
    by (rule writes_fields) (simp add: idx_def)
  show "writes bracketed (storage_info n st)"
    unfolding storage_info_def [abs_def] Let_def using f [of "''Storage''" "[]"] writes_comp [OF d f [of "''Storage''" "[]"]]
    by (cases "sg_Drives st") (simp_all del: set_fields.simps)
  have e: "writes bracketed (ethernet_info n j t x)" and c: "writes bracketed (controller_info n j t y)" for j t x y
    unfolding ethernet_info_def controller_info_def by (rule writes_fields, auto simp: idx_def)+
  have g: "writes bracketed (functions_info n j pfcs)" for j pfcs
    by (rule writes_functions [OF e c]) (simp_all add: idx_def)
  show "writes bracketed (device_info n d)"
    unfolding device_info_def [abs_def] Let_def using f [of "''PCIeDevices''" "[]"] writes_comp [OF g f [of "''PCIeDevices''" "[]"]]
    by (cases "pd_PCIeFunctions d") (simp_all del: set_fields.simps)
qed

lemma chassis_writes:
  assumes "\<And>n d. writes P (device_info n d)" "chassis_info cs r = Inr r'"
  shows "gm_get r' k = gm_get r k \<or> (\<exists>v. gm_get r' k = Some v \<and> P k v)"
  using assms(2)
proof (induction cs)
  case (Cons c cs)
  then show ?case using writes_get [OF writes_indexed [of P device_info, OF assms(1)]]
    by (auto split: sum.splits if_splits)
qed simp

section \<open>Device types\<close>

lemma lower_char_not_G: "lower_char c \<noteq> CHR ''G''" "lower_char c \<noteq> CHR ''N''"
proof -
  let ?n = "of_char c :: nat"
  have "of_char (lower_char c) = (if 65 \<le> ?n \<and> ?n \<le> 90 then ?n + 32 else ?n)"
    by (simp add: lower_char_def Let_def)
  then have "of_char (lower_char c) < (65 :: nat) \<or> 90 < (of_char (lower_char c) :: nat)" by auto
  then show "lower_char c \<noteq> CHR ''G''" "lower_char c \<noteq> CHR ''N''" by auto
qed

lemma device_type_Unknown: "device_type d = DeviceType_Unknown"
  using lower_char_not_G by (auto simp: device_type_def Let_def to_lower_def map_eq_Cons_conv)

definition type_key :: "string \<Rightarrow> bool" where
  "type_key k \<longleftrightarrow> take 12 (rev k) = rev ''].DeviceType''"

abbreviation typed :: "string \<Rightarrow> string \<Rightarrow> bool" where
  "typed \<equiv> (\<lambda>k v. type_key k \<longrightarrow> v = DeviceType_Unknown)"

lemma typed_writes:
  "writes typed (cpu_info n p)" "writes typed (memory_info n m)" "writes typed (storage_info n st)"
  "writes typed (device_info n d)"
proof -
  show "writes typed (cpu_info n p)" "writes typed (memory_info n m)"
    unfolding cpu_info_def memory_info_def by (rule writes_fields, auto simp: idx_def type_key_def)+
  have "writes typed (drive_info n i x)" for i x
    unfolding drive_info_def by (rule writes_fields) (auto simp: idx_def type_key_def)
  then have d: "writes typed (indexed (drive_info n) 0 ds)" for ds by (rule writes_indexed)
  have s: "writes typed (set_fields (idx ''Storage'' n)
      [(''.Name'', a1), (''.Id'', a2), (''.Health'', a3), (''.State'', a4)])" for a1 a2 a3 a4
    by (rule writes_fields) (auto simp: idx_def type_key_def)
  show "writes typed (storage_info n st)"
    unfolding storage_info_def [abs_def] Let_def using s writes_comp [OF d s]
    by (cases "sg_Drives st") (simp_all del: set_fields.simps)
  have f: "writes typed (set_fields (idx ''PCIeDevices'' n)
      [(''.DeviceType'', device_type b), (''.Name'', a1), (''.Manufacturer'', a2), (''.Model'', a3),
       (''.Description'', a4), (''.FirmwareVersion'', a5), (''.PCIeType'', a6), (''.MaxPCIeType'', a7),
       (''.LanesInUse'', a8), (''.MaxLanes'', a9), (''.Health'', a10), (''.State'', a11)])"
    for b a1 a2 a3 a4 a5 a6 a7 a8 a9 a10 a11
    by (rule writes_fields) (auto simp: idx_def type_key_def device_type_Unknown)
  have e: "writes typed (ethernet_info n j t x)" and c: "writes typed (controller_info n j t y)" for j t x y
    unfolding ethernet_info_def controller_info_def by (rule writes_fields, auto simp: idx_def type_key_def)+
  have g: "writes typed (functions_info n j pfcs)" for j pfcs
    by (rule writes_functions [OF e c]) (simp_all add: idx_def type_key_def)
  show "writes typed (device_info n d)"
    unfolding device_info_def [abs_def] Let_def using f writes_comp [OF g f]
    by (cases "pd_PCIeFunctions d") (simp_all del: set_fields.simps)
qed

section \<open>What \<open>GetInfo\<close> returns\<close>

lemma fields_unchanged:
  "k \<notin> fst ` set kvs \<Longrightarrow> gm_get (set_fields [] kvs r) k = gm_get r k"
  by (induction kvs arbitrary: r) auto

lemma plain_unchanged:
  "writes bracketed f \<Longrightarrow> CHR ''['' \<notin> set k \<Longrightarrow> gm_get (f r) k = gm_get r k"
  using writes_get by metis

lemma indexed_unchanged:
  assumes "CHR ''['' \<notin> set k"
  shows "gm_get (indexed cpu_info 0 cpus r) k = gm_get r k" "gm_get (indexed memory_info 0 mms r) k = gm_get r k"
    "gm_get (indexed storage_info 0 sts r) k = gm_get r k"
  using assms bracketed_writes by (blast intro: plain_unchanged writes_indexed)+

lemma chassis_unchanged:
  "chassis_info cs r = Inr r' \<Longrightarrow> CHR ''['' \<notin> set k \<Longrightarrow> gm_get r' k = gm_get r k"
  using chassis_writes [OF bracketed_writes(4)] by metis

lemma system_info_get:
  assumes "system_info ver ven rt sys r0 = Inr r"
  shows "gm_get r ''SystemStatus'' = Some (cs_Health sys)" "gm_get r ''PowerState'' = Some (cs_PowerState sys)"
    "gm_get r ''SupportedReset'' = Some rt" "gm_get r ''CpuPhysicalCore'' = Some (dec_of_int (cs_CpuCount sys))"
    "gm_get r ''MemoryTotalGiB'' = Some (sprintf_f0 (cs_MemoryGiB sys))"
    "gm_get r ''BmcStatus'' = gm_get r0 ''BmcStatus''" "gm_get r ''BmcFirmwareVersion'' = gm_get r0 ''BmcFirmwareVersion''"
proof -
  obtain cpus mms sts where "r = indexed storage_info 0 sts (indexed memory_info 0 mms
      (set_fields [] [(''MemoryChipsAccount'', dec_of_nat (length mms))]
       (set_fields [] [(''MemoryTotalGiB'', sprintf_f0 (cs_MemoryGiB sys)), (''MemoryStatus'', cs_MemoryHealth sys)]
        (indexed cpu_info 0 cpus (set_fields []
            [(''BiosVerison'', cs_BIOSVersion sys), (''HostName'', cs_HostName sys),
             (''Manufacturer'', cs_Manufacturer sys), (''PowerState'', cs_PowerState sys),
             (''SystemStatus'', cs_Health sys), (''RedfishVersion'', ver), (''Vendor'', ven),
             (''SupportedReset'', rt), (''CpuPhysicalCore'', dec_of_int (cs_CpuCount sys)),
             (''CpuLogicalCore'', dec_of_int (cs_CpuLogicalCount sys)),
             (''CpuModel'', cs_CpuModel sys), (''CpuStatus'', cs_CpuHealth sys)] r0)))))"
    using assms unfolding system_info_def Let_def and_then_Inr sum.inject by metis
  then show "gm_get r ''SystemStatus'' = Some (cs_Health sys)" "gm_get r ''PowerState'' = Some (cs_PowerState sys)"
    "gm_get r ''SupportedReset'' = Some rt" "gm_get r ''CpuPhysicalCore'' = Some (dec_of_int (cs_CpuCount sys))"
    "gm_get r ''MemoryTotalGiB'' = Some (sprintf_f0 (cs_MemoryGiB sys))"
    "gm_get r ''BmcStatus'' = gm_get r0 ''BmcStatus''" "gm_get r ''BmcFirmwareVersion'' = gm_get r0 ''BmcFirmwareVersion''"
    by (simp_all add: indexed_unchanged)
qed

lemma system_info_typed:
  assumes "system_info ver ven rt sys r0 = Inr r" "gm_get r k = Some v" "type_key k" "gm_get r0 k = None"
  shows "v = DeviceType_Unknown"
proof -
  have p: "writes typed (set_fields [] kvs)" if "\<forall>kv \<in> set kvs. \<not> type_key (fst kv)" for kvs
    using that by (intro writes_fields) force
  have c: "writes typed (\<lambda>r0. indexed storage_info 0 sts (indexed memory_info 0 mms
      (set_fields [] kvs3 (set_fields [] kvs2 (indexed cpu_info 0 cpus (set_fields [] kvs1 r0))))))"
    if "\<forall>kv \<in> set kvs1. \<not> type_key (fst kv)" "\<forall>kv \<in> set kvs2. \<not> type_key (fst kv)" "\<forall>kv \<in> set kvs3. \<not> type_key (fst kv)"
    for sts mms kvs3 kvs2 cpus kvs1
    by (rule writes_comp [OF writes_indexed [OF typed_writes(3)] writes_comp [OF writes_indexed [OF typed_writes(2)]
          writes_comp [OF p [OF that(3)] writes_comp [OF p [OF that(2)] writes_comp [OF writes_indexed [OF typed_writes(1)]
            p [OF that(1)]]]]]])
  from assms(1) obtain cpus mms sts kvs1 kvs2 kvs3 where
    "\<forall>kv \<in> set kvs1. \<not> type_key (fst kv)" "\<forall>kv \<in> set kvs2. \<not> type_key (fst kv)" "\<forall>kv \<in> set kvs3. \<not> type_key (fst kv)"
    "r = indexed storage_info 0 sts (indexed memory_info 0 mms
      (set_fields [] kvs3 (set_fields [] kvs2 (indexed cpu_info 0 cpus (set_fields [] kvs1 r0)))))"
    unfolding system_info_def Let_def and_then_Inr sum.inject
    by (elim exE conjE, intro that) (auto simp: type_key_def simp del: set_fields.simps)
  with writes_get [OF c, of kvs1 kvs2 kvs3 sts mms cpus r0 k] assms(2-4) show ?thesis by auto
qed

lemma GetInfo_cases:
  assumes "GetInfo env c h = (Inr r, h')"
  obtains bmc bmcs system ss rt h3 r2 cs err where
    "g_Managers env h (rd_client c) = Inr (bmc # bmcs)"
    "g_Systems env (h @ [RManagers (rd_client c)]) (rd_client c) = Inr (system # ss)"
    "GetSupportedResetTypes env c system (h @ [RManagers (rd_client c), RSystems (rd_client c)]) = (rt, h3)"
    "system_info (g_RedfishVersion env (rd_client c)) (g_Vendor env (rd_client c)) rt system
       (set_fields [] [(''BmcFirmwareVersion'', mg_FirmwareVersion bmc), (''BmcStatus'', mg_Health bmc)] []) = Inr r2"
    "g_Chassis env h3 (rd_client c) = (cs, err)" "chassis_info cs r2 = Inr r" "h' = h3 @ [RChassis (rd_client c)]"
  using assms
  by (auto simp: GetInfo_def Let_def red_calls simp del: set_fields.simps
      split: sum.splits list.splits prod.splits if_splits)

lemma GetInfo_actions: "GetInfo env c h = (r, h') \<Longrightarrow> actions h' = actions h"
  by (auto simp: GetInfo_def Let_def red_calls dest!: GetSupportedResetTypes_actions simp del: set_fields.simps
      split: sum.splits list.splits prod.splits if_splits)

text \<open>What the log services of one component give.\<close>

definition enabled_logs :: "LogService list \<Rightarrow> LogService list" where
  "enabled_logs ls = filter (\<lambda>t. lg_State t = ''Enabled'') ls"

definition logged :: "LogService list \<Rightarrow> GoLogEntry list" where
  "logged ls = concat (map (\<lambda>t. case lg_Entries t of Inl _ \<Rightarrow> [] | Inr es \<Rightarrow> es) (enabled_logs ls))"

definition readable :: "LogService list \<Rightarrow> bool" where
  "readable ls \<longleftrightarrow> (\<forall>t \<in> set (enabled_logs ls). \<exists>es. lg_Entries t = Inr es)"

lemma entries_loop_Inr: "entries_loop ls acc = Inr r \<longleftrightarrow> readable ls \<and> r = acc @ logged ls"
  by (induction ls arbitrary: acc) (auto simp: readable_def logged_def enabled_logs_def split: sum.splits)

definition manager_logged :: "GoManager list result \<Rightarrow> GoLogEntry list" where
  "manager_logged ms = (case ms of Inr (m # _) \<Rightarrow>
     (case mg_LogServices m of Inr ls \<Rightarrow> if readable ls then logged ls else [] | Inl _ \<Rightarrow> []) | _ \<Rightarrow> [])"

lemma GetManagerLog_result:
  assumes "GetManagerLog env c h = (r, h')"
  shows "(case r of Inl _ \<Rightarrow> [] | Inr es \<Rightarrow> es) = manager_logged (g_Managers env h (rd_client c))"
    and "actions h' = actions h"
proof -
  have l: "\<exists>e. entries_loop ls [] = (if readable ls then Inr (logged ls) else Inl e)" for ls
    using entries_loop_Inr [of ls "[]"] by (cases "entries_loop ls []") auto
  have n: "logged [] = []" by (simp add: logged_def enabled_logs_def)
  show "(case r of Inl _ \<Rightarrow> [] | Inr es \<Rightarrow> es) = manager_logged (g_Managers env h (rd_client c))" "actions h' = actions h"
    using assms n by (auto simp: GetManagerLog_def manager_logged_def red_calls
        split: sum.splits list.splits if_splits) (metis l sum.distinct(1) sum.inject)+
qed

section \<open>Properties\<close>

lemma GetInfo_bmc:
  assumes "GetInfo env c h = (Inr r, h')"
  shows "\<exists>bmc bmcs. g_Managers env h (rd_client c) = Inr (bmc # bmcs) \<and> gm_get r ''BmcStatus'' = Some (mg_Health bmc)"
proof -
  obtain bmc bmcs system ss rt r2 cs where i: "g_Managers env h (rd_client c) = Inr (bmc # bmcs)"
    "system_info (g_RedfishVersion env (rd_client c)) (g_Vendor env (rd_client c)) rt system
       (set_fields [] [(''BmcFirmwareVersion'', mg_FirmwareVersion bmc), (''BmcStatus'', mg_Health bmc)] []) = Inr r2"
    "chassis_info cs r2 = Inr r"
    by (rule GetInfo_cases [OF assms]) blast
  have "gm_get r ''BmcStatus'' = gm_get r2 ''BmcStatus''" by (rule chassis_unchanged [OF i(3)]) simp
  with system_info_get [OF i(2)] i(1) show ?thesis by simp
qed

definition example_manager_bmc :: GoManager where
  "example_manager_bmc = \<lparr>mg_FirmwareVersion = ''2.1'', mg_Health = ''OK'', mg_LogServices = Inr
     [\<lparr>lg_Name = ''SEL'', lg_State = ''Enabled'', lg_Entries = Inr [\<lparr>ge_Created = ''t2'', ge_Severity = ''OK'',
        ge_OemSensorType = [], ge_Message = ''boot''\<rparr>]\<rparr>]\<rparr>"

definition example_gpu :: PCIeDevice where
  "example_gpu = \<lparr>pd_Name = ''gpu0'', pd_Manufacturer = [], pd_Model = [], pd_Description = ''GPU Device'',
     pd_FirmwareVersion = [], pd_PCIeType = ''Gen4'', pd_MaxPCIeType = ''Gen4'', pd_LanesInUse = 16, pd_MaxLanes = 16,
     pd_Health = ''OK'', pd_State = ''Enabled'', pd_PCIeFunctions = Inr []\<rparr>"

definition readable_machine :: red_env where
  "readable_machine = example_machine\<lparr>g_Managers := (\<lambda>h c. Inr [example_manager_bmc]),
     g_Systems := (\<lambda>h c. Inr [example_system\<lparr>cs_LogServices := Inr [\<lparr>lg_Name = ''L'', lg_State = ''Enabled'', lg_Entries = Inr []\<rparr>]\<rparr>]),
     g_Chassis := (\<lambda>h c. ([\<lparr>ch_PCIeDevices = Inr [example_gpu]\<rparr>], None))\<rparr>"

lemma readable_machine_info:
  "\<exists>r h'. GetInfo readable_machine example_rc h = (Inr r, h')"
  by (simp add: GetInfo_def readable_machine_def example_machine_def example_manager_bmc_def example_rc_def red_calls
      GetSupportedResetTypes_def example_system_def system_info_def Let_def del: set_fields.simps)

text \<open>Whatever a PCIe device calls itself, its type is reported as unknown: the description
  is lower-cased before it is compared with names that have capitals.\<close>

theorem GetInfo_types_unknown:
  assumes "GetInfo env c h = (Inr r, h')" "gm_get r (idx ''PCIeDevices'' m @ ''.DeviceType'') = Some v"
  shows "v = DeviceType_Unknown"
proof -
  let ?k = "idx ''PCIeDevices'' m @ ''.DeviceType''"
  have k: "type_key ?k" by (simp add: type_key_def idx_def)
  obtain bmc :: GoManager and system rt r2 cs where i: "system_info (g_RedfishVersion env (rd_client c)) (g_Vendor env (rd_client c)) rt system
       (set_fields [] [(''BmcFirmwareVersion'', mg_FirmwareVersion bmc), (''BmcStatus'', mg_Health bmc)] []) = Inr r2"
    "chassis_info cs r2 = Inr r"
    by (rule GetInfo_cases [OF assms(1)]) blast
  from chassis_writes [OF typed_writes(4) i(2), of ?k] k assms(2)
  have "gm_get r2 ?k = Some v \<or> v = DeviceType_Unknown" by auto
  moreover have "gm_get (set_fields [] [(''BmcFirmwareVersion'', mg_FirmwareVersion bmc), (''BmcStatus'', mg_Health bmc)] []) ?k = None"
    by (auto simp: idx_def)
  ultimately show ?thesis using system_info_typed [OF i(1) _ k] by blast
qed

lemma GetInfo_types_unknown_witness:
  "\<exists>r. fst (GetInfo readable_machine example_rc []) = Inr r \<and> gm_get r ''PCIeDevices[0].DeviceType'' = Some ''Unknown''
     \<and> gm_get r ''PCIeDevices[0].Description'' = Some ''GPU Device''"
proof -
  have z: "dec_of_nat 0 = ''0''" by (simp add: dec_of_nat.simps digit_char_def char_of_def bit_0)
  obtain r h' where i: "GetInfo readable_machine example_rc [] = (Inr r, h')" using readable_machine_info by blast
  then have c: "\<exists>r2. chassis_info [\<lparr>ch_PCIeDevices = Inr [example_gpu]\<rparr>] r2 = Inr r"
    by (rule GetInfo_cases) (auto simp: readable_machine_def)
  then obtain v where v: "gm_get r (idx ''PCIeDevices'' 0 @ ''.DeviceType'') = Some v"
    "gm_get r ''PCIeDevices[0].Description'' = Some ''GPU Device''"
    by (auto simp: device_info_def example_gpu_def idx_def z Let_def)
  from GetInfo_types_unknown [OF i v(1)] v i show ?thesis by (simp add: idx_def z DeviceType_Unknown_def)
qed

text \<open>\<open>GetLog\<close> returns, in order, every entry of every enabled log service of the first
  system, then those of the first manager if all of its enabled services can be read; an unreadable
  service of the system is an error, one of the manager is not.\<close>

theorem GetLog_entries:
  assumes "GetLog env c h = (r, h')" "g_Systems env h (rd_client c) = Inr (system # ss)"
    and "cs_LogServices system = Inr ls" "ls \<noteq> []"
  shows "(if readable ls then r = Inr (logged ls @ manager_logged (g_Managers env (h @ [RSystems (rd_client c)]) (rd_client c)))
     else \<exists>e. r = Inl e) \<and> actions h' = actions h"
proof (cases "entries_loop ls []")
  case (Inl e)
  then have "\<not> readable ls" using entries_loop_Inr [of ls "[]"] by auto
  moreover have "r = Inl e" "h' = h @ [RSystems (rd_client c)]" using Inl assms by (simp_all add: GetLog_def red_calls)
  ultimately show ?thesis by simp
next
  case (Inr es)
  then have es: "readable ls" "es = logged ls" by (simp_all add: entries_loop_Inr)
  obtain r1 h1 where m: "GetManagerLog env c (h @ [RSystems (rd_client c)]) = (r1, h1)" by force
  note g = GetManagerLog_result [OF m]
  have "r = Inr (logged ls @ (case r1 of Inl _ \<Rightarrow> [] | Inr es \<Rightarrow> es))" "h' = h1"
    using assms Inr es m by (auto simp: GetLog_def red_calls split: sum.splits)
  with g es show ?thesis by simp
qed

lemma GetLog_entries_witness:
  "fst (GetLog readable_machine example_rc []) =
     Inr [\<lparr>ge_Created = ''t2'', ge_Severity = ''OK'', ge_OemSensorType = [], ge_Message = ''boot''\<rparr>]"
proof -
  let ?ls = "[\<lparr>lg_Name = ''L'', lg_State = ''Enabled'', lg_Entries = Inr []\<rparr>]"
  obtain r h' where l: "GetLog readable_machine example_rc [] = (r, h')" by force
  have s: "g_Systems readable_machine [] (rd_client example_rc) = Inr (example_system\<lparr>cs_LogServices := Inr ?ls\<rparr> # [])"
    by (simp add: readable_machine_def)
  from GetLog_entries [OF l s, of ?ls] show ?thesis unfolding l
    by (simp add: readable_def logged_def enabled_logs_def manager_logged_def readable_machine_def example_manager_bmc_def)
qed

end
