(* ===== verification/RedfishStatusController.thy ===== *)
theory RedfishStatusController
  imports RedfishDhcp RedfishInfo StatusCompare
begin

text \<open>
  The reconciling side of the RedfishStatus controller (\<open>pkg/redfishstatus/redfish_status_reconcile.go\<close>,
  \<open>tools.go\<close>, \<open>UpdateSecret\<close> of \<open>manager.go\<close>): it keeps the cache of connection parameters, reads
  each machine when its object is made, at an interval and after a change of its secret, and writes
  what it read into the status.
\<close>

section \<open>Comparing\<close>

text \<open>\<open>compareRedfishStatus\<close>, test by test.\<close>

definition compareInfo :: "(string, string) gomap \<Rightarrow> (string, string) gomap \<Rightarrow> bool" where
  "compareInfo a b \<longleftrightarrow>
     (if length a \<noteq> length b then False
      else if \<not> covered a b then False
      else if \<exists>(k, v) \<in> set b. gm_get a k = None then False
      else True)"

definition compareRedfishStatus :: "RedfishStatusStatus \<Rightarrow> RedfishStatusStatus \<Rightarrow> bool" where
  "compareRedfishStatus a b \<longleftrightarrow>
     (if r_Healthy a \<noteq> r_Healthy b then False
      else if r_LastUpdateTime a \<noteq> r_LastUpdateTime b then False
      else if b_Type (r_Basic a) \<noteq> b_Type (r_Basic b) then False
      else if b_IpAddr (r_Basic a) \<noteq> b_IpAddr (r_Basic b) then False
      else if b_SecretName (r_Basic a) \<noteq> b_SecretName (r_Basic b) then False
      else if b_SecretNamespace (r_Basic a) \<noteq> b_SecretNamespace (r_Basic b) then False
      else if b_Https (r_Basic a) \<noteq> b_Https (r_Basic b) then False
      else if b_Port (r_Basic a) \<noteq> b_Port (r_Basic b) then False
      else if b_ClusterName (r_Basic a) \<noteq> b_ClusterName (r_Basic b) then False
      else compareInfo (r_Info a) (r_Info b))"

section \<open>Log events\<close>

record log_summary =
  lgs_LatestTime :: string
  lgs_LatestMsg :: string
  lgs_WarningTime :: string
  lgs_WarningMsg :: string
  lgs_Total :: int
  lgs_Warnings :: int
  lgs_New :: int

definition no_logs :: log_summary where
  "no_logs = \<lparr>lgs_LatestTime = [], lgs_LatestMsg = [], lgs_WarningTime = [], lgs_WarningMsg = [],
     lgs_Total = 0, lgs_Warnings = 0, lgs_New = 0\<rparr>"

definition log_msg :: "GoLogEntry \<Rightarrow> string" where
  "log_msg entry = ''['' @ ge_Created entry @ ''][''  @ ge_Severity entry @ '']: '' @ ge_OemSensorType entry @ '' '' @ ge_Message entry"

definition is_warning :: "GoLogEntry \<Rightarrow> bool" where
  "is_warning entry \<longleftrightarrow> ge_Severity entry \<noteq> ''OK'' \<and> ge_Severity entry \<noteq> []"

definition log_event :: "AgentConfig \<Rightarrow> string \<Rightarrow> GoLogEntry \<Rightarrow> bmc_event" where
  "log_event config name entry = \<lparr>ev_Name = name, ev_Namespace = cf_PodNamespace config,
     ev_Type = (if is_warning entry then ''Warning'' else ''Normal''), ev_Reason = ''BMCLogEntry'', ev_Message = log_msg entry\<rparr>"

text \<open>The loop, with the index, the results so far and the events sent.\<close>

fun events_loop ::
    "AgentConfig \<Rightarrow> string \<Rightarrow> string \<Rightarrow> nat \<Rightarrow> GoLogEntry list \<Rightarrow> log_summary \<times> bmc_event list \<Rightarrow> log_summary \<times> bmc_event list" where
  "events_loop config name lastLogTime m [] r = r"
| "events_loop config name lastLogTime m (entry # entries) (g, evs) =
     (let msg = log_msg entry;
          g1 = (if is_warning entry then
                  (if lgs_WarningMsg g = [] then g\<lparr>lgs_WarningTime := ge_Created entry, lgs_WarningMsg := msg\<rparr> else g)
                    \<lparr>lgs_Warnings := lgs_Warnings g + 1\<rparr>
                else g);
          (g2, evs1) = (if ge_Created entry \<noteq> lastLogTime then
                  ((if m = 0 then g1\<lparr>lgs_LatestTime := ge_Created entry, lgs_LatestMsg := msg\<rparr> else g1)
                     \<lparr>lgs_New := lgs_New g1 + 1\<rparr>,
                   evs @ [log_event config name entry])
                else (g1, evs))
      in events_loop config name lastLogTime (m + 1) entries (g2, evs1))"

definition GenerateEvents ::
    "AgentConfig \<Rightarrow> GoLogEntry list \<Rightarrow> string \<Rightarrow> string \<Rightarrow> log_summary \<times> bmc_event list" where
  "GenerateEvents config logEntrys redfishStatusName lastLogTime =
     (if length logEntrys = 0 then (no_logs, [])
      else events_loop config redfishStatusName lastLogTime 0 logEntrys
             (no_logs\<lparr>lgs_Total := int (length logEntrys)\<rparr>, []))"

section \<open>Updating one status\<close>

text \<open>The \<open>Info\<close> of the new status, and whether the machine still counts as healthy.\<close>

definition read_info ::
    "rs_env \<Rightarrow> redfishClient result \<Rightarrow> redfishStatusController \<Rightarrow> bool \<times> info \<times> redfishStatusController" where
  "read_info env client s =
     (case client of
        Inl _ \<Rightarrow> (False, [], s)
      | Inr c \<Rightarrow>
          (case GetInfo (ra_red env) c (rsc_hist s) of
             (Inl _, h) \<Rightarrow> (False, [], s\<lparr>rsc_hist := h\<rparr>)
           | (Inr infoData, h) \<Rightarrow> (True, infoData, s\<lparr>rsc_hist := h\<rparr>)))"

definition log_struct :: "log_summary \<Rightarrow> LogStruct" where
  "log_struct g = \<lparr>l_TotalLogAccount = int32_of (lgs_Total g), l_WarningLogAccount = int32_of (lgs_Warnings g),
     l_LastestLog = Some \<lparr>le_Time = lgs_LatestTime g, le_Message = lgs_LatestMsg g\<rparr>,
     l_LastestWarningLog = Some \<lparr>le_Time = lgs_WarningTime g, le_Message = lgs_WarningMsg g\<rparr>\<rparr>"

definition last_log_time :: "RedfishStatusStatus \<Rightarrow> string" where
  "last_log_time st = (case l_LastestLog (r_Log st) of None \<Rightarrow> [] | Some l \<Rightarrow> le_Time l)"

definition read_log ::
    "rs_env \<Rightarrow> string \<Rightarrow> bool \<Rightarrow> redfishClient result \<Rightarrow> RedfishStatusStatus \<Rightarrow> redfishStatusController
      \<Rightarrow> RedfishStatusStatus \<times> redfishStatusController" where
  "read_log env name healthy client st s =
     (case client of
        Inl _ \<Rightarrow> (st, s)
      | Inr c \<Rightarrow>
          if \<not> healthy then (st, s)
          else
            (case GetLog (ra_red env) c (rsc_hist s) of
               (Inl _, h) \<Rightarrow> (st, s\<lparr>rsc_hist := h\<rparr>)
             | (Inr logEntrys, h) \<Rightarrow>
                 (let (g, evs) = GenerateEvents (rsc_config s) logEntrys name (last_log_time st)
                  in (if lgs_LatestTime g \<noteq> [] then st\<lparr>r_Log := log_struct g\<rparr> else st,
                      s\<lparr>rsc_hist := h, rsc_events := rsc_events s @ evs\<rparr>))))"

text \<open>The lock of the name is taken for the whole call: an update of one object is one step.\<close>

definition UpdateRedfishStatusInfo ::
    "rs_env \<Rightarrow> string \<Rightarrow> RedfishConnectCon \<Rightarrow> redfishStatusController \<Rightarrow> (bool \<times> goerr option) \<times> redfishStatusController" where
  "UpdateRedfishStatusInfo env name d s =
     (case GetLock name (rsc_locks s) of
        (_, locks1) \<Rightarrow>
     (case NewClient (ra_red env) d (rsc_clients s) (rsc_hist s) of
        (client, clients1, h1) \<Rightarrow>
          (let s1 = s\<lparr>rsc_locks := locks1, rsc_clients := clients1, rsc_hist := h1\<rparr> in
           case ra_Get env name of
             Inl e \<Rightarrow> ((False, Some e), s1)
           | Inr existing \<Rightarrow>
               (let (healthy, infoData, s2) = read_info env client s1;
                    st1 = (rf_Status existing)\<lparr>r_Healthy := (case client of Inl _ \<Rightarrow> False | Inr _ \<Rightarrow> True), r_Info := infoData\<rparr>;
                    (st2, s3) = read_log env name healthy client st1 s2
                in if \<not> compareRedfishStatus st2 (rf_Status existing) then
                     (let updated = existing\<lparr>rf_Status := st2\<lparr>r_LastUpdateTime := ra_now env\<rparr>\<rparr>;
                          s4 = sent [WStatusUpdate updated] s3
                      in case ra_StatusUpdate env updated of
                           Inl e \<Rightarrow> ((True, Some e), s4)
                         | Inr _ \<Rightarrow> ((True, None), s4))
                   else ((False, None), s3)))))"

text \<open>The loop over \<open>syncData\<close>; \<open>failed\<close> is what it returns.\<close>

fun sync_loop ::
    "rs_env \<Rightarrow> (string, RedfishConnectCon) gomap \<Rightarrow> bool \<Rightarrow> redfishStatusController \<Rightarrow> bool \<times> redfishStatusController" where
  "sync_loop env [] failed s = (failed, s)"
| "sync_loop env ((item, t) # syncData) failed s =
     (case UpdateRedfishStatusInfo env item t s of
        ((_, Some _), s1) \<Rightarrow> sync_loop env syncData True s1
      | ((_, None), s1) \<Rightarrow> sync_loop env syncData failed s1)"

definition UpdateRedfishStatusInfoWrapper ::
    "rs_env \<Rightarrow> string \<Rightarrow> redfishStatusController \<Rightarrow> goerr option \<times> redfishStatusController" where
  "UpdateRedfishStatusInfoWrapper env name s =
     (let syncData = (if length name = 0 then RedfishCache_GetAll (rsc_cache s)
            else (case RedfishCache_Get (rsc_cache s) name of Some d \<Rightarrow> gm_put name d [] | None \<Rightarrow> []))
      in if length name = 0 \<and> length syncData = 0 then (None, s)
         else if length syncData = 0 then
           (Some (Errorf ''no cache data found for redfishStatus %s '' [ArgS name]), s)
         else
           (case sync_loop env syncData False s of
              (failed, s1) \<Rightarrow> (if failed then Some (Errorf ''failed to update redfishStatus'' []) else None, s1)))"

text \<open>A tick of \<open>UpdateRedfishStatusAtInterval\<close>: an error is only logged.\<close>

definition UpdateRedfishStatusAtInterval_tick :: "rs_env \<Rightarrow> redfishStatusController \<Rightarrow> redfishStatusController" where
  "UpdateRedfishStatusAtInterval_tick env s = snd (UpdateRedfishStatusInfoWrapper env [] s)"

section \<open>Reconciliation\<close>

definition con_of :: "RedfishStatus \<Rightarrow> string \<Rightarrow> string \<Rightarrow> RedfishConnectCon" where
  "con_of redfishStatus username password =
     \<lparr>rc_Info = r_Basic (rf_Status redfishStatus), rc_Username = username, rc_Password = password,
      rc_DhcpHost = (b_Type (r_Basic (rf_Status redfishStatus)) = HostTypeDHCP)\<rparr>"

definition credentials :: "rs_env \<Rightarrow> BasicInfo \<Rightarrow> (string \<times> string) result" where
  "credentials env basic =
     (if length (b_SecretName basic) > 0 \<and> length (b_SecretNamespace basic) > 0
      then getSecretData env (b_SecretName basic) (b_SecretNamespace basic)
      else Inr ([], []))"

definition processRedfishStatus ::
    "rs_env \<Rightarrow> RedfishStatus \<Rightarrow> redfishStatusController \<Rightarrow> goerr option \<times> redfishStatusController" where
  "processRedfishStatus env redfishStatus s =
     (case credentials env (r_Basic (rf_Status redfishStatus)) of
        Inl e \<Rightarrow> (Some e, s)
      | Inr (username, password) \<Rightarrow>
          (let name = om_Name (rf_Meta redfishStatus);
               s1 = s\<lparr>rsc_cache := RedfishCache_Add name (con_of redfishStatus username password) (rsc_cache s)\<rparr>
           in if length (r_Info (rf_Status redfishStatus)) = 0 then UpdateRedfishStatusInfoWrapper env name s1
              else (None, s1)))"

definition RedfishReconcile ::
    "rs_env \<Rightarrow> string \<Rightarrow> redfishStatusController \<Rightarrow> reconcile_out \<times> redfishStatusController" where
  "RedfishReconcile env name s =
     (case ra_Get env name of
        Inl e \<Rightarrow>
          if IsNotFound e then
            ((empty_result, None),
             (case RedfishCache_Get (rsc_cache s) name of
                Some _ \<Rightarrow> s\<lparr>rsc_cache := RedfishCache_Delete name (rsc_cache s)\<rparr>
              | None \<Rightarrow> s))
          else ((empty_result, Some e), s)
      | Inr redfishStatus \<Rightarrow>
          if length (b_IpAddr (r_Basic (rf_Status redfishStatus))) = 0 then ((empty_result, None), s)
          else
            (case processRedfishStatus env redfishStatus s of
               (Some _, s1) \<Rightarrow> ((requeue_after 2, None), s1)
             | (None, s1) \<Rightarrow> ((empty_result, None), s1)))"

text \<open>\<open>UpdateSecret\<close>: the credentials in the cache, then one update for each host they changed.\<close>

fun update_hosts :: "rs_env \<Rightarrow> string list \<Rightarrow> redfishStatusController \<Rightarrow> redfishStatusController" where
  "update_hosts env [] s = s"
| "update_hosts env (name # names) s = update_hosts env names (snd (UpdateRedfishStatusInfoWrapper env name s))"

definition RedfishUpdateSecret ::
    "rs_env \<Rightarrow> string \<Rightarrow> string \<Rightarrow> string \<Rightarrow> string \<Rightarrow> redfishStatusController \<Rightarrow> redfishStatusController" where
  "RedfishUpdateSecret env secretName secretNamespace username password s =
     (case UpdateSecet secretName secretNamespace username password (rsc_cache s) of
        (cache1, changedHosts) \<Rightarrow> update_hosts env changedHosts (s\<lparr>rsc_cache := cache1\<rparr>))"

section \<open>Lemmas\<close>

lemma compareInfo_get:
  assumes "compareInfo a b"
  shows "gm_get a = gm_get b"
proof
  fix k
  have f: "(k, v) \<in> set a \<Longrightarrow> gm_get b k = Some v" for v
    using assms by (fastforce simp: compareInfo_def covered_def split: if_splits option.splits)
  show "gm_get a k = gm_get b k"
  proof (cases "gm_get a k")
    case None
    have "gm_get b k = None"
    proof (rule ccontr)
      assume "gm_get b k \<noteq> None"
      then obtain v where "(k, v) \<in> set b" by (auto dest: map_of_SomeD)
      with assms None show False by (force simp: compareInfo_def split: if_splits)
    qed
    with None show ?thesis by simp
  qed (use f map_of_SomeD in fastforce)
qed

lemma compareInfo_iff:
  assumes "gm_ok a" "gm_ok b"
  shows "compareInfo a b \<longleftrightarrow> gm_get a = gm_get b"
proof
  assume e: "gm_get a = gm_get b"
  have "(k, v) \<in> set b \<Longrightarrow> gm_get a k \<noteq> None" for k v using assms e by (metis gm_get_in_set option.distinct(1))
  with same_covered [OF assms e] show "compareInfo a b" by (fastforce simp: compareInfo_def)
qed (rule compareInfo_get)

text \<open>What the comparison looks at.\<close>

definition status_view ::
    "RedfishStatusStatus \<Rightarrow> bool \<times> string \<times> (string \<times> string \<times> string \<times> string \<times> bool \<times> int \<times> string) \<times> (string \<rightharpoonup> string)" where
  "status_view st = (r_Healthy st, r_LastUpdateTime st,
     (b_Type (r_Basic st), b_IpAddr (r_Basic st), b_SecretName (r_Basic st), b_SecretNamespace (r_Basic st),
      b_Https (r_Basic st), b_Port (r_Basic st), b_ClusterName (r_Basic st)), gm_get (r_Info st))"

lemma compare_view: "compareRedfishStatus a b \<Longrightarrow> status_view a = status_view b"
  using compareInfo_get by (auto simp: compareRedfishStatus_def status_view_def split: if_splits)

interpretation redfish_comparison: comparison compareRedfishStatus status_view "\<lambda>st. gm_ok (r_Info st)"
proof unfold_locales
  fix a b :: RedfishStatusStatus
  show "status_view a = status_view b" if "compareRedfishStatus a b" using that by (rule compare_view)
  show "compareRedfishStatus a b" if "gm_ok (r_Info a)" "gm_ok (r_Info b)" "status_view a = status_view b"
    using that by (auto simp: compareRedfishStatus_def status_view_def compareInfo_iff)
qed

text \<open>The loop of \<open>GenerateEvents\<close>, in one step.\<close>

lemma events_loop_later:
  "0 < m \<Longrightarrow> events_loop config name tm m entries (g, evs) =
     (let ws = filter is_warning entries; new = filter (\<lambda>e. ge_Created e \<noteq> tm) entries in
      (g\<lparr>lgs_WarningTime := (if lgs_WarningMsg g = [] \<and> ws \<noteq> [] then ge_Created (hd ws) else lgs_WarningTime g),
         lgs_WarningMsg := (if lgs_WarningMsg g = [] \<and> ws \<noteq> [] then log_msg (hd ws) else lgs_WarningMsg g),
         lgs_Warnings := lgs_Warnings g + int (length ws), lgs_New := lgs_New g + int (length new)\<rparr>,
       evs @ map (log_event config name) new))"
proof (induction entries arbitrary: m g evs)
  case (Cons e es)
  have "log_msg x \<noteq> []" for x by (simp add: log_msg_def)
  then show ?case using Cons.IH [of "m + 1"] Cons.prems by (simp add: Let_def)
qed simp

lemma log_msg_not_Nil [simp]: "log_msg e \<noteq> []"
  by (simp add: log_msg_def)

abbreviation new_logs :: "string \<Rightarrow> GoLogEntry list \<Rightarrow> GoLogEntry list" where
  "new_logs tm entries \<equiv> filter (\<lambda>e. ge_Created e \<noteq> tm) entries"

lemma GenerateEvents_eq:
  "GenerateEvents config entries name tm =
     (let ws = filter is_warning entries; fresh = entries \<noteq> [] \<and> ge_Created (hd entries) \<noteq> tm in
      (\<lparr>lgs_LatestTime = (if fresh then ge_Created (hd entries) else []),
        lgs_LatestMsg = (if fresh then log_msg (hd entries) else []),
        lgs_WarningTime = (if ws \<noteq> [] then ge_Created (hd ws) else []),
        lgs_WarningMsg = (if ws \<noteq> [] then log_msg (hd ws) else []),
        lgs_Total = int (length entries), lgs_Warnings = int (length ws), lgs_New = int (length (new_logs tm entries))\<rparr>,
       map (log_event config name) (new_logs tm entries)))"
proof (cases entries)
  case (Cons e es)
  then show ?thesis by (simp add: GenerateEvents_def no_logs_def events_loop_later Let_def)
qed (simp add: GenerateEvents_def no_logs_def)

text \<open>\<open>GetInfo\<close> returns a map: no key twice.\<close>

lemma setData_ok: "gm_ok r \<Longrightarrow> gm_ok (setData k v r)"
  by (simp add: setData_put)

lemma fields_ok: "gm_ok r \<Longrightarrow> gm_ok (set_fields front kvs r)"
  by (induction front kvs r rule: set_fields.induct) (simp_all add: setData_ok)

lemma indexed_ok: "(\<And>n x r. gm_ok r \<Longrightarrow> gm_ok (f n x r)) \<Longrightarrow> gm_ok r \<Longrightarrow> gm_ok (indexed f n xs r)"
  by (induction xs arbitrary: n r) simp_all

lemma drive_ok: "gm_ok r \<Longrightarrow> gm_ok (drive_info n m x r)"
  by (simp add: drive_info_def fields_ok del: set_fields.simps)

lemma storage_ok: "gm_ok r \<Longrightarrow> gm_ok (storage_info n x r)"
  by (auto simp: storage_info_def Let_def intro!: fields_ok indexed_ok drive_ok simp del: set_fields.simps split: sum.splits)

lemma function_parts_ok:
  "gm_ok r \<Longrightarrow> gm_ok (ethernet_info m n t e r)" "gm_ok r \<Longrightarrow> gm_ok (controller_info m n t c r)"
  by (simp_all add: ethernet_info_def controller_info_def fields_ok del: set_fields.simps)

lemma functions_ok: "gm_ok r \<Longrightarrow> gm_ok (functions_info m n pfcs r)"
proof (induction pfcs arbitrary: n r)
  case (Cons p ps)
  then show ?case
    by (auto simp: Let_def setData_ok intro!: indexed_ok function_parts_ok split: sum.splits list.splits)
qed simp

lemma device_ok: "gm_ok r \<Longrightarrow> gm_ok (device_info m x r)"
  by (auto simp: device_info_def Let_def fields_ok functions_ok setData_ok simp del: set_fields.simps split: sum.splits)

lemma chassis_ok: "chassis_info cs r = Inr r' \<Longrightarrow> gm_ok r \<Longrightarrow> gm_ok r'"
proof (induction cs r rule: chassis_info.induct)
  case (2 c cs r)
  then show ?case using indexed_ok [of device_info] device_ok by (fastforce split: sum.splits if_splits)
qed simp

lemma cpu_memory_ok: "gm_ok r \<Longrightarrow> gm_ok (cpu_info n x r)" "gm_ok r \<Longrightarrow> gm_ok (memory_info n y r)"
  by (simp_all add: cpu_info_def memory_info_def fields_ok del: set_fields.simps)

lemma system_ok:
  assumes "system_info a b c sys r = Inr r'" "gm_ok r"
  shows "gm_ok r'"
  using assms unfolding system_info_def Let_def and_then_Inr sum.inject
  by (elim exE conjE) (hypsubst, intro indexed_ok storage_ok fields_ok cpu_memory_ok)

lemma GetInfo_ok:
  assumes "GetInfo env c h = (Inr r, h')"
  shows "gm_ok r"
  using assms by (rule GetInfo_cases) (erule chassis_ok, erule system_ok, rule fields_ok, simp)

section \<open>Properties\<close>

text \<open>Two statuses compare as equal exactly if the fields the comparison is about agree and
  their \<open>Info\<close> maps hold the same values under the same keys, whatever the order of their entries.\<close>

theorem compareRedfishStatus_equivalence:
  assumes "gm_ok (r_Info a)" "gm_ok (r_Info b)"
  shows "compareRedfishStatus a b \<longleftrightarrow> status_view a = status_view b"
  using assms by (rule redfish_comparison.cmp_iff)

lemma compareRedfishStatus_equivalence_witness:
  "compareRedfishStatus (zero_redfish_status\<lparr>r_Info := [(''a'', ''1''), (''b'', ''2'')]\<rparr>)
     (zero_redfish_status\<lparr>r_Info := [(''b'', ''2''), (''a'', ''1'')]\<rparr>)"
proof (subst compareRedfishStatus_equivalence)
  show "status_view (zero_redfish_status\<lparr>r_Info := [(''a'', ''1''), (''b'', ''2'')]\<rparr>) =
     status_view (zero_redfish_status\<lparr>r_Info := [(''b'', ''2''), (''a'', ''1'')]\<rparr>)"
    by (simp add: status_view_def zero_redfish_status_def fun_eq_iff)
qed simp_all

text \<open>What an update finds: the session, the inventory, the status to be stored.\<close>

lemma read_info_cases:
  "read_info env client s = (healthy, infoData, s2) \<Longrightarrow>
   gm_ok infoData \<and> rsc_writes s2 = rsc_writes s \<and> rsc_cache s2 = rsc_cache s \<and> rsc_config s2 = rsc_config s
   \<and> (case client of Inl _ \<Rightarrow> \<not> healthy \<and> infoData = []
       | Inr c \<Rightarrow> (case fst (GetInfo (ra_red env) c (rsc_hist s)) of
            Inl _ \<Rightarrow> \<not> healthy \<and> infoData = [] | Inr m \<Rightarrow> healthy \<and> infoData = m))"
  by (auto simp: read_info_def dest: GetInfo_ok split: sum.splits prod.splits)

lemma read_log_cases:
  "read_log env name healthy client st s = (st', s3) \<Longrightarrow>
   st'\<lparr>r_Log := r_Log st\<rparr> = st \<and> rsc_writes s3 = rsc_writes s \<and> rsc_cache s3 = rsc_cache s \<and> rsc_config s3 = rsc_config s"
  by (auto simp: read_log_def Let_def split: sum.splits prod.splits if_splits)

text \<open>Property C38: after an update of a RedfishStatus that reports no error, the status in the API server,
  whose map has no key twice, is the machine's: \<open>Healthy\<close> tells whether a session could be opened, \<open>Info\<close> is the
  inventory read through it, empty where it could not be read; what is in the basic part stays. One write is
  made, with a new time, if \<open>Healthy\<close> or \<open>Info\<close> differs from what was there, and none otherwise, even if the log
  has new entries.\<close>

theorem UpdateRedfishStatusInfo_reports:
  assumes "UpdateRedfishStatusInfo env name d s = ((changed, None), s')" "ra_Get env name = Inr existing"
    and "NewClient (ra_red env) d (rsc_clients s) (rsc_hist s) = (client, clients1, h1)"
    and "gm_ok (r_Info (rf_Status existing))"
  shows "\<exists>obj. rsc_writes s' = rsc_writes s @ (if changed then [WStatusUpdate obj] else []) \<and> (\<not> changed \<longrightarrow> obj = existing)
    \<and> rf_Meta obj = rf_Meta existing \<and> r_Basic (rf_Status obj) = r_Basic (rf_Status existing)
    \<and> (r_Healthy (rf_Status obj) \<longleftrightarrow> (\<exists>c. client = Inr c))
    \<and> gm_get (r_Info (rf_Status obj)) =
        (case client of Inl _ \<Rightarrow> Map.empty
         | Inr c \<Rightarrow> (case fst (GetInfo (ra_red env) c h1) of Inl _ \<Rightarrow> Map.empty | Inr m \<Rightarrow> gm_get m))
    \<and> (changed \<longleftrightarrow> r_Healthy (rf_Status obj) \<noteq> r_Healthy (rf_Status existing)
         \<or> gm_get (r_Info (rf_Status obj)) \<noteq> gm_get (r_Info (rf_Status existing)))
    \<and> (changed \<longrightarrow> r_LastUpdateTime (rf_Status obj) = ra_now env)"
proof -
  let ?s1 = "s\<lparr>rsc_locks := snd (GetLock name (rsc_locks s)), rsc_clients := clients1, rsc_hist := h1\<rparr>"
  obtain healthy infoData s2 where i: "read_info env client ?s1 = (healthy, infoData, s2)" by (metis prod_cases3)
  let ?st1 = "(rf_Status existing)\<lparr>r_Healthy := (case client of Inl _ \<Rightarrow> False | Inr _ \<Rightarrow> True), r_Info := infoData\<rparr>"
  obtain st2 s3 where l: "read_log env name healthy client ?st1 s2 = (st2, s3)" by fastforce
  note st2 = read_log_cases [OF l] and inf = read_info_cases [OF i]
  have v: "r_Healthy st2 = r_Healthy ?st1" "r_Info st2 = infoData" "r_Basic st2 = r_Basic (rf_Status existing)"
    "r_LastUpdateTime st2 = r_LastUpdateTime (rf_Status existing)"
    using arg_cong [OF conjunct1 [OF st2], of r_Healthy] arg_cong [OF conjunct1 [OF st2], of r_Info]
      arg_cong [OF conjunct1 [OF st2], of r_Basic] arg_cong [OF conjunct1 [OF st2], of r_LastUpdateTime] by simp_all
  have w: "rsc_writes s3 = rsc_writes s" using st2 inf by simp
  have m: "gm_get infoData = (case client of Inl _ \<Rightarrow> Map.empty
         | Inr c \<Rightarrow> (case fst (GetInfo (ra_red env) c h1) of Inl _ \<Rightarrow> Map.empty | Inr m \<Rightarrow> gm_get m))"
    using inf by (auto split: sum.splits)
  have hc: "(case client of Inl _ \<Rightarrow> False | Inr _ \<Rightarrow> True) \<longleftrightarrow> (\<exists>c. client = Inr c)" by (cases client) auto
  show ?thesis
  proof (cases "compareRedfishStatus st2 (rf_Status existing)")
    case True
    then have "\<not> changed" "s' = s3"
      using assms i l by (auto simp: UpdateRedfishStatusInfo_def Let_def split: prod.splits sum.splits)
    moreover have "status_view st2 = status_view (rf_Status existing)" using True by (rule compare_view)
    ultimately show ?thesis using v w m hc by (intro exI [of _ existing]) (auto simp: status_view_def)
  next
    case False
    let ?obj = "existing\<lparr>rf_Status := st2\<lparr>r_LastUpdateTime := ra_now env\<rparr>\<rparr>"
    have "changed" "rsc_writes s' = rsc_writes s3 @ [WStatusUpdate ?obj]"
      using assms i l False by (auto simp: UpdateRedfishStatusInfo_def Let_def split: prod.splits sum.splits)
    moreover have "gm_ok (r_Info st2)" using inf by (simp add: v)
    then have "status_view st2 \<noteq> status_view (rf_Status existing)"
      using False assms(4) redfish_comparison.view_cmp by blast
    then have "r_Healthy st2 \<noteq> r_Healthy (rf_Status existing) \<or> gm_get (r_Info st2) \<noteq> gm_get (r_Info (rf_Status existing))"
      using v(3,4) by (auto simp: status_view_def)
    ultimately show ?thesis using v w m hc by (intro exI [of _ ?obj]) auto
  qed
qed

definition example_poll_env :: "RedfishStatus \<Rightarrow> rs_env" where
  "example_poll_env existing = (example_rs_env (\<lambda>n. Inr existing))\<lparr>ra_red := readable_machine\<rparr>"

lemma example_poll_client:
  "NewClient readable_machine example_con [] [] = (Inr example_rc, [([], example_rc)], [RConnect (config_of example_con)])"
  by (simp add: NewClient_def connect_new_def readable_machine_def example_machine_def example_rc_def gm_put_def
      example_con_def zero_basic_def Let_def)

lemma example_poll_ok: "snd (fst (UpdateRedfishStatusInfo (example_poll_env existing) name d s)) = None"
  by (auto simp: UpdateRedfishStatusInfo_def example_poll_env_def Let_def split: prod.splits sum.splits)

lemma UpdateRedfishStatusInfo_reports_witness:
  "\<exists>obj. r_Healthy (rf_Status obj) \<and> gm_get (r_Info (rf_Status obj)) ''BmcStatus'' = Some ''OK''
     \<and> WStatusUpdate obj \<in> set (rsc_writes (snd (UpdateRedfishStatusInfo (example_poll_env example_known) ''h1'' example_con example_ctl)))"
proof -
  let ?U = "UpdateRedfishStatusInfo (example_poll_env example_known) ''h1'' example_con example_ctl"
  have u: "?U = ((fst (fst ?U), None), snd ?U)"
    using example_poll_ok by (metis prod.collapse)
  have e: "ra_Get (example_poll_env example_known) ''h1'' = Inr example_known" "ra_red (example_poll_env x) = readable_machine" for x
    by (simp_all add: example_poll_env_def)
  obtain r h' where i: "GetInfo readable_machine example_rc [RConnect (config_of example_con)] = (Inr r, h')"
    using readable_machine_info by blast
  from GetInfo_bmc [OF i] have b: "gm_get r ''BmcStatus'' = Some ''OK''"
    by (auto simp: readable_machine_def example_manager_bmc_def)
  have k: "\<not> r_Healthy (rf_Status example_known)"
    by (simp add: example_known_def deactivated_def zero_redfish_status_def)
  have ok: "gm_ok (r_Info (rf_Status example_known))"
    by (simp add: example_known_def deactivated_def zero_redfish_status_def)
  from UpdateRedfishStatusInfo_reports [OF u e(1) _ ok] example_poll_client i b k show ?thesis
    by (fastforce simp: e(2) split: if_splits)
qed

text \<open>The summary of the log and the events sent for it. Every entry whose time differs from that
  of the newest entry recorded counts as new and is announced, those older than it as well; the newest
  entry is the first of the log, the newest warning the first that is one.\<close>

theorem GenerateEvents_summary:
  "GenerateEvents config entries name tm =
     (let ws = filter is_warning entries; fresh = entries \<noteq> [] \<and> ge_Created (hd entries) \<noteq> tm in
      (\<lparr>lgs_LatestTime = (if fresh then ge_Created (hd entries) else []),
        lgs_LatestMsg = (if fresh then log_msg (hd entries) else []),
        lgs_WarningTime = (if ws \<noteq> [] then ge_Created (hd ws) else []),
        lgs_WarningMsg = (if ws \<noteq> [] then log_msg (hd ws) else []),
        lgs_Total = int (length entries), lgs_Warnings = int (length ws), lgs_New = int (length (new_logs tm entries))\<rparr>,
       map (log_event config name) (new_logs tm entries)))"
  by (rule GenerateEvents_eq)

text \<open>New entries of the log are not recorded by themselves. Where a machine is as healthy and
  its inventory is the one stored, an update writes nothing, though it has announced every
  entry that differs from the recorded time: the next update announces them all again.\<close>

theorem new_logs_not_recorded:
  assumes "ra_Get env name = Inr existing" "r_Healthy (rf_Status existing)"
    and "NewClient (ra_red env) d (rsc_clients s) (rsc_hist s) = (Inr c, clients1, h1)"
    and "GetInfo (ra_red env) c h1 = (Inr m, h2)" "gm_ok (r_Info (rf_Status existing))"
    and "gm_get m = gm_get (r_Info (rf_Status existing))" "GetLog (ra_red env) c h2 = (Inr entries, h3)"
    and "UpdateRedfishStatusInfo env name d s = (r, s')"
  shows "r = (False, None) \<and> rsc_writes s' = rsc_writes s
    \<and> rsc_events s' = rsc_events s @ map (log_event (rsc_config s) name)
         (new_logs (last_log_time (rf_Status existing)) entries)"
proof -
  let ?s1 = "s\<lparr>rsc_locks := snd (GetLock name (rsc_locks s)), rsc_clients := clients1, rsc_hist := h1\<rparr>"
  let ?st1 = "(rf_Status existing)\<lparr>r_Healthy := True, r_Info := m\<rparr>"
  have i: "read_info env (Inr c) ?s1 = (True, m, ?s1\<lparr>rsc_hist := h2\<rparr>)"
    using assms(4) by (simp add: read_info_def)
  obtain st2 s3 where l: "read_log env name True (Inr c) ?st1 (?s1\<lparr>rsc_hist := h2\<rparr>) = (st2, s3)" by fastforce
  then have ev: "rsc_events s3 = rsc_events s @ map (log_event (rsc_config s) name)
         (new_logs (last_log_time (rf_Status existing)) entries)"
    using assms(7) by (auto simp: read_log_def GenerateEvents_eq last_log_time_def Let_def split: if_splits)
  note st2 = read_log_cases [OF l]
  have "status_view st2 = status_view ?st1"
    using arg_cong [OF conjunct1 [OF st2], of status_view] by (simp add: status_view_def)
  moreover have "status_view ?st1 = status_view (rf_Status existing)"
    using assms(2,6) by (simp add: status_view_def)
  moreover have "gm_ok (r_Info st2)"
    using arg_cong [OF conjunct1 [OF st2], of r_Info] GetInfo_ok [OF assms(4)] by simp
  ultimately have "compareRedfishStatus st2 (rf_Status existing)"
    using assms(5) redfish_comparison.view_cmp by metis
  then have "r = (False, None)" "s' = s3"
    using assms(1,3,8) i l by (auto simp: UpdateRedfishStatusInfo_def Let_def split: prod.splits)
  with ev st2 show ?thesis by simp
qed

definition example_entry :: GoLogEntry where
  "example_entry = \<lparr>ge_Created = ''t2'', ge_Severity = ''OK'', ge_OemSensorType = [], ge_Message = ''boot''\<rparr>"

lemma example_poll_log: "\<exists>h'. GetLog readable_machine example_rc h = (Inr [example_entry], h')"
  by (simp add: GetLog_def GetManagerLog_def readable_machine_def red_calls example_manager_bmc_def example_entry_def)

lemma new_logs_not_recorded_witness:
  "\<exists>existing s'. UpdateRedfishStatusInfo (example_poll_env existing) ''h1'' example_con example_ctl = ((False, None), s')
     \<and> rsc_writes s' = [] \<and> rsc_events s' \<noteq> []"
proof -
  obtain m h2 where i: "GetInfo readable_machine example_rc [RConnect (config_of example_con)] = (Inr m, h2)"
    using readable_machine_info by blast
  obtain h3 where l: "GetLog readable_machine example_rc h2 = (Inr [example_entry], h3)" using example_poll_log by blast
  let ?e = "example_known\<lparr>rf_Status := (rf_Status example_known)\<lparr>r_Healthy := True, r_Info := m\<rparr>\<rparr>"
  let ?U = "UpdateRedfishStatusInfo (example_poll_env ?e) ''h1'' example_con example_ctl"
  have u: "?U = (fst ?U, snd ?U)" by simp
  have g: "ra_Get (example_poll_env ?e) ''h1'' = Inr ?e" "ra_red (example_poll_env ?e) = readable_machine"
    by (simp_all add: example_poll_env_def)
  have t: "last_log_time (rf_Status ?e) = []" "rsc_events example_ctl = []"
    by (simp_all add: last_log_time_def example_known_def deactivated_def zero_redfish_status_def zero_log_def
        example_ctl_def NewRedfishStatusController_def)
  from new_logs_not_recorded [OF g(1) _ _ _ _ _ _ u, of example_rc "[([], example_rc)]"
      "[RConnect (config_of example_con)]" m h2 "[example_entry]" h3]
  have "fst ?U = (False, None) \<and> rsc_writes (snd ?U) = [] \<and> rsc_events (snd ?U) \<noteq> []"
    using i l example_poll_client GetInfo_ok [OF i] t unfolding g(2) by (auto simp: example_entry_def)
  with u show ?thesis by metis
qed

text \<open>Reconciliation and the cache.\<close>

lemma update_cache: "rsc_cache (snd (UpdateRedfishStatusInfo env name d s)) = rsc_cache s"
proof -
  obtain l locks1 where "GetLock name (rsc_locks s) = (l, locks1)" by fastforce
  moreover obtain client c1 h1 where "NewClient (ra_red env) d (rsc_clients s) (rsc_hist s) = (client, c1, h1)"
    by (metis prod_cases3)
  ultimately show ?thesis
    by (auto simp: UpdateRedfishStatusInfo_def Let_def split: prod.splits sum.splits
        dest!: read_info_cases read_log_cases)
qed

lemma sync_cache: "rsc_cache (snd (sync_loop env syncData failed s)) = rsc_cache s"
proof (induction syncData arbitrary: failed s)
  case (Cons x xs)
  obtain item t where x: "x = (item, t)" by fastforce
  show ?case using Cons.IH update_cache [of env item t s] by (auto simp: x split: prod.splits option.splits)
qed simp

lemma wrapper_cache: "rsc_cache (snd (UpdateRedfishStatusInfoWrapper env name s)) = rsc_cache s"
  using sync_cache by (auto simp: UpdateRedfishStatusInfoWrapper_def Let_def split: prod.splits option.splits)
    (metis snd_conv)+

text \<open>Reconciliation keeps the cache of connections true to the API server: an object that is
  gone is removed; one that has an address is stored with its basic data and the credentials of its
  secret, even where reading the machine fails; an object without an address yet, an error of the API
  server and a secret that cannot be read leave the cache as it is. No other name is touched.\<close>

theorem RedfishReconcile_cache:
  assumes "\<And>obj. ra_Get env name = Inr obj \<Longrightarrow> om_Name (rf_Meta obj) = name"
  shows "RedfishCache_Get (rsc_cache (snd (RedfishReconcile env name s))) =
    (case ra_Get env name of
       Inl e \<Rightarrow> (RedfishCache_Get (rsc_cache s))(name := if IsNotFound e then None else RedfishCache_Get (rsc_cache s) name)
     | Inr obj \<Rightarrow>
         (case credentials env (r_Basic (rf_Status obj)) of
            Inr (u, p) \<Rightarrow> if b_IpAddr (r_Basic (rf_Status obj)) = [] then RedfishCache_Get (rsc_cache s)
              else (RedfishCache_Get (rsc_cache s))(name \<mapsto> con_of obj u p)
          | Inl _ \<Rightarrow> RedfishCache_Get (rsc_cache s)))"
proof (cases "ra_Get env name")
  case (Inl e)
  then show ?thesis
    by (auto simp: RedfishReconcile_def fun_eq_iff redfish_cache.get_del split: option.splits)
next
  case (Inr obj)
  have s': "snd (RedfishReconcile env name s) =
      (if b_IpAddr (r_Basic (rf_Status obj)) = [] then s else snd (processRedfishStatus env obj s))"
    using Inr by (auto simp: RedfishReconcile_def split: prod.splits option.splits)
  show ?thesis
  proof (cases "credentials env (r_Basic (rf_Status obj))")
    case (Inr up)
    obtain u p where up: "up = (u, p)" by fastforce
    have "rsc_cache (snd (processRedfishStatus env obj s)) = RedfishCache_Add name (con_of obj u p) (rsc_cache s)"
      using Inr up assms [OF \<open>ra_Get env name = Inr obj\<close>] wrapper_cache
      by (auto simp: processRedfishStatus_def Let_def)
    then show ?thesis
      using Inr up s' \<open>ra_Get env name = Inr obj\<close> redfish_cache.get_put [of "(name, con_of obj u p)"]
      by (auto simp: fun_eq_iff)
  qed (simp add: s' Inr processRedfishStatus_def)
qed

lemma RedfishReconcile_cache_witness:
  "RedfishCache_Get (rsc_cache (snd (RedfishReconcile (example_rs_env (\<lambda>n. Inr example_known)) ''10-0-0-5'' example_ctl)))
     ''10-0-0-5'' = Some (con_of example_known [] [])"
proof (subst RedfishReconcile_cache)
  show "om_Name (rf_Meta obj) = ''10-0-0-5''" if "ra_Get (example_rs_env (\<lambda>n. Inr example_known)) ''10-0-0-5'' = Inr obj" for obj
    using that by (auto simp: example_known_def deactivated_def new_meta_def)
  show "(case ra_Get (example_rs_env (\<lambda>n. Inr example_known)) ''10-0-0-5'' of
       Inl e \<Rightarrow> (RedfishCache_Get (rsc_cache example_ctl))(''10-0-0-5'' := if IsNotFound e then None
         else RedfishCache_Get (rsc_cache example_ctl) ''10-0-0-5'')
     | Inr obj \<Rightarrow>
         (case credentials (example_rs_env (\<lambda>n. Inr example_known)) (r_Basic (rf_Status obj)) of
            Inr (u, p) \<Rightarrow> if b_IpAddr (r_Basic (rf_Status obj)) = [] then RedfishCache_Get (rsc_cache example_ctl)
              else (RedfishCache_Get (rsc_cache example_ctl))(''10-0-0-5'' \<mapsto> con_of obj u p)
          | Inl _ \<Rightarrow> RedfishCache_Get (rsc_cache example_ctl))) ''10-0-0-5'' = Some (con_of example_known [] [])"
    by (simp add: credentials_def example_known_def deactivated_def zero_redfish_status_def zero_basic_def)
qed

end
