(* ===== verification/HttpServer.thy ===== *)
theory HttpServer
  imports ApiTypes GoText
begin

text \<open>
  The file server for PXE and ZTP (\<open>pkg/httpserver/server.go\<close>): its handler between the multiplexer and
  the file server of \<open>net/http\<close>, whose rules for cleaning and redirecting paths are modelled here, and
  its start and stop. URLs are paths without escapes; the tree below the root directory is a map.
\<close>

section \<open>Definitions\<close>

datatype tree_entry = RegularFile string | Directory

type_synonym tree = "string \<Rightarrow> tree_entry option"

datatype http_response =
    RedirectTo string
  | NotFoundPage
  | ServerError
  | Content string
  | Listing string

definition path_base :: "string \<Rightarrow> string" where
  "path_base p =
     (if p = [] then ''.''
      else let q = dropWhile (\<lambda>c. c = CHR ''/'') (rev p)
           in if q = [] then ''/'' else rev (takeWhile (\<lambda>c. c \<noteq> CHR ''/'') q))"

definition ends_with :: "string \<Rightarrow> string \<Rightarrow> bool" where
  "ends_with suf s \<longleftrightarrow> starts_with (rev suf) (rev s)"

text \<open>\<open>net/http\<close>: the file behind a name, with the redirects that make the URL of a directory end in a slash.\<close>

definition serveFile :: "tree \<Rightarrow> string \<Rightarrow> string \<Rightarrow> http_response" where
  "serveFile fs url name =
     (if ends_with ''/index.html'' url then RedirectTo ''./''
      else case fs name of
        None \<Rightarrow> NotFoundPage
      | Some Directory \<Rightarrow>
          if last url \<noteq> CHR ''/'' then RedirectTo (path_base url @ ''/'')
          else (let index = (if last name = CHR ''/'' then butlast name else name) @ ''/index.html'' in
                case fs index of
                  None \<Rightarrow> Listing name
                | Some Directory \<Rightarrow> Listing index
                | Some (RegularFile c) \<Rightarrow> Content c)
      | Some (RegularFile c) \<Rightarrow>
          if last url = CHR ''/'' then
            (let base = path_base url in
             if base = ''/'' \<or> base = ''.'' then ServerError else RedirectTo (''../'' @ base))
          else Content c)"

definition FileServer :: "tree \<Rightarrow> string \<Rightarrow> http_response" where
  "FileServer fs url =
     (let upath = (if starts_with ''/'' url then url else CHR ''/'' # url) in serveFile fs upath (path_clean upath))"

definition http_handler :: "tree \<Rightarrow> string \<Rightarrow> http_response" where
  "http_handler fs url = (let cleanPath = path_clean url in FileServer fs cleanPath)"

text \<open>\<open>net/http\<close>: the multiplexer redirects to the cleaned path, which keeps a slash at the end.\<close>

definition mux_clean :: "string \<Rightarrow> string" where
  "mux_clean p =
     (if p = [] then ''/''
      else let q = (if hd p = CHR ''/'' then p else CHR ''/'' # p); np = path_clean q
           in if last q = CHR ''/'' \<and> np \<noteq> ''/'' then np @ ''/'' else np)"

definition mux_serve :: "tree \<Rightarrow> string \<Rightarrow> http_response" where
  "mux_serve fs url = (if mux_clean url \<noteq> url then RedirectTo (mux_clean url) else http_handler fs url)"

text \<open>What a client asks for next when it is redirected.\<close>

definition resolve_ref :: "string \<Rightarrow> string \<Rightarrow> string" where
  "resolve_ref url ref =
     (if starts_with ''/'' ref then ref
      else mux_clean (rev (dropWhile (\<lambda>c. c \<noteq> CHR ''/'') (rev url)) @ ref))"

record httpServer =
  hv_Addr :: string
  hv_root :: string
  hv_stopOnce :: bool
  hv_cancelled :: bool

definition NewHttpServer :: "AgentConfig \<Rightarrow> httpServer" where
  "NewHttpServer config =
     \<lparr>hv_Addr = '':'' @ cf_HttpPort config, hv_root = cf_StoragePathHttp config, hv_stopOnce = False, hv_cancelled = False\<rparr>"

definition ErrServerClosed :: goerr where
  "ErrServerClosed = SysErr ''http: Server closed''"

text \<open>The end of \<open>ListenAndServe\<close>, none where it serves on.\<close>

definition HttpRun :: "goerr option \<Rightarrow> unit result" where
  "HttpRun ended =
     (case ended of None \<Rightarrow> Inr ()
      | Some e \<Rightarrow> if e \<noteq> ErrServerClosed then Inl (Panic ''HTTP server error'') else Inr ())"

definition HttpStop :: "goerr option \<Rightarrow> httpServer \<Rightarrow> unit result \<times> httpServer" where
  "HttpStop shutdown s =
     (if hv_stopOnce s then (Inr (), s)
      else let s1 = s\<lparr>hv_stopOnce := True, hv_cancelled := True\<rparr> in
           case shutdown of Some e \<Rightarrow> (Inl (Panic ''Error shutting down HTTP server''), s1) | None \<Rightarrow> (Inr (), s1))"

section \<open>Cleaned paths\<close>

definition good_elem :: "string \<Rightarrow> bool" where
  "good_elem e \<longleftrightarrow> e \<noteq> [] \<and> e \<noteq> ''.'' \<and> e \<noteq> ''..'' \<and> CHR ''/'' \<notin> set e"

text \<open>A rooted path without empty, \<open>.\<close> and \<open>..\<close> elements, and without a slash at the end.\<close>

definition rooted_path :: "string list \<Rightarrow> string" where
  "rooted_path es = CHR ''/'' # join_with ''/'' es"

lemma clean_elem_good: "CHR ''/'' \<notin> set e \<Longrightarrow> \<forall>x \<in> set st. good_elem x \<Longrightarrow> \<forall>x \<in> set (clean_elem True st e). good_elem x"
  by (cases st) (auto simp: good_elem_def)

lemma foldl_clean_good:
  "\<forall>e \<in> set es. CHR ''/'' \<notin> set e \<Longrightarrow> \<forall>e \<in> set st. good_elem e
   \<Longrightarrow> \<forall>e \<in> set (foldl (clean_elem True) st es). good_elem e"
proof (induction es arbitrary: st)
  case (Cons e es)
  have "\<forall>x \<in> set (clean_elem True st e). good_elem x" using clean_elem_good [of e st] Cons.prems by simp
  with Cons show ?case by (simp del: clean_elem.simps)
qed simp

lemma foldl_clean_push:
  "\<forall>e \<in> set es. good_elem e \<Longrightarrow> foldl (clean_elem True) st es = rev es @ st"
proof (induction es arbitrary: st)
  case (Cons e es)
  have "clean_elem True st e = e # st" using Cons.prems by (simp add: good_elem_def)
  with Cons show ?case by (simp del: clean_elem.simps)
qed simp

lemma path_clean_rooted:
  assumes "p \<noteq> []" "hd p = CHR ''/''"
  obtains es where "\<forall>e \<in> set es. good_elem e" "path_clean p = rooted_path es"
proof
  let ?st = "foldl (clean_elem True) [] (split_on CHR ''/'' p)"
  show "\<forall>e \<in> set (rev ?st). good_elem e"
    using foldl_clean_good [of "split_on CHR ''/'' p" "[]"] split_on_no_sep [of _ "CHR ''/''" p] by auto
  show "path_clean p = rooted_path (rev ?st)"
    using assms by (simp add: path_clean_def rooted_path_def Let_def)
qed

lemma split_rooted_path:
  assumes "\<forall>e \<in> set es. good_elem e"
  shows "split_on CHR ''/'' (rooted_path es) = [] # (if es = [] then [[]] else es)"
proof -
  have "split_on CHR ''/'' ([] @ CHR ''/'' # s) = [] # split_on CHR ''/'' s" for s
    by (rule split_on_append_sep) simp
  moreover have "es \<noteq> [] \<Longrightarrow> split_on CHR ''/'' (join_with [CHR ''/''] es) = es"
    using assms by (intro split_on_join) (auto simp: good_elem_def)
  ultimately show ?thesis by (simp add: rooted_path_def)
qed

lemma path_clean_rooted_path [simp]:
  assumes "\<forall>e \<in> set es. good_elem e"
  shows "path_clean (rooted_path es) = rooted_path es"
  using foldl_clean_push [OF assms, of "[]"] split_rooted_path [OF assms]
  by (auto simp: path_clean_def Let_def rooted_path_def)

lemma last_rooted_path:
  assumes "\<forall>e \<in> set es. good_elem e" "es \<noteq> []"
  shows "last (rooted_path es) \<noteq> CHR ''/''"
proof -
  have "join_with ''/'' es \<noteq> [] \<and> last (join_with ''/'' es) = last (last es)"
    using assms by (induction "''/''" es rule: join_with.induct) (auto simp: good_elem_def)
  moreover have "last (last es) \<noteq> CHR ''/''"
    using assms last_in_set [OF assms(2)] last_in_set [of "last es"] by (fastforce simp: good_elem_def)
  ultimately show ?thesis by (simp add: rooted_path_def)
qed

lemma rooted_path_snoc:
  obtains pre where "rooted_path (es @ [b]) = pre @ CHR ''/'' # b"
    "\<And>c. rooted_path (es @ [b, c]) = pre @ CHR ''/'' # b @ CHR ''/'' # c"
proof -
  have "\<exists>pre. \<forall>tl. tl \<noteq> [] \<longrightarrow> CHR ''/'' # join_with ''/'' (es @ tl) = pre @ CHR ''/'' # join_with ''/'' tl"
  proof (induction es)
    case (Cons e es)
    then obtain pre where "\<forall>tl. tl \<noteq> [] \<longrightarrow> CHR ''/'' # join_with ''/'' (es @ tl) = pre @ CHR ''/'' # join_with ''/'' tl" ..
    then show ?case by (intro exI [of _ "CHR ''/'' # e @ pre"]) (simp add: join_with_Cons)
  qed auto
  then obtain pre where "\<forall>tl. tl \<noteq> [] \<longrightarrow> rooted_path (es @ tl) = pre @ CHR ''/'' # join_with ''/'' tl"
    unfolding rooted_path_def ..
  then show ?thesis by (intro that [of pre]) simp_all
qed

lemma dropWhile_no_slash: "CHR ''/'' \<notin> set b \<Longrightarrow> b \<noteq> [] \<Longrightarrow> dropWhile (\<lambda>c. c = CHR ''/'') (rev b @ r) = rev b @ r"
  by (cases b rule: rev_cases) auto

lemma path_base_snoc:
  assumes "good_elem b"
  shows "path_base (pre @ CHR ''/'' # b) = b" "path_base (pre @ CHR ''/'' # b @ ''/'') = b"
  using assms dropWhile_no_slash [of b]
  by (auto simp: path_base_def good_elem_def Let_def takeWhile_append)

lemma mux_clean_fixed:
  assumes "mux_clean url = url" "url \<noteq> []"
  obtains es where "\<forall>e \<in> set es. good_elem e" "url = rooted_path es \<or> url = rooted_path es @ ''/'' \<and> es \<noteq> []"
    "path_clean url = rooted_path es"
proof -
  let ?q = "if hd url = CHR ''/'' then url else CHR ''/'' # url"
  obtain es where es: "\<forall>e \<in> set es. good_elem e" "path_clean ?q = rooted_path es"
    by (rule path_clean_rooted [of ?q]) (use assms(2) in auto)
  have u: "url = rooted_path es \<or> url = rooted_path es @ ''/'' \<and> rooted_path es \<noteq> ''/''"
    using assms es(2) by (auto simp: mux_clean_def Let_def split: if_splits)
  then have "hd url = CHR ''/''" by (auto simp: rooted_path_def)
  with es u show ?thesis by (intro that [of es]) (auto simp: rooted_path_def)
qed

text \<open>The file server sees cleaned paths only.\<close>

lemma FileServer_rooted_path:
  "\<forall>e \<in> set es. good_elem e \<Longrightarrow> FileServer fs (rooted_path es) = serveFile fs (rooted_path es) (rooted_path es)"
  using path_clean_rooted_path [of es] by (simp add: FileServer_def Let_def) (simp add: rooted_path_def)

lemma mux_serve_handled:
  assumes "mux_clean url = url" "url \<noteq> []"
  obtains es where "\<forall>e \<in> set es. good_elem e" "url = rooted_path es \<or> url = rooted_path es @ ''/'' \<and> es \<noteq> []"
    "mux_serve fs url = serveFile fs (rooted_path es) (rooted_path es)"
proof -
  from assms obtain es where es: "\<forall>e \<in> set es. good_elem e"
    "url = rooted_path es \<or> url = rooted_path es @ ''/'' \<and> es \<noteq> []" "path_clean url = rooted_path es"
    by (rule mux_clean_fixed)
  then show ?thesis
    using assms FileServer_rooted_path [of es] by (intro that [of es]) (simp_all add: mux_serve_def http_handler_def)
qed

lemma join_with_slash_end: "es \<noteq> [] \<Longrightarrow> join_with ''/'' (es @ [[]]) = join_with ''/'' es @ ''/''"
  by (induction "''/''" es rule: join_with.induct) auto

lemma path_clean_slash_end:
  assumes "\<forall>e \<in> set es. good_elem e" "es \<noteq> []"
  shows "path_clean (rooted_path es @ ''/'') = rooted_path es"
proof -
  have "rooted_path es @ ''/'' = join_with ''/'' ([] # es @ [[]])"
    using assms(2) join_with_slash_end [of es] by (simp add: join_with_Cons rooted_path_def)
  moreover have "split_on CHR ''/'' (join_with ''/'' ([] # es @ [[]])) = [] # es @ [[]]"
    using assms(1) by (intro split_on_join) (auto simp: good_elem_def)
  ultimately have "split_on CHR ''/'' (rooted_path es @ ''/'') = [] # es @ [[]]" by simp
  then show ?thesis
    using foldl_clean_push [OF assms(1), of "[]"] by (simp add: path_clean_def rooted_path_def)
qed

lemma mux_clean_rooted [simp]:
  assumes "\<forall>e \<in> set es. good_elem e"
  shows "mux_clean (rooted_path es) = rooted_path es"
    and "es \<noteq> [] \<Longrightarrow> mux_clean (rooted_path es @ ''/'') = rooted_path es @ ''/''"
proof -
  have h: "hd (rooted_path es) = CHR ''/''" "hd (rooted_path es @ ''/'') = CHR ''/''" "rooted_path es \<noteq> []"
    by (simp_all add: rooted_path_def)
  have n: "es \<noteq> [] \<Longrightarrow> rooted_path es \<noteq> ''/''"
    using assms last_rooted_path [OF assms] by fastforce
  show "mux_clean (rooted_path es) = rooted_path es"
    using h path_clean_rooted_path [OF assms] last_rooted_path [OF assms]
    by (cases "es = []") (simp_all add: mux_clean_def Let_def rooted_path_def)
  show "mux_clean (rooted_path es @ ''/'') = rooted_path es @ ''/''" if "es \<noteq> []"
    using h path_clean_slash_end [OF assms that] n [OF that] by (simp add: mux_clean_def Let_def)
qed

section \<open>Properties\<close>

definition safe_name :: "string \<Rightarrow> bool" where
  "safe_name f \<longleftrightarrow> starts_with ''/'' f \<and> ''..'' \<notin> set (split_on CHR ''/'' f)"

lemma starts_with_sep: "starts_with (u @ [c]) (w @ c # r) \<Longrightarrow> c \<notin> set u \<Longrightarrow> c \<notin> set w \<Longrightarrow> u = w"
proof (induction u arbitrary: w)
  case Nil
  then show ?case by (cases w) auto
next
  case (Cons a u)
  then show ?case by (cases w) auto
qed

lemma safe_rooted_path: "\<forall>e \<in> set es. good_elem e \<Longrightarrow> safe_name (rooted_path es)"
  unfolding safe_name_def split_rooted_path by (cases es) (auto simp: rooted_path_def good_elem_def)

lemma serveFile_cases:
  assumes "\<forall>e \<in> set es. good_elem e"
  shows "(\<forall>c. serveFile fs (rooted_path es) (rooted_path es) = Content c \<longrightarrow>
       (es \<noteq> [] \<and> fs (rooted_path es) = Some (RegularFile c)) \<or> (es = [] \<and> fs ''/index.html'' = Some (RegularFile c)))
    \<and> (\<forall>n. serveFile fs (rooted_path es) (rooted_path es) = Listing n \<longrightarrow> es = [])"
  using last_rooted_path [OF assms]
  by (cases "es = []") (auto simp: serveFile_def Let_def rooted_path_def [of "[]"] path_base_def split: if_splits option.splits tree_entry.splits)

text \<open>Whatever path is asked for, a file that is served is the one named by the path
  (a slash at its end is ignored), or the index of
  the root, its name has no \<open>..\<close> in it, and no directory but the root is listed.\<close>

theorem http_serves_named_files:
  "case mux_serve fs url of
     Content c \<Rightarrow> \<exists>f. safe_name f \<and> fs f = Some (RegularFile c) \<and> (url = f \<or> url = f @ ''/'' \<or> url = ''/'' \<and> f = ''/index.html'')
   | Listing n \<Rightarrow> url = ''/''
   | _ \<Rightarrow> True"
proof (cases "mux_clean url = url \<and> url \<noteq> []")
  case False
  have "mux_clean [] \<noteq> []" by (simp add: mux_clean_def)
  with False have "mux_clean url \<noteq> url" by (cases "url = []") simp_all
  then show ?thesis by (simp add: mux_serve_def)
next
  case True
  then obtain es where es: "\<forall>e \<in> set es. good_elem e" "url = rooted_path es \<or> url = rooted_path es @ ''/'' \<and> es \<noteq> []"
    "mux_serve fs url = serveFile fs (rooted_path es) (rooted_path es)"
    using mux_serve_handled [of url fs] by blast
  have "safe_name ''/index.html''" by (simp add: safe_name_def)
  moreover have "rooted_path [] = ''/''" by (simp add: rooted_path_def)
  ultimately show ?thesis
    using es serveFile_cases [OF es(1), of fs] safe_rooted_path [OF es(1)] unfolding es(3)
    by (cases "serveFile fs (rooted_path es) (rooted_path es)") auto
qed

text \<open>A directory below the root cannot be read: without a slash at its end its path is redirected to the
  path with one, and this is redirected to a directory of the same name inside the directory.\<close>

theorem http_directory_lost:
  assumes "\<forall>e \<in> set (es @ [b]). good_elem e" "fs (rooted_path (es @ [b])) = Some Directory" "b \<noteq> ''index.html''"
  shows "let d = rooted_path (es @ [b]) in
     mux_serve fs d = RedirectTo (b @ ''/'') \<and> resolve_ref d (b @ ''/'') = d @ ''/''
   \<and> mux_serve fs (d @ ''/'') = RedirectTo (b @ ''/'') \<and> resolve_ref (d @ ''/'') (b @ ''/'') = d @ ''/'' @ b @ ''/''"
proof -
  let ?d = "rooted_path (es @ [b])"
  have b: "good_elem b" and ne: "es @ [b] \<noteq> []" using assms(1) by simp_all
  obtain pre where d: "?d = pre @ CHR ''/'' # b" and dd: "rooted_path (es @ [b, b]) = pre @ CHR ''/'' # b @ CHR ''/'' # b"
    by (rule rooted_path_snoc [of es b]) blast
  have f: "\<not> ends_with ''/index.html'' ?d"
  proof
    assume "ends_with ''/index.html'' ?d"
    then have "starts_with (rev ''index.html'' @ ''/'') (rev b @ CHR ''/'' # rev pre)" by (simp add: ends_with_def d)
    then have "rev ''index.html'' = rev b" by (rule starts_with_sep) (use b in \<open>simp_all add: good_elem_def\<close>)
    then have "b = ''index.html''" by (metis rev_rev_ident)
    with assms(3) show False ..
  qed
  have m: "mux_clean ?d = ?d" "mux_clean (?d @ ''/'') = ?d @ ''/''" using mux_clean_rooted [OF assms(1)] ne by simp_all
  have s: "serveFile fs ?d ?d = RedirectTo (b @ ''/'')"
    using f assms(2) last_rooted_path [OF assms(1) ne] path_base_snoc(1) [OF b, of pre] d by (simp add: serveFile_def)
  have h: "http_handler fs ?d = serveFile fs ?d ?d" "http_handler fs (?d @ ''/'') = serveFile fs ?d ?d"
    using FileServer_rooted_path [OF assms(1)] path_clean_rooted_path [OF assms(1)] path_clean_slash_end [OF assms(1) ne]
    by (simp_all add: http_handler_def)
  have "mux_clean (rooted_path (es @ [b, b]) @ ''/'') = rooted_path (es @ [b, b]) @ ''/''"
    by (rule mux_clean_rooted(2)) (use assms(1) in simp_all)
  then have r: "mux_clean (?d @ ''/'' @ b @ ''/'') = ?d @ ''/'' @ b @ ''/''" by (simp add: d dd)
  have nb: "CHR ''/'' \<notin> set b" "b \<noteq> []" using b by (simp_all add: good_elem_def)
  have q: "\<not> starts_with ''/'' (b @ ''/'')" using nb by (cases b) auto
  have v1: "resolve_ref ?d (b @ ''/'') = mux_clean (?d @ ''/'')"
  proof -
    have "dropWhile (\<lambda>c. c \<noteq> CHR ''/'') (rev b @ CHR ''/'' # rev pre) = CHR ''/'' # rev pre"
      using nb(1) by (subst dropWhile_append2) auto
    then show ?thesis using q by (simp add: resolve_ref_def d)
  qed
  have v2: "resolve_ref (?d @ ''/'') (b @ ''/'') = mux_clean (?d @ ''/'' @ b @ ''/'')"
    using q by (simp add: resolve_ref_def)
  show ?thesis using s h m r v1 v2 by (simp add: mux_serve_def Let_def)
qed

definition example_tree :: tree where
  "example_tree = [''/iso'' \<mapsto> Directory, ''/iso/os.iso'' \<mapsto> RegularFile ''image'']"

lemma http_directory_lost_witness:
  "mux_serve example_tree ''/iso'' = RedirectTo ''iso/'' \<and> mux_serve example_tree ''/iso/'' = RedirectTo ''iso/''
   \<and> resolve_ref ''/iso/'' ''iso/'' = ''/iso/iso/''"
  using http_directory_lost [of "[]" "''iso''" example_tree]
  by (simp add: good_elem_def rooted_path_def example_tree_def Let_def)

end
