(* ===== verification/Startup.thy ===== *)
theory Startup
  imports AgentConfiguration SubnetManager BindingIpController SshStatusController RedfishStatusController HttpServer
begin

text \<open>
  The program itself (\<open>cmd/topohub/main.go\<close>): the order in which the clients, the manager, the webhooks
  and the controllers are set up, with an exit at the first error, and the main loop. Each call to the
  Kubernetes libraries is a step whose answer is a parameter and may depend on the steps before it.
\<close>

section \<open>Definitions\<close>

datatype start_step =
    BuildConfigFromFlags string
  | InClusterConfig
  | NewClientset
  | NewCrdClient
  | GetConfigOrDie
  | NewManager string string int string
  | SetupWebhook string
  | NewController string
  | SetupController string
  | AddHealthzCheck
  | AddReadyzCheck

record main_env =
  ma_probePort :: string
  ma_webhookPort :: string
  ma_metricsPort :: string
  ma_fails :: "start_step list \<Rightarrow> start_step \<Rightarrow> goerr option"
  ma_cfg :: cfg_env

text \<open>Step after step, with the steps done before; the first error ends it.\<close>

fun run_steps :: "main_env \<Rightarrow> start_step list \<Rightarrow> start_step list \<Rightarrow> unit result \<times> start_step list" where
  "run_steps env [] did = (Inr (), did)"
| "run_steps env (s # ss) did =
     (case ma_fails env did s of Some e \<Rightarrow> (Inl e, did) | None \<Rightarrow> run_steps env ss (did @ [s]))"

definition initClients :: "main_env \<Rightarrow> start_step list" where
  "initClients env =
     (let kubeconfig = cv_Getenv (ma_cfg env) ''KUBECONFIG'' in
      [if kubeconfig \<noteq> [] then BuildConfigFromFlags kubeconfig else InClusterConfig, NewClientset, NewCrdClient])"

definition webhook_steps :: "start_step list" where
  "webhook_steps = [SetupWebhook ''HostEndpoint'', SetupWebhook ''HostOperation'', SetupWebhook ''Subnet'',
     SetupWebhook ''BindingIp'', SetupWebhook ''RedfishStatus'', SetupWebhook ''SSHStatus'']"

definition controller_steps :: "start_step list" where
  "controller_steps = [SetupController ''subnet'', SetupController ''redfishstatus'',
     NewController ''secret'', SetupController ''secret'', NewController ''hostendpoint'', SetupController ''hostendpoint'',
     NewController ''hostoperation'', SetupController ''hostoperation'', SetupController ''sshstatus'', SetupController ''bindingip'']"

record topohub =
  th_config :: AgentConfig
  th_subnet :: subnetManager
  th_redfish :: redfishStatusController
  th_ssh :: sshStatusController
  th_binding :: bindingIPController
  th_http :: "httpServer option"
  th_redfishStopped :: bool
  th_sshStopped :: bool
  th_cancelled :: bool

definition manager_steps :: "main_env \<Rightarrow> AgentConfig \<Rightarrow> int \<Rightarrow> start_step list" where
  "manager_steps env config port =
     [GetConfigOrDie, NewManager ('':'' @ ma_metricsPort env) ('':'' @ ma_probePort env) port (cf_PodNamespace config)]
     @ webhook_steps @ controller_steps"

definition new_topohub :: "AgentConfig \<Rightarrow> topohub" where
  "new_topohub config = \<lparr>th_config = config, th_subnet = NewSubnetReconciler config,
     th_redfish = NewRedfishStatusController config, th_ssh = NewSSHStatusController config,
     th_binding = NewBindingIPController,
     th_http = (if cf_HttpEnabled config then Some (NewHttpServer config) else None),
     th_redfishStopped = False, th_sshStopped = False, th_cancelled = False\<rparr>"

definition parse_port :: "string \<Rightarrow> int result" where
  "parse_port s = (case parse_int64 s of Some p \<Rightarrow> Inr p
     | None \<Rightarrow> Inl (Errorf ''Failed to convert webhook port to int'' []))"

text \<open>Up to the start of the manager; an error is an exit with code 1.\<close>

definition main_setup :: "main_env \<Rightarrow> topohub result \<times> start_step list" where
  "main_setup env =
     then_do (run_steps env (initClients env) []) (\<lambda>_ did.
     then_do (fst (LoadAgentConfig (ma_cfg env)), did) (\<lambda>config did.
     then_do (parse_port (ma_webhookPort env), did) (\<lambda>port did.
     then_do (run_steps env (manager_steps env config port) did) (\<lambda>_ did.
     let th = new_topohub config in
     then_do (run_steps env [AddHealthzCheck, AddReadyzCheck] did) (\<lambda>_ did. (Inr th, did))))))"

datatype main_event = ManagerEnded "goerr option" | MainTick | MainSignal

datatype main_status = MainRunning | MainReturned | MainExit nat

text \<open>The main loop; the manager runs beside it and ends with or without an error.\<close>

fun main_loop :: "main_event list \<Rightarrow> topohub \<Rightarrow> main_status \<times> topohub" where
  "main_loop [] th = (MainRunning, th)"
| "main_loop (ManagerEnded (Some e) # evs) th = (MainExit 1, th)"
| "main_loop (ManagerEnded None # evs) th = main_loop evs th"
| "main_loop (MainTick # evs) th = main_loop evs th"
| "main_loop (MainSignal # evs) th =
     (MainReturned, th\<lparr>th_redfishStopped := True, th_sshStopped := True, th_cancelled := True\<rparr>)"

section \<open>Lemmas\<close>

definition all_pass :: "main_env \<Rightarrow> start_step list \<Rightarrow> start_step list \<Rightarrow> bool" where
  "all_pass env did ss \<longleftrightarrow> (\<forall>k < length ss. ma_fails env (did @ take k ss) (ss ! k) = None)"

lemma all_pass_Cons:
  "all_pass env did (s # ss) \<longleftrightarrow> ma_fails env did s = None \<and> all_pass env (did @ [s]) ss"
  unfolding all_pass_def by (auto simp: less_Suc_eq_0_disj)

lemma all_pass_append:
  "all_pass env did (ss @ ts) \<longleftrightarrow> all_pass env did ss \<and> all_pass env (did @ ss) ts"
  by (induction ss arbitrary: did) (auto simp: all_pass_Cons all_pass_def [of _ _ "[]"])

lemma run_steps_Inr [go_simps]: "run_steps env ss did = (Inr u, did') \<longleftrightarrow> all_pass env did ss \<and> did' = did @ ss"
  by (induction ss arbitrary: did) (auto simp: all_pass_Cons all_pass_def [of _ _ "[]"] split: option.splits)

text \<open>The steps done before an error passed.\<close>

lemma run_steps_Inl:
  "run_steps env ss did = (Inl e, did') \<Longrightarrow>
   \<exists>k < length ss. did' = did @ take k ss \<and> all_pass env did (take k ss) \<and> ma_fails env did' (ss ! k) = Some e"
proof (induction ss arbitrary: did)
  case (Cons s ss)
  show ?case
  proof (cases "ma_fails env did s")
    case None
    with Cons.prems have "run_steps env ss (did @ [s]) = (Inl e, did')" by simp
    from Cons.IH [OF this] obtain k where "k < length ss" "did' = (did @ [s]) @ take k ss"
      "all_pass env (did @ [s]) (take k ss)" "ma_fails env did' (ss ! k) = Some e" by blast
    with None show ?thesis by (intro exI [of _ "Suc k"]) (simp add: all_pass_Cons)
  next
    case (Some e')
    with Cons.prems show ?thesis by (intro exI [of _ 0]) (simp add: all_pass_def)
  qed
qed simp

text \<open>A signal does not stop the DHCP servers: nothing in the loop touches the subnet manager.\<close>

lemma main_loop_keeps_servers: "main_loop evs th = (st, th') \<Longrightarrow> th_subnet th' = th_subnet th"
  by (induction evs th rule: main_loop.induct) auto

definition start_order :: "main_env \<Rightarrow> AgentConfig \<Rightarrow> int \<Rightarrow> start_step list" where
  "start_order env config port = initClients env @ manager_steps env config port @ [AddHealthzCheck, AddReadyzCheck]"

text \<open>The program comes up exactly if its configuration loads, the webhook port is a number and no step fails.\<close>

lemma main_setup_iff:
  "main_setup env = (Inr th, did) \<longleftrightarrow>
   (\<exists>config port h. LoadAgentConfig (ma_cfg env) = (Inr config, h) \<and> parse_int64 (ma_webhookPort env) = Some port
     \<and> all_pass env [] (start_order env config port) \<and> did = start_order env config port \<and> th = new_topohub config)"
proof -
  have l: "fst (LoadAgentConfig (ma_cfg env)) = Inr c \<longleftrightarrow> (\<exists>h. LoadAgentConfig (ma_cfg env) = (Inr c, h))" for c
    by (cases "LoadAgentConfig (ma_cfg env)") auto
  have p: "parse_port s = Inr n \<longleftrightarrow> parse_int64 s = Some n" for s n by (simp add: parse_port_def split: option.splits)
  have "main_setup env = (Inr th, did) \<longleftrightarrow>
      (\<exists>config port. fst (LoadAgentConfig (ma_cfg env)) = Inr config \<and> parse_port (ma_webhookPort env) = Inr port
       \<and> all_pass env [] (initClients env) \<and> all_pass env (initClients env) (manager_steps env config port)
       \<and> all_pass env (initClients env @ manager_steps env config port) [AddHealthzCheck, AddReadyzCheck]
       \<and> did = start_order env config port \<and> th = new_topohub config)"
    by (auto simp: main_setup_def go_simps start_order_def Let_def simp del: run_steps.simps)
  then show ?thesis by (auto simp: l p start_order_def all_pass_append)
qed

definition before_controllers :: "start_step list \<Rightarrow> start_step list" where
  "before_controllers did = takeWhile (\<lambda>s. case s of SetupController _ \<Rightarrow> False | _ \<Rightarrow> True) did"

lemma start_order_split:
  "start_order env config port = (initClients env @ take 2 (manager_steps env config port) @ webhook_steps)
     @ controller_steps @ [AddHealthzCheck, AddReadyzCheck]"
  by (simp add: start_order_def manager_steps_def numeral_2_eq_2)

lemma start_order_webhooks:
  "before_controllers (start_order env config port) = initClients env @ take 2 (manager_steps env config port) @ webhook_steps"
proof -
  have "\<forall>s \<in> set (initClients env @ take 2 (manager_steps env config port) @ webhook_steps).
      case s of SetupController _ \<Rightarrow> False | _ \<Rightarrow> True"
    by (simp add: initClients_def manager_steps_def webhook_steps_def numeral_2_eq_2 Let_def)
  then show ?thesis
    unfolding before_controllers_def start_order_split by (subst takeWhile_append2) (auto simp: controller_steps_def)
qed

lemma start_order_contents:
  "SetupWebhook ` {''HostEndpoint'', ''HostOperation'', ''Subnet'', ''BindingIp'', ''RedfishStatus'', ''SSHStatus''}
     \<subseteq> set (before_controllers (start_order env config port))"
  "SetupController ` {''subnet'', ''redfishstatus'', ''secret'', ''hostendpoint'', ''hostoperation'', ''sshstatus'', ''bindingip''}
     \<subseteq> set (start_order env config port)"
  unfolding start_order_webhooks unfolding start_order_split by (simp_all add: webhook_steps_def controller_steps_def)

lemma start_order_distinct: "distinct (start_order env config port)"
  by (simp add: start_order_def initClients_def manager_steps_def webhook_steps_def controller_steps_def Let_def)

section \<open>Properties\<close>

text \<open>When the program has come up, no step of its start failed and none was done twice, all webhooks
  were in place before the first controller and all controllers are there, every part holds the configuration that
  was loaded, the file server is there exactly if the configuration enables it and serves its directory, and nothing
  is stopped.\<close>

theorem main_setup_ok:
  assumes "main_setup env = (Inr th, did)"
  shows "fst (LoadAgentConfig (ma_cfg env)) = Inr (th_config th)
    \<and> (\<forall>k < length did. ma_fails env (take k did) (did ! k) = None) \<and> distinct did
    \<and> SetupWebhook ` {''HostEndpoint'', ''HostOperation'', ''Subnet'', ''BindingIp'', ''RedfishStatus'', ''SSHStatus''}
        \<subseteq> set (before_controllers did)
    \<and> SetupController ` {''subnet'', ''redfishstatus'', ''secret'', ''hostendpoint'', ''hostoperation'', ''sshstatus'', ''bindingip''}
        \<subseteq> set did
    \<and> sm_config (th_subnet th) = th_config th \<and> rsc_config (th_redfish th) = th_config th
    \<and> ssc_config (th_ssh th) = th_config th
    \<and> (case th_http th of None \<Rightarrow> \<not> cf_HttpEnabled (th_config th)
       | Some srv \<Rightarrow> cf_HttpEnabled (th_config th) \<and> hv_root srv = cf_StoragePathHttp (th_config th) \<and> \<not> hv_cancelled srv)
    \<and> \<not> th_redfishStopped th \<and> \<not> th_sshStopped th \<and> \<not> th_cancelled th"
proof -
  obtain config port h where c: "LoadAgentConfig (ma_cfg env) = (Inr config, h)" "all_pass env [] (start_order env config port)"
    "did = start_order env config port" "th = new_topohub config"
    using assms unfolding main_setup_iff by blast
  show ?thesis
    using c start_order_contents [of env config port] start_order_distinct [of env config port]
    by (simp add: new_topohub_def NewSubnetReconciler_def NewRedfishStatusController_def NewSSHStatusController_def
        NewHttpServer_def all_pass_def)
qed

definition example_main :: main_env where
  "example_main = \<lparr>ma_probePort = ''8081'', ma_webhookPort = ''8082'', ma_metricsPort = ''8083'',
     ma_fails = (\<lambda>_ _. None), ma_cfg = example_cfg_env\<rparr>"

lemma example_main_up: "\<exists>config did. main_setup example_main = (Inr (new_topohub config), did)"
proof -
  have "case fst (LoadAgentConfig example_cfg_env) of Inl _ \<Rightarrow> False | Inr _ \<Rightarrow> True" by code_simp
  then obtain config h where l: "LoadAgentConfig (ma_cfg example_main) = (Inr config, h)"
    by (cases "LoadAgentConfig example_cfg_env") (auto simp: example_main_def split: sum.splits)
  have a: "all_pass example_main [] ss" for ss by (simp add: all_pass_def example_main_def)
  have p: "parse_int64 (ma_webhookPort example_main) = Some 8082" by code_simp
  have "main_setup example_main = (Inr (new_topohub config), start_order example_main config 8082)"
    unfolding main_setup_iff by (intro exI conjI) (rule l p a refl)+
  then show ?thesis by blast
qed

lemma main_setup_ok_witness:
  "\<exists>th did. main_setup example_main = (Inr th, did) \<and> distinct did \<and> rsc_config (th_redfish th) = th_config th"
proof -
  obtain config did where m: "main_setup example_main = (Inr (new_topohub config), did)" using example_main_up by blast
  have d: "distinct did" using main_setup_ok [OF m] by (elim conjE) assumption
  have r: "rsc_config (th_redfish (new_topohub config)) = th_config (new_topohub config)"
    using main_setup_ok [OF m] by (elim conjE) assumption
  show ?thesis by (intro exI conjI) (rule m d r)+
qed

end
