(* ===== verification/CommandLine.thy ===== *)
theory CommandLine
  imports Prelude
begin

text \<open>
  The command line of the agent (\<open>main\<close> in \<open>cmd/topohub/main.go\<close>): its seven string flags with their
  defaults, and \<open>flag.Parse\<close> on them, which ends the program on a line it cannot read.
\<close>

section \<open>Flags\<close>

text \<open>A flag set: the flags that are declared and their values.\<close>

definition main_flags :: "(string, string) gomap" where
  "main_flags = [(''health-probe-port'', ''8081''), (''webhook-port'', ''8082''), (''metrics-port'', ''8083''),
     (''pyroscope-address'', ''''), (''pyroscope-tag'', ''''), (''pprof-address'', ''''), (''pprof-port'', '''')]"

definition flag_value :: "(string, string) gomap \<Rightarrow> string \<Rightarrow> string" where
  "flag_value flags name = (case gm_get flags name of None \<Rightarrow> [] | Some v \<Rightarrow> v)"

datatype flag_error = ErrHelp | BadFlag string | NotDefined string | NeedsArgument string

text \<open>The text of a flag without its one or two dashes, and its name and value.\<close>

definition flag_text :: "string \<Rightarrow> string" where
  "flag_text s = (if s ! 1 = CHR ''-'' then drop 2 s else drop 1 s)"

definition flag_name :: "string \<Rightarrow> string" where
  "flag_name t = takeWhile (\<lambda>c. c \<noteq> CHR ''='') t"

definition flag_given :: "string \<Rightarrow> string" where
  "flag_given t = drop (Suc (length (flag_name t))) t"

text \<open>\<open>parseOne\<close> until the first argument that is no flag: the values, and the arguments that are left.\<close>

fun parse_flags :: "(string, string) gomap \<Rightarrow> string list \<Rightarrow> flag_error + ((string, string) gomap \<times> string list)" where
  "parse_flags flags [] = Inr (flags, [])"
| "parse_flags flags (s # args) =
     (if length s < 2 \<or> hd s \<noteq> CHR ''-'' then Inr (flags, s # args)
      else if s = ''--'' then Inr (flags, args)
      else
        let t = flag_text s; name = flag_name t in
        if t = [] \<or> hd t = CHR ''-'' \<or> hd t = CHR ''='' then Inl (BadFlag s)
        else if gm_get flags name = None then
          Inl (if name = ''help'' \<or> name = ''h'' then ErrHelp else NotDefined name)
        else if CHR ''='' \<in> set t then parse_flags (gm_put name (flag_given t) flags) args
        else (case args of [] \<Rightarrow> Inl (NeedsArgument name)
              | v # rest \<Rightarrow> parse_flags (gm_put name v flags) rest))"

text \<open>The status the program ends with: the flag set is \<open>ExitOnError\<close>.\<close>

fun flag_exit :: "flag_error \<Rightarrow> nat" where
  "flag_exit ErrHelp = 0"
| "flag_exit _ = 2"

section \<open>Lemmas\<close>

text \<open>A flag and its value in one argument, and in two.\<close>

definition one_arg :: "string \<times> string \<Rightarrow> string" where
  "one_arg p = ''-'' @ fst p @ ''='' @ snd p"

definition two_args :: "string \<times> string \<Rightarrow> string list" where
  "two_args p = [''--'' @ fst p, snd p]"

definition good_name :: "string \<Rightarrow> bool" where
  "good_name n \<longleftrightarrow> n \<noteq> [] \<and> hd n \<noteq> CHR ''-'' \<and> CHR ''='' \<notin> set n"

lemma good_main_flag: "gm_get main_flags n \<noteq> None \<Longrightarrow> good_name n"
  by (auto simp: main_flags_def good_name_def split: if_splits)

lemma flag_name_of: "CHR ''='' \<notin> set n \<Longrightarrow> flag_name (n @ CHR ''='' # v) = n"
  by (induction n) (auto simp: flag_name_def)

lemma flag_name_whole: "CHR ''='' \<notin> set n \<Longrightarrow> flag_name n = n"
  by (induction n) (auto simp: flag_name_def)

lemma good_name_parts:
  assumes "good_name n"
  shows "n \<noteq> []" "hd n \<noteq> CHR ''-''" "hd n \<noteq> CHR ''=''" "CHR ''='' \<notin> set n"
  using assms by (auto simp: good_name_def) (metis hd_in_set)

lemma parse_one_arg:
  assumes "good_name n" "gm_get flags n \<noteq> None"
  shows "parse_flags flags (one_arg (n, v) # args) = parse_flags (gm_put n v flags) args"
proof -
  note g = good_name_parts [OF assms(1)]
  obtain w where w: "gm_get flags n = Some w" using assms(2) by blast
  have s: "\<not> length (one_arg (n, v)) < 2" "hd (one_arg (n, v)) = CHR ''-''" "one_arg (n, v) \<noteq> ''--''"
    "flag_text (one_arg (n, v)) = n @ CHR ''='' # v"
    using g by (cases n; simp add: one_arg_def flag_text_def)+
  have t: "flag_name (n @ CHR ''='' # v) = n" "flag_given (n @ CHR ''='' # v) = v"
    by (simp_all add: flag_given_def flag_name_of [OF g(4)])
  show ?thesis using g w by (simp add: s t Let_def)
qed

lemma parse_two_args:
  assumes "good_name n" "gm_get flags n \<noteq> None"
  shows "parse_flags flags (two_args (n, v) @ args) = parse_flags (gm_put n v flags) args"
proof -
  note g = good_name_parts [OF assms(1)]
  obtain w where w: "gm_get flags n = Some w" using assms(2) by blast
  have t: "flag_text (CHR ''-'' # CHR ''-'' # n) = n" by (simp add: flag_text_def)
  show ?thesis using g w by (simp add: two_args_def t flag_name_whole [OF g(4)] Let_def)
qed

text \<open>What was written is what is read: the last value of a flag counts, its default when it is not given.\<close>

lemma parse_flags_roundtrip:
  assumes "\<forall>p \<in> set ps. good_name (fst p) \<and> gm_get flags (fst p) \<noteq> None"
  shows "parse_flags flags (map one_arg ps) = Inr (fold (\<lambda>p. gm_put (fst p) (snd p)) ps flags, [])"
  using assms
proof (induction ps arbitrary: flags)
  case (Cons p ps)
  obtain n v where p: "p = (n, v)" by (cases p)
  have "\<forall>q \<in> set ps. good_name (fst q) \<and> gm_get (gm_put n v flags) (fst q) \<noteq> None"
    using Cons.prems by simp
  from Cons.IH [OF this] Cons.prems show ?case by (simp add: p parse_one_arg del: parse_flags.simps(2))
qed simp

text \<open>The flags stay those that are declared.\<close>

lemma parse_flags_keys:
  "parse_flags flags args = Inr (flags', rest) \<Longrightarrow> fst ` set flags' = fst ` set flags"
proof (induction flags args rule: parse_flags.induct)
  case (2 flags s args)
  let ?t = "flag_text s"
  let ?n = "flag_name ?t"
  show ?case
  proof (cases "length s < 2 \<or> hd s \<noteq> CHR ''-'' \<or> s = ''--''")
    case False
    then have f: "\<not> (?t = [] \<or> hd ?t = CHR ''-'' \<or> hd ?t = CHR ''='')" "gm_get flags ?n \<noteq> None"
      using "2.prems" by (simp_all add: Let_def split: if_splits)
    then obtain w where w: "gm_get flags ?n = Some w" by blast
    from f(2) have k: "insert ?n (fst ` set flags) = fst ` set flags" by (auto simp: gm_keys_dom)
    show ?thesis
    proof (cases "CHR ''='' \<in> set ?t")
      case True
      with False f(1) w "2.prems" "2.IH"(1) [OF _ _ refl refl] k show ?thesis by (simp add: Let_def)
    next
      case n: False
      with False f(1) w "2.prems" "2.IH"(2) [OF _ _ refl refl] k show ?thesis by (cases args) (simp_all add: Let_def)
    qed
  qed (use "2.prems" in \<open>auto split: if_splits\<close>)
qed simp

end
