(* ===== verification/Diagnostics.thy ===== *)
theory Diagnostics
  imports Prelude GoText
begin

text \<open>
  The logger (\<open>pkg/log/log.go\<close>) and the profiling (\<open>pkg/debug\<close>), as the program sets them up at its
  start. Building a logger, serving HTTP and pushing profiles belong to libraries: here is what they are
  asked for.
\<close>

section \<open>The logger\<close>

datatype zap_level = DebugLevel | InfoLevel | ErrorLevel

record zap_Config =
  zc_Level :: zap_level
  zc_Development :: bool
  zc_Encoding :: string
  zc_OutputPaths :: "string list"
  zc_ErrorOutputPaths :: "string list"

definition default_level :: "string \<Rightarrow> string" where
  "default_level logLevel = (if logLevel = [] then ''debug'' else logLevel)"

definition parse_level :: "string \<Rightarrow> zap_level" where
  "parse_level logLevel =
     (let l = to_lower logLevel in
      if l = ''debug'' then DebugLevel else if l = ''info'' then InfoLevel
      else if l = ''error'' then ErrorLevel else DebugLevel)"

definition zap_config :: "zap_level \<Rightarrow> zap_Config" where
  "zap_config level = \<lparr>zc_Level = level, zc_Development = True, zc_Encoding = ''console'',
     zc_OutputPaths = [''stdout''], zc_ErrorOutputPaths = [''stderr'']\<rparr>"

text \<open>The logger and its first message; \<open>None\<close> is the panic when it cannot be built.\<close>

definition InitStdoutLogger :: "(zap_Config \<Rightarrow> 'l result) \<Rightarrow> string \<Rightarrow> ('l \<times> string) option" where
  "InitStdoutLogger build logLevel =
     (let l = default_level logLevel in
      case build (zap_config (parse_level l)) of
        Inl _ \<Rightarrow> None
      | Inr logger \<Rightarrow> Some (logger, ''Logger initialized with level: '' @ l))"

text \<open>A level that is not known logs everything, as none does.\<close>

lemma unknown_level_debug:
  "parse_level (default_level l) \<noteq> DebugLevel \<longleftrightarrow> to_lower l = ''info'' \<or> to_lower l = ''error''"
  by (simp add: parse_level_def default_level_def Let_def to_lower_def lower_char_def)

section \<open>Profiling\<close>

datatype pprof_handler = PprofIndex | PprofCmdline | PprofProfile | PprofSymbol | PprofTrace

definition ReadHeaderTimeout :: int where
  "ReadHeaderTimeout = 32 * 10 ^ 9"

definition installHandlerForPProf :: "(string, pprof_handler) gomap \<Rightarrow> (string, pprof_handler) gomap" where
  "installHandlerForPProf mux =
     mux @ [(''/debug/pprof/'', PprofIndex), (''/debug/pprof/cmdline'', PprofCmdline), (''/debug/pprof/profile'', PprofProfile),
            (''/debug/pprof/symbol'', PprofSymbol), (''/debug/pprof/trace'', PprofTrace)]"

text \<open>\<open>net.JoinHostPort\<close>: an address with colons goes in brackets.\<close>

definition JoinHostPort :: "string \<Rightarrow> string \<Rightarrow> string" where
  "JoinHostPort host port =
     (if CHR '':'' \<in> set host then ''['' @ host @ '']:'' @ port else host @ '':'' @ port)"

record http_Server =
  hs_Addr :: string
  hs_Handler :: "(string, pprof_handler) gomap"
  hs_ReadHeaderTimeout :: int

definition RunPProf :: "string \<Rightarrow> string \<Rightarrow> http_Server option" where
  "RunPProf addr port =
     (if port = [] then None
      else Some \<lparr>hs_Addr = JoinHostPort addr port, hs_Handler = installHandlerForPProf [],
                 hs_ReadHeaderTimeout = ReadHeaderTimeout\<rparr>)"

text \<open>\<open>http.ServeMux\<close> registers no pattern twice.\<close>

lemma installHandlerForPProf_ok: "gm_ok (installHandlerForPProf [])"
  by (simp add: installHandlerForPProf_def)

datatype profile_type = ProfileCPU | ProfileInuseObjects | ProfileAllocObjects | ProfileInuseSpace | ProfileAllocSpace
  | ProfileGoroutines | ProfileMutexCount | ProfileMutexDuration | ProfileBlockCount | ProfileBlockDuration

record pyroscope_Config =
  py_ApplicationName :: string
  py_ServerAddress :: string
  py_Tags :: "(string, string) gomap"
  py_ProfileTypes :: "profile_type list"

text \<open>\<open>filepath.Base\<close>: trailing slashes go, then everything to the last slash.\<close>

definition filepath_Base :: "string \<Rightarrow> string" where
  "filepath_Base path =
     (if path = [] then ''.''
      else let p = rev (dropWhile (\<lambda>c. c = CHR ''/'') (rev path));
               b = rev (takeWhile (\<lambda>c. c \<noteq> CHR ''/'') (rev p))
           in if b = [] then ''/'' else b)"

text \<open>The rates of the mutex and block profiles and what the profiler is started with, if an address is given.\<close>

definition RunPyroscope :: "string \<Rightarrow> string \<Rightarrow> string \<Rightarrow> (nat \<times> nat \<times> pyroscope_Config) option" where
  "RunPyroscope arg0 serverAddr pyroscopeTag =
     (if serverAddr \<noteq> [] then
        Some (5, 5, \<lparr>py_ApplicationName = filepath_Base arg0, py_ServerAddress = serverAddr, py_Tags = [(''node'', pyroscopeTag)],
          py_ProfileTypes = [ProfileCPU, ProfileInuseObjects, ProfileAllocObjects, ProfileInuseSpace, ProfileAllocSpace,
            ProfileGoroutines, ProfileMutexCount, ProfileMutexDuration, ProfileBlockCount, ProfileBlockDuration]\<rparr>)
      else None)"

text \<open>The name of the application has no slash, unless the path is nothing but slashes.\<close>

lemma filepath_Base_no_slash: "filepath_Base path = ''/'' \<or> CHR ''/'' \<notin> set (filepath_Base path)"
  by (auto simp: filepath_Base_def Let_def dest: set_takeWhileD)

end
