(* ===== verification/Delivery.thy ===== *)
theory Delivery
  imports SubnetManager BindingIpController RedfishDhcp
begin

text \<open>
  The way of a binding through three components: the binding controller announces it on a channel
  that the subnet manager reads (\<open>main.go\<close> hands the channels of \<open>GetBindingIPEvents\<close> to
  \<open>NewBindingIPController\<close>), the manager hands it to the server of the subnet, and the monitor of that
  server writes it to the file \<open>dnsmasq\<close> reads. A binding may come from a lease: the Redfish status
  controller creates it for a client that is to keep its address.
\<close>

section \<open>The monitor works off its queue\<close>

definition writable_info :: "BindingIPInfo \<Rightarrow> bool" where
  "writable_info i \<longleftrightarrow> writable [(bd_IPAddr i, binding_client i)]"

text \<open>A server whose process runs, whose file holds its bindings, and whose bindings can be written.\<close>

definition healthy :: "mon_state \<Rightarrow> bool" where
  "healthy st \<longleftrightarrow> synced st \<and> dv_cmd (mo_s st) \<and> writable (dv_currentManualBindingClients (mo_s st))
     \<and> (\<forall>i \<in> set (dv_addedBindingIp (mo_s st)). writable_info i)"

lemma writable_put: "writable m \<Longrightarrow> writable [(ip, c)] \<Longrightarrow> writable (gm_put ip c m)"
  unfolding writable_def using set_gm_put_subset [of ip c m] by fastforce

lemma writable_after_added:
  assumes "writable (dv_currentManualBindingClients s)" "dv_addedBindingIp s = i # q" "writable_info i"
  shows "writable (bindings_after AddedBindingEvent s)"
  using assms writable_put [of "dv_currentManualBindingClients s" "bd_IPAddr i" "binding_client i"]
  by (auto simp: bindings_after_def add_binding_def writable_info_def Let_def split: option.splits)

lemma added_turn_going:
  assumes "monitor_turn env AddedBindingEvent st = (r, st')" "me_os env = (\<lambda>_. None)" "dv_cmd (mo_s st)"
  shows "r = Going"
proof -
  obtain sel st1 where s: "select_case env AddedBindingEvent st = (sel, st1)"
    by (cases "select_case env AddedBindingEvent st")
  have c: "dv_cmd (mo_s st1)" using select_case_bindings [OF s] assms(3) by simp
  have "UpdateDhcpBindings (\<lambda>_. None) fs m = (Inr (), snd (UpdateDhcpBindings (\<lambda>_. None) fs m))" for fs m
    using UpdateDhcpBindings_no_failure by (metis prod.collapse)
  then have "sel = SelContinue \<or> sel = SelFlags (no_flags\<lparr>needReload := True\<rparr>)"
    using s assms(2)
    by (auto simp: select_case_def binding_case_def Let_def split: list.splits option.splits prod.splits sum.splits)
      (metis prod.inject sum.distinct(1))+
  then show ?thesis
    using assms(1) no_crash_without_panic [OF c] by (auto simp: monitor_turn_def s)
qed

lemma added_turn_healthy:
  assumes "monitor_turn env AddedBindingEvent st = (r, st')" "me_os env = (\<lambda>_. None)" "healthy st"
    and "dv_addedBindingIp (mo_s st) = i # q"
  shows "r = Going \<and> healthy st' \<and> dv_addedBindingIp (mo_s st') = q"
proof -
  note t = monitor_turn_bindings [OF assms(1)]
  have "writable (dv_currentManualBindingClients (mo_s st'))"
    using t writable_after_added [of "mo_s st" i q] assms(3,4) by (simp add: healthy_def)
  then show ?thesis
    using t assms(3,4) monitor_turn_synced [OF assms(1,2)] added_turn_going [OF assms(1,2)]
    by (auto simp: healthy_def)
qed

lemma added_turn_binds:
  assumes "monitor_turn env AddedBindingEvent st = (r, st')" "dv_addedBindingIp (mo_s st) = i # q"
  shows "\<exists>c. gm_get (dv_currentManualBindingClients (mo_s st')) (bd_IPAddr i) = Some c \<and> dc_MAC c = bd_MacAddr i"
  using monitor_turn_bindings [OF assms(1)] assms(2)
  by (auto simp: bindings_after_def add_binding_def binding_client_def Let_def split: option.splits)

lemma monitor_works_off:
  assumes "healthy st" "dv_addedBindingIp (mo_s st) = q" "q \<noteq> []" "me_os env = (\<lambda>_. None)"
  shows "\<exists>st' c. monitor (replicate (length q) (env, AddedBindingEvent)) st = (Going, st') \<and> healthy st'
    \<and> gm_get (dv_currentManualBindingClients (mo_s st')) (bd_IPAddr (last q)) = Some c \<and> dc_MAC c = bd_MacAddr (last q)"
  using assms(1-3)
proof (induction q arbitrary: st)
  case (Cons i q)
  obtain r st1 where t: "monitor_turn env AddedBindingEvent st = (r, st1)"
    by (cases "monitor_turn env AddedBindingEvent st")
  have h: "r = Going" "healthy st1" "dv_addedBindingIp (mo_s st1) = q"
    using added_turn_healthy [OF t assms(4) Cons.prems(1,2)] by simp_all
  show ?case
  proof (cases "q = []")
    case True
    with t h added_turn_binds [OF t Cons.prems(2)] show ?thesis by auto
  next
    case False
    with t h Cons.IH [OF h(2,3)] show ?thesis by auto
  qed
qed simp

section \<open>The manager hands over its queue\<close>

lemma srv_UpdateBindingIpEvents_twice:
  "srv_UpdateBindingIpEvents b [] (srv_UpdateBindingIpEvents a [] st) = srv_UpdateBindingIpEvents (a @ b) [] st"
  by (simp add: srv_UpdateBindingIpEvents_def UpdateBindingIpEvents_def)

lemma srv_UpdateBindingIpEvents_none: "srv_UpdateBindingIpEvents [] [] st = st"
  by (simp add: srv_UpdateBindingIpEvents_def UpdateBindingIpEvents_def)

lemma manager_hands_over:
  assumes "sm_addedBindingIp m = q" "gm_get (sm_servers m) k = Some srv" "k \<noteq> []"
  shows "gm_get (sm_servers (fold processBindingIpEvents (replicate (length q) TakeAdded) m)) k
    = Some (srv_UpdateBindingIpEvents (filter (\<lambda>i. bd_Subnet i = k) q) [] srv)"
  using assms(1,2)
proof (induction q arbitrary: m srv)
  case Nil
  then show ?case by (simp add: srv_UpdateBindingIpEvents_none)
next
  case (Cons i q)
  let ?m = "processBindingIpEvents TakeAdded m"
  have q: "sm_addedBindingIp ?m = q" using Cons.prems(1) by (simp add: Let_def split: option.splits)
  have "gm_get (sm_servers ?m) k =
      Some (srv_UpdateBindingIpEvents (filter (\<lambda>i. bd_Subnet i = k) [i]) [] srv)"
    using Cons.prems assms(3) by (auto simp: srv_UpdateBindingIpEvents_none Let_def split: option.splits)
  from Cons.IH [OF q this] show ?case
    by (simp add: srv_UpdateBindingIpEvents_twice del: processBindingIpEvents.simps)
qed

section \<open>The binding in the file\<close>

text \<open>The manager with the channels that a reconciliation of the binding controller has filled.\<close>

definition channels_of :: "bindingIPController \<Rightarrow> subnetManager \<Rightarrow> subnetManager" where
  "channels_of bc m = m\<lparr>sm_addedBindingIp := bc_addedBindingIp bc, sm_deletedBindingIp := bc_deletedBindingIp bc\<rparr>"

lemma healthy_file:
  assumes "healthy st" "gm_get (dv_currentManualBindingClients (mo_s st)) ip = Some c"
  shows "\<exists>text. mo_fs st (dv_HostIpBindingsConfigPath (mo_s st)) = Some text 
    \<and> binding_line (dc_MAC c) ip \<in> set (split_on nl text)"
  using assms bindings_text_has [OF _ map_of_SomeD [OF assms(2)]]
  by (simp add: healthy_def synced_def)

lemma BindingReconcile_announces:
  assumes "BindingReconcile env name bc = ((requeue_after 60, None), w, bc')" "be_Get env = Inr b" "announces bc b"
  shows "bc_addedBindingIp bc' = bc_addedBindingIp bc @ [info_of b]"
proof -
  have "bc' = processBindingIP b bc"
    using assms(1,2)
    by (auto simp: BindingReconcile_def requeue_after_def requeue_now_def split: prod.splits option.splits if_splits)
  with assms(3) show ?thesis by (simp add: processBindingIP_added)
qed

text \<open>The chain from the binding controller to the file.\<close>

lemma binding_delivered:
  assumes "BindingReconcile env name bc = ((requeue_after 60, None), w, bc')"
    and "be_Get env = Inr b" "announces bc b" "bs_Subnet (bi_Spec b) \<noteq> []"
    and "gm_get (sm_servers m) (bs_Subnet (bi_Spec b)) = Some srv" "healthy srv"
    and "\<forall>i \<in> set (bc_addedBindingIp bc'). writable_info i" "me_os menv = (\<lambda>_. None)"
    and "m' = fold processBindingIpEvents (replicate (length (bc_addedBindingIp bc')) TakeAdded) (channels_of bc' m)"
  shows "\<exists>srv' st' text. gm_get (sm_servers m') (bs_Subnet (bi_Spec b)) = Some srv'
    \<and> monitor (replicate (length (dv_addedBindingIp (mo_s srv'))) (menv, AddedBindingEvent)) srv' = (Going, st')
    \<and> mo_fs st' (dv_HostIpBindingsConfigPath (mo_s st')) = Some text
    \<and> binding_line (bs_MacAddr (bi_Spec b)) (bs_IpAddr (bi_Spec b)) \<in> set (split_on nl text)"
proof -
  let ?k = "bs_Subnet (bi_Spec b)"
  define q where "q = filter (\<lambda>i. bd_Subnet i = ?k) (bc_addedBindingIp bc')"
  define srv' where "srv' = srv_UpdateBindingIpEvents q [] srv"
  have a: "bc_addedBindingIp bc' = bc_addedBindingIp bc @ [info_of b]"
    using BindingReconcile_announces [OF assms(1-3)] .
  have "gm_get (sm_servers m') ?k = Some srv'"
    using manager_hands_over [of "channels_of bc' m" "bc_addedBindingIp bc'" ?k srv] assms(4,5,9)
    by (simp add: channels_of_def q_def srv'_def)
  moreover have added: "dv_addedBindingIp (mo_s srv') = dv_addedBindingIp (mo_s srv) @ q"
    by (simp add: srv'_def srv_UpdateBindingIpEvents_def UpdateBindingIpEvents_def)
  have last: "q \<noteq> []" "last (dv_addedBindingIp (mo_s srv) @ q) = info_of b"
    by (simp_all add: q_def a info_of_def)
  have "synced srv'"
    using assms(6) by (simp add: healthy_def synced_def bindings_text_def srv'_def srv_UpdateBindingIpEvents_def UpdateBindingIpEvents_def)
  then have h: "healthy srv'"
    using assms(6,7) added by (auto simp: healthy_def srv'_def q_def srv_UpdateBindingIpEvents_def UpdateBindingIpEvents_def)
  from monitor_works_off [OF h added _ assms(8)] last obtain st' c where
    r: "monitor (replicate (length (dv_addedBindingIp (mo_s srv'))) (menv, AddedBindingEvent)) srv' = (Going, st')"
      "healthy st'" "gm_get (dv_currentManualBindingClients (mo_s st')) (bs_IpAddr (bi_Spec b)) = Some c"
      "dc_MAC c = bs_MacAddr (bi_Spec b)"
    by (auto simp: added info_of_def)
  ultimately show ?thesis using healthy_file [OF r(2,3)] by auto
qed

text \<open>A binding that the controller writes for a client is the one made of its lease.\<close>

lemma handleDHCPAdd_bindings:
  assumes "handleDHCPAdd env client s = (err, s')" "WBinding b \<in> set (rsc_writes s')" "WBinding b \<notin> set (rsc_writes s)"
  shows "\<exists>uid. b = binding_for client uid"
proof -
  have m: "make_binding env client uid s1 = (e, s2) \<Longrightarrow> rsc_writes s2 = rsc_writes s1
      \<or> rsc_writes s2 = rsc_writes s1 @ [WBinding (binding_for client uid)]" for uid s1 e s2
    by (drule make_binding_writes) auto
  show ?thesis
    using assms
    by (auto simp: handleDHCPAdd_def add_new_def add_existing_def Let_def split: sum.splits prod.splits if_splits dest!: m)
qed

section \<open>Properties\<close>

text \<open>A new binding reaches the file: after it is reconciled, as many turns of the subnet
  manager and then of the server of its subnet as there are events in their queues leave the line of its IP
  and its MAC in the bindings file, provided the system refuses no call.\<close>

theorem binding_reaches_hosts_file:
  assumes "BindingReconcile env name bc = ((requeue_after 60, None), w, bc')"
    and "be_Get env = Inr b" "announces bc b" "bs_Subnet (bi_Spec b) \<noteq> []"
    and "gm_get (sm_servers m) (bs_Subnet (bi_Spec b)) = Some srv" "healthy srv"
    and "\<forall>i \<in> set (bc_addedBindingIp bc'). writable_info i" "me_os menv = (\<lambda>_. None)"
    and "m' = fold processBindingIpEvents (replicate (length (bc_addedBindingIp bc')) TakeAdded) (channels_of bc' m)"
  shows "\<exists>srv' st' text. gm_get (sm_servers m') (bs_Subnet (bi_Spec b)) = Some srv'
    \<and> monitor (replicate (length (dv_addedBindingIp (mo_s srv'))) (menv, AddedBindingEvent)) srv' = (Going, st')
    \<and> mo_fs st' (dv_HostIpBindingsConfigPath (mo_s st')) = Some text
    \<and> binding_line (bs_MacAddr (bi_Spec b)) (bs_IpAddr (bi_Spec b)) \<in> set (split_on nl text)"
  by (rule binding_delivered [OF assms])

text \<open>Property C15: a client that is to keep its address gets it pinned. Suppose that \<open>handleDHCPAdd\<close> created
  a binding for the lease of the client; that the binding controller reads an object with the specification of
  this binding, comes to the end of its reconciliation and announces it; that the subnet manager has a server
  for the subnet of the lease, whose process runs and whose file holds its bindings; that what the server holds
  and what the controller announced has no line breaks; and that the system refuses no call. Then, after as many
  turns of the manager and of the server as there are events in their queues, the server is still going and
  its bindings file has the line \<open>MAC,id:*,set:trusted,IP\<close> with the MAC and the IP of the client.\<close>

theorem lease_pinned:
  assumes "handleDHCPAdd env client s = (err, s')" "WBinding made \<in> set (rsc_writes s') - set (rsc_writes s)"
    and "be_Get benv = Inr b" "bi_Spec b = bi_Spec made"
    and "BindingReconcile benv name bc = ((requeue_after 60, None), w, bc')" "announces bc b"
    and "gm_get (sm_servers m) (dc_SubnetName client) = Some srv" "dc_SubnetName client \<noteq> []" "healthy srv"
    and "\<forall>i \<in> set (bc_addedBindingIp bc'). writable_info i" "me_os menv = (\<lambda>_. None)"
    and "m' = fold processBindingIpEvents (replicate (length (bc_addedBindingIp bc')) TakeAdded) (channels_of bc' m)"
  shows "\<exists>srv' st' text. gm_get (sm_servers m') (dc_SubnetName client) = Some srv'
    \<and> monitor (replicate (length (dv_addedBindingIp (mo_s srv'))) (menv, AddedBindingEvent)) srv' = (Going, st')
    \<and> mo_fs st' (dv_HostIpBindingsConfigPath (mo_s st')) = Some text
    \<and> binding_line (dc_MAC client) (dc_IP client) \<in> set (split_on nl text)"
proof -
  obtain uid where "made = binding_for client uid" using handleDHCPAdd_bindings [OF assms(1)] assms(2) by blast
  then have b: "bs_Subnet (bi_Spec b) = dc_SubnetName client" "bs_IpAddr (bi_Spec b) = dc_IP client"
    "bs_MacAddr (bi_Spec b) = dc_MAC client"
    using assms(4) by (simp_all add: binding_for_def Let_def)
  show ?thesis
    using binding_delivered [OF assms(5,3,6) _ _ assms(9-12), unfolded b, OF assms(8,7)] .
qed

definition one_server :: subnetManager where
  "one_server = (NewSubnetReconciler example_config)\<lparr>sm_servers := [(''net1'', running)]\<rparr>"

lemma running_healthy: "healthy running"
  using running_synced
  by (simp add: healthy_def running_bindings writable_def example_client_def nl_def running_def bound_server_def
      example_server_def NewDhcpServer_def Let_def)

lemma binding_reaches_hosts_file_witness:
  "\<exists>srv' st' text.
     gm_get (sm_servers (processBindingIpEvents TakeAdded
       (channels_of (processBindingIP (plain_binding ''b1'' ''192.168.1.15'') NewBindingIPController) one_server))) ''net1'' = Some srv'
     \<and> monitor (replicate (length (dv_addedBindingIp (mo_s srv'))) (free_env, AddedBindingEvent)) srv' = (Going, st')
     \<and> mo_fs st' (dv_HostIpBindingsConfigPath (mo_s st')) = Some text
     \<and> ''00:11:22:33:44:55,id:*,set:trusted,192.168.1.15'' \<in> set (split_on nl text)"
proof -
  let ?b = "plain_binding ''b1'' ''192.168.1.15''"
  let ?bc = "processBindingIP ?b NewBindingIPController"
  have r: "BindingReconcile (reads_binding (Inr ?b)) ''b1'' NewBindingIPController = ((requeue_after 60, None), None, ?bc)"
    by (rule reads_binding_eq) (simp add: plain_binding_def)
  have a: "announces NewBindingIPController ?b"
    by (simp add: announces_def NewBindingIPController_def BindingIPCache_init_def BindingIPCache_Get_def)
  have q: "bc_addedBindingIp ?bc = [info_of ?b]"
    using a by (simp add: processBindingIP_added NewBindingIPController_def)
  have w: "\<forall>i \<in> set (bc_addedBindingIp ?bc). writable_info i"
    unfolding q by (simp add: writable_info_def writable_def info_of_def binding_client_def plain_binding_def nl_def new_meta_def)
  have n: "bs_Subnet (bi_Spec ?b) = ''net1''" "bs_IpAddr (bi_Spec ?b) = ''192.168.1.15''"
    "bs_MacAddr (bi_Spec ?b) = ''00:11:22:33:44:55''"
    by (simp_all add: plain_binding_def)
  have "gm_get (sm_servers one_server) ''net1'' = Some running" by (simp add: one_server_def)
  from binding_reaches_hosts_file [OF r _ a _ _ running_healthy w _ refl, unfolded n q, OF _ _ this, of free_env] show ?thesis
    by (simp add: reads_binding_def free_env_def binding_line_def del: processBindingIpEvents.simps)
qed

lemma lease_pinned_witness:
  "\<exists>uid srv' st' text.
     gm_get (sm_servers (fold processBindingIpEvents [TakeAdded]
       (channels_of (processBindingIP (binding_for example_lease uid) NewBindingIPController) one_server))) ''net1'' = Some srv'
     \<and> monitor (replicate (length (dv_addedBindingIp (mo_s srv'))) (free_env, AddedBindingEvent)) srv' = (Going, st')
     \<and> mo_fs st' (dv_HostIpBindingsConfigPath (mo_s st')) = Some text
     \<and> ''00:11:22:33:44:55,id:*,set:trusted,10.0.0.5'' \<in> set (split_on nl text)"
proof -
  let ?env = "example_rs_env (\<lambda>n. Inl (ApiErr NotFound))"
  have n: "NewClient example_machine d [] [] = (Inr \<lparr>rd_config = config_of d, rd_client = 1\<rparr>,
      [(b_IpAddr (rc_Info d), \<lparr>rd_config = config_of d, rd_client = 1\<rparr>)], [RConnect (config_of d)])" for d
    by (simp add: NewClient_def connect_new_def example_machine_def gm_put_def Let_def)
  obtain s' uid where h: "handleDHCPAdd ?env example_lease example_ctl = (None, s')"
    "WBinding (binding_for example_lease uid) \<in> set (rsc_writes s') - set (rsc_writes example_ctl)"
    by (auto simp: handleDHCPAdd_def add_new_def getSecretData_def n lease_con_def lease_basic_def example_lease_def
        make_binding_def createBindingIpForredfishstatus_def Let_def)
  let ?b = "binding_for example_lease uid"
  let ?bc = "processBindingIP ?b NewBindingIPController"
  have r: "BindingReconcile (reads_binding (Inr ?b)) ''b'' NewBindingIPController = ((requeue_after 60, None), None, ?bc)"
    by (rule reads_binding_eq) (simp add: binding_for_def Let_def)
  have a: "announces NewBindingIPController ?b"
    by (simp add: announces_def NewBindingIPController_def BindingIPCache_init_def BindingIPCache_Get_def)
  have q: "bc_addedBindingIp ?bc = [info_of ?b]"
    using a by (simp add: processBindingIP_added NewBindingIPController_def)
  have w: "\<forall>i \<in> set (bc_addedBindingIp ?bc). writable_info i"
    unfolding q by (simp add: writable_info_def writable_def info_of_def binding_client_def binding_for_def example_lease_def
        formatRedfishStatusName_def replace_char_def nl_def new_meta_def Let_def)
  have l: "dc_SubnetName example_lease = ''net1''" "dc_IP example_lease = ''10.0.0.5''" "dc_MAC example_lease = ''00:11:22:33:44:55''"
    by (simp_all add: example_lease_def)
  have o: "gm_get (sm_servers one_server) (dc_SubnetName example_lease) = Some running" by (simp add: one_server_def l)
  have g: "be_Get (reads_binding (Inr ?b)) = Inr ?b" by (simp add: reads_binding_def)
  have f: "me_os free_env = (\<lambda>_. None)" by (simp add: free_env_def)
  have ne: "dc_SubnetName example_lease \<noteq> []" by (simp add: l)
  have t: "replicate (length (bc_addedBindingIp ?bc)) TakeAdded = [TakeAdded]" by (simp add: q)
  from lease_pinned [OF h g refl r a o ne running_healthy w f refl] show ?thesis unfolding l t by (auto simp: binding_line_def simp del: processBindingIpEvents.simps)
qed

end
