(* ===== verification/SecretController.thy ===== *)
theory SecretController
  imports RedfishStatusController
begin

text \<open>
  The secret controller (\<open>pkg/secret/controller.go\<close>): a change of a labelled secret with a user name
  and a password is handed to the RedfishStatus controller, which updates its cache and opens new
  sessions with the hosts that use it.
\<close>

section \<open>Definitions\<close>

record secret_object =
  so_Meta :: ObjectMeta
  so_Data :: "(string, string) gomap"

text \<open>The event filter of \<open>SetupWithManager\<close>.\<close>

definition redfishSecretPredicate :: "secret_object \<Rightarrow> bool" where
  "redfishSecretPredicate obj =
     (case om_Labels (so_Meta obj) of
        None \<Rightarrow> False
      | Some labels \<Rightarrow> if gm_get labels ''topohub.io/secret-credential'' \<noteq> None then True else False)"

definition SecretReconcile ::
    "rs_env \<Rightarrow> secret_object result \<Rightarrow> redfishStatusController \<Rightarrow> reconcile_out \<times> redfishStatusController" where
  "SecretReconcile env get s =
     (case get of
        Inl e \<Rightarrow> if IsNotFound e then ((empty_result, None), s) else ((empty_result, Some e), s)
      | Inr secret \<Rightarrow>
          if gm_get (so_Data secret) ''username'' = None then ((empty_result, None), s)
          else if gm_get (so_Data secret) ''password'' = None then ((empty_result, None), s)
          else
            (let username = secret_field (so_Data secret) ''username''; password = secret_field (so_Data secret) ''password''
             in ((empty_result, None),
                 RedfishUpdateSecret env (om_Name (so_Meta secret)) (om_Namespace (so_Meta secret)) username password s)))"

section \<open>Lemmas\<close>

abbreviation con_ip :: "RedfishConnectCon \<Rightarrow> string" where
  "con_ip d \<equiv> b_IpAddr (rc_Info d)"

lemma read_info_clients: "read_info env client s = (h, i, s2) \<Longrightarrow> rsc_clients s2 = rsc_clients s"
  by (auto simp: read_info_def split: sum.splits prod.splits)

lemma read_log_clients: "read_log env name h client st s = (st', s2) \<Longrightarrow> rsc_clients s2 = rsc_clients s"
  by (auto simp: read_log_def Let_def split: sum.splits prod.splits if_splits)

text \<open>An update of one host touches the session of its address only, and leaves none made otherwise.\<close>

lemma update_clients:
  "\<exists>r. gm_get (rsc_clients (snd (UpdateRedfishStatusInfo env name d s))) = (gm_get (rsc_clients s))(con_ip d := r)
     \<and> (\<forall>c. r = Some c \<longrightarrow> rd_config c = config_of d)"
proof -
  obtain l locks1 where lk: "GetLock name (rsc_locks s) = (l, locks1)" by fastforce
  obtain client c1 h1 where n: "NewClient (ra_red env) d (rsc_clients s) (rsc_hist s) = (client, c1, h1)"
    by (metis prod_cases3)
  have c: "rsc_clients (snd (UpdateRedfishStatusInfo env name d s)) = c1"
    using lk n by (auto simp: UpdateRedfishStatusInfo_def Let_def split: prod.splits sum.splits
        dest!: read_info_clients read_log_clients)
  show ?thesis unfolding c
  proof (intro exI conjI)
    show "gm_get c1 = (gm_get (rsc_clients s))(con_ip d := (case client of Inl _ \<Rightarrow> None | Inr c \<Rightarrow> Some c))"
      by (rule NewClient_result(1) [OF n])
    show "\<forall>c. (case client of Inl _ \<Rightarrow> None | Inr c \<Rightarrow> Some c) = Some c \<longrightarrow> rd_config c = config_of d"
      using NewClient_result(2) [OF n] by (cases client) simp_all
  qed
qed

lemma wrapper_clients:
  assumes "name \<noteq> []" "RedfishCache_Get (rsc_cache s) name = Some d"
  shows "\<exists>r. gm_get (rsc_clients (snd (UpdateRedfishStatusInfoWrapper env name s))) = (gm_get (rsc_clients s))(con_ip d := r)
     \<and> (\<forall>c. r = Some c \<longrightarrow> rd_config c = config_of d)"
proof -
  have "rsc_clients (snd (UpdateRedfishStatusInfoWrapper env name s)) = rsc_clients (snd (UpdateRedfishStatusInfo env name d s))"
    using assms by (simp add: UpdateRedfishStatusInfoWrapper_def gm_put_def Let_def split: prod.split option.split)
  then show ?thesis using update_clients by simp
qed

lemma update_hosts_cache: "rsc_cache (update_hosts env names s) = rsc_cache s"
  by (induction names arbitrary: s) (simp_all add: wrapper_cache)

text \<open>After the updates every session of an address updated was made for one of the hosts updated.\<close>

lemma update_hosts_clients:
  assumes "[] \<notin> set names" "\<forall>n \<in> set names. \<exists>d. RedfishCache_Get (rsc_cache s) n = Some d \<and> P d"
    and "gm_get (rsc_clients (update_hosts env names s)) ip = Some c"
  shows "(\<exists>e. P e \<and> con_ip e = ip \<and> rd_config c = config_of e)
    \<or> (gm_get (rsc_clients s) ip = Some c \<and> (\<forall>n \<in> set names. \<forall>d. RedfishCache_Get (rsc_cache s) n = Some d \<longrightarrow> con_ip d \<noteq> ip))"
  using assms
proof (induction names arbitrary: s)
  case (Cons n names)
  let ?s1 = "snd (UpdateRedfishStatusInfoWrapper env n s)"
  obtain d where d: "RedfishCache_Get (rsc_cache s) n = Some d" "P d" using Cons.prems(2) by auto
  obtain r where r: "gm_get (rsc_clients ?s1) = (gm_get (rsc_clients s))(con_ip d := r)" "\<forall>c. r = Some c \<longrightarrow> rd_config c = config_of d"
    using wrapper_clients [of n s d env] Cons.prems(1) d(1) by auto
  from Cons.IH [of ?s1] Cons.prems have
    "(\<exists>e. P e \<and> con_ip e = ip \<and> rd_config c = config_of e)
    \<or> (gm_get (rsc_clients ?s1) ip = Some c \<and> (\<forall>n \<in> set names. \<forall>d. RedfishCache_Get (rsc_cache s) n = Some d \<longrightarrow> con_ip d \<noteq> ip))"
    by (simp add: wrapper_cache)
  with r d show ?case by (cases "con_ip d = ip") auto
qed simp

section \<open>Properties\<close>

text \<open>Property C40: a changed secret reaches every host that uses it and no other: its credentials in the cache
  are the new ones, and a session cached for the address of a host whose credentials changed has
  been opened with them.\<close>

theorem secret_change_applied:
  assumes "SecretReconcile env (Inr secret) s = (out, s')" "gm_ok (rsc_cache s)" "RedfishCache_Get (rsc_cache s) [] = None"
    and "gm_get (so_Data secret) ''username'' = Some u" "gm_get (so_Data secret) ''password'' = Some p"
    and "RedfishCache_Get (rsc_cache s) k = Some d"
  shows "let used = uses_secret (om_Name (so_Meta secret)) (om_Namespace (so_Meta secret)) d;
             d' = (if used then with_credentials u p d else d)
         in RedfishCache_Get (rsc_cache s') k = Some d'
           \<and> (d' \<noteq> d \<longrightarrow> (\<forall>c. gm_get (rsc_clients s') (con_ip d) = Some c \<longrightarrow>
                gc_Username (rd_config c) = u \<and> gc_Password (rd_config c) = p))"
proof -
  let ?sn = "om_Name (so_Meta secret)" and ?ns = "om_Namespace (so_Meta secret)"
  let ?new = "\<lambda>v. if uses_secret ?sn ?ns v then with_credentials u p v else v"
  obtain c1 hosts where u: "UpdateSecet ?sn ?ns u p (rsc_cache s) = (c1, hosts)" by fastforce
  have s': "s' = update_hosts env hosts (s\<lparr>rsc_cache := c1\<rparr>)"
    using assms(1,4,5) u by (auto simp: SecretReconcile_def secret_field_def RedfishUpdateSecret_def Let_def)
  note get = UpdateSecet_correct [OF assms(2) u, THEN conjunct1]
    and host = UpdateSecet_correct [OF assms(2) u, THEN conjunct2, THEN conjunct1]
  let ?P = "\<lambda>d. rc_Username d = u \<and> rc_Password d = p"
  have P: "\<forall>n \<in> set hosts. \<exists>d. RedfishCache_Get c1 n = Some d \<and> ?P d"
  proof
    fix n assume "n \<in> set hosts"
    with host [of n] get [of n] obtain v where v: "RedfishCache_Get (rsc_cache s) n = Some v" "?new v \<noteq> v"
      by (cases "RedfishCache_Get (rsc_cache s) n") auto
    with get [of n] show "\<exists>d. RedfishCache_Get c1 n = Some d \<and> ?P d"
      by (auto simp: with_credentials_def split: if_splits)
  qed
  have ne: "[] \<notin> set hosts" using host [of "[]"] get [of "[]"] assms(3) by simp
  have cl: "gc_Username (rd_config c) = u \<and> gc_Password (rd_config c) = p"
    if "?new d \<noteq> d" "gm_get (rsc_clients s') (con_ip d) = Some c" for c
  proof -
    have k: "k \<in> set hosts" "RedfishCache_Get c1 k = Some (?new d)"
      using host [of k] get [of k] assms(6) that(1) by auto
    have "con_ip (?new d) = con_ip d" by (simp add: with_credentials_def)
    with update_hosts_clients [of hosts "s\<lparr>rsc_cache := c1\<rparr>" ?P env "con_ip d" c] ne P k that(2) s'
    obtain e where "?P e" "rd_config c = config_of e" by auto
    then show ?thesis by (simp add: config_of_def)
  qed
  show ?thesis using get [of k] assms(6) s' cl by (simp add: update_hosts_cache Let_def)
qed

lemma secret_change_applied_witness:
  "RedfishCache_Get (rsc_cache (snd (SecretReconcile (example_rs_env (\<lambda>n. Inr example_known))
      (Inr \<lparr>so_Meta = (new_meta ''s'')\<lparr>om_Namespace := ''ns''\<rparr>, so_Data = [(''username'', ''root''), (''password'', ''new'')]\<rparr>)
      (example_ctl\<lparr>rsc_cache := [(''h1'', example_con)]\<rparr>)))) ''h1'' = Some (with_credentials ''root'' ''new'' example_con)"
proof -
  let ?sec = "\<lparr>so_Meta = (new_meta ''s'')\<lparr>om_Namespace := ''ns''\<rparr>, so_Data = [(''username'', ''root''), (''password'', ''new'')]\<rparr>"
  let ?s = "example_ctl\<lparr>rsc_cache := [(''h1'', example_con)]\<rparr>"
  let ?R = "SecretReconcile (example_rs_env (\<lambda>n. Inr example_known)) (Inr ?sec) ?s"
  have r: "?R = (fst ?R, snd ?R)" by simp
  have c: "RedfishCache_Get (rsc_cache ?s) [] = None" "RedfishCache_Get (rsc_cache ?s) ''h1'' = Some example_con"
    "uses_secret (om_Name (so_Meta ?sec)) (om_Namespace (so_Meta ?sec)) example_con"
    by (simp_all add: RedfishCache_Get_def uses_secret_def example_con_def new_meta_def)
  from secret_change_applied [OF r _ c(1) _ _ c(2), of "''root''" "''new''"] c(3) show ?thesis
    by (simp add: Let_def)
qed

end

