(* ===== verification/HostOperationController.thy ===== *)
theory HostOperationController
  imports RedfishPower
begin

text \<open>
  The host operation controller (\<open>pkg/hostoperation/controller.go\<close>): it carries out a power operation
  through Redfish once and records the outcome in the status of the object. The API server's answers,
  the clock and the text of an error are parameters.
\<close>

section \<open>Definitions\<close>

record op_env =
  oe_Get :: "HostOperation result"
  oe_GetRedfish :: "string \<Rightarrow> RedfishStatus result"
  oe_cache :: RedfishCache
  oe_StatusUpdate :: "HostOperation \<Rightarrow> goerr option"
  oe_start :: string
  oe_end :: string
  oe_text :: "goerr \<Rightarrow> string"
  oe_red :: red_env

text \<open>The \<open>switch\<close> on the action: every known one is passed to \<open>Power\<close>.\<close>

definition known_actions :: "string list" where
  "known_actions = [BootCmdOn, BootCmdForceOn, BootCmdForceOff, BootCmdGracefulShutdown, BootCmdForceRestart,
     BootCmdGracefulRestart, BootCmdResetPxeOnce]"

definition run_action ::
    "op_env \<Rightarrow> string \<Rightarrow> RedfishConnectCon \<Rightarrow> redfishClients \<Rightarrow> red_hist
      \<Rightarrow> unit result \<times> redfishClients \<times> red_hist" where
  "run_action env action d clients h =
     (case NewClient (oe_red env) d clients h of
        (Inl e, clients1, h1) \<Rightarrow> (Inl e, clients1, h1)
      | (Inr c, clients1, h1) \<Rightarrow>
          if action \<in> set known_actions then
            (let (r, h2) = Power (oe_red env) c action h1 in (r, clients1, h2))
          else (Inl (Errorf ''invalid action %s'' [ArgS action]), clients1, h1))"

text \<open>The status before the action and the status the outcome gives.\<close>

definition pending_status :: "op_env \<Rightarrow> RedfishStatus \<Rightarrow> HostOperationStatus \<Rightarrow> HostOperationStatus" where
  "pending_status env r st = st\<lparr>hot_Status := HostOperationStatusPending, hot_LastUpdateTime := oe_start env,
     hot_ClusterName := b_ClusterName (r_Basic (rf_Status r)), hot_IpAddr := b_IpAddr (r_Basic (rf_Status r))\<rparr>"

definition final_status :: "op_env \<Rightarrow> unit result \<Rightarrow> HostOperationStatus \<Rightarrow> HostOperationStatus" where
  "final_status env out st =
     (let st1 = st\<lparr>hot_LastUpdateTime := oe_end env\<rparr> in
      case out of
        Inl e \<Rightarrow> st1\<lparr>hot_Status := HostOperationStatusFailed, hot_Message := oe_text env e\<rparr>
      | Inr _ \<Rightarrow> st1\<lparr>hot_Status := HostOperationStatusSuccess\<rparr>)"

definition OperationReconcile ::
    "op_env \<Rightarrow> redfishClients \<Rightarrow> red_hist
      \<Rightarrow> reconcile_out \<times> HostOperation option \<times> redfishClients \<times> red_hist" where
  "OperationReconcile env clients h =
     (case oe_Get env of
        Inl e \<Rightarrow> if IsNotFound e then ((empty_result, None), None, clients, h)
                 else ((empty_result, Some e), None, clients, h)
      | Inr op \<Rightarrow>
          (case oe_GetRedfish env (hos_RedfishStatusName (ho_Spec op)) of
             Inl e \<Rightarrow> ((empty_result, Some e), None, clients, h)
           | Inr redfishStatus \<Rightarrow>
               if hot_Status (ho_Status op) = [] \<or> hot_Status (ho_Status op) = HostOperationStatusPending then
                 (case RedfishCache_Get (oe_cache env) (hos_RedfishStatusName (ho_Spec op)) of
                    None \<Rightarrow> ((requeue_after 2, None), None, clients, h)
                  | Some d \<Rightarrow>
                      (let st1 = pending_status env redfishStatus (ho_Status op);
                           (out, clients1, h1) = run_action env (hos_Action (ho_Spec op)) d clients h;
                           op1 = op\<lparr>ho_Status := final_status env out st1\<rparr>
                       in case oe_StatusUpdate env op1 of
                            Some e \<Rightarrow> ((empty_result, Some (Errorf ''failed to update HostOperation status: %v'' [ArgE e])),
                                       Some op1, clients1, h1)
                          | None \<Rightarrow> ((empty_result, None), Some op1, clients1, h1)))
               else ((empty_result, None), None, clients, h)))"

section \<open>Runs\<close>

text \<open>
  The object in the API server is the one read and, where the update is accepted, the one written;
  no one else changes the status. The specification cannot change: the webhook refuses updates.
\<close>

definition op_step :: "op_env \<Rightarrow> HostOperation \<times> redfishClients \<times> red_hist \<Rightarrow> HostOperation \<times> redfishClients \<times> red_hist" where
  "op_step env s =
     (case s of (op, clients, h) \<Rightarrow>
        (case OperationReconcile (env\<lparr>oe_Get := Inr op\<rparr>) clients h of
           (out, w, clients', h') \<Rightarrow>
             ((case w of None \<Rightarrow> op | Some op1 \<Rightarrow> if oe_StatusUpdate env op1 = None then op1 else op), clients', h')))"

fun op_run :: "op_env list \<Rightarrow> HostOperation \<times> redfishClients \<times> red_hist \<Rightarrow> HostOperation \<times> redfishClients \<times> red_hist" where
  "op_run [] s = s"
| "op_run (env # envs) s = op_run envs (op_step env s)"

definition op_done :: "HostOperation \<Rightarrow> bool" where
  "op_done op \<longleftrightarrow> hot_Status (ho_Status op) = HostOperationStatusSuccess
     \<or> hot_Status (ho_Status op) = HostOperationStatusFailed"

definition op_open :: "HostOperation \<Rightarrow> bool" where
  "op_open op \<longleftrightarrow> hot_Status (ho_Status op) = [] \<or> hot_Status (ho_Status op) = HostOperationStatusPending"

lemma done_not_open: "op_done op \<Longrightarrow> \<not> op_open op"
  by (auto simp: op_done_def op_open_def op_status_defs)

lemma step_done: "\<not> op_open op \<Longrightarrow> op_step env (op, clients, h) = (op, clients, h)"
  by (auto simp: op_step_def OperationReconcile_def op_open_def split: sum.splits)

lemma run_done: "\<not> op_open op \<Longrightarrow> op_run envs (op, clients, h) = (op, clients, h)"
  by (induction envs) (simp_all add: step_done)

lemma final_status_done [simp]: "op_done (op\<lparr>ho_Status := final_status env out st\<rparr>)"
  by (auto simp: op_done_def final_status_def Let_def split: sum.splits)

text \<open>What the object is read from does not matter to the action and its status.\<close>

lemma op_env_get [simp]:
  "run_action (env\<lparr>oe_Get := x\<rparr>) = run_action env"
  "pending_status (env\<lparr>oe_Get := x\<rparr>) = pending_status env"
  "final_status (env\<lparr>oe_Get := x\<rparr>) = final_status env"
proof -
  have "oe_red (env\<lparr>oe_Get := x\<rparr>) = oe_red env" "oe_start (env\<lparr>oe_Get := x\<rparr>) = oe_start env"
    "oe_end (env\<lparr>oe_Get := x\<rparr>) = oe_end env" "oe_text (env\<lparr>oe_Get := x\<rparr>) = oe_text env"
    by simp_all
  note e = fun_eq_iff run_action_def pending_status_def final_status_def this
  show "run_action (env\<lparr>oe_Get := x\<rparr>) = run_action env" unfolding e by blast
  show "pending_status (env\<lparr>oe_Get := x\<rparr>) = pending_status env" unfolding e by blast
  show "final_status (env\<lparr>oe_Get := x\<rparr>) = final_status env" unfolding e by blast
qed

lemma op_step_acts:
  assumes "op_open op" "RedfishCache_Get (oe_cache env) (hos_RedfishStatusName (ho_Spec op)) = Some d"
    and "oe_GetRedfish env (hos_RedfishStatusName (ho_Spec op)) = Inr r"
    and "run_action env (hos_Action (ho_Spec op)) d clients h = (out, clients', h')"
  shows "op_step env (op, clients, h) =
    (let op1 = op\<lparr>ho_Status := final_status env out (pending_status env r (ho_Status op))\<rparr>
     in (if oe_StatusUpdate env op1 = None then op1 else op, clients', h'))"
  using assms(1)
  by (simp add: op_step_def OperationReconcile_def op_open_def assms(2-4) Let_def split: option.split)

text \<open>What one step does: nothing, or the action with its outcome.\<close>

lemma op_step_cases:
  obtains "op_step env (op, clients, h) = (op, clients, h)"
  | d r out clients' h' where "op_open op" "RedfishCache_Get (oe_cache env) (hos_RedfishStatusName (ho_Spec op)) = Some d"
      "run_action env (hos_Action (ho_Spec op)) d clients h = (out, clients', h')"
      "oe_GetRedfish env (hos_RedfishStatusName (ho_Spec op)) = Inr r"
      "op_step env (op, clients, h) =
         (let op1 = op\<lparr>ho_Status := final_status env out (pending_status env r (ho_Status op))\<rparr>
          in (if oe_StatusUpdate env op1 = None then op1 else op, clients', h'))"
proof (cases "op_open op \<and> (\<exists>r. oe_GetRedfish env (hos_RedfishStatusName (ho_Spec op)) = Inr r)
    \<and> RedfishCache_Get (oe_cache env) (hos_RedfishStatusName (ho_Spec op)) \<noteq> None")
  case False
  then have "op_step env (op, clients, h) = (op, clients, h)"
    by (auto simp: op_step_def OperationReconcile_def op_open_def split: sum.splits)
  then show thesis by (rule that(1))
next
  case True
  then obtain d r where d: "RedfishCache_Get (oe_cache env) (hos_RedfishStatusName (ho_Spec op)) = Some d"
    "oe_GetRedfish env (hos_RedfishStatusName (ho_Spec op)) = Inr r" by auto
  obtain out clients' h' where r: "run_action env (hos_Action (ho_Spec op)) d clients h = (out, clients', h')"
    by (cases "run_action env (hos_Action (ho_Spec op)) d clients h")
  show thesis by (rule that(2) [OF _ d(1) r d(2) op_step_acts [OF _ d r]]) (use True in auto)
qed

section \<open>Properties\<close>

text \<open>Property C33: while the status updates succeed, a host operation is carried out at most once however
  often it is reconciled: a run either leaves the object open and the machine untouched, or consists
  of one call of \<open>run_action\<close>, whose outcome the final status records.\<close>

theorem operation_at_most_once:
  assumes "op_run envs (op, clients, h) = (op', clients', h')" "op_open op"
    and "\<forall>env \<in> set envs. \<forall>op1. oe_StatusUpdate env op1 = None"
  shows "(op', clients', h') = (op, clients, h)
    \<or> (\<exists>env \<in> set envs. \<exists>d out. run_action env (hos_Action (ho_Spec op)) d clients h = (out, clients', h')
         \<and> hot_Status (ho_Status op') = (if out = Inr () then HostOperationStatusSuccess else HostOperationStatusFailed))"
  using assms
proof (induction envs)
  case (Cons env envs)
  show ?case
  proof (cases rule: op_step_cases [of env op clients h])
    case 1
    then have "op_run envs (op, clients, h) = (op', clients', h')" using Cons.prems(1) by simp
    moreover have "\<forall>env \<in> set envs. \<forall>op1. oe_StatusUpdate env op1 = None" using Cons.prems(3) by simp
    ultimately show ?thesis using Cons.IH Cons.prems(2) by (meson list.set_intros(2))
  next
    case (2 d r out c1 h1)
    let ?op1 = "op\<lparr>ho_Status := final_status env out (pending_status env r (ho_Status op))\<rparr>"
    have "op_step env (op, clients, h) = (?op1, c1, h1)" using 2(5) Cons.prems(3) by (simp add: Let_def)
    moreover have "\<not> op_open ?op1" by (rule done_not_open [OF final_status_done])
    ultimately have "(op', clients', h') = (?op1, c1, h1)" using Cons.prems(1) by (simp add: run_done)
    moreover have "hot_Status (ho_Status ?op1) = (if out = Inr () then HostOperationStatusSuccess else HostOperationStatusFailed)"
      by (auto simp: final_status_def Let_def split: sum.splits)
    ultimately show ?thesis using 2(3) by auto
  qed
qed simp

definition example_op :: HostOperation where
  "example_op = \<lparr>ho_Meta = new_meta ''reboot'', ho_Spec = \<lparr>hos_Action = BootCmdOn, hos_RedfishStatusName = ''h1''\<rparr>,
     ho_Status = \<lparr>hot_Status = [], hot_Message = [], hot_LastUpdateTime = [], hot_ClusterName = [], hot_IpAddr = []\<rparr>\<rparr>"

definition example_op_env :: "goerr option \<Rightarrow> op_env" where
  "example_op_env e = \<lparr>oe_Get = Inr example_op, oe_GetRedfish = (\<lambda>n. Inr \<lparr>rf_Meta = new_meta n, rf_Status = zero_redfish_status\<rparr>),
     oe_cache = [(''h1'', example_con)], oe_StatusUpdate = (\<lambda>x. e), oe_start = ''t0'', oe_end = ''t1'',
     oe_text = (\<lambda>x. ''error''), oe_red = example_machine\<rparr>"

lemma example_action:
  assumes "clients = [] \<or> clients = [([], example_rc)]"
  shows "run_action (example_op_env e) BootCmdOn example_con clients h =
    (Inr (), [([], example_rc)], h @ (if clients = [] then [RConnect (config_of example_con)] else [RSystems 1])
       @ [RSystems 1, RReset 1 example_system ''On''])"
proof -
  have ip: "b_IpAddr (rc_Info example_con) = []" by (simp add: example_con_def zero_basic_def)
  have n: "NewClient example_machine example_con clients h =
      (Inr example_rc, [([], example_rc)], h @ (if clients = [] then [RConnect (config_of example_con)] else [RSystems 1]))"
    using assms by (auto simp: NewClient_def connect_new_def ip example_machine_def example_rc_def red_calls gm_put_def Let_def)
  have p: "Power example_machine example_rc BootCmdOn h = (Inr (), h @ [RSystems 1, RReset 1 example_system ''On''])" for h
    by (simp add: example_machine_defs reset_cmds_def boot_cmd_defs Let_def)
  show ?thesis by (simp add: run_action_def example_op_env_def n p known_actions_def)
qed

lemma example_step:
  assumes "clients = [] \<or> clients = [([], example_rc)]" "op_open op" "ho_Spec op = ho_Spec example_op"
  shows "\<exists>op1. op_step (example_op_env e) (op, clients, h) =
    (if e = None then op1 else op, [([], example_rc)], h @ (if clients = [] then [RConnect (config_of example_con)] else [RSystems 1])
       @ [RSystems 1, RReset 1 example_system ''On'']) \<and> op_done op1"
proof -
  let ?r = "\<lparr>rf_Meta = new_meta ''h1'', rf_Status = zero_redfish_status\<rparr>"
  let ?op1 = "op\<lparr>ho_Status := final_status (example_op_env e) (Inr ()) (pending_status (example_op_env e) ?r (ho_Status op))\<rparr>"
  have a: "hos_Action (ho_Spec op) = BootCmdOn" "hos_RedfishStatusName (ho_Spec op) = ''h1''"
    using assms(3) by (simp_all add: example_op_def)
  have g: "RedfishCache_Get (oe_cache (example_op_env e)) ''h1'' = Some example_con"
    "oe_GetRedfish (example_op_env e) ''h1'' = Inr ?r" "oe_StatusUpdate (example_op_env e) x = e" for x
    by (simp_all add: example_op_env_def RedfishCache_Get_def)
  have "op_step (example_op_env e) (op, clients, h) =
    (if e = None then ?op1 else op, [([], example_rc)], h @ (if clients = [] then [RConnect (config_of example_con)] else [RSystems 1])
       @ [RSystems 1, RReset 1 example_system ''On''])"
    using op_step_acts [OF assms(2), of "example_op_env e" example_con ?r] a g example_action [OF assms(1), of e h]
    by (simp add: Let_def)
  then show ?thesis by (intro exI [of _ ?op1]) simp
qed

lemma operation_at_most_once_witness:
  "\<exists>op' clients' h'. op_run [example_op_env None, example_op_env None] (example_op, [], []) = (op', clients', h')
     \<and> actions h' = [RReset 1 example_system ''On''] \<and> hot_Status (ho_Status op') \<noteq> []"
proof -
  have o: "op_open example_op" by (simp add: op_open_def example_op_def)
  obtain op1 where "op_step (example_op_env None) (example_op, [], []) =
      (op1, [([], example_rc)], [RConnect (config_of example_con), RSystems 1, RReset 1 example_system ''On''])" "op_done op1"
    using example_step [of "[]" example_op None "[]"] o by auto
  then have r: "op_run [example_op_env None, example_op_env None] (example_op, [], []) =
      (op1, [([], example_rc)], [RConnect (config_of example_con), RSystems 1, RReset 1 example_system ''On''])"
    using run_done [OF done_not_open, of op1 "[example_op_env None]"] by simp
  have "\<forall>env \<in> set [example_op_env None, example_op_env None]. \<forall>op1. oe_StatusUpdate env op1 = None"
    by (simp add: example_op_env_def)
  from operation_at_most_once [OF r o this] r show ?thesis
    by (auto simp: op_status_defs split: if_splits)
qed

text \<open>When the update of the status fails, the machine has been operated but the object is
  still open: the next reconciliation operates it again.\<close>

theorem operation_repeated:
  "actions (snd (snd (op_run [example_op_env (Some (ApiErr Conflict)), example_op_env None] (example_op, [], []))))
     = [RReset 1 example_system ''On'', RReset 1 example_system ''On'']"
proof -
  have o: "op_open example_op" by (simp add: op_open_def example_op_def)
  have 1: "op_step (example_op_env (Some (ApiErr Conflict))) (example_op, [], []) =
      (example_op, [([], example_rc)], [RConnect (config_of example_con), RSystems 1, RReset 1 example_system ''On''])"
    using example_step [of "[]" example_op "Some (ApiErr Conflict)" "[]"] o by auto
  let ?h = "[RConnect (config_of example_con), RSystems 1, RReset 1 example_system ''On'']"
  obtain op1 where "op_step (example_op_env None) (example_op, [([], example_rc)], ?h) =
      (op1, [([], example_rc)], ?h @ [RSystems 1, RSystems 1, RReset 1 example_system ''On''])"
    using example_step [of "[([], example_rc)]" example_op None ?h] o by auto
  with 1 show ?thesis by simp
qed

text \<open>What a run of the action that returns nil has done.\<close>

definition done_by :: "redfishClient \<Rightarrow> string \<Rightarrow> ComputerSystem list \<Rightarrow> red_op list \<Rightarrow> bool" where
  "done_by c action ss t \<longleftrightarrow>
     (if action = BootCmdResetPxeOnce then
        (\<exists>tss. t = concat (map concat tss) \<and> length tss = length ss
          \<and> (\<forall>k < length ss. 1 \<le> length (tss ! k) \<and> length (tss ! k) \<le> 3
               \<and> pxe_tries (rd_client c) (cs_ID (ss ! k)) True (tss ! k)))
      else t = map (\<lambda>s. RReset (rd_client c) s action) ss)"

lemma power_loop_done:
  assumes "power_loop env c action ss h = (Inr (), h')" "action \<in> set known_actions"
  shows "\<exists>t. actions h' = actions h @ t \<and> done_by c action ss t"
proof (cases "action = BootCmdResetPxeOnce")
  case True
  with power_loop_pxe [of env c ss h "Inr ()" h'] assms(1) obtain tss where t: "actions h' = actions h @ concat (map concat tss)"
    "length tss = length ss" "\<forall>k < length tss. length (tss ! k) \<le> 3 \<and> pxe_tries (rd_client c) (cs_ID (ss ! k)) True (tss ! k)"
    by auto
  have "1 \<le> length (tss ! k)" if "k < length ss" for k
    using t(2,3) that by (cases "tss ! k") (auto simp: pxe_tries_def)
  with t True show ?thesis by (auto simp: done_by_def)
next
  case False
  then have "action \<in> set reset_cmds" using assms(2) by (auto simp: known_actions_def reset_cmds_def)
  from power_loop_reset [OF assms(1) this] False show ?thesis by (auto simp: done_by_def)
qed

lemma run_action_done:
  assumes "run_action env action d clients h = (Inr (), clients', h')"
  shows "\<exists>c ss h1 t. gm_get clients' (b_IpAddr (rc_Info d)) = Some c \<and> rd_config c = config_of d
    \<and> g_Systems (oe_red env) h1 (rd_client c) = Inr ss \<and> ss \<noteq> [] \<and> actions h1 = actions h
    \<and> actions h' = actions h @ t \<and> done_by c action ss t"
proof -
  obtain r c1 h1 where n: "NewClient (oe_red env) d clients h = (r, c1, h1)" by (metis prod_cases3)
  then obtain c where c: "r = Inr c" using assms by (cases r) (auto simp: run_action_def)
  then have k: "action \<in> set known_actions" and p: "Power (oe_red env) c action h1 = (Inr (), h')" "c1 = clients'"
    using assms n by (auto simp: run_action_def split: if_splits prod.splits)
  obtain ss where ss: "g_Systems (oe_red env) h1 (rd_client c) = Inr ss"
    using p(1) by (auto simp: Power_def red_calls split: sum.splits)
  then have l: "power_loop (oe_red env) c action ss (h1 @ [RSystems (rd_client c)]) = (Inr (), h')" "ss \<noteq> []"
    using p(1) by (auto simp: Power_def red_calls split: if_splits)
  from power_loop_done [OF l(1) k] obtain t where "actions h' = actions h1 @ t" "done_by c action ss t" by auto
  moreover have "gm_get clients' (b_IpAddr (rc_Info d)) = Some c" "rd_config c = config_of d" "actions h1 = actions h"
    using NewClient_result [OF n] NewClient_actions [OF n] c p(2) by simp_all
  ultimately show ?thesis using ss l(2) by metis
qed

text \<open>Property C34: what a reconciliation writes is the object it read, which was open, with the status success or
  failure, and it writes success only if the action was carried out through the session of the connection that is
  cached under the name the object gives: every system the machine listed, and there was one, was reset with the
  command asked for, once, in order, and nothing else was done to it; for a PXE reboot, each system in order got
  between one and three attempts, each setting the boot override to PXE once before it resets that system, the last
  of them complete.\<close>

theorem operation_success_means_done:
  assumes "OperationReconcile env clients h = (out, Some op1, clients', h')"
  shows "\<exists>op d. oe_Get env = Inr op \<and> op_open op \<and> ho_Spec op1 = ho_Spec op \<and> ho_Meta op1 = ho_Meta op
    \<and> RedfishCache_Get (oe_cache env) (hos_RedfishStatusName (ho_Spec op)) = Some d
    \<and> hot_Status (ho_Status op1) \<in> {HostOperationStatusSuccess, HostOperationStatusFailed}
    \<and> (hot_Status (ho_Status op1) = HostOperationStatusSuccess \<longrightarrow>
        (\<exists>c ss h1 t. gm_get clients' (b_IpAddr (rc_Info d)) = Some c \<and> rd_config c = config_of d
          \<and> g_Systems (oe_red env) h1 (rd_client c) = Inr ss \<and> ss \<noteq> [] \<and> actions h1 = actions h
          \<and> actions h' = actions h @ t \<and> done_by c (hos_Action (ho_Spec op)) ss t))"
proof -
  obtain op r d where o: "oe_Get env = Inr op" "oe_GetRedfish env (hos_RedfishStatusName (ho_Spec op)) = Inr r" "op_open op"
      "RedfishCache_Get (oe_cache env) (hos_RedfishStatusName (ho_Spec op)) = Some d"
    using assms by (auto simp: OperationReconcile_def op_open_def split: sum.splits option.splits if_splits)
  obtain res clients1 h1 where run: "run_action env (hos_Action (ho_Spec op)) d clients h = (res, clients1, h1)"
    by (metis prod_cases3)
  have w: "op1 = op\<lparr>ho_Status := final_status env res (pending_status env r (ho_Status op))\<rparr>" "clients' = clients1" "h' = h1"
    using assms o run by (auto simp: OperationReconcile_def op_open_def Let_def split: option.splits)
  have st: "hot_Status (ho_Status op1) = (if res = Inr () then HostOperationStatusSuccess else HostOperationStatusFailed)"
    by (auto simp: w(1) final_status_def Let_def split: sum.splits)
  have ne: "HostOperationStatusFailed \<noteq> HostOperationStatusSuccess" by (simp add: op_status_defs)
  have carried: "\<exists>c ss h0 t. gm_get clients' (b_IpAddr (rc_Info d)) = Some c \<and> rd_config c = config_of d
      \<and> g_Systems (oe_red env) h0 (rd_client c) = Inr ss \<and> ss \<noteq> [] \<and> actions h0 = actions h
      \<and> actions h' = actions h @ t \<and> done_by c (hos_Action (ho_Spec op)) ss t"
    if "hot_Status (ho_Status op1) = HostOperationStatusSuccess"
  proof -
    have "res = Inr ()" using that st ne by metis
    from run_action_done [OF run [unfolded this]] show ?thesis unfolding w(2,3) .
  qed
  show ?thesis
    by (intro exI [of _ op] exI [of _ d] conjI impI) (use o st w carried in simp_all)
qed

lemma operation_success_means_done_witness:
  "\<exists>op1 clients' h'. OperationReconcile (example_op_env None) [] [] = ((empty_result, None), Some op1, clients', h')
     \<and> hot_Status (ho_Status op1) = HostOperationStatusSuccess \<and> actions h' = [RReset 1 example_system ''On'']"
proof -
  let ?env = "example_op_env None"
  have a: "run_action ?env BootCmdOn example_con [] [] =
      (Inr (), [([], example_rc)], [RConnect (config_of example_con), RSystems 1, RReset 1 example_system ''On''])"
    using example_action [of "[]" None "[]"] by simp
  have g: "oe_Get ?env = Inr example_op" "oe_StatusUpdate ?env x = None" "RedfishCache_Get (oe_cache ?env) ''h1'' = Some example_con"
    "oe_GetRedfish ?env ''h1'' = Inr \<lparr>rf_Meta = new_meta ''h1'', rf_Status = zero_redfish_status\<rparr>" for x
    by (simp_all add: example_op_env_def RedfishCache_Get_def)
  have o: "hos_Action (ho_Spec example_op) = BootCmdOn" "hos_RedfishStatusName (ho_Spec example_op) = ''h1''"
    "hot_Status (ho_Status example_op) = []"
    by (simp_all add: example_op_def)
  obtain op1 where r: "OperationReconcile ?env [] [] = ((empty_result, None), Some op1, [([], example_rc)],
      [RConnect (config_of example_con), RSystems 1, RReset 1 example_system ''On''])"
    and st: "hot_Status (ho_Status op1) = HostOperationStatusSuccess"
    by (simp add: OperationReconcile_def g o a Let_def final_status_def)
  from operation_success_means_done [OF r] st obtain c ss h1 t where
    "gm_get [([], example_rc)] (b_IpAddr (rc_Info example_con)) = Some c" "g_Systems example_machine h1 (rd_client c) = Inr ss"
    and t: "actions [RConnect (config_of example_con), RSystems 1, RReset 1 example_system ''On''] = actions [] @ t"
    "done_by c BootCmdOn ss t"
    by (auto simp: g o example_op_env_def RedfishCache_Get_def)
  moreover have "rd_client example_rc = 1" "BootCmdOn \<noteq> BootCmdResetPxeOnce" by (simp_all add: example_rc_def boot_cmd_defs)
  ultimately have "t = [RReset 1 example_system ''On'']"
    by (auto simp: done_by_def example_machine_def BootCmdOn_def split: if_splits)
  with t(1) r st show ?thesis by auto
qed

end
