(* ===== verification/Agent.thy ===== *)
theory Agent
  imports Startup CommandLine Diagnostics Agreement SecretController HostOperationController "HOL-Library.Word"
begin

text \<open>
  The agent from its command line to its end: \<open>main\<close> (\<open>cmd/topohub/main.go\<close>), and the goroutines that run
  beside each other afterwards. What \<open>SetupWithManager\<close> of the subnet, RedfishStatus and SSHStatus
  controllers starts (\<open>pkg/subnet/manager.go\<close>, \<open>pkg/redfishstatus/manager.go\<close>, \<open>pkg/sshstatus/manager.go\<close>)
  waits for the election; the two that poll at an interval make a ticker of the configured number.
\<close>

section \<open>The command line and the configuration\<close>

record booted =
  bo_topohub :: topohub
  bo_steps :: "start_step list"
  bo_level :: string
  bo_pprof :: "http_Server option"
  bo_pyroscope :: "(nat \<times> nat \<times> pyroscope_Config) option"

text \<open>\<open>main\<close> up to the start of the manager: what is running then, or the status of the exit; a panic exits with 2.\<close>

definition agent_main ::
    "(zap_Config \<Rightarrow> 'l result) \<Rightarrow> string \<Rightarrow> string list \<Rightarrow> main_env \<Rightarrow> nat + booted" where
  "agent_main build arg0 args env =
     (case parse_flags main_flags args of
        Inl e \<Rightarrow> Inl (flag_exit e)
      | Inr (flags, _) \<Rightarrow>
          (case InitStdoutLogger build (cv_Getenv (ma_cfg env) ''LOG_LEVEL'') of
             None \<Rightarrow> Inl 2
           | Some (_, message) \<Rightarrow>
               (case main_setup (env\<lparr>ma_probePort := flag_value flags ''health-probe-port'',
                      ma_webhookPort := flag_value flags ''webhook-port'', ma_metricsPort := flag_value flags ''metrics-port''\<rparr>) of
                  (Inl _, _) \<Rightarrow> Inl 1
                | (Inr th, did) \<Rightarrow>
                    Inr \<lparr>bo_topohub = th, bo_steps = did, bo_level = message,
                      bo_pprof = RunPProf (flag_value flags ''pprof-address'') (flag_value flags ''pprof-port''),
                      bo_pyroscope = RunPyroscope arg0 (flag_value flags ''pyroscope-address'') (flag_value flags ''pyroscope-tag'')\<rparr>)))"

section \<open>Tickers\<close>

text \<open>A duration is a number of nanoseconds in 64 bits; \<open>NewTicker\<close> panics unless it is positive.\<close>

definition Second :: "64 word" where
  "Second = 1000000000"

definition NewTicker :: "64 word \<Rightarrow> 64 word option" where
  "NewTicker d = (if sint d \<le> 0 then None else Some d)"

definition redfish_ticker :: "AgentConfig \<Rightarrow> 64 word option" where
  "redfish_ticker config = NewTicker (word_of_int (cf_RedfishStatusUpdateInterval config) * Second)"

definition ssh_ticker :: "AgentConfig \<Rightarrow> 64 word option" where
  "ssh_ticker config =
     (let interval = word_of_int (cf_SSHStatusUpdateInterval config) * Second;
          interval = (if interval = 0 then 60 * Second else interval)
      in NewTicker interval)"

section \<open>The goroutines\<close>

record agent =
  ag_th :: topohub
  ag_status :: main_status
  ag_elected :: bool
  ag_subnets :: bool
  ag_bindingLoop :: bool
  ag_redfishLoops :: bool
  ag_sshLoop :: bool

definition started_agent :: "topohub \<Rightarrow> agent" where
  "started_agent th = \<lparr>ag_th = th, ag_status = MainRunning, ag_elected = False, ag_subnets = False,
     ag_bindingLoop = False, ag_redfishLoops = False, ag_sshLoop = False\<rparr>"

text \<open>
  One step of one goroutine. \<open>SubnetStart\<close>, \<open>RedfishStart\<close> and \<open>SshStart\<close> are those that wait for the
  election; the first is given the answer to its list of the subnets. Reconciliations run on the leader only,
  as controller-runtime has it. \<open>Slept\<close> is the end of the sleep of an event that is tried again.
\<close>

datatype agent_event =
    LeaderElected
  | SubnetStart "(subnet_env \<times> Subnet) list result"
  | RedfishStart
  | SshStart
  | SubnetReconciled subnet_env string
  | BindingReconciled binding_env string
  | RedfishReconciled rs_env string
  | SshReconciled ssh_env string
  | SecretReconciled rs_env "secret_object result"
  | OperationReconciled op_env
  | BindingTurn binding_turn
  | ServerTurn string mon_env monitor_event
  | AddTurn rs_env
  | DeleteTurn rs_env
  | SleptAdd nat
  | SleptDelete nat
  | RedfishTick rs_env
  | SshTick ssh_env
  | MainTurn main_event

text \<open>What a DHCP server has sent goes to the end of the RedfishStatus controller's channels.\<close>

definition forward_clients :: "mon_state \<Rightarrow> mon_state \<Rightarrow> redfishStatusController \<Rightarrow> redfishStatusController" where
  "forward_clients st st' r = r\<lparr>
     rsc_addChan := rsc_addChan r @ drop (length (dv_addedDhcpClient (mo_s st))) (dv_addedDhcpClient (mo_s st')),
     rsc_deleteChan := rsc_deleteChan r @ drop (length (dv_deletedDhcpClient (mo_s st))) (dv_deletedDhcpClient (mo_s st'))\<rparr>"

definition drop_at :: "nat \<Rightarrow> 'a list \<Rightarrow> 'a list" where
  "drop_at n xs = take n xs @ drop (Suc n) xs"

text \<open>The package variables are shared: the cache of bindings, that of connections and the sessions.\<close>

definition on_redfish :: "(redfishStatusController \<Rightarrow> redfishStatusController) \<Rightarrow> agent \<Rightarrow> agent" where
  "on_redfish f a = a\<lparr>ag_th := (ag_th a)\<lparr>th_redfish := f (th_redfish (ag_th a))\<rparr>\<rparr>"

definition on_ssh :: "(sshStatusController \<Rightarrow> sshStatusController) \<Rightarrow> agent \<Rightarrow> agent" where
  "on_ssh f a = a\<lparr>ag_th := (ag_th a)\<lparr>th_ssh := f (th_ssh (ag_th a))\<rparr>\<rparr>"

definition on_subnet :: "(subnetManager \<Rightarrow> subnetManager) \<Rightarrow> agent \<Rightarrow> agent" where
  "on_subnet f a = a\<lparr>ag_th := (ag_th a)\<lparr>th_subnet := f (th_subnet (ag_th a))\<rparr>\<rparr>"

definition subnet_start :: "(subnet_env \<times> Subnet) list result \<Rightarrow> agent \<Rightarrow> agent" where
  "subnet_start listed a =
     (let a1 = a\<lparr>ag_subnets := True\<rparr> in
      case listed of
        Inl _ \<Rightarrow> a1
      | Inr items \<Rightarrow>
          (case start_all items (th_subnet (ag_th a)) of
             (Inl _, m) \<Rightarrow> (on_subnet (\<lambda>_. m) a1)\<lparr>ag_status := MainExit 2\<rparr>
           | (Inr _, m) \<Rightarrow> (on_subnet (\<lambda>_. m) a1)\<lparr>ag_bindingLoop := True\<rparr>))"

definition redfish_start :: "agent \<Rightarrow> agent" where
  "redfish_start a =
     (case redfish_ticker (rsc_config (th_redfish (ag_th a))) of
        None \<Rightarrow> a\<lparr>ag_redfishLoops := True, ag_status := MainExit 2\<rparr>
      | Some _ \<Rightarrow> a\<lparr>ag_redfishLoops := True\<rparr>)"

definition ssh_start :: "agent \<Rightarrow> agent" where
  "ssh_start a =
     (case ssh_ticker (ssc_config (th_ssh (ag_th a))) of
        None \<Rightarrow> a\<lparr>ag_sshLoop := True, ag_status := MainExit 2\<rparr>
      | Some _ \<Rightarrow> a\<lparr>ag_sshLoop := True\<rparr>)"

definition binding_reconciled :: "binding_env \<Rightarrow> string \<Rightarrow> agent \<Rightarrow> agent" where
  "binding_reconciled env name a =
     (let bc = th_binding (ag_th a); (_, _, bc') = BindingReconcile env name bc
      in on_subnet (sent_on bc bc') (a\<lparr>ag_th := (ag_th a)\<lparr>th_binding := bc'\<rparr>\<rparr>))"

definition subnet_reconciled :: "subnet_env \<Rightarrow> string \<Rightarrow> agent \<Rightarrow> agent" where
  "subnet_reconciled env name a =
     on_subnet (\<lambda>m. snd (snd (Reconcile (env\<lparr>se_bindings := bc_cache (th_binding (ag_th a))\<rparr>) name m))) a"

definition operation_reconciled :: "op_env \<Rightarrow> redfishStatusController \<Rightarrow> redfishStatusController" where
  "operation_reconciled env r =
     (case OperationReconcile (env\<lparr>oe_cache := rsc_cache r\<rparr>) (rsc_clients r) (rsc_hist r) of
        (_, _, clients, h) \<Rightarrow> r\<lparr>rsc_clients := clients, rsc_hist := h\<rparr>)"

definition server_turn :: "string \<Rightarrow> mon_env \<Rightarrow> monitor_event \<Rightarrow> agent \<Rightarrow> agent" where
  "server_turn k env ev a =
     (case gm_get (sm_servers (th_subnet (ag_th a))) k of
        None \<Rightarrow> a
      | Some st \<Rightarrow>
          (let (r, st') = monitor_turn env ev st;
               a1 = on_redfish (forward_clients st st')
                 (on_subnet (\<lambda>m. m\<lparr>sm_servers := gm_put k st' (sm_servers m)\<rparr>) a)
           in case r of Crashed _ \<Rightarrow> a1\<lparr>ag_status := MainExit 2\<rparr> | _ \<Rightarrow> a1))"

definition slept_add :: "nat \<Rightarrow> redfishStatusController \<Rightarrow> redfishStatusController" where
  "slept_add n r =
     (if n < length (rsc_retryAdd r)
      then r\<lparr>rsc_addChan := rsc_addChan r @ [rsc_retryAdd r ! n], rsc_retryAdd := drop_at n (rsc_retryAdd r)\<rparr> else r)"

definition slept_delete :: "nat \<Rightarrow> redfishStatusController \<Rightarrow> redfishStatusController" where
  "slept_delete n r =
     (if n < length (rsc_retryDelete r)
      then r\<lparr>rsc_deleteChan := rsc_deleteChan r @ [rsc_retryDelete r ! n], rsc_retryDelete := drop_at n (rsc_retryDelete r)\<rparr> else r)"

definition main_turn :: "main_event \<Rightarrow> agent \<Rightarrow> agent" where
  "main_turn ev a = (case main_loop [ev] (ag_th a) of (st, th) \<Rightarrow> a\<lparr>ag_th := th, ag_status := st\<rparr>)"

text \<open>What may happen next, and what it does.\<close>

fun enabled :: "agent_event \<Rightarrow> agent \<Rightarrow> bool" where
  "enabled LeaderElected a \<longleftrightarrow> \<not> ag_elected a"
| "enabled (SubnetStart _) a \<longleftrightarrow> ag_elected a \<and> \<not> ag_subnets a"
| "enabled RedfishStart a \<longleftrightarrow> ag_elected a \<and> \<not> ag_redfishLoops a"
| "enabled SshStart a \<longleftrightarrow> ag_elected a \<and> \<not> ag_sshLoop a"
| "enabled (BindingTurn _) a \<longleftrightarrow> ag_bindingLoop a"
| "enabled (ServerTurn k _ ev) a \<longleftrightarrow>
     (case gm_get (sm_servers (th_subnet (ag_th a))) k of
        None \<Rightarrow> False
      | Some st \<Rightarrow> (ev = StopEvent \<longrightarrow> dv_stopped (mo_s st)) \<and> (ev = RestartEvent \<longrightarrow> dv_restarts (mo_s st) > 0))"
| "enabled (AddTurn _) a \<longleftrightarrow> ag_redfishLoops a"
| "enabled (DeleteTurn _) a \<longleftrightarrow> ag_redfishLoops a"
| "enabled (SleptAdd _) a \<longleftrightarrow> ag_redfishLoops a"
| "enabled (SleptDelete _) a \<longleftrightarrow> ag_redfishLoops a"
| "enabled (RedfishTick _) a \<longleftrightarrow> ag_redfishLoops a"
| "enabled (SshTick _) a \<longleftrightarrow> ag_sshLoop a"
| "enabled (MainTurn _) a \<longleftrightarrow> True"
| "enabled _ a \<longleftrightarrow> ag_elected a"

fun agent_act :: "agent_event \<Rightarrow> agent \<Rightarrow> agent" where
  "agent_act LeaderElected a = a\<lparr>ag_elected := True\<rparr>"
| "agent_act (SubnetStart listed) a = subnet_start listed a"
| "agent_act RedfishStart a = redfish_start a"
| "agent_act SshStart a = ssh_start a"
| "agent_act (SubnetReconciled env name) a = subnet_reconciled env name a"
| "agent_act (BindingReconciled env name) a = binding_reconciled env name a"
| "agent_act (RedfishReconciled env name) a = on_redfish (\<lambda>r. snd (RedfishReconcile env name r)) a"
| "agent_act (SshReconciled env name) a = on_ssh (\<lambda>s. snd (SSHReconcile env name s)) a"
| "agent_act (SecretReconciled env got) a = on_redfish (\<lambda>r. snd (SecretReconcile env got r)) a"
| "agent_act (OperationReconciled env) a = on_redfish (operation_reconciled env) a"
| "agent_act (BindingTurn t) a = on_subnet (processBindingIpEvents t) a"
| "agent_act (ServerTurn k env ev) a = server_turn k env ev a"
| "agent_act (AddTurn env) a = on_redfish (\<lambda>r. snd (add_turn env r)) a"
| "agent_act (DeleteTurn env) a = on_redfish (\<lambda>r. snd (delete_turn env r)) a"
| "agent_act (SleptAdd n) a = on_redfish (slept_add n) a"
| "agent_act (SleptDelete n) a = on_redfish (slept_delete n) a"
| "agent_act (RedfishTick env) a = on_redfish (UpdateRedfishStatusAtInterval_tick env) a"
| "agent_act (SshTick env) a = on_ssh (UpdateSSHStatusAtInterval_tick env) a"
| "agent_act (MainTurn ev) a = main_turn ev a"

text \<open>A program that has ended does nothing more.\<close>

definition agent_step :: "agent_event \<Rightarrow> agent \<Rightarrow> agent" where
  "agent_step ev a = (if ag_status a = MainRunning \<and> enabled ev a then agent_act ev a else a)"

definition agent_run :: "agent_event list \<Rightarrow> agent \<Rightarrow> agent" where
  "agent_run evs a = fold agent_step evs a"

section \<open>What each step leaves alone\<close>

text \<open>The configuration and the queues of the RedfishStatus controller, and what was done to the machines.\<close>

definition redfish_frame :: "redfishStatusController \<Rightarrow> redfishStatusController \<Rightarrow> bool" where
  "redfish_frame s s' \<longleftrightarrow> rsc_config s' = rsc_config s \<and> rsc_addChan s' = rsc_addChan s
     \<and> rsc_deleteChan s' = rsc_deleteChan s \<and> rsc_retryAdd s' = rsc_retryAdd s \<and> rsc_retryDelete s' = rsc_retryDelete s
     \<and> actions (rsc_hist s') = actions (rsc_hist s)"

lemma redfish_frame_refl [simp]: "redfish_frame s s"
  by (simp add: redfish_frame_def)

lemma redfish_frame_trans: "redfish_frame s t \<Longrightarrow> redfish_frame t u \<Longrightarrow> redfish_frame s u"
  by (simp add: redfish_frame_def)

lemma redfish_frame_writes [simp]:
  "redfish_frame s (sent ws t) = redfish_frame s t" "redfish_frame s (t\<lparr>rsc_cache := c\<rparr>) = redfish_frame s t"
  "redfish_frame s (t\<lparr>rsc_locks := l\<rparr>) = redfish_frame s t" "redfish_frame s (t\<lparr>rsc_clients := cs\<rparr>) = redfish_frame s t"
  "redfish_frame s (t\<lparr>rsc_events := es\<rparr>) = redfish_frame s t"
  by (simp_all add: redfish_frame_def sent_def)

lemma redfish_frame_hist: "redfish_frame s t \<Longrightarrow> actions h = actions (rsc_hist t) \<Longrightarrow> redfish_frame s (t\<lparr>rsc_hist := h\<rparr>)"
  by (simp add: redfish_frame_def)

lemma GetManagerLog_acts: "GetManagerLog env c h = (r, h') \<Longrightarrow> actions h' = actions h"
  by (auto simp: GetManagerLog_def red_calls Let_def split: sum.splits prod.splits if_splits list.splits)

lemma GetLog_acts: "GetLog env c h = (r, h') \<Longrightarrow> actions h' = actions h"
  by (auto simp: GetLog_def GetManagersLogEntries_def GetSystemsLogEntries_def red_calls Let_def dest!: GetManagerLog_acts
      split: sum.splits prod.splits if_splits list.splits)

lemma read_info_frame: "read_info env client s = (hl, infoData, s') \<Longrightarrow> redfish_frame s s'"
  by (auto simp: read_info_def dest: GetInfo_actions intro!: redfish_frame_hist split: sum.splits prod.splits)

lemma read_log_frame: "read_log env name hl client st s = (st', s') \<Longrightarrow> redfish_frame s s'"
  by (auto simp: read_log_def Let_def dest: GetLog_acts intro!: redfish_frame_hist split: sum.splits prod.splits if_splits)

lemma update_info_frame: "redfish_frame s (snd (UpdateRedfishStatusInfo env name d s))"
proof -
  obtain l locks1 where lk: "GetLock name (rsc_locks s) = (l, locks1)" by fastforce
  obtain client c1 h1 where n: "NewClient (ra_red env) d (rsc_clients s) (rsc_hist s) = (client, c1, h1)"
    by (metis prod_cases3)
  show ?thesis
    using lk n NewClient_actions [OF n]
    by (auto simp: UpdateRedfishStatusInfo_def Let_def redfish_frame_def sent_def split: prod.splits sum.splits
        dest!: read_info_frame read_log_frame)
qed

lemma sync_loop_frame: "redfish_frame s (snd (sync_loop env syncData failed s))"
proof (induction env syncData failed s rule: sync_loop.induct)
  case (2 env item t syncData failed s)
  obtain b err s1 where u: "UpdateRedfishStatusInfo env item t s = ((b, err), s1)" by (metis surj_pair)
  then have "redfish_frame s s1" using update_info_frame by (metis snd_conv)
  with 2 u show ?case by (cases err) (auto intro: redfish_frame_trans)
qed simp

lemma update_wrapper_frame: "redfish_frame s (snd (UpdateRedfishStatusInfoWrapper env name s))"
proof -
  have "redfish_frame s s1" if "sync_loop env xs False s = (b, s1)" for xs b s1
    using sync_loop_frame [of s env xs False] that by simp
  then show ?thesis by (auto simp: UpdateRedfishStatusInfoWrapper_def Let_def split: prod.splits)
qed

lemma redfish_reconcile_frame: "redfish_frame s (snd (RedfishReconcile env name s))"
proof -
  have "redfish_frame s (snd (processRedfishStatus env r s))" for r
  proof (cases "credentials env (r_Basic (rf_Status r))")
    case (Inr up)
    obtain u p where "up = (u, p)" by (cases up)
    with Inr show ?thesis
      by (auto simp: processRedfishStatus_def Let_def intro: redfish_frame_trans [OF _ update_wrapper_frame])
  qed (simp add: processRedfishStatus_def)
  then have "redfish_frame s s1" if "processRedfishStatus env r s = (e, s1)" for r e s1
    using that by (metis snd_conv)
  then show ?thesis by (auto simp: RedfishReconcile_def split: sum.splits option.splits prod.splits)
qed

lemma update_hosts_frame: "redfish_frame s (update_hosts env names s)"
  by (induction env names s rule: update_hosts.induct) (auto intro: redfish_frame_trans [OF update_wrapper_frame])

lemma secret_reconcile_frame: "redfish_frame s (snd (SecretReconcile env got s))"
  by (auto simp: SecretReconcile_def RedfishUpdateSecret_def Let_def
      intro: redfish_frame_trans [OF _ update_hosts_frame] split: sum.splits prod.splits)

lemma operation_config [simp]: "rsc_config (operation_reconciled env s) = rsc_config s"
  by (simp add: operation_reconciled_def split: prod.splits)

lemma add_turn_frame [simp]:
  "rsc_config (snd (add_turn env s)) = rsc_config s" "rsc_cache (snd (add_turn env s)) = rsc_cache s"
  "actions (rsc_hist (snd (add_turn env s))) = actions (rsc_hist s)"
  by (auto simp: add_turn_def same_queues_def split: list.splits prod.splits dest!: handleDHCPAdd_queues)

lemma delete_turn_frame [simp]:
  "rsc_config (snd (delete_turn env s)) = rsc_config s" "rsc_cache (snd (delete_turn env s)) = rsc_cache s"
  "actions (rsc_hist (snd (delete_turn env s))) = actions (rsc_hist s)"
  by (auto simp: delete_turn_def same_queues_def split: list.splits prod.splits dest!: handleDHCPDelete_queues)

lemma redfish_turn_config [simp]:
  "rsc_config (slept_add n s) = rsc_config s" "rsc_config (slept_delete n s) = rsc_config s"
  "rsc_config (forward_clients st st' s) = rsc_config s"
  "rsc_config (UpdateRedfishStatusAtInterval_tick env s) = rsc_config s"
  "rsc_config (snd (RedfishReconcile env name s)) = rsc_config s"
  "rsc_config (snd (SecretReconcile env got s)) = rsc_config s"
  using update_wrapper_frame [of s env "[]"] redfish_reconcile_frame [of s env name]
    secret_reconcile_frame [of s env got]
  by (simp_all add: slept_add_def slept_delete_def forward_clients_def UpdateRedfishStatusAtInterval_tick_def redfish_frame_def)

text \<open>The configuration of the SSHStatus controller.\<close>

lemma ssh_info_config: "ssc_config (snd (UpdateSSHStatusInfo env name d s)) = ssc_config s"
  by (auto simp: UpdateSSHStatusInfo_def ssh_sent_def Let_def split: sum.splits prod.splits if_splits)

lemma ssh_all_config: "ssc_config (ssh_update_all env hosts s) = ssc_config s"
  by (induction env hosts s rule: ssh_update_all.induct) (simp_all add: ssh_info_config)

lemma ssh_wrapper_config: "ssc_config (snd (UpdateSSHStatusInfoWrapper env name s)) = ssc_config s"
proof -
  have "ssc_config s1 = ssc_config s" if "UpdateSSHStatusInfo env name d s = (r, s1)" for d r s1
    using ssh_info_config [of env name d s] that by simp
  then show ?thesis by (auto simp: UpdateSSHStatusInfoWrapper_def ssh_all_config split: option.splits prod.splits)
qed

lemma subnet_loop_config: "subnet_loop env items obj s = (err, obj', s') \<Longrightarrow> ssc_config s' = ssc_config s"
  by (induction env items obj s rule: subnet_loop.induct)
    (auto simp: ssh_sent_def Let_def split: sum.splits prod.splits if_splits list.splits)

lemma ssh_reconcile_config: "ssc_config (snd (SSHReconcile env name s)) = ssc_config s"
proof -
  have u: "ssc_config s1 = ssc_config s0" if "UpdateSSHStatusInfo env n d s0 = (r, s1)" for n d r s0 s1
    using ssh_info_config [of env n d s0] that by simp
  have d: "ssc_config s1 = ssc_config s0" if "updateSubnetNameFromDhcpClientDetails env obj s0 = (e, obj', s1)" for obj e obj' s0 s1
    using that by (auto simp: updateSubnetNameFromDhcpClientDetails_def dest: subnet_loop_config split: if_splits sum.splits)
  have "ssc_config s1 = ssc_config s" if "processSSHStatus env o1 s = (e, s1)" for o1 e s1
    using that by (auto simp: processSSHStatus_def Let_def dest!: u d split: sum.splits prod.splits if_splits)
  then show ?thesis by (auto simp: SSHReconcile_def split: sum.splits option.splits prod.splits goerr.splits)
qed

lemma ssh_turn_config [simp]:
  "ssc_config (UpdateSSHStatusAtInterval_tick env s) = ssc_config s" "ssc_config (snd (SSHReconcile env name s)) = ssc_config s"
  by (simp_all add: UpdateSSHStatusAtInterval_tick_def ssh_wrapper_config ssh_reconcile_config)

text \<open>The subnet manager.\<close>

lemma binding_case_subnet:
  "binding_case env ch st = (sel, st') \<Longrightarrow>
   dv_subnet (mo_s st') = dv_subnet (mo_s st) \<and> dv_stopped (mo_s st') = dv_stopped (mo_s st)"
  by (auto simp: binding_case_def Let_def split: option.splits prod.splits sum.splits)

lemma select_case_subnet:
  assumes "select_case env ev st = (sel, st')"
  shows "dv_subnet (mo_s st') = dv_subnet (mo_s st) \<and> dv_stopped (mo_s st') = dv_stopped (mo_s st)"
proof (cases ev)
  case (LeaseEvent w)
  then show ?thesis using assms
    by (auto simp: select_case_def notify_status_def dest!: processDhcpLease_frame split: if_splits prod.splits sum.splits)
qed (use assms in \<open>auto simp: select_case_def dest!: binding_case_subnet split: list.splits if_splits option.splits\<close>)

lemma after_select_subnet:
  assumes "after_select env fl st = (r, st')"
  shows "dv_subnet (mo_s st') = dv_subnet (mo_s st)"
proof -
  obtain r1 s1 fs1 where g: "(if needRenewConfig fl then generateDnsmasqConfig (me_os env) (me_tmpl env) (mo_s st, mo_fs st)
      else (Inr (), mo_s st, mo_fs st)) = (r1, s1, fs1)"
    by (metis prod_cases3)
  have f: "dv_subnet s1 = dv_subnet (mo_s st)"
    using g by (auto dest: generate_subnet split: if_splits)
  obtain r2 st2 where d: "startDnsmasq env (st\<lparr>mo_s := s1, mo_fs := fs1\<rparr>) = (r2, st2)"
    by (cases "startDnsmasq env (st\<lparr>mo_s := s1, mo_fs := fs1\<rparr>)")
  show ?thesis
    using assms f startDnsmasq_subnet [OF d] unfolding after_select_def g
    by (cases r1; cases r2) (auto simp: Let_def notify_status_def d split: if_splits)
qed

lemma monitor_turn_subnet:
  assumes "monitor_turn env ev st = (r, st')"
  shows "dv_subnet (mo_s st') = dv_subnet (mo_s st)" "dv_stopped (mo_s st') = dv_stopped (mo_s st)"
proof -
  obtain sel st1 where s: "select_case env ev st = (sel, st1)" by (cases "select_case env ev st")
  have "dv_subnet (mo_s st') = dv_subnet (mo_s st) \<and> dv_stopped (mo_s st') = dv_stopped (mo_s st)"
    using select_case_subnet [OF s] assms
    by (cases sel) (auto simp: monitor_turn_def s dest: after_select_subnet after_select_manual)
  then show "dv_subnet (mo_s st') = dv_subnet (mo_s st)" "dv_stopped (mo_s st') = dv_stopped (mo_s st)" by simp_all
qed

text \<open>A server may change as long as it serves the same subnet.\<close>

lemma manager_ok_turn:
  assumes "manager_ok m" "gm_get (sm_servers m) k = Some st" "dv_subnet (mo_s st') = dv_subnet (mo_s st)"
    and "dv_stopped (mo_s st') = dv_stopped (mo_s st)"
  shows "manager_ok (m\<lparr>sm_servers := gm_put k st' (sm_servers m)\<rparr>)"
proof -
  have "serving (m\<lparr>sm_servers := gm_put k st' (sm_servers m)\<rparr>) = serving m"
    using assms(2,3) by (auto simp: serving_def fun_eq_iff simp del: map_of_eq_Some_iff)
  with assms show ?thesis by (auto simp: manager_ok_def simp del: map_of_eq_Some_iff split: if_splits)
qed

lemma manager_ok_queues [simp]:
  "manager_ok (m\<lparr>sm_addedBindingIp := q\<rparr>) = manager_ok m" "manager_ok (m\<lparr>sm_deletedBindingIp := q\<rparr>) = manager_ok m"
  "manager_ok (m\<lparr>sm_delayedAdded := q\<rparr>) = manager_ok m" "manager_ok (m\<lparr>sm_delayedDeleted := q\<rparr>) = manager_ok m"
  by (simp_all add: manager_ok_def serving_def)

lemma srv_events_subnet [simp]: "dv_subnet (mo_s (srv_UpdateBindingIpEvents add del st)) = dv_subnet (mo_s st)"
  by (simp add: srv_UpdateBindingIpEvents_def UpdateBindingIpEvents_def)

lemma manager_ok_given:
  assumes "manager_ok m" "gm_get (sm_servers m) k = Some c"
  shows "manager_ok (m\<lparr>sm_addedBindingIp := q, sm_servers := gm_put k (srv_UpdateBindingIpEvents add del c) (sm_servers m)\<rparr>)"
    "manager_ok (m\<lparr>sm_deletedBindingIp := q, sm_servers := gm_put k (srv_UpdateBindingIpEvents add del c) (sm_servers m)\<rparr>)"
  using manager_ok_turn [of "m\<lparr>sm_addedBindingIp := q\<rparr>" k c "srv_UpdateBindingIpEvents add del c"]
    manager_ok_turn [of "m\<lparr>sm_deletedBindingIp := q\<rparr>" k c "srv_UpdateBindingIpEvents add del c"] assms by simp_all

lemma processBindingIpEvents_ok: "manager_ok m \<Longrightarrow> manager_ok (processBindingIpEvents t m)"
  by (induction t m rule: processBindingIpEvents.induct)
    (auto simp: Let_def manager_ok_given simp del: map_of_eq_Some_iff split: list.splits option.splits)

lemma processBindingIpEvents_config [simp]: "sm_config (processBindingIpEvents t m) = sm_config m"
  by (induction t m rule: processBindingIpEvents.induct) (auto simp: Let_def split: list.splits option.splits)

lemma sent_on_ok [simp]: "manager_ok (sent_on bc bc' m) = manager_ok m" "sm_config (sent_on bc bc' m) = sm_config m"
  by (simp_all add: sent_on_def manager_ok_def serving_def)

lemma start_all_ok: "start_all items m = (r, m') \<Longrightarrow> manager_ok m \<Longrightarrow> manager_ok m' \<and> sm_config m' = sm_config m"
proof (induction items arbitrary: m)
  case (Cons item rest)
  obtain env subnet where i: "item = (env, subnet)" by (cases item)
  let ?n = "om_Name (sn_Meta subnet)"
  show ?case
  proof (cases "om_DeletionTimestamp (sn_Meta subnet) \<noteq> None \<or> gm_get (sm_servers m) ?n \<noteq> None")
    case True
    then have "start_all (item # rest) m = start_all rest m" by (auto simp: i)
    with Cons show ?thesis by simp
  next
    case False
    obtain r0 t where run: "Run (se_mon env) (new_server env (sm_config m) subnet) = (r0, t)"
      by (cases "Run (se_mon env) (new_server env (sm_config m) subnet)")
    let ?m = "m\<lparr>sm_servers := gm_put ?n t (sm_servers m)\<rparr>"
    have eq: "start_all (item # rest) m = (case r0 of Inl e \<Rightarrow> if is_panic e then (Inl e, m) else start_all rest m
        | Inr _ \<Rightarrow> start_all rest ?m)"
      using False run by (simp add: i split: sum.splits)
    show ?thesis
    proof (cases r0)
      case (Inl e)
      with Cons eq show ?thesis by (simp split: if_splits)
    next
      case (Inr u)
      have "manager_ok ?m"
        using manager_ok_put_server [OF Cons.prems(2)] Run_frame [OF run] False by simp
      moreover have "start_all rest ?m = (r, m')" using Cons.prems(1) eq Inr by simp
      ultimately show ?thesis using Cons.IH by fastforce
    qed
  qed
qed simp

lemma Reconcile_config: "Reconcile env name m = (out, w, m') \<Longrightarrow> sm_config m' = sm_config m"
  by (auto simp: Reconcile_def Reconcile_with_def Let_def split: sum.splits option.splits if_splits prod.splits)

section \<open>The invariant\<close>

text \<open>The API server answers a request for a subnet with the subnet of that name.\<close>

fun answers_named :: "agent_event \<Rightarrow> bool" where
  "answers_named (SubnetReconciled env name) \<longleftrightarrow> (\<forall>sn. se_got env = Inr sn \<longrightarrow> om_Name (sn_Meta sn) = name)"
| "answers_named _ \<longleftrightarrow> True"

definition same_config :: "topohub \<Rightarrow> AgentConfig \<Rightarrow> bool" where
  "same_config th config \<longleftrightarrow> th_config th = config \<and> sm_config (th_subnet th) = config
     \<and> rsc_config (th_redfish th) = config \<and> ssc_config (th_ssh th) = config"

text \<open>Before the election the parts are as they were made, and no loop runs.\<close>

definition untouched :: "topohub \<Rightarrow> topohub \<Rightarrow> bool" where
  "untouched th0 th \<longleftrightarrow> th_subnet th = th_subnet th0 \<and> th_redfish th = th_redfish th0 \<and> th_ssh th = th_ssh th0
     \<and> th_binding th = th_binding th0"

definition agent_ok :: "topohub \<Rightarrow> agent \<Rightarrow> bool" where
  "agent_ok th0 a \<longleftrightarrow> same_config (ag_th a) (th_config th0) \<and> manager_ok (th_subnet (ag_th a))
     \<and> (\<not> ag_elected a \<longrightarrow> untouched th0 (ag_th a) \<and> \<not> ag_subnets a \<and> \<not> ag_redfishLoops a \<and> \<not> ag_sshLoop a)
     \<and> (ag_bindingLoop a \<longrightarrow> ag_subnets a)
     \<and> (ag_status a = MainRunning \<and> ag_redfishLoops a \<longrightarrow> redfish_ticker (th_config th0) \<noteq> None)
     \<and> (ag_status a = MainRunning \<and> ag_sshLoop a \<longrightarrow> ssh_ticker (th_config th0) \<noteq> None)"

lemma on_part [simp]:
  "ag_elected (on_redfish f a) = ag_elected a" "ag_elected (on_ssh g a) = ag_elected a" "ag_elected (on_subnet h a) = ag_elected a"
  "ag_subnets (on_redfish f a) = ag_subnets a" "ag_subnets (on_ssh g a) = ag_subnets a" "ag_subnets (on_subnet h a) = ag_subnets a"
  "ag_bindingLoop (on_redfish f a) = ag_bindingLoop a" "ag_bindingLoop (on_ssh g a) = ag_bindingLoop a"
  "ag_bindingLoop (on_subnet h a) = ag_bindingLoop a" "ag_status (on_redfish f a) = ag_status a"
  "ag_status (on_ssh g a) = ag_status a" "ag_status (on_subnet h a) = ag_status a"
  "ag_redfishLoops (on_redfish f a) = ag_redfishLoops a" "ag_redfishLoops (on_ssh g a) = ag_redfishLoops a"
  "ag_redfishLoops (on_subnet h a) = ag_redfishLoops a" "ag_sshLoop (on_redfish f a) = ag_sshLoop a"
  "ag_sshLoop (on_ssh g a) = ag_sshLoop a" "ag_sshLoop (on_subnet h a) = ag_sshLoop a"
  by (simp_all add: on_redfish_def on_ssh_def on_subnet_def)

lemma on_part_th [simp]:
  "ag_th (on_redfish f a) = (ag_th a)\<lparr>th_redfish := f (th_redfish (ag_th a))\<rparr>"
  "ag_th (on_ssh g a) = (ag_th a)\<lparr>th_ssh := g (th_ssh (ag_th a))\<rparr>"
  "ag_th (on_subnet h a) = (ag_th a)\<lparr>th_subnet := h (th_subnet (ag_th a))\<rparr>"
  by (simp_all add: on_redfish_def on_ssh_def on_subnet_def)

text \<open>A step of an elected agent that changes one part and keeps its configuration.\<close>

lemma agent_ok_redfish:
  assumes "agent_ok th0 a" "ag_elected a" "rsc_config (f (th_redfish (ag_th a))) = rsc_config (th_redfish (ag_th a))"
  shows "agent_ok th0 (on_redfish f a)"
  using assms by (auto simp: agent_ok_def same_config_def)

lemma agent_ok_ssh:
  assumes "agent_ok th0 a" "ag_elected a" "ssc_config (f (th_ssh (ag_th a))) = ssc_config (th_ssh (ag_th a))"
  shows "agent_ok th0 (on_ssh f a)"
  using assms by (auto simp: agent_ok_def same_config_def)

lemma agent_ok_subnet:
  assumes "agent_ok th0 a" "ag_elected a" "sm_config (f (th_subnet (ag_th a))) = sm_config (th_subnet (ag_th a))"
    and "manager_ok (th_subnet (ag_th a)) \<Longrightarrow> manager_ok (f (th_subnet (ag_th a)))"
  shows "agent_ok th0 (on_subnet f a)"
  using assms by (auto simp: agent_ok_def same_config_def)

lemma agent_ok_exit: "agent_ok th0 a \<Longrightarrow> st \<noteq> MainRunning \<Longrightarrow> agent_ok th0 (a\<lparr>ag_status := st\<rparr>)"
  by (auto simp: agent_ok_def)

lemma server_turn_ok:
  assumes "agent_ok th0 a" "ag_elected a"
  shows "agent_ok th0 (server_turn k env ev a)"
proof (cases "gm_get (sm_servers (th_subnet (ag_th a))) k")
  case (Some st)
  obtain r st' where t: "monitor_turn env ev st = (r, st')" by (cases "monitor_turn env ev st")
  let ?b = "on_subnet (\<lambda>m. m\<lparr>sm_servers := gm_put k st' (sm_servers m)\<rparr>) a"
  have "agent_ok th0 ?b"
    using assms manager_ok_turn [OF _ Some] monitor_turn_subnet [OF t] by (intro agent_ok_subnet) simp_all
  then have "agent_ok th0 (on_redfish (forward_clients st st') ?b)"
    using assms(2) by (intro agent_ok_redfish) simp_all
  then show ?thesis using t Some by (cases r) (auto simp: server_turn_def Let_def intro: agent_ok_exit)
qed (simp add: server_turn_def assms)

lemma subnet_start_ok:
  assumes "agent_ok th0 a" "ag_elected a"
  shows "agent_ok th0 (subnet_start listed a)"
proof (cases listed)
  case (Inl e)
  with assms show ?thesis by (auto simp: subnet_start_def agent_ok_def)
next
  case (Inr items)
  obtain r m where s: "start_all items (th_subnet (ag_th a)) = (r, m)" by (cases "start_all items (th_subnet (ag_th a))")
  have "manager_ok m \<and> sm_config m = sm_config (th_subnet (ag_th a))"
    using start_all_ok [OF s] assms(1) by (simp add: agent_ok_def)
  with assms Inr s show ?thesis by (cases r) (auto simp: subnet_start_def agent_ok_def same_config_def)
qed

lemma main_turn_ok: "agent_ok th0 a \<Longrightarrow> ag_status a = MainRunning \<Longrightarrow> agent_ok th0 (main_turn ev a)"
proof (cases ev)
  case (ManagerEnded e)
  then show "agent_ok th0 a \<Longrightarrow> ag_status a = MainRunning \<Longrightarrow> agent_ok th0 (main_turn ev a)"
    by (cases e) (auto simp: main_turn_def agent_ok_def)
qed (auto simp: main_turn_def agent_ok_def same_config_def untouched_def)

lemma binding_reconciled_ok:
  assumes "agent_ok th0 a" "ag_elected a"
  shows "agent_ok th0 (binding_reconciled env name a)"
proof -
  obtain out w bc' where b: "BindingReconcile env name (th_binding (ag_th a)) = (out, w, bc')" by (metis surj_pair)
  have "agent_ok th0 (a\<lparr>ag_th := (ag_th a)\<lparr>th_binding := bc'\<rparr>\<rparr>)"
    using assms by (auto simp: agent_ok_def same_config_def)
  then show ?thesis
    using assms(2) by (simp add: binding_reconciled_def b) (rule agent_ok_subnet; simp)
qed

lemma subnet_reconciled_ok:
  assumes "agent_ok th0 a" "ag_elected a" "\<forall>sn. se_got env = Inr sn \<longrightarrow> om_Name (sn_Meta sn) = name"
  shows "agent_ok th0 (subnet_reconciled env name a)"
proof -
  let ?env = "env\<lparr>se_bindings := bc_cache (th_binding (ag_th a))\<rparr>"
  obtain out w m where r: "Reconcile ?env name (th_subnet (ag_th a)) = (out, w, m)" by (metis surj_pair)
  show ?thesis
    unfolding subnet_reconciled_def
    using Reconcile_config [OF r] Reconcile_manager_ok [OF r] assms by (intro agent_ok_subnet) (simp_all add: r)
qed

lemma start_ok:
  assumes "agent_ok th0 a" "ag_elected a"
  shows "agent_ok th0 (redfish_start a)" "agent_ok th0 (ssh_start a)"
  using assms by (auto simp: redfish_start_def ssh_start_def agent_ok_def same_config_def split: option.splits)

lemma enabled_elected:
  assumes "agent_ok th0 a" "enabled ev a" "sm_servers (th_subnet th0) = []" "ev \<noteq> LeaderElected" "\<forall>m. ev \<noteq> MainTurn m"
  shows "ag_elected a"
proof (rule ccontr)
  assume "\<not> ag_elected a"
  then have "\<not> ag_subnets a" "\<not> ag_redfishLoops a" "\<not> ag_sshLoop a" "\<not> ag_bindingLoop a" "sm_servers (th_subnet (ag_th a)) = []"
    using assms(1,3) by (auto simp: agent_ok_def untouched_def)
  with \<open>\<not> ag_elected a\<close> assms(2,4,5) show False by (cases ev) simp_all
qed

lemma agent_act_ok:
  assumes "agent_ok th0 a" "ag_status a = MainRunning" "enabled ev a" "answers_named ev" "sm_servers (th_subnet th0) = []"
  shows "agent_ok th0 (agent_act ev a)"
proof (cases "ev = LeaderElected \<or> (\<exists>m. ev = MainTurn m)")
  case True
  then show ?thesis
  proof (elim disjE exE)
    assume "ev = LeaderElected"
    with assms(1) show ?thesis by (simp add: agent_ok_def)
  next
    fix m assume "ev = MainTurn m"
    with main_turn_ok [OF assms(1,2), of m] show ?thesis by simp
  qed
next
  case False
  then have e: "ag_elected a" using enabled_elected [OF assms(1,3,5)] by blast
  note ok = agent_ok_redfish [OF assms(1) e] agent_ok_ssh [OF assms(1) e] agent_ok_subnet [OF assms(1) e]
    server_turn_ok [OF assms(1) e] subnet_start_ok [OF assms(1) e] binding_reconciled_ok [OF assms(1) e]
    subnet_reconciled_ok [OF assms(1) e] start_ok [OF assms(1) e]
  show ?thesis
  proof (cases ev)
    case (SubnetReconciled env name)
    with assms(4) show ?thesis by (simp only: agent_act.simps answers_named.simps subnet_reconciled_ok [OF assms(1) e])
  qed (use False in \<open>simp_all only: agent_act.simps\<close>;
    (rule ok | blast); simp add: processBindingIpEvents_ok)+
qed

lemma agent_run_ok_from:
  assumes "agent_ok th0 a" "\<forall>ev \<in> set evs. answers_named ev" "sm_servers (th_subnet th0) = []"
  shows "agent_ok th0 (agent_run evs a)"
  using assms(1,2)
proof (induction evs arbitrary: a)
  case (Cons ev evs)
  then have "agent_ok th0 (agent_step ev a)" using agent_act_ok assms(3) by (simp add: agent_step_def)
  with Cons show ?case by (simp add: agent_run_def)
qed (simp add: agent_run_def)

lemma started_agent_ok:
  "agent_ok (new_topohub config) (started_agent (new_topohub config))" "sm_servers (th_subnet (new_topohub config)) = []"
  by (simp_all add: agent_ok_def started_agent_def same_config_def untouched_def new_topohub_def NewSubnetReconciler_def
      NewRedfishStatusController_def NewSSHStatusController_def manager_ok_def subnet_cache.get_init)

section \<open>Other intervals\<close>

text \<open>The same host, whose feature file has another interval for the RedfishStatus controller.\<close>

definition other_interval :: "int \<Rightarrow> cfg_env \<Rightarrow> cfg_env" where
  "other_interval n env = env\<lparr>cv_yaml := (\<lambda>text. map_sum id (\<lambda>f. f\<lparr>fc_RedfishStatusUpdateInterval := n\<rparr>) (cv_yaml env text))\<rparr>"

lemma other_interval_simps [simp]:
  "cv_Getenv (other_interval n env) = cv_Getenv env" "cv_Stat (other_interval n env) = cv_Stat env"
  "cv_ReadFile (other_interval n env) = cv_ReadFile env" "cv_do (other_interval n env) = cv_do env"
  "cv_interfaces (other_interval n env) = cv_interfaces env" "cv_output (other_interval n env) = cv_output env"
  by (simp_all add: other_interval_def)

abbreviation with_interval :: "int \<Rightarrow> AgentConfig \<Rightarrow> AgentConfig" where
  "with_interval n c \<equiv> c\<lparr>cf_RedfishStatusUpdateInterval := n\<rparr>"

lemma loadFeatureConfig_interval:
  "loadFeatureConfig env c = Inr c' \<Longrightarrow> loadFeatureConfig (other_interval n env) c = Inr (with_interval n c')"
  by (auto simp: loadFeatureConfig_def Let_def other_interval_def split: sum.splits if_splits)

lemma cfg_do_interval: "cfg_do (other_interval n env) = cfg_do env"
  by (intro ext) (simp add: cfg_do_def)

lemma make_dirs_interval: "make_dirs (other_interval n env) dirs = make_dirs env dirs"
  by (induction dirs) (intro ext, simp add: missing_def cfg_do_interval)+

lemma storage_paths_interval: "storage_paths (with_interval n c) = with_interval n (storage_paths c)"
  by (simp add: storage_paths_def Let_def)

lemma copy_core_interval: "copy_core (other_interval n env) (with_interval n c) = copy_core env c"
  by (intro ext) (simp add: copy_core_def missing_def cfg_do_interval Let_def split: sum.splits)

lemma subdirs_interval: "subdirs (with_interval n c) = subdirs c"
  by (simp add: subdirs_def)

lemma initStorageDirectory_interval:
  "initStorageDirectory env c = (Inr c', h) \<Longrightarrow>
   initStorageDirectory (other_interval n env) (with_interval n c) = (Inr (with_interval n c'), h)"
  by (auto simp: initStorageDirectory_def storage_paths_interval make_dirs_interval copy_core_interval subdirs_interval
      cfg_do_interval Let_def go_simps split: sum.splits)

text \<open>The loading accepts every interval.\<close>

lemma LoadAgentConfig_interval:
  assumes "LoadAgentConfig env = (Inr c, h)"
  shows "LoadAgentConfig (other_interval n env) = (Inr (with_interval n c), h)"
proof -
  obtain c0 where c0: "env_config env = Inr c0" using assms by (auto simp: LoadAgentConfig_def split: sum.splits)
  have e: "env_config (other_interval n env) = Inr c0" using c0 by (simp add: env_config_def required_env_def)
  obtain c1 where c1: "loadFeatureConfig env c0 = Inr c1" using assms c0 by (auto simp: LoadAgentConfig_def split: sum.splits)
  obtain u where v: "verifyWebhookCertDir env c1 = Inr u" using assms c0 c1 by (auto simp: LoadAgentConfig_def split: sum.splits)
  have v': "verifyWebhookCertDir (other_interval n env) (with_interval n c1) = Inr u"
    using v by (simp add: verifyWebhookCertDir_def)
  have i: "initStorageDirectory env c1 = (Inr c, h)"
    using assms c0 c1 v by (auto simp: LoadAgentConfig_def split: sum.splits prod.splits)
  show ?thesis
    by (simp add: LoadAgentConfig_def e loadFeatureConfig_interval [OF c1] v' initStorageDirectory_interval [OF i])
qed

lemma start_order_interval:
  assumes "ma_cfg env' = other_interval n (ma_cfg env)" "ma_metricsPort env' = ma_metricsPort env"
    and "ma_probePort env' = ma_probePort env"
  shows "start_order env' (with_interval n config) port = start_order env config port"
  using assms by (simp add: start_order_def initClients_def manager_steps_def)

lemma main_setup_interval:
  assumes "main_setup env = (Inr th, did)"
  shows "main_setup (env\<lparr>ma_cfg := other_interval n (ma_cfg env)\<rparr>) = (Inr (new_topohub (with_interval n (th_config th))), did)"
proof -
  obtain config port h where s: "LoadAgentConfig (ma_cfg env) = (Inr config, h)" "parse_int64 (ma_webhookPort env) = Some port"
    "all_pass env [] (start_order env config port)" "did = start_order env config port" "th = new_topohub config"
    using assms unfolding main_setup_iff by blast
  let ?env = "env\<lparr>ma_cfg := other_interval n (ma_cfg env)\<rparr>"
  have o: "start_order ?env (with_interval n config) port = start_order env config port"
    by (rule start_order_interval) simp_all
  have p: "all_pass ?env did ss = all_pass env did ss" for did ss by (simp add: all_pass_def)
  show ?thesis
    unfolding main_setup_iff o p using s LoadAgentConfig_interval [OF s(1), of n] o p
    by (auto simp: new_topohub_def)
qed

text \<open>Intervals of less than three centuries do not wrap.\<close>

lemma sint_interval:
  assumes "\<bar>n\<bar> \<le> 9223372036"
  shows "sint (word_of_int n * Second) = n * 1000000000"
proof -
  have "word_of_int n * Second = word_of_int (n * 1000000000)" by (simp add: Second_def wi_hom_mult [symmetric])
  moreover have "sint (word_of_int (n * 1000000000) :: 64 word) = n * 1000000000"
    unfolding sint_sbintrunc' by (rule signed_take_bit_int_eq_self) (use assms in simp_all)
  ultimately show ?thesis by metis
qed

section \<open>A failed list of the subnets\<close>

lemma drop_appended: "(\<exists>q. xs = ys @ q) \<Longrightarrow> ys @ drop (length ys) xs = xs"
  by auto

text \<open>Without the loop the channels of binding events only fill.\<close>

lemma Reconcile_channels: "Reconcile env name m = (out, w, m') \<Longrightarrow> sm_addedBindingIp m' = sm_addedBindingIp m"
  by (auto simp: Reconcile_def Reconcile_with_def Let_def split: sum.splits option.splits if_splits prod.splits)

definition no_binding_loop :: "agent \<Rightarrow> bool" where
  "no_binding_loop a \<longleftrightarrow> ag_subnets a \<and> \<not> ag_bindingLoop a"

abbreviation waiting_bindings :: "agent \<Rightarrow> BindingIPInfo list" where
  "waiting_bindings a \<equiv> sm_addedBindingIp (th_subnet (ag_th a))"

lemma stalled_step:
  assumes "no_binding_loop a"
  shows "no_binding_loop (agent_step ev a) \<and> (\<exists>q. waiting_bindings (agent_step ev a) = waiting_bindings a @ q)"
proof (cases "ag_status a = MainRunning \<and> enabled ev a")
  case True
  then have "no_binding_loop (agent_act ev a) \<and> (\<exists>q. waiting_bindings (agent_act ev a) = waiting_bindings a @ q)"
  proof (cases ev)
    case (SubnetReconciled env name)
    obtain out w m where
      r: "Reconcile (env\<lparr>se_bindings := bc_cache (th_binding (ag_th a))\<rparr>) name (th_subnet (ag_th a)) = (out, w, m)"
      by (metis surj_pair)
    show ?thesis using assms SubnetReconciled Reconcile_channels [OF r]
      by (simp add: subnet_reconciled_def r no_binding_loop_def)
  next
    case (BindingReconciled env name)
    then show ?thesis using assms
      by (auto simp: binding_reconciled_def no_binding_loop_def sent_on_def Let_def split: prod.splits)
  next
    case (ServerTurn k env t)
    then show ?thesis using assms
      by (auto simp: server_turn_def no_binding_loop_def Let_def split: option.splits prod.splits turn_result.splits)
  next
    case (MainTurn m)
    then show ?thesis using assms
      by (cases m) (auto simp: main_turn_def no_binding_loop_def split: option.splits prod.splits main_event.splits
          elim!: main_loop.elims)
  qed (use assms in \<open>simp_all add: no_binding_loop_def redfish_start_def ssh_start_def split: option.splits\<close>)
  with True show ?thesis by (simp add: agent_step_def)
qed (use assms in \<open>auto simp: agent_step_def\<close>)

lemma stalled_run:
  "no_binding_loop a \<Longrightarrow> no_binding_loop (agent_run evs a) \<and> (\<exists>q. waiting_bindings (agent_run evs a) = waiting_bindings a @ q)"
proof (induction evs arbitrary: a)
  case (Cons ev evs)
  from Cons.IH stalled_step [OF Cons.prems, of ev] show ?case
    by (fastforce simp: agent_run_def)
qed (simp add: agent_run_def)

text \<open>If the one list of the subnets at the election fails, no binding event is taken for the life of the agent.\<close>

lemma failed_list_stalls_bindings:
  assumes "ag_status a = MainRunning" "ag_elected a" "\<not> ag_subnets a" "\<not> ag_bindingLoop a"
  shows "\<exists>q. waiting_bindings (agent_run (SubnetStart (Inl e) # evs) a) = waiting_bindings a @ q"
proof -
  let ?b = "agent_step (SubnetStart (Inl e)) a"
  have "no_binding_loop ?b" "waiting_bindings ?b = waiting_bindings a"
    using assms by (simp_all add: agent_step_def subnet_start_def no_binding_loop_def)
  with stalled_run [of ?b evs] show ?thesis by (simp add: agent_run_def)
qed

section \<open>Properties\<close>

text \<open>Property C13: whatever happens to an agent that has come up, in whatever order its goroutines take their turns:
  before the election the controllers and the subnet manager are as they were made and no loop runs; all parts
  work with the configuration that was loaded; every subnet in the manager's cache is served with its cached
  specification by a server that has not been stopped; and an agent that is alive has pollers with intervals a
  ticker takes.\<close>

theorem agent_keeps_invariant:
  assumes "main_setup env = (Inr th, did)" "\<forall>ev \<in> set evs. answers_named ev" "agent_run evs (started_agent th) = a"
  shows "(\<not> ag_elected a \<longrightarrow> th_subnet (ag_th a) = th_subnet th \<and> th_redfish (ag_th a) = th_redfish th
        \<and> th_ssh (ag_th a) = th_ssh th \<and> th_binding (ag_th a) = th_binding th
        \<and> \<not> ag_bindingLoop a \<and> \<not> ag_redfishLoops a \<and> \<not> ag_sshLoop a)
    \<and> sm_config (th_subnet (ag_th a)) = th_config th \<and> rsc_config (th_redfish (ag_th a)) = th_config th
    \<and> ssc_config (th_ssh (ag_th a)) = th_config th
    \<and> (\<forall>n sn. SubnetCache_Get (sm_cache (th_subnet (ag_th a))) n = Some sn \<longrightarrow>
         (\<exists>srv. gm_get (sm_servers (th_subnet (ag_th a))) n = Some srv \<and> sn_Spec (dv_subnet (mo_s srv)) = sn_Spec sn
            \<and> \<not> dv_stopped (mo_s srv)))
    \<and> (ag_status a = MainRunning \<longrightarrow> (ag_redfishLoops a \<longrightarrow> redfish_ticker (th_config th) \<noteq> None)
         \<and> (ag_sshLoop a \<longrightarrow> ssh_ticker (th_config th) \<noteq> None))"
proof -
  obtain config where th: "th = new_topohub config" using assms(1) unfolding main_setup_iff by blast
  have k: "agent_ok th a"
    using agent_run_ok_from [OF _ assms(2), of th "started_agent th"] started_agent_ok [of config] assms(3) th by simp
  have "\<exists>srv. gm_get (sm_servers (th_subnet (ag_th a))) n = Some srv \<and> sn_Spec (dv_subnet (mo_s srv)) = sn_Spec sn
      \<and> \<not> dv_stopped (mo_s srv)" if "SubnetCache_Get (sm_cache (th_subnet (ag_th a))) n = Some sn" for n sn
  proof -
    have m: "manager_ok (th_subnet (ag_th a))" using k by (simp add: agent_ok_def)
    with that have "serving (th_subnet (ag_th a)) n = Some (sn_Spec sn)" by (simp add: manager_ok_def)
    then obtain srv where "gm_get (sm_servers (th_subnet (ag_th a))) n = Some srv" "sn_Spec (dv_subnet (mo_s srv)) = sn_Spec sn"
      unfolding serving_def by blast
    with m show ?thesis unfolding manager_ok_def by blast
  qed
  with k show ?thesis by (auto simp: agent_ok_def same_config_def untouched_def)
qed

text \<open>The interval of the RedfishStatus controller is not checked when the configuration is loaded: if an
  agent comes up, it comes up with any interval in its feature file, also with none, which is zero. When it is elected
  then and its controller starts, the agent lives on if the interval is positive, and panics if it is not.\<close>

theorem interval_decides:
  assumes "main_setup env = (Inr th, did)" "\<bar>n\<bar> \<le> 9223372036"
  shows "\<exists>th'. main_setup (env\<lparr>ma_cfg := other_interval n (ma_cfg env)\<rparr>) = (Inr th', did)
    \<and> th_config th' = (th_config th)\<lparr>cf_RedfishStatusUpdateInterval := n\<rparr>
    \<and> ag_status (agent_run [LeaderElected] (started_agent th')) = MainRunning
    \<and> ag_status (agent_run [LeaderElected, RedfishStart] (started_agent th')) = (if n > 0 then MainRunning else MainExit 2)"
proof -
  let ?th = "new_topohub (with_interval n (th_config th))"
  have "redfish_ticker (rsc_config (th_redfish ?th)) = None \<longleftrightarrow> n \<le> 0"
    using sint_interval [OF assms(2)]
    by (simp add: redfish_ticker_def NewTicker_def new_topohub_def NewRedfishStatusController_def)
  then have "ag_status (agent_run [LeaderElected, RedfishStart] (started_agent ?th)) = (if n > 0 then MainRunning else MainExit 2)"
    by (auto simp: agent_run_def agent_step_def started_agent_def redfish_start_def split: option.splits)
  moreover have "ag_status (agent_run [LeaderElected] (started_agent ?th)) = MainRunning"
    by (simp add: agent_run_def agent_step_def started_agent_def)
  moreover have "th_config ?th = with_interval n (th_config th)" by (simp add: new_topohub_def)
  ultimately show ?thesis using main_setup_interval [OF assms(1), of n] by blast
qed

text \<open>An agent that starts on the example host with the interval left out, and one with 60 seconds.\<close>

lemma interval_decides_witness:
  "\<exists>th did. main_setup (example_main\<lparr>ma_cfg := other_interval 0 (ma_cfg example_main)\<rparr>) = (Inr th, did)
     \<and> ag_status (agent_run [LeaderElected, RedfishStart] (started_agent th)) = MainExit 2"
proof -
  obtain config did where m: "main_setup example_main = (Inr (new_topohub config), did)" using example_main_up by blast
  from interval_decides [OF m, of 0] show ?thesis by auto
qed

lemma agent_keeps_invariant_witness:
  "\<exists>th did. main_setup example_main = (Inr th, did)
     \<and> sm_config (th_subnet (ag_th (agent_run [LeaderElected, SubnetStart (Inr []), RedfishStart] (started_agent th)))) = th_config th"
proof -
  obtain config did where m: "main_setup example_main = (Inr (new_topohub config), did)" using example_main_up by blast
  from agent_keeps_invariant [OF m _ refl, of "[LeaderElected, SubnetStart (Inr []), RedfishStart]"] m show ?thesis by auto
qed

end
