(* ===== verification/Sessions.thy ===== *)
theory Sessions
  imports Agent
begin

text \<open>
  Where the sessions with machines come from (\<open>NewClient\<close> in \<open>pkg/redfish/interface.go\<close>): in every run of the
  agent, a session in the table of clients is one that \<open>gofish.Connect\<close> returned for the configuration kept
  beside it.
\<close>

section \<open>The history only grows\<close>

definition grows :: "red_hist \<Rightarrow> red_hist \<Rightarrow> bool" where
  "grows h h' \<longleftrightarrow> (\<exists>t. h' = h @ t)"

lemma grows_refl [simp]: "grows h h"
  by (simp add: grows_def)

lemma grows_append [simp]: "grows h (h @ t)"
  by (simp add: grows_def)

lemma grows_trans: "grows h1 h2 \<Longrightarrow> grows h2 h3 \<Longrightarrow> grows h1 h3"
  by (auto simp: grows_def)

lemma grows_snoc: "grows h h' \<Longrightarrow> grows h (h' @ t)"
  by (auto simp: grows_def)

lemma resets_grows: "GetSupportedResetTypes env c s h = (r, h') \<Longrightarrow> grows h h'"
  by (auto simp: GetSupportedResetTypes_def Let_def split: if_splits sum.splits option.splits)

lemma refresh_grows: "refresh_system env c s h = (r, h') \<Longrightarrow> grows h h'"
  by (auto simp: refresh_system_def red_calls split: sum.splits option.splits if_splits)

lemma attempt_grows: "pxe_attempt env c s b rt h = (r, h') \<Longrightarrow> grows h h'"
  by (auto simp: pxe_attempt_def red_calls split: option.splits)

lemma pxe_grows: "pxe_loop env c i n s b rt err h = (r, h') \<Longrightarrow> grows h h'"
proof (induction n arbitrary: i s err h)
  case (Suc n)
  obtain r1 h1 where r1: "(if i > 0 then refresh_system env c s h else (Inr s, h)) = (r1, h1)" by fastforce
  then have a: "grows h h1" by (auto dest: refresh_grows split: if_splits)
  show ?case
  proof (cases r1)
    case (Inr s1)
    obtain e h2 where p: "pxe_attempt env c s1 b rt h1 = (e, h2)" by fastforce
    with a have "grows h h2" using attempt_grows grows_trans by blast
    with Suc r1 p Inr show ?thesis by (cases e) (auto intro: grows_trans)
  qed (use Suc.prems r1 a in auto)
qed simp

lemma power_system_grows: "power_system env c cmd s h = (r, h') \<Longrightarrow> grows h h'"
  by (auto simp: power_system_def pxeRebootWithRetry_def red_calls Let_def split: sum.splits prod.splits option.splits if_splits
      dest!: resets_grows pxe_grows intro: grows_trans grows_snoc)

lemma power_loop_grows: "power_loop env c cmd ss h = (r, h') \<Longrightarrow> grows h h'"
proof (induction ss arbitrary: h)
  case (Cons s ss)
  obtain r1 h1 where p: "power_system env c cmd s h = (r1, h1)" by fastforce
  from Cons p power_system_grows [OF p] show ?case by (cases r1) (auto intro: grows_trans)
qed simp

lemma Power_grows: "Power env c cmd h = (r, h') \<Longrightarrow> grows h h'"
  by (auto simp: Power_def red_calls split: sum.splits if_splits dest!: power_loop_grows intro: grows_trans [OF grows_append])

lemma GetInfo_grows: "GetInfo env c h = (r, h') \<Longrightarrow> grows h h'"
  by (auto simp: GetInfo_def Let_def red_calls dest!: resets_grows simp del: set_fields.simps
      intro!: grows_snoc intro: grows_trans [OF grows_append] split: sum.splits list.splits prod.splits if_splits)

lemma GetManagerLog_grows: "GetManagerLog env c h = (r, h') \<Longrightarrow> grows h h'"
  by (auto simp: GetManagerLog_def red_calls split: sum.splits list.splits if_splits)

lemma GetLog_grows: "GetLog env c h = (r, h') \<Longrightarrow> grows h h'"
  by (auto simp: GetLog_def red_calls dest!: GetManagerLog_grows intro: grows_trans [OF grows_append]
      split: sum.splits prod.splits if_splits list.splits)

section \<open>Sessions that were opened\<close>

text \<open>A connection to the configuration is in the history, and it was answered with the session.\<close>

definition opened :: "red_env \<Rightarrow> red_hist \<Rightarrow> redfishClient \<Rightarrow> bool" where
  "opened env h c \<longleftrightarrow> (\<exists>h1 h2. h = h1 @ RConnect (rd_config c) # h2 \<and> g_Connect env h1 (rd_config c) = Inr (rd_client c))"

lemma opened_grows: "opened env h c \<Longrightarrow> grows h h' \<Longrightarrow> opened env h' c"
  by (fastforce simp: opened_def grows_def)

definition session_step :: "red_env \<Rightarrow> redfishClients \<Rightarrow> red_hist \<Rightarrow> redfishClients \<Rightarrow> red_hist \<Rightarrow> bool" where
  "session_step env cs h cs' h' \<longleftrightarrow> grows h h'
     \<and> (\<forall>ip c. gm_get cs' ip = Some c \<longrightarrow> gm_get cs ip = Some c \<or> opened env h' c)"

lemma session_step_trans:
  "session_step env cs1 h1 cs2 h2 \<Longrightarrow> session_step env cs2 h2 cs3 h3 \<Longrightarrow> session_step env cs1 h1 cs3 h3"
  unfolding session_step_def by (meson grows_trans opened_grows)

lemma session_step_hist: "grows h h' \<Longrightarrow> session_step env cs h cs h'"
  by (simp add: session_step_def)

lemma connect_new_session:
  assumes "connect_new env con cs h = (r, cs', h')"
  shows "session_step env cs h cs' h'"
proof (cases "g_Connect env h (config_of con)")
  case (Inr n)
  then have "h' = h @ [RConnect (config_of con)]"
    "cs' = gm_put (b_IpAddr (rc_Info con)) \<lparr>rd_config = config_of con, rd_client = n\<rparr> cs"
    using assms by (auto simp: connect_new_def Let_def)
  moreover have "opened env (h @ [RConnect (config_of con)]) \<lparr>rd_config = config_of con, rd_client = n\<rparr>"
    using Inr by (auto simp: opened_def)
  ultimately show ?thesis by (auto simp: session_step_def)
qed (use assms in \<open>auto simp: connect_new_def Let_def session_step_def\<close>)

lemma NewClient_session:
  assumes "NewClient env con cs h = (r, cs', h')"
  shows "session_step env cs h cs' h'"
proof -
  have d: "session_step env cs h (gm_del ip cs) (h @ t)" for ip t
    by (auto simp: session_step_def)
  show ?thesis
    using assms
    by (auto simp: NewClient_def red_calls Let_def session_step_hist split: option.splits if_splits sum.splits prod.splits
        dest!: connect_new_session intro: session_step_trans [OF d])
qed

section \<open>Sessions of the controller\<close>

definition sessions_kept :: "red_env \<Rightarrow> redfishStatusController \<Rightarrow> redfishStatusController \<Rightarrow> bool" where
  "sessions_kept env s s' \<longleftrightarrow> session_step env (rsc_clients s) (rsc_hist s) (rsc_clients s') (rsc_hist s')"

lemma sessions_kept_same:
  "rsc_clients s' = rsc_clients s \<Longrightarrow> rsc_hist s' = rsc_hist s \<Longrightarrow> sessions_kept env s s'"
  by (simp add: sessions_kept_def session_step_hist)

lemma sessions_kept_refl [simp]: "sessions_kept env s s"
  by (simp add: sessions_kept_same)

lemma sessions_kept_trans: "sessions_kept env s t \<Longrightarrow> sessions_kept env t u \<Longrightarrow> sessions_kept env s u"
  unfolding sessions_kept_def by (rule session_step_trans)

lemma sessions_kept_writes [simp]:
  "sessions_kept env s (sent ws t) = sessions_kept env s t" "sessions_kept env (sent ws s) t = sessions_kept env s t"
  "sessions_kept env s (t\<lparr>rsc_cache := x\<rparr>) = sessions_kept env s t"
  "sessions_kept env (s\<lparr>rsc_cache := x\<rparr>) t = sessions_kept env s t"
  "sessions_kept env s (t\<lparr>rsc_events := es\<rparr>) = sessions_kept env s t"
  by (simp_all add: sessions_kept_def sent_def)

lemma read_info_sessions: "read_info env client s = (hl, i, s') \<Longrightarrow> sessions_kept (ra_red env) s s'"
  by (auto simp: read_info_def sessions_kept_def dest!: GetInfo_grows intro: session_step_hist split: sum.splits prod.splits)

lemma read_log_sessions: "read_log env name hl client st s = (st', s') \<Longrightarrow> sessions_kept (ra_red env) s s'"
  by (auto simp: read_log_def Let_def sessions_kept_def dest!: GetLog_grows intro: session_step_hist
      split: sum.splits prod.splits if_splits)

lemma update_info_sessions: "sessions_kept (ra_red env) s (snd (UpdateRedfishStatusInfo env name d s))"
proof -
  obtain l locks1 where lk: "GetLock name (rsc_locks s) = (l, locks1)" by fastforce
  obtain client c1 h1 where n: "NewClient (ra_red env) d (rsc_clients s) (rsc_hist s) = (client, c1, h1)"
    by (metis prod_cases3)
  have "sessions_kept (ra_red env) s (s\<lparr>rsc_locks := locks1, rsc_clients := c1, rsc_hist := h1\<rparr>)"
    using NewClient_session [OF n] by (simp add: sessions_kept_def)
  then show ?thesis
    using lk n
    by (auto simp: UpdateRedfishStatusInfo_def Let_def split: prod.splits sum.splits
        dest!: read_info_sessions read_log_sessions intro: sessions_kept_trans)
qed

lemma sync_loop_sessions: "sessions_kept (ra_red env) s (snd (sync_loop env syncData failed s))"
proof (induction env syncData failed s rule: sync_loop.induct)
  case (2 env item t syncData failed s)
  obtain b err s1 where u: "UpdateRedfishStatusInfo env item t s = ((b, err), s1)" by (metis surj_pair)
  then have "sessions_kept (ra_red env) s s1" using update_info_sessions by (metis snd_conv)
  with 2 u show ?case by (cases err) (auto intro: sessions_kept_trans)
qed simp

lemma update_wrapper_sessions: "sessions_kept (ra_red env) s (snd (UpdateRedfishStatusInfoWrapper env name s))"
proof -
  have "sessions_kept (ra_red env) s s1" if "sync_loop env xs False s = (b, s1)" for xs b s1
    using sync_loop_sessions [of env s xs False] that by simp
  then show ?thesis by (auto simp: UpdateRedfishStatusInfoWrapper_def Let_def split: prod.splits)
qed

lemma redfish_reconcile_sessions: "sessions_kept (ra_red env) s (snd (RedfishReconcile env name s))"
proof -
  have w: "sessions_kept (ra_red env) s1 s2" if "UpdateRedfishStatusInfoWrapper env n s1 = (x, s2)" for n s1 x s2
    using update_wrapper_sessions [of env s1 n] that by simp
  have "sessions_kept (ra_red env) s s1" if "processRedfishStatus env r s = (e, s1)" for r e s1
    using that by (auto simp: processRedfishStatus_def Let_def dest!: w split: sum.splits prod.splits if_splits)
  then show ?thesis by (auto simp: RedfishReconcile_def split: sum.splits option.splits prod.splits)
qed

lemma update_hosts_sessions: "sessions_kept (ra_red env) s (update_hosts env names s)"
  by (induction env names s rule: update_hosts.induct) (auto intro: sessions_kept_trans [OF update_wrapper_sessions])

lemma secret_reconcile_sessions: "sessions_kept (ra_red env) s (snd (SecretReconcile env got s))"
proof -
  have "sessions_kept (ra_red env) s (update_hosts env names (s\<lparr>rsc_cache := x\<rparr>))" for names x
    using update_hosts_sessions [of env "s\<lparr>rsc_cache := x\<rparr>" names] by simp
  then show ?thesis
    by (auto simp: SecretReconcile_def RedfishUpdateSecret_def Let_def split: sum.splits prod.splits)
qed

lemma make_binding_sessions: "make_binding env client uid s = (e, s') \<Longrightarrow> sessions_kept r s s'"
  by (drule make_binding_writes) auto

lemma add_turn_sessions: "sessions_kept (ra_red env) s (snd (add_turn env s))"
proof -
  have m: "sessions_kept (ra_red env) s1 s2" if "add_new env client s1 = (err, s2)" for client s1 err s2
  proof -
    let ?g = "getSecretData env (cf_RedfishSecretName (rsc_config s1)) (cf_RedfishSecretNamespace (rsc_config s1))"
    show ?thesis
    proof (cases ?g)
      case (Inr up)
      obtain u p where up: "up = (u, p)" by (cases up)
      let ?con = "lease_con (rsc_config s1) (lease_basic (rsc_config s1) (ra_format env) client) u p"
      obtain r c1 h1 where n: "NewClient (ra_red env) ?con (rsc_clients s1) (rsc_hist s1) = (r, c1, h1)"
        by (metis prod_cases3)
      have "sessions_kept (ra_red env) s1 (s1\<lparr>rsc_clients := c1, rsc_hist := h1\<rparr>)"
        using NewClient_session [OF n] by (simp add: sessions_kept_def)
      with that up Inr n show ?thesis
        by (auto simp: add_new_def Let_def split: sum.splits dest!: make_binding_sessions [where r = "ra_red env"]
            intro: sessions_kept_trans)
    qed (use that in \<open>auto simp: add_new_def Let_def\<close>)
  qed
  have e: "sessions_kept (ra_red env) s1 s2" if "add_existing env client x s1 = (err, s2)" for client x s1 err s2
    using that by (auto simp: add_existing_def Let_def split: if_splits sum.splits
        dest!: make_binding_sessions [where r = "ra_red env"] intro: sessions_kept_trans)
  have "sessions_kept (ra_red env) s1 s2" if "handleDHCPAdd env client s1 = (err, s2)" for client s1 err s2
    using that by (auto simp: handleDHCPAdd_def split: sum.splits if_splits dest!: m e)
  note h = this
  show ?thesis
    by (auto simp: add_turn_def split: list.splits prod.splits dest!: h) (auto simp: sessions_kept_def)
qed

lemma delete_turn_sessions: "sessions_kept r s (snd (delete_turn env s))"
  by (rule sessions_kept_same)
    (auto simp: delete_turn_def handleDHCPDelete_def sent_def Let_def split: list.splits prod.splits sum.splits if_splits)

lemma run_action_sessions:
  assumes "run_action env action d cs h = (r, cs', h')"
  shows "session_step (oe_red env) cs h cs' h'"
proof -
  obtain r1 c1 h1 where n: "NewClient (oe_red env) d cs h = (r1, c1, h1)" by (metis prod_cases3)
  from NewClient_session [OF n] show ?thesis
    using assms n
    by (auto simp: run_action_def split: sum.splits prod.splits if_splits dest!: Power_grows
        intro: session_step_trans session_step_hist)
qed

lemma operation_sessions: "sessions_kept (oe_red env) s (operation_reconciled env s)"
proof -
  have "session_step (oe_red env) cs h cs' h'" if "OperationReconcile env0 cs h = (out, w, cs', h')" "oe_red env0 = oe_red env"
    for env0 cs h out w cs' h'
    using that(1) by (auto simp: OperationReconcile_def Let_def session_step_hist simp flip: that(2)
        dest!: run_action_sessions split: sum.splits option.splits prod.splits if_splits)
  then show ?thesis
    by (auto simp: operation_reconciled_def sessions_kept_def split: prod.splits)
qed

end
