(* ===== verification/Operated.thy ===== *)
theory Operated
  imports Sessions
begin

text \<open>
  What the whole agent does to machines: from the RedfishStatus in the API server through the cache of
  connections (\<open>pkg/redfishstatus\<close>) and the sessions (\<open>pkg/redfish\<close>) to the action a host operation asks
  for (\<open>pkg/hostoperation\<close>).
\<close>

section \<open>Actions on one machine\<close>

text \<open>A call that changes the machine behind a session.\<close>

definition on_machine :: "nat \<Rightarrow> red_op \<Rightarrow> bool" where
  "on_machine n x \<longleftrightarrow> (\<exists>s k. x = RReset n s k) \<or> (\<exists>s b. x = RSetBoot n s b)"

definition acted :: "nat \<Rightarrow> red_hist \<Rightarrow> red_hist \<Rightarrow> bool" where
  "acted n h h' \<longleftrightarrow> (\<exists>t. actions h' = actions h @ t \<and> (\<forall>x \<in> set t. on_machine n x))"

lemma acted_refl: "actions h' = actions h \<Longrightarrow> acted n h h'"
  by (simp add: acted_def)

lemma acted_trans: "acted n h1 h2 \<Longrightarrow> acted n h2 h3 \<Longrightarrow> acted n h1 h3"
  by (force simp: acted_def)

lemma set_boot_acted: "set_boot env n s b h = (r, h') \<Longrightarrow> acted n h h'"
  by (auto simp: set_boot_def acted_def on_machine_def)

lemma reset_acted: "reset_system env n s k h = (r, h') \<Longrightarrow> acted n h h'"
  by (auto simp: reset_system_def acted_def on_machine_def)

lemma pxe_attempt_acted: "pxe_attempt env c s b rt h = (r, h') \<Longrightarrow> acted (rd_client c) h h'"
  by (auto simp: pxe_attempt_def split: prod.splits option.splits
      dest!: set_boot_acted reset_acted intro: acted_trans)

lemma pxe_loop_acted: "pxe_loop env c i n s b rt err h = (r, h') \<Longrightarrow> acted (rd_client c) h h'"
proof (induction n arbitrary: i s err h)
  case (Suc n)
  obtain r1 h1 where r1: "(if i > 0 then refresh_system env c s h else (Inr s, h)) = (r1, h1)" by fastforce
  have a: "acted (rd_client c) h h1"
    using r1 refresh_system_result [of env c s h] by (auto intro: acted_refl split: if_splits)
  show ?case
  proof (cases r1)
    case (Inr s1)
    obtain e h2 where p: "pxe_attempt env c s1 b rt h1 = (e, h2)" by fastforce
    with a have "acted (rd_client c) h h2" using pxe_attempt_acted acted_trans by blast
    with Suc r1 p Inr show ?thesis by (cases e) (auto intro: acted_trans)
  qed (use Suc.prems r1 a in auto)
qed (auto intro: acted_refl)

lemma power_system_acted: "power_system env c cmd s h = (r, h') \<Longrightarrow> acted (rd_client c) h h'"
proof -
  assume p: "power_system env c cmd s h = (r, h')"
  obtain t h1 where g: "GetSupportedResetTypes env c s h = (t, h1)" by fastforce
  have a: "acted (rd_client c) h h1" using GetSupportedResetTypes_actions [OF g] by (rule acted_refl)
  show ?thesis
    using p g a
    by (auto simp: power_system_def pxeRebootWithRetry_def Let_def acted_refl split: sum.splits prod.splits option.splits if_splits
        dest!: reset_acted pxe_loop_acted intro: acted_trans)
qed

lemma power_loop_acted: "power_loop env c cmd ss h = (r, h') \<Longrightarrow> acted (rd_client c) h h'"
proof (induction ss arbitrary: h)
  case (Cons s ss)
  obtain r1 h1 where p: "power_system env c cmd s h = (r1, h1)" by fastforce
  from Cons p power_system_acted [OF p] show ?case by (cases r1) (auto intro: acted_trans)
qed (auto intro: acted_refl)

lemma Power_acted: "Power env c cmd h = (r, h') \<Longrightarrow> acted (rd_client c) h h'"
proof -
  assume p: "Power env c cmd h = (r, h')"
  obtain r1 h1 where g: "get_systems env (rd_client c) h = (r1, h1)" by fastforce
  then have a: "acted (rd_client c) h h1" by (auto simp: get_systems_def intro!: acted_refl)
  show ?thesis using p g a by (auto simp: Power_def split: sum.splits if_splits dest!: power_loop_acted intro: acted_trans)
qed

text \<open>A host operation acts through one session, made with the connection that is cached.\<close>

lemma run_action_acted:
  assumes "run_action env action d clients h = (r, clients', h')" "actions h' \<noteq> actions h"
  shows "\<exists>c. rd_config c = config_of d \<and> gm_get clients' (b_IpAddr (rc_Info d)) = Some c \<and> acted (rd_client c) h h'"
proof -
  obtain r1 c1 h1 where n: "NewClient (oe_red env) d clients h = (r1, c1, h1)" by (metis prod_cases3)
  have a: "actions h1 = actions h" using NewClient_actions [OF n] .
  show ?thesis
  proof (cases r1)
    case (Inr c)
    have k: "acted (rd_client c) h h'"
      using assms n Inr acted_refl [OF a, of "rd_client c"]
      by (auto simp: run_action_def split: if_splits prod.splits dest!: Power_acted intro: acted_trans)
    have "clients' = c1" using assms(1) n Inr by (auto simp: run_action_def split: if_splits prod.splits)
    with NewClient_result [OF n] Inr have "rd_config c = config_of d" "gm_get clients' (b_IpAddr (rc_Info d)) = Some c"
      by simp_all
    with k show ?thesis by blast
  qed (use assms n a in \<open>simp add: run_action_def\<close>)
qed

lemma OperationReconcile_acted:
  assumes "OperationReconcile env clients h = (out, w, clients', h')" "actions h' \<noteq> actions h"
  shows "\<exists>op d c. oe_Get env = Inr op \<and> op_open op
    \<and> RedfishCache_Get (oe_cache env) (hos_RedfishStatusName (ho_Spec op)) = Some d
    \<and> rd_config c = config_of d \<and> gm_get clients' (b_IpAddr (rc_Info d)) = Some c \<and> acted (rd_client c) h h'"
proof -
  obtain op r d where o: "oe_Get env = Inr op" "oe_GetRedfish env (hos_RedfishStatusName (ho_Spec op)) = Inr r" "op_open op"
      "RedfishCache_Get (oe_cache env) (hos_RedfishStatusName (ho_Spec op)) = Some d"
    using assms by (auto simp: OperationReconcile_def op_open_def split: sum.splits option.splits if_splits)
  obtain out1 clients1 h1 where run: "run_action env (hos_Action (ho_Spec op)) d clients h = (out1, clients1, h1)"
    by (metis prod_cases3)
  have "h' = h1 \<and> clients' = clients1"
    using assms(1) o run by (auto simp: OperationReconcile_def op_open_def Let_def split: option.splits if_splits)
  with run_action_acted [OF run] assms(2) o show ?thesis by blast
qed

section \<open>Where the cached connections come from\<close>

text \<open>The objects the RedfishStatus controller has read in a run.\<close>

definition was_read :: "agent_event list \<Rightarrow> string \<Rightarrow> BasicInfo \<Rightarrow> bool" where
  "was_read evs n basic \<longleftrightarrow> (\<exists>env name obj. RedfishReconciled env name \<in> set evs \<and> ra_Get env name = Inr obj
     \<and> om_Name (rf_Meta obj) = n \<and> r_Basic (rf_Status obj) = basic)"

definition cached_as_read :: "agent_event list \<Rightarrow> RedfishCache \<Rightarrow> bool" where
  "cached_as_read evs cache \<longleftrightarrow> (\<forall>n d. RedfishCache_Get cache n = Some d \<longrightarrow> was_read evs n (rc_Info d))"

lemma was_read_mono: "was_read evs n b \<Longrightarrow> set evs \<subseteq> set evs' \<Longrightarrow> was_read evs' n b"
  unfolding was_read_def by blast

lemma cached_as_read_mono: "cached_as_read evs c \<Longrightarrow> set evs \<subseteq> set evs' \<Longrightarrow> cached_as_read evs' c"
  unfolding cached_as_read_def using was_read_mono by blast

lemma cached_as_read_snoc: "cached_as_read evs c \<Longrightarrow> cached_as_read (evs @ [ev]) c"
  by (erule cached_as_read_mono) auto

lemma reconciled_cache:
  "rsc_cache (snd (RedfishReconcile env name s)) = rsc_cache s
   \<or> rsc_cache (snd (RedfishReconcile env name s)) = RedfishCache_Delete name (rsc_cache s)
   \<or> (\<exists>obj u p. ra_Get env name = Inr obj
        \<and> rsc_cache (snd (RedfishReconcile env name s)) = RedfishCache_Add (om_Name (rf_Meta obj)) (con_of obj u p) (rsc_cache s))"
proof (cases "ra_Get env name")
  case (Inl e)
  then show ?thesis by (auto simp: RedfishReconcile_def split: option.splits)
next
  case (Inr obj)
  obtain err s1 where p: "processRedfishStatus env obj s = (err, s1)" by fastforce
  then have "rsc_cache s1 = rsc_cache s
      \<or> (\<exists>u p. rsc_cache s1 = RedfishCache_Add (om_Name (rf_Meta obj)) (con_of obj u p) (rsc_cache s))"
  proof (cases "credentials env (r_Basic (rf_Status obj))")
    case cred: (Inr up)
    obtain u w where up: "up = (u, w)" by (cases up)
    have "rsc_cache s2 = rsc_cache s0" if "UpdateRedfishStatusInfoWrapper env n s0 = (x, s2)" for n s0 x s2
      using wrapper_cache [of env n s0] that by simp
    with p cred up show ?thesis by (fastforce simp: processRedfishStatus_def Let_def split: if_splits)
  qed (use p in \<open>simp add: processRedfishStatus_def\<close>)
  then show ?thesis using Inr p by (cases err) (auto simp: RedfishReconcile_def)
qed

lemma RedfishCache_get_Add: "RedfishCache_Get (RedfishCache_Add n d c) k = (if k = n then Some d else RedfishCache_Get c k)"
  using redfish_cache.get_put [of "(n, d)" c k] by simp

lemma RedfishReconcile_as_read:
  assumes "cached_as_read evs (rsc_cache s)"
  shows "cached_as_read (evs @ [RedfishReconciled env name]) (rsc_cache (snd (RedfishReconcile env name s)))"
proof -
  have k: "cached_as_read (evs @ [RedfishReconciled env name]) (rsc_cache s)"
    using assms by (rule cached_as_read_snoc)
  have new: "was_read (evs @ [RedfishReconciled env name]) (om_Name (rf_Meta obj)) (rc_Info (con_of obj u p))"
    if "ra_Get env name = Inr obj" for obj u p
    using that by (auto simp: was_read_def con_of_def)
  show ?thesis
    using reconciled_cache [of env name s] k new
    by (auto simp: cached_as_read_def RedfishCache_get_Add redfish_cache.get_del split: if_splits)
qed

lemma SecretReconcile_as_read:
  assumes "cached_as_read evs (rsc_cache s)"
  shows "cached_as_read evs (rsc_cache (snd (SecretReconcile env got s)))"
proof -
  have "rsc_cache (snd (SecretReconcile env got s)) = rsc_cache s
      \<or> (\<exists>sn ns u p. rsc_cache (snd (SecretReconcile env got s)) = fst (UpdateSecet sn ns u p (rsc_cache s)))"
    by (auto simp: SecretReconcile_def RedfishUpdateSecret_def Let_def update_hosts_cache split: sum.splits prod.splits)
      (metis fst_conv)+
  moreover have "cached_as_read evs (fst (UpdateSecet sn ns u p (rsc_cache s)))" for sn ns u p
    using assms by (fastforce simp: cached_as_read_def RedfishCache_Get_def UpdateSecet_get with_credentials_def split: if_splits)
  ultimately show ?thesis using assms by auto
qed

section \<open>Steps of the agent\<close>

abbreviation ag_cache :: "agent \<Rightarrow> RedfishCache" where
  "ag_cache a \<equiv> rsc_cache (th_redfish (ag_th a))"

abbreviation ag_hist :: "agent \<Rightarrow> red_hist" where
  "ag_hist a \<equiv> rsc_hist (th_redfish (ag_th a))"

lemma redfish_cache_kept [simp]:
  "rsc_cache (slept_add n s) = rsc_cache s" "rsc_cache (slept_delete n s) = rsc_cache s"
  "rsc_cache (forward_clients st st' s) = rsc_cache s"
  "rsc_cache (UpdateRedfishStatusAtInterval_tick env s) = rsc_cache s"
  "rsc_cache (operation_reconciled opv s) = rsc_cache s"
  by (simp_all add: slept_add_def slept_delete_def forward_clients_def UpdateRedfishStatusAtInterval_tick_def wrapper_cache
      operation_reconciled_def split: prod.splits)

lemma redfish_actions_kept [simp]:
  "actions (rsc_hist (slept_add n s)) = actions (rsc_hist s)" "actions (rsc_hist (slept_delete n s)) = actions (rsc_hist s)"
  "actions (rsc_hist (forward_clients st st' s)) = actions (rsc_hist s)"
  "actions (rsc_hist (UpdateRedfishStatusAtInterval_tick env s)) = actions (rsc_hist s)"
  "actions (rsc_hist (snd (RedfishReconcile env name s))) = actions (rsc_hist s)"
  "actions (rsc_hist (snd (SecretReconcile env got s))) = actions (rsc_hist s)"
  using update_wrapper_frame [of s env "[]"] redfish_reconcile_frame [of s env name] secret_reconcile_frame [of s env got]
  by (simp_all add: slept_add_def slept_delete_def forward_clients_def UpdateRedfishStatusAtInterval_tick_def redfish_frame_def)

text \<open>What the parts other than the RedfishStatus controller do leaves it as it was.\<close>

lemma redfish_kept [simp]:
  "th_redfish (ag_th (subnet_start listed a)) = th_redfish (ag_th a)"
  "th_redfish (ag_th (redfish_start a)) = th_redfish (ag_th a)" "th_redfish (ag_th (ssh_start a)) = th_redfish (ag_th a)"
  "th_redfish (ag_th (subnet_reconciled senv name a)) = th_redfish (ag_th a)"
  "th_redfish (ag_th (binding_reconciled benv name a)) = th_redfish (ag_th a)"
  "th_redfish (ag_th (main_turn m a)) = th_redfish (ag_th a)"
proof -
  show "th_redfish (ag_th (main_turn m a)) = th_redfish (ag_th a)"
  proof (cases m)
    case (ManagerEnded e)
    then show ?thesis by (cases e) (simp_all add: main_turn_def)
  qed (simp_all add: main_turn_def)
qed (auto simp: subnet_start_def redfish_start_def ssh_start_def subnet_reconciled_def binding_reconciled_def Let_def
    split: sum.splits option.splits prod.splits)

lemma server_turn_redfish [simp]:
  "ag_cache (server_turn k env ev a) = ag_cache a" "actions (ag_hist (server_turn k env ev a)) = actions (ag_hist a)"
  by (auto simp: server_turn_def Let_def split: option.splits prod.splits turn_result.splits)

lemma agent_act_cache:
  "cached_as_read evs (ag_cache a) \<Longrightarrow> cached_as_read (evs @ [ev]) (ag_cache (agent_act ev a))"
proof (cases ev)
  case (RedfishReconciled env name)
  then show "cached_as_read evs (ag_cache a) \<Longrightarrow> ?thesis" by (simp add: RedfishReconcile_as_read)
next
  case (SecretReconciled env got)
  then show "cached_as_read evs (ag_cache a) \<Longrightarrow> ?thesis"
    by (simp add: cached_as_read_snoc SecretReconcile_as_read)
qed (simp_all add: cached_as_read_snoc)

lemma agent_run_cache:
  "cached_as_read us (ag_cache a) \<Longrightarrow> cached_as_read (us @ evs) (ag_cache (agent_run evs a))"
proof (induction evs arbitrary: us a)
  case (Cons ev evs)
  have "cached_as_read (us @ [ev]) (ag_cache (agent_step ev a))"
    using Cons.prems by (auto simp: agent_step_def intro: agent_act_cache cached_as_read_snoc)
  from Cons.IH [OF this] show ?case by (simp add: agent_run_def)
qed (simp add: agent_run_def)

lemma agent_act_actions:
  "(\<forall>env. ev \<noteq> OperationReconciled env) \<Longrightarrow> actions (ag_hist (agent_act ev a)) = actions (ag_hist a)"
  by (cases ev) simp_all

section \<open>Sessions in a run\<close>

text \<open>The machine an event may connect to.\<close>

fun machine_of :: "agent_event \<Rightarrow> red_env option" where
  "machine_of (RedfishReconciled env _) = Some (ra_red env)"
| "machine_of (SecretReconciled env _) = Some (ra_red env)"
| "machine_of (RedfishTick env) = Some (ra_red env)"
| "machine_of (AddTurn env) = Some (ra_red env)"
| "machine_of (OperationReconciled env) = Some (oe_red env)"
| "machine_of _ = None"

definition opened_in :: "agent_event list \<Rightarrow> red_hist \<Rightarrow> redfishClient \<Rightarrow> bool" where
  "opened_in evs h c \<longleftrightarrow> (\<exists>e \<in> set evs. \<exists>env. machine_of e = Some env \<and> opened env h c)"

abbreviation ag_clients :: "agent \<Rightarrow> redfishClients" where
  "ag_clients a \<equiv> rsc_clients (th_redfish (ag_th a))"

definition sessions_opened :: "agent_event list \<Rightarrow> agent \<Rightarrow> bool" where
  "sessions_opened evs a \<longleftrightarrow> (\<forall>ip c. gm_get (ag_clients a) ip = Some c \<longrightarrow> opened_in evs (ag_hist a) c)"

lemma same_sessions [simp]:
  "rsc_clients (slept_add n s) = rsc_clients s" "rsc_hist (slept_add n s) = rsc_hist s"
  "rsc_clients (slept_delete n s) = rsc_clients s" "rsc_hist (slept_delete n s) = rsc_hist s"
  "rsc_clients (forward_clients st st' s) = rsc_clients s" "rsc_hist (forward_clients st st' s) = rsc_hist s"
  by (simp_all add: slept_add_def slept_delete_def forward_clients_def)

lemma server_turn_sessions:
  "ag_clients (server_turn k env ev a) = ag_clients a" "ag_hist (server_turn k env ev a) = ag_hist a"
  by (auto simp: server_turn_def Let_def split: option.splits prod.splits turn_result.splits)

lemma idle_sessions:
  "sessions_kept env (th_redfish (ag_th a)) (th_redfish (ag_th (server_turn k e ev a)))"
  "sessions_kept env r (slept_add n r)" "sessions_kept env r (slept_delete n r)"
  by (simp_all add: sessions_kept_same server_turn_sessions)

lemma agent_act_sessions:
  "\<exists>env. (machine_of ev = Some env \<or> ag_clients (agent_act ev a) = ag_clients a)
     \<and> sessions_kept env (th_redfish (ag_th a)) (th_redfish (ag_th (agent_act ev a)))"
proof (cases ev)
  case (RedfishTick env)
  then show ?thesis
    by (intro exI [of _ "ra_red env"]) (simp add: UpdateRedfishStatusAtInterval_tick_def update_wrapper_sessions)
next
  case (DeleteTurn env)
  have "rsc_clients (snd (delete_turn env s)) = rsc_clients s" for s
    by (auto simp: delete_turn_def handleDHCPDelete_def sent_def Let_def split: list.splits prod.splits sum.splits if_splits)
  with DeleteTurn show ?thesis by (simp add: delete_turn_sessions)
qed (auto intro: redfish_reconcile_sessions secret_reconcile_sessions operation_sessions add_turn_sessions
    idle_sessions simp: server_turn_sessions)

lemma agent_act_opened:
  assumes "sessions_opened evs a"
  shows "sessions_opened (evs @ [ev]) (agent_act ev a)"
proof -
  obtain env where m: "machine_of ev = Some env \<or> ag_clients (agent_act ev a) = ag_clients a"
    and k: "sessions_kept env (th_redfish (ag_th a)) (th_redfish (ag_th (agent_act ev a)))"
    using agent_act_sessions by blast
  have old: "opened_in (evs @ [ev]) (ag_hist (agent_act ev a)) c" if "opened_in evs (ag_hist a) c" for c
    using that k opened_grows by (fastforce simp: opened_in_def sessions_kept_def session_step_def)
  have new: "opened_in (evs @ [ev]) (ag_hist (agent_act ev a)) c"
    if "machine_of ev = Some env" "opened env (ag_hist (agent_act ev a)) c" for c
    using that by (auto simp: opened_in_def)
  show ?thesis using assms m k old new unfolding sessions_opened_def sessions_kept_def session_step_def by metis
qed

lemma opened_in_snoc: "opened_in evs h c \<Longrightarrow> opened_in (evs @ [ev]) h c"
  by (auto simp: opened_in_def)

lemma agent_step_opened:
  assumes "sessions_opened evs a"
  shows "sessions_opened (evs @ [ev]) (agent_step ev a)"
  using assms agent_act_opened [OF assms, of ev] by (auto simp: agent_step_def sessions_opened_def intro: opened_in_snoc)

lemma agent_run_opened: "sessions_opened us a \<Longrightarrow> sessions_opened (us @ evs) (agent_run evs a)"
proof (induction evs arbitrary: us a)
  case (Cons ev evs)
  from Cons.IH [OF agent_step_opened [OF Cons.prems]] show ?case by (simp add: agent_run_def)
qed (simp add: agent_run_def)

section \<open>Properties\<close>

text \<open>Property C14: in every run of an agent that has come up, a machine is touched by nothing but a host operation that is
  still open, and all it does is done through one session: the one that the table of clients has afterwards for the
  address of a RedfishStatus with the name the operation gives, as the controller read it from the API server earlier
  in the run, which \<open>gofish.Connect\<close> returned, in this run, for the scheme, address and port of that status.\<close>

theorem only_named_machine_operated:
  assumes "main_setup env = (Inr th, did)" "agent_run evs (started_agent th) = a"
    and "actions (ag_hist (agent_step ev a)) \<noteq> actions (ag_hist a)"
  shows "\<exists>oenv op basic c t. ev = OperationReconciled oenv \<and> oe_Get oenv = Inr op \<and> op_open op
    \<and> was_read evs (hos_RedfishStatusName (ho_Spec op)) basic
    \<and> gm_get (rsc_clients (th_redfish (ag_th (agent_step ev a)))) (b_IpAddr basic) = Some c
    \<and> gc_Endpoint (rd_config c) = (if b_Https basic then ''https'' else ''http'') @ ''://'' @ b_IpAddr basic @ '':''
        @ dec_of_int (b_Port basic)
    \<and> (\<exists>e \<in> set (evs @ [ev]). \<exists>menv h1 h2. machine_of e = Some menv
         \<and> ag_hist (agent_step ev a) = h1 @ RConnect (rd_config c) # h2
         \<and> g_Connect menv h1 (rd_config c) = Inr (rd_client c))
    \<and> actions (ag_hist (agent_step ev a)) = actions (ag_hist a) @ t \<and> (\<forall>x \<in> set t. on_machine (rd_client c) x)"
proof -
  obtain config where th: "th = new_topohub config" using assms(1) unfolding main_setup_iff by blast
  have "cached_as_read [] (ag_cache (started_agent th))"
    by (simp add: cached_as_read_def th started_agent_def new_topohub_def NewRedfishStatusController_def redfish_cache.get_init)
  from agent_run_cache [OF this, of evs] have cache: "cached_as_read evs (ag_cache a)" using assms(2) by simp
  have "sessions_opened [] (started_agent th)"
    by (simp add: sessions_opened_def th started_agent_def new_topohub_def NewRedfishStatusController_def)
  from agent_run_opened [OF this, of evs] have "sessions_opened (evs @ [ev]) (agent_step ev a)"
    using assms(2) by (simp add: agent_step_opened)
  note sessions = this [unfolded sessions_opened_def, rule_format]
  have s: "agent_step ev a = agent_act ev a" using assms(3) by (auto simp: agent_step_def)
  then obtain oenv where ev: "ev = OperationReconciled oenv" using assms(3) agent_act_actions by metis
  let ?r = "th_redfish (ag_th a)"
  obtain out w clients' h' where o: "OperationReconcile (oenv\<lparr>oe_cache := rsc_cache ?r\<rparr>) (rsc_clients ?r) (rsc_hist ?r)
      = (out, w, clients', h')" by (metis prod_cases4)
  have h: "ag_hist (agent_step ev a) = h'" and cl: "ag_clients (agent_step ev a) = clients'"
    by (simp_all add: s [unfolded ev] ev operation_reconciled_def o)
  with assms(3) OperationReconcile_acted [OF o] obtain op d c where
    d: "oe_Get oenv = Inr op" "op_open op" "RedfishCache_Get (rsc_cache ?r) (hos_RedfishStatusName (ho_Spec op)) = Some d"
      "rd_config c = config_of d" "acted (rd_client c) (ag_hist a) h'" "gm_get clients' (b_IpAddr (rc_Info d)) = Some c"
    by auto
  have "was_read evs (hos_RedfishStatusName (ho_Spec op)) (rc_Info d)" using cache d(3) by (simp add: cached_as_read_def)
  moreover obtain t where "actions h' = actions (ag_hist a) @ t" "\<forall>x \<in> set t. on_machine (rd_client c) x"
    using d(5) by (auto simp: acted_def)
  moreover have "gc_Endpoint (rd_config c) = (if b_Https (rc_Info d) then ''https'' else ''http'') @ ''://'' @ b_IpAddr (rc_Info d)
      @ '':'' @ dec_of_int (b_Port (rc_Info d))" by (simp add: d(4) config_of_def buildRedfishEndpoint_def)
  moreover have c: "gm_get (ag_clients (agent_step ev a)) (b_IpAddr (rc_Info d)) = Some c" using d(6) cl by simp
  moreover have "\<exists>e \<in> set (evs @ [ev]). \<exists>menv h1 h2. machine_of e = Some menv
      \<and> ag_hist (agent_step ev a) = h1 @ RConnect (rd_config c) # h2 \<and> g_Connect menv h1 (rd_config c) = Inr (rd_client c)"
    using sessions [OF c] unfolding opened_in_def opened_def by blast
  ultimately show ?thesis using ev d(1,2) h
    by (intro exI [of _ oenv] exI [of _ op] exI [of _ "rc_Info d"] exI [of _ c] exI [of _ t] conjI) simp_all
qed

text \<open>A machine that has been read before, and an operation that powers it on.\<close>

definition listed_machine :: RedfishStatus where
  "listed_machine = example_known\<lparr>rf_Status := (rf_Status example_known)\<lparr>r_Info := [(''PowerState'', ''Off'')]\<rparr>\<rparr>"

definition listed_op_env :: op_env where
  "listed_op_env = (example_op_env None)\<lparr>oe_Get := Inr (example_op\<lparr>ho_Spec := \<lparr>hos_Action = BootCmdOn,
     hos_RedfishStatusName = ''10-0-0-5''\<rparr>\<rparr>)\<rparr>"

definition listed_events :: "agent_event list" where
  "listed_events = [LeaderElected, RedfishReconciled (example_rs_env (\<lambda>_. Inr listed_machine)) ''10-0-0-5'']"

lemma listed_reconciled:
  "RedfishReconcile (example_rs_env (\<lambda>_. Inr listed_machine)) ''10-0-0-5'' s = ((empty_result, None),
     s\<lparr>rsc_cache := RedfishCache_Add ''10-0-0-5'' (con_of listed_machine [] []) (rsc_cache s)\<rparr>)"
  by (simp add: RedfishReconcile_def processRedfishStatus_def credentials_def listed_machine_def example_known_def
      deactivated_def example_rs_env_def zero_basic_def zero_redfish_status_def set_label_def new_meta_def Let_def)

lemma listed_operated:
  assumes "rsc_clients s = []" "rsc_hist s = []"
    and "rsc_cache s = RedfishCache_Add ''10-0-0-5'' (con_of listed_machine [] []) c"
  shows "actions (rsc_hist (operation_reconciled listed_op_env s)) = [RReset 1 example_system ''On'']"
proof -
  let ?d = "con_of listed_machine [] []"
  have n: "NewClient example_machine ?d [] [] = (Inr \<lparr>rd_config = config_of ?d, rd_client = 1\<rparr>,
      gm_put (b_IpAddr (rc_Info ?d)) \<lparr>rd_config = config_of ?d, rd_client = 1\<rparr> [], [RConnect (config_of ?d)])"
    by (simp add: NewClient_def connect_new_def example_machine_def Let_def)
  have p: "Power example_machine \<lparr>rd_config = config_of ?d, rd_client = 1\<rparr> BootCmdOn h
      = (Inr (), h @ [RSystems 1, RReset 1 example_system ''On''])" for h
    by (simp add: example_machine_defs reset_cmds_def boot_cmd_defs Let_def)
  have r: "oe_red env = example_machine \<Longrightarrow> run_action env BootCmdOn ?d [] [] =
      (Inr (), gm_put (b_IpAddr (rc_Info ?d)) \<lparr>rd_config = config_of ?d, rd_client = 1\<rparr> [],
       [RConnect (config_of ?d), RSystems 1, RReset 1 example_system ''On''])" for env
    by (simp add: run_action_def n p known_actions_def del: One_nat_def)
  show ?thesis
    by (simp add: operation_reconciled_def OperationReconcile_def assms RedfishCache_get_Add
        listed_op_env_def example_op_env_def example_op_def Let_def r del: One_nat_def)
qed

lemma only_named_machine_operated_witness:
  "\<exists>th did basic c. main_setup example_main = (Inr th, did)
     \<and> was_read listed_events ''10-0-0-5'' basic \<and> on_machine c (RReset 1 example_system ''On'')"
proof -
  obtain config did where m: "main_setup example_main = (Inr (new_topohub config), did)" using example_main_up by blast
  let ?a = "agent_run listed_events (started_agent (new_topohub config))"
  have r: "ag_status ?a = MainRunning" "ag_elected ?a" "ag_hist ?a = []" "rsc_clients (th_redfish (ag_th ?a)) = []"
      "ag_cache ?a = RedfishCache_Add ''10-0-0-5'' (con_of listed_machine [] []) RedfishCache_init"
    by (simp_all add: listed_events_def agent_run_def agent_step_def started_agent_def listed_reconciled new_topohub_def
        NewRedfishStatusController_def)
  let ?op = "OperationReconciled listed_op_env"
  have s: "actions (ag_hist (agent_step ?op ?a)) = [RReset 1 example_system ''On'']"
    using r listed_operated [of "th_redfish (ag_th ?a)"] by (simp add: agent_step_def)
  from only_named_machine_operated [OF m refl, where evs = listed_events and ev = ?op] s r(3) obtain op basic and c :: redfishClient where
    "oe_Get listed_op_env = Inr op" "was_read listed_events (hos_RedfishStatusName (ho_Spec op)) basic"
    "on_machine (rd_client c) (RReset 1 example_system ''On'')" by auto
  moreover from this(1) have "hos_RedfishStatusName (ho_Spec op) = ''10-0-0-5''" by (auto simp: listed_op_env_def)
  ultimately show ?thesis using m by auto
qed

end
