(* ===== verification/Mutexes.thy ===== *)
theory Mutexes
  imports Prelude "HOL-Library.Multiset"
begin

text \<open>
  The locks of \<open>pkg/lock\<close>: \<open>Mutex\<close> and \<open>RWMutex\<close> embed the locks of \<open>sync\<close> (\<open>lock_fast.go\<close>) or, in a
  build with the tag \<open>lockdebug\<close>, locks that also keep the time they were taken and report a holder
  that kept one too long (\<open>lock_debug.go\<close>). The deadlock detection of the library behind the second
  is not modelled; as locks the two are the same. Times are in nanoseconds.
\<close>

section \<open>The locks\<close>

text \<open>
  A lock of \<open>sync\<close>: who holds it for writing, and who for reading. \<open>None\<close> of an operation that takes the
  lock is a caller that waits, \<open>None\<close> of one that gives it back is the fatal error of \<open>sync\<close>.
\<close>

record RWMutex =
  rw_writer :: "nat option"
  rw_readers :: "nat multiset"

definition sync_Lock :: "nat \<Rightarrow> 'a RWMutex_scheme \<Rightarrow> 'a RWMutex_scheme option" where
  "sync_Lock g m = (if rw_writer m = None \<and> rw_readers m = {#} then Some (m\<lparr>rw_writer := Some g\<rparr>) else None)"

definition sync_Unlock :: "'a RWMutex_scheme \<Rightarrow> 'a RWMutex_scheme option" where
  "sync_Unlock m = (if rw_writer m = None then None else Some (m\<lparr>rw_writer := None\<rparr>))"

definition sync_RLock :: "nat \<Rightarrow> 'a RWMutex_scheme \<Rightarrow> 'a RWMutex_scheme option" where
  "sync_RLock g m = (if rw_writer m = None then Some (m\<lparr>rw_readers := add_mset g (rw_readers m)\<rparr>) else None)"

definition sync_RUnlock :: "nat \<Rightarrow> 'a RWMutex_scheme \<Rightarrow> 'a RWMutex_scheme option" where
  "sync_RUnlock g m = (if g \<in># rw_readers m then Some (m\<lparr>rw_readers := rw_readers m - {#g#}\<rparr>) else None)"

text \<open>\<open>internalRWMutex\<close> of \<open>lock_fast.go\<close> is the lock itself.\<close>

definition fast_UnlockIgnoreTime :: "'a RWMutex_scheme \<Rightarrow> 'a RWMutex_scheme option" where
  "fast_UnlockIgnoreTime m = sync_Unlock m"

text \<open>\<open>internalRWMutex\<close> of \<open>lock_debug.go\<close> embeds the lock and has the time it was last taken.\<close>

record DebugRWMutex = RWMutex +
  dw_t :: int

definition selfishThreshold :: int where
  "selfishThreshold = 3 * 10 ^ 9"

text \<open>\<open>Lock\<close> takes the lock and then notes the time; \<open>Unlock\<close> looks at the time and then gives the lock back.\<close>

definition debug_stamp :: "int \<Rightarrow> DebugRWMutex \<Rightarrow> DebugRWMutex" where
  "debug_stamp now m = m\<lparr>dw_t := now\<rparr>"

definition debug_check :: "int \<Rightarrow> DebugRWMutex \<Rightarrow> int option" where
  "debug_check now m = (let d = now - dw_t m in if d \<ge> selfishThreshold then Some d else None)"

section \<open>Goroutines on a lock\<close>

text \<open>
  Where a goroutine is: outside, between taking the lock and noting the time, in its section
  since the noted time, or between the look at the time and giving the lock back.
\<close>

datatype lock_pc = Outside | Taken | Held int | Leaving

record lock_world =
  lw_mutex :: DebugRWMutex
  lw_now :: int
  lw_pc :: "nat \<Rightarrow> lock_pc"
  lw_reports :: "(nat \<times> int) list"

datatype lock_act = ALock nat | AUnlock nat | ARLock nat | ARUnlock nat | Inner

definition enter :: "nat \<Rightarrow> lock_pc \<Rightarrow> DebugRWMutex \<Rightarrow> lock_world \<Rightarrow> lock_world" where
  "enter g p m w = w\<lparr>lw_mutex := m, lw_pc := (lw_pc w)(g := p)\<rparr>"

definition unlock_check :: "nat \<Rightarrow> lock_world \<Rightarrow> lock_world" where
  "unlock_check g w =
     w\<lparr>lw_pc := (lw_pc w)(g := Leaving),
       lw_reports := lw_reports w @ (case debug_check (lw_now w) (lw_mutex w) of None \<Rightarrow> [] | Some d \<Rightarrow> [(g, d)])\<rparr>"

inductive debug_step :: "lock_world \<Rightarrow> lock_act \<Rightarrow> lock_world \<Rightarrow> bool" where
  lock: "lw_pc w g = Outside \<Longrightarrow> sync_Lock g (lw_mutex w) = Some m \<Longrightarrow> debug_step w (ALock g) (enter g Taken m w)"
| stamp: "lw_pc w g = Taken \<Longrightarrow>
    debug_step w Inner (enter g (Held (lw_now w)) (debug_stamp (lw_now w) (lw_mutex w)) w)"
| check: "lw_pc w g = Held t \<Longrightarrow> debug_step w Inner (unlock_check g w)"
| ignore_time: "lw_pc w g = Held t \<Longrightarrow> debug_step w Inner (enter g Leaving (lw_mutex w) w)"
| unlock: "lw_pc w g = Leaving \<Longrightarrow> sync_Unlock (lw_mutex w) = Some m \<Longrightarrow> debug_step w (AUnlock g) (enter g Outside m w)"
| rlock: "lw_pc w g = Outside \<Longrightarrow> sync_RLock g (lw_mutex w) = Some m \<Longrightarrow> debug_step w (ARLock g) (w\<lparr>lw_mutex := m\<rparr>)"
| runlock: "sync_RUnlock g (lw_mutex w) = Some m \<Longrightarrow> debug_step w (ARUnlock g) (w\<lparr>lw_mutex := m\<rparr>)"
| time: "d \<ge> 0 \<Longrightarrow> debug_step w Inner (w\<lparr>lw_now := lw_now w + d\<rparr>)"

text \<open>\<open>internalMutex\<close> has the writing operations only.\<close>

definition mutex_step :: "lock_world \<Rightarrow> lock_act \<Rightarrow> lock_world \<Rightarrow> bool" where
  "mutex_step w a w' \<longleftrightarrow> (\<forall>g. a \<noteq> ARLock g \<and> a \<noteq> ARUnlock g) \<and> debug_step w a w'"

text \<open>The lock of \<open>sync\<close> under goroutines that give back what they took.\<close>

inductive fast_step :: "RWMutex \<Rightarrow> lock_act \<Rightarrow> RWMutex \<Rightarrow> bool" where
  "sync_Lock g m = Some m' \<Longrightarrow> fast_step m (ALock g) m'"
| "rw_writer m = Some g \<Longrightarrow> sync_Unlock m = Some m' \<Longrightarrow> fast_step m (AUnlock g) m'"
| "sync_RLock g m = Some m' \<Longrightarrow> fast_step m (ARLock g) m'"
| "sync_RUnlock g m = Some m' \<Longrightarrow> fast_step m (ARUnlock g) m'"

inductive_simps fast_step_simps:
  "fast_step m (ALock g) m'" "fast_step m (AUnlock g) m'" "fast_step m (ARLock g) m'" "fast_step m (ARUnlock g) m'"

inductive debug_run :: "lock_world \<Rightarrow> lock_act list \<Rightarrow> lock_world \<Rightarrow> bool" where
  "debug_run w [] w"
| "debug_run w as w' \<Longrightarrow> debug_step w' a w'' \<Longrightarrow> debug_run w (as @ [a]) w''"

inductive fast_run :: "RWMutex \<Rightarrow> lock_act list \<Rightarrow> RWMutex \<Rightarrow> bool" where
  "fast_run m [] m"
| "fast_run m as m' \<Longrightarrow> fast_step m' a m'' \<Longrightarrow> fast_run m (as @ [a]) m''"

definition new_mutex :: RWMutex where
  "new_mutex = \<lparr>rw_writer = None, rw_readers = {#}\<rparr>"

text \<open>A lock nobody has used; its time is the zero time.\<close>

definition new_world :: "int \<Rightarrow> lock_world" where
  "new_world now = \<lparr>lw_mutex = RWMutex.extend new_mutex (DebugRWMutex.fields 0), lw_now = now, lw_pc = (\<lambda>_. Outside), lw_reports = []\<rparr>"

definition lock_of :: "lock_world \<Rightarrow> RWMutex" where
  "lock_of w = RWMutex.truncate (lw_mutex w)"

section \<open>The invariant\<close>

definition lock_inv :: "lock_world \<Rightarrow> bool" where
  "lock_inv w \<longleftrightarrow>
     (\<forall>g. lw_pc w g \<noteq> Outside \<longleftrightarrow> rw_writer (lw_mutex w) = Some g)
     \<and> (rw_writer (lw_mutex w) \<noteq> None \<longrightarrow> rw_readers (lw_mutex w) = {#})
     \<and> (\<forall>g t. lw_pc w g = Held t \<longrightarrow> dw_t (lw_mutex w) = t \<and> t \<le> lw_now w)
     \<and> (\<forall>(g, d) \<in> set (lw_reports w). d \<ge> selfishThreshold)"

lemmas sync_ops = sync_Lock_def sync_Unlock_def sync_RLock_def sync_RUnlock_def

lemma new_world_inv: "lock_inv (new_world now)"
  by (simp add: lock_inv_def new_world_def new_mutex_def RWMutex.defs)

lemma lock_inv_alone: "lock_inv w \<Longrightarrow> lw_pc w g \<noteq> Outside \<Longrightarrow> h \<noteq> g \<Longrightarrow> lw_pc w h = Outside"
  unfolding lock_inv_def by (metis option.inject)

lemma debug_step_inv: "debug_step w a w' \<Longrightarrow> lock_inv w \<Longrightarrow> lock_inv w'"
proof (induction rule: debug_step.induct)
  case (lock w g m)
  then have "lw_pc w h = Outside" for h by (auto simp: lock_inv_def sync_ops split: if_splits)
  with lock show ?case by (auto simp: lock_inv_def enter_def sync_ops split: if_splits)
next
  case (stamp w g)
  then have "lw_pc w h = Outside" if "h \<noteq> g" for h using lock_inv_alone [of w g h] that by simp
  with stamp show ?case by (auto simp: lock_inv_def enter_def debug_stamp_def split: if_splits)
next
  case (check w g t)
  then have "lw_pc w h = Outside" if "h \<noteq> g" for h using lock_inv_alone [of w g h] that by simp
  with check show ?case
    by (auto simp: lock_inv_def unlock_check_def debug_check_def Let_def split: if_splits)
next
  case (ignore_time w g t)
  then have "lw_pc w h = Outside" if "h \<noteq> g" for h using lock_inv_alone [of w g h] that by simp
  with ignore_time show ?case by (auto simp: lock_inv_def enter_def split: if_splits)
next
  case (unlock w g m)
  then have "lw_pc w h = Outside" if "h \<noteq> g" for h using lock_inv_alone [of w g h] that by simp
  with unlock show ?case by (auto simp: lock_inv_def enter_def sync_ops split: if_splits)
next
  case (rlock w g m)
  then show ?case by (auto simp: lock_inv_def sync_ops split: if_splits)
next
  case (runlock g w m)
  then show ?case by (auto simp: lock_inv_def sync_ops split: if_splits)
next
  case (time d w)
  then show ?case by (force simp: lock_inv_def)
qed

lemma debug_run_inv: "debug_run w as w' \<Longrightarrow> lock_inv w \<Longrightarrow> lock_inv w'"
  by (induction rule: debug_run.induct) (auto intro: debug_step_inv)

section \<open>The two builds are the same lock\<close>

definition visible :: "lock_act list \<Rightarrow> lock_act list" where
  "visible as = filter (\<lambda>a. a \<noteq> Inner) as"

lemma visible_simps [simp]:
  "visible [] = []" "visible (as @ bs) = visible as @ visible bs" "visible [Inner] = []"
  "visible [ALock g] = [ALock g]" "visible [AUnlock g] = [AUnlock g]"
  "visible [ARLock g] = [ARLock g]" "visible [ARUnlock g] = [ARUnlock g]"
  by (simp_all add: visible_def)

lemma debug_step_fast:
  assumes "debug_step w a w'" "lock_inv w"
  shows "if a = Inner then lock_of w' = lock_of w else fast_step (lock_of w) a (lock_of w')"
  using assms
  by (induction rule: debug_step.induct)
    (auto simp: lock_of_def enter_def unlock_check_def debug_stamp_def sync_ops fast_step_simps RWMutex.defs lock_inv_def
      split: if_splits)

lemma debug_run_fast:
  "debug_run w as w' \<Longrightarrow> lock_inv w \<Longrightarrow> fast_run (lock_of w) (visible as) (lock_of w')"
proof (induction rule: debug_run.induct)
  case (2 w as w' a w'')
  have "lock_inv w'" by (rule debug_run_inv [OF 2(1,4)])
  note s = debug_step_fast [OF 2(2) this]
  show ?case
  proof (cases "a = Inner")
    case True
    then show ?thesis using s 2 by simp
  next
    case False
    then have "visible [a] = [a]" by (simp add: visible_def)
    then show ?thesis using s False fast_run.intros(2) [OF 2(3) [OF 2(4)]] by simp
  qed
qed (auto intro: fast_run.intros)

text \<open>A state between the calls: the holder is in its section.\<close>

definition settled :: "lock_world \<Rightarrow> RWMutex \<Rightarrow> bool" where
  "settled w m \<longleftrightarrow> lock_inv w \<and> lock_of w = m \<and> (\<forall>g. lw_pc w g = Outside \<or> (\<exists>t. lw_pc w g = Held t))"

lemma debug_run_snoc2:
  "debug_run w0 as w \<Longrightarrow> debug_step w a w1 \<Longrightarrow> debug_step w1 b w2 \<Longrightarrow> debug_run w0 (as @ [a, b]) w2"
  using debug_run.intros(2) [OF debug_run.intros(2)] by fastforce

lemma fast_step_debug:
  assumes s: "fast_step m a m'" and w: "settled w m" and r: "debug_run w0 as w"
  shows "\<exists>bs w'. debug_run w0 (as @ bs) w' \<and> visible bs = [a] \<and> settled w' m'"
  using s
proof cases
  case (1 g)
  let ?m = "(lw_mutex w)\<lparr>rw_writer := Some g\<rparr>"
  let ?w1 = "enter g Taken ?m w"
  let ?w2 = "enter g (Held (lw_now ?w1)) (debug_stamp (lw_now ?w1) (lw_mutex ?w1)) ?w1"
  have f: "rw_writer (lw_mutex w) = None" "rw_readers (lw_mutex w) = {#}" and m': "m' = m\<lparr>rw_writer := Some g\<rparr>"
    using 1 w by (auto simp: settled_def lock_of_def sync_ops RWMutex.defs split: if_splits)
  have "lw_pc w g = Outside" using f(1) w by (auto simp: settled_def lock_inv_def)
  then have s1: "debug_step w (ALock g) ?w1" using f by (intro debug_step.lock) (simp_all add: sync_ops)
  have s2: "debug_step ?w1 Inner ?w2" by (rule debug_step.stamp) (simp add: enter_def)
  have "lock_inv ?w2" using debug_step_inv [OF s2 debug_step_inv [OF s1]] w by (simp add: settled_def)
  then have "settled ?w2 m'"
    using w m' by (auto simp: settled_def lock_of_def enter_def debug_stamp_def RWMutex.defs)
  with debug_run_snoc2 [OF r s1 s2] 1(1) show ?thesis
    by (intro exI [of _ "[ALock g, Inner]"] exI [of _ ?w2]) (simp add: visible_def)
next
  case (2 g)
  let ?w1 = "unlock_check g w"
  let ?m = "(lw_mutex w)\<lparr>rw_writer := None\<rparr>"
  let ?w2 = "enter g Outside ?m ?w1"
  have f: "rw_writer (lw_mutex w) = Some g" and m': "m' = m\<lparr>rw_writer := None\<rparr>"
    using 2 w by (auto simp: settled_def lock_of_def sync_ops RWMutex.defs split: if_splits)
  then obtain t where "lw_pc w g = Held t" using w by (force simp: settled_def lock_inv_def)
  then have s1: "debug_step w Inner ?w1" by (rule debug_step.check)
  have s2: "debug_step ?w1 (AUnlock g) ?w2"
    using f by (intro debug_step.unlock) (simp_all add: sync_ops unlock_check_def)
  have "lock_inv ?w2" using debug_step_inv [OF s2 debug_step_inv [OF s1]] w by (simp add: settled_def)
  then have "settled ?w2 m'"
    using w m' by (auto simp: settled_def lock_of_def enter_def unlock_check_def RWMutex.defs)
  with debug_run_snoc2 [OF r s1 s2] 2(1) show ?thesis
    by (intro exI [of _ "[Inner, AUnlock g]"] exI [of _ ?w2]) (simp add: visible_def)
next
  case (3 g)
  let ?w = "w\<lparr>lw_mutex := (lw_mutex w)\<lparr>rw_readers := add_mset g (rw_readers (lw_mutex w))\<rparr>\<rparr>"
  have f: "rw_writer (lw_mutex w) = None" and m': "m' = m\<lparr>rw_readers := add_mset g (rw_readers m)\<rparr>"
    using 3 w by (auto simp: settled_def lock_of_def sync_ops RWMutex.defs split: if_splits)
  have "lw_pc w g = Outside" using f w by (auto simp: settled_def lock_inv_def)
  then have s1: "debug_step w (ARLock g) ?w" using f by (intro debug_step.rlock) (simp_all add: sync_ops)
  have "settled ?w m'" using w m' debug_step_inv [OF s1] by (auto simp: settled_def lock_of_def RWMutex.defs)
  with debug_run.intros(2) [OF r s1] 3(1) show ?thesis by (intro exI [of _ "[ARLock g]"] exI [of _ ?w]) simp
next
  case (4 g)
  let ?w = "w\<lparr>lw_mutex := (lw_mutex w)\<lparr>rw_readers := rw_readers (lw_mutex w) - {#g#}\<rparr>\<rparr>"
  have f: "g \<in># rw_readers (lw_mutex w)" and m': "m' = m\<lparr>rw_readers := rw_readers m - {#g#}\<rparr>"
    using 4 w by (auto simp: settled_def lock_of_def sync_ops RWMutex.defs split: if_splits)
  have s1: "debug_step w (ARUnlock g) ?w" using f by (intro debug_step.runlock) (simp_all add: sync_ops)
  have "settled ?w m'" using w m' debug_step_inv [OF s1] by (auto simp: settled_def lock_of_def RWMutex.defs)
  with debug_run.intros(2) [OF r s1] 4(1) show ?thesis by (intro exI [of _ "[ARUnlock g]"] exI [of _ ?w]) simp
qed

lemma new_world_settled: "settled (new_world now) new_mutex"
  using new_world_inv [of now] by (simp add: settled_def lock_of_def new_world_def new_mutex_def RWMutex.defs)

lemma fast_run_debug:
  "fast_run m as m' \<Longrightarrow> m = new_mutex \<Longrightarrow>
   \<exists>bs w'. debug_run (new_world now) bs w' \<and> visible bs = as \<and> settled w' m'"
proof (induction rule: fast_run.induct)
  case (1 m)
  then show ?case using debug_run.intros(1) new_world_settled by (intro exI [of _ "[]"]) auto
next
  case (2 m as m' a m'')
  from 2(3) [OF 2(4)] obtain bs w where b: "debug_run (new_world now) bs w" "visible bs = as" "settled w m'" by blast
  from fast_step_debug [OF 2(2) b(3,1)] b(2) show ?case by fastforce
qed

definition debug_traces :: "int \<Rightarrow> lock_act list set" where
  "debug_traces now = {visible as | as. \<exists>w. debug_run (new_world now) as w}"

definition fast_traces :: "lock_act list set" where
  "fast_traces = {as. \<exists>m. fast_run new_mutex as m}"

section \<open>The report\<close>

text \<open>
  \<open>printStackTo\<close>: the number of the goroutine is put before every line of the stack but the first. The
  seconds come as their text; \<open>None\<close> is a panic, of a slice out of range.
\<close>

definition newline :: char where
  "newline = CHR 0x0A"

fun index_byte :: "char \<Rightarrow> string \<Rightarrow> nat option" where
  "index_byte c [] = None"
| "index_byte c (x # xs) = (if x = c then Some 0 else map_option Suc (index_byte c xs))"

definition go_slice :: "nat \<Rightarrow> nat \<Rightarrow> string \<Rightarrow> string option" where
  "go_slice a b s = (if a \<le> b \<and> b \<le> length s then Some (take (b - a) (drop a s)) else None)"

fun replace_first :: "nat \<Rightarrow> char \<Rightarrow> string \<Rightarrow> string \<Rightarrow> string" where
  "replace_first n c new [] = []"
| "replace_first n c new (x # xs) =
     (if x = c \<and> n > 0 then new @ replace_first (n - 1) c new xs else x # replace_first n c new xs)"

text \<open>\<open>bytes.Replace\<close> of one byte: a negative number replaces all.\<close>

definition bytes_Replace :: "string \<Rightarrow> char \<Rightarrow> string \<Rightarrow> int \<Rightarrow> string" where
  "bytes_Replace s c new n = replace_first (if n < 0 then length s else nat n) c new s"

definition stack_header :: "string \<Rightarrow> string \<Rightarrow> string" where
  "stack_header number sec =
     ''goroutine='' @ number @ '' : Goroutine took lock '' @ sec @ '' seconds for more than 3 seconds'' @ [newline]"

definition printStackTo :: "string \<Rightarrow> string \<Rightarrow> (string \<times> string) option" where
  "printStackTo sec stack =
     (case go_slice 0 (length ''goroutine'') stack of None \<Rightarrow> None | Some h \<Rightarrow>
       (let found = (h = ''goroutine'');
            newLines = (if found then length (filter (\<lambda>c. c = newline) stack) else 0)
        in case (if found then Option.bind (index_byte (CHR ''['') stack) (\<lambda>i. go_slice 0 i stack) else Some ''0'') of
             None \<Rightarrow> None
           | Some goRoutineNumber \<Rightarrow>
               (case go_slice (length ''goroutine'') (length goRoutineNumber - 1) goRoutineNumber of
                  None \<Rightarrow> None
                | Some number \<Rightarrow> Some (stack_header number sec,
                    bytes_Replace stack newline (newline # goRoutineNumber) (int newLines - 1)))))"

text \<open>Lines, each with its end.\<close>

definition unlines :: "string list \<Rightarrow> string" where
  "unlines ls = concat (map (\<lambda>l. l @ [newline]) ls)"

lemma index_byte_append: "c \<notin> set xs \<Longrightarrow> index_byte c (xs @ c # ys) = Some (length xs)"
  by (induction xs) auto

lemma replace_first_skip: "c \<notin> set xs \<Longrightarrow> replace_first n c new (xs @ ys) = xs @ replace_first n c new ys"
  by (induction xs) auto

lemma replace_first_zero [simp]: "replace_first 0 c new xs = xs"
  by (induction xs) auto

lemma replace_first_lines:
  "newline \<notin> set l \<Longrightarrow> \<forall>x \<in> set ls. newline \<notin> set x \<Longrightarrow>
   replace_first (length ls) newline (newline # p) (unlines (l # ls)) = unlines (l # map ((@) p) ls)"
proof (induction ls arbitrary: l)
  case (Cons k ls)
  from Cons.IH [of k] Cons.prems show ?case by (simp add: unlines_def replace_first_skip)
qed (simp add: unlines_def)

lemma newlines_of_unlines:
  "\<forall>x \<in> set ls. newline \<notin> set x \<Longrightarrow> length (filter (\<lambda>c. c = newline) (unlines ls)) = length ls"
proof (induction ls)
  case (Cons l ls)
  then have "filter (\<lambda>c. c = newline) l = []" by (auto simp: filter_empty_conv)
  with Cons show ?case by (simp add: unlines_def)
qed (simp add: unlines_def)

text \<open>The number of a stack that does not begin with \<open>goroutine\<close> is the text 0, too short to be cut.\<close>

lemma printStackTo_panics: "take 9 stack \<noteq> ''goroutine'' \<Longrightarrow> printStackTo sec stack = None"
  by (simp add: printStackTo_def go_slice_def Let_def eval_nat_numeral)

text \<open>In any run a goroutine in its section has the lock alone, and its \<open>Unlock\<close> reports it exactly if it has been
  there for three seconds, with the time since its own \<open>Lock\<close>.\<close>

lemma long_hold_reported:
  assumes "debug_run (new_world now) as w" "lw_pc w g = Held t"
  shows "(\<forall>h. h \<noteq> g \<longrightarrow> lw_pc w h = Outside) \<and> rw_readers (lw_mutex w) = {#}
    \<and> lw_reports (unlock_check g w) = lw_reports w @ (if lw_now w - t \<ge> 3 * 10 ^ 9 then [(g, lw_now w - t)] else [])"
proof -
  have "lock_inv w" by (rule debug_run_inv [OF assms(1) new_world_inv])
  then have i: "rw_writer (lw_mutex w) = Some g" "rw_readers (lw_mutex w) = {#}" "dw_t (lw_mutex w) = t"
      "\<forall>h. lw_pc w h \<noteq> Outside \<longleftrightarrow> rw_writer (lw_mutex w) = Some h"
    using assms(2) unfolding lock_inv_def by (metis lock_pc.distinct(4) option.distinct(1))+
  show ?thesis using i by (auto simp: unlock_check_def debug_check_def selfishThreshold_def Let_def)
qed

text \<open>The report of a stack names the goroutine and writes the stack with the name of the goroutine before
  every line but the first.\<close>

lemma printStackTo_lines:
  assumes "CHR ''['' \<notin> set number" "newline \<notin> set (number @ rest)" "\<forall>l \<in> set ls. newline \<notin> set l"
  shows "printStackTo sec (unlines ((''goroutine'' @ number @ '' ['' @ rest) # ls))
    = Some (stack_header number sec,
        unlines ((''goroutine'' @ number @ '' ['' @ rest) # map ((@) (''goroutine'' @ number @ '' '')) ls))"
proof -
  define p where "p = ''goroutine'' @ number @ '' ''"
  define s where "s = unlines ((p @ CHR ''['' # rest) # ls)"
  have n: "newline \<notin> set (p @ CHR ''['' # rest)" using assms(2) by (simp add: p_def newline_def)
  have s: "s = p @ CHR ''['' # (rest @ newline # unlines ls)" by (simp add: s_def unlines_def)
  have i: "index_byte (CHR ''['') s = Some (length p)"
    unfolding s by (rule index_byte_append) (use assms(1) in \<open>simp add: p_def\<close>)
  have c: "length (filter (\<lambda>c. c = newline) s) = Suc (length ls)"
    using newlines_of_unlines [of "(p @ CHR ''['' # rest) # ls"] n assms(3) by (simp add: s_def)
  have t: "go_slice 0 (length ''goroutine'') s = Some ''goroutine''" unfolding s p_def by (simp add: go_slice_def)
  have u: "go_slice 0 (length p) s = Some p" unfolding s by (simp add: go_slice_def)
  have k: "go_slice (length ''goroutine'') (length p - 1) p = Some number" by (simp add: go_slice_def p_def)
  have "bytes_Replace s newline (newline # p) (int (Suc (length ls)) - 1) = unlines ((p @ CHR ''['' # rest) # map ((@) p) ls)"
    using replace_first_lines [OF n assms(3), of p] by (simp add: bytes_Replace_def s_def)
  then have "printStackTo sec s = Some (stack_header number sec, unlines ((p @ CHR ''['' # rest) # map ((@) p) ls))"
    unfolding printStackTo_def t option.case Let_def i c using k u by simp
  then show ?thesis by (simp add: s_def p_def)
qed

section \<open>Properties\<close>

text \<open>Property C29: as a lock the debug build is the fast build: the calls that take and give back the lock can come in the
  same orders in both.\<close>

theorem debug_lock_equivalent: "debug_traces now = fast_traces"
proof (intro set_eqI iffI)
  fix as
  assume "as \<in> debug_traces now"
  then obtain bs w where "as = visible bs" "debug_run (new_world now) bs w" by (auto simp: debug_traces_def)
  moreover have "lock_of (new_world now) = new_mutex" using new_world_settled by (simp add: settled_def)
  ultimately have "fast_run new_mutex as (lock_of w)" using debug_run_fast [OF _ new_world_inv] by metis
  then show "as \<in> fast_traces" by (auto simp: fast_traces_def)
next
  fix as
  assume "as \<in> fast_traces"
  then show "as \<in> debug_traces now" using fast_run_debug [OF _ refl, of as _ now]
    by (fastforce simp: fast_traces_def debug_traces_def)
qed

end
