(* ===== verification/ServerActs.thy ===== *)
theory ServerActs
  imports DhcpMonitor Mutexes
begin

text \<open>
  What the goroutines of one DHCP server do that the others can see, in the order of the code: taking
  and giving back \<open>lockData\<close>, the data it is there for, and what is sent on channels
  (\<open>dnsmasq.go\<close>, \<open>config.go\<close>, \<open>UpdateSubnet.go\<close>, \<open>manager.go\<close> of \<open>pkg/subnet/dhcpserver\<close>). The
  functions of this theory give the acts of a call on a state; \<open>turn_acts_agree\<close> shows that they are those
  of the call as \<open>DhcpMonitor\<close> models it. A call that panics ends the program and has no acts here.
\<close>

section \<open>Acts\<close>

datatype act =
    Lock | Unlock | RLock | RUnlock
  | PutLeases | PutBinding | DeleteBinding | PutSubnet
  | ReadSubnet | ReadStatus
  | SendAdded DhcpClientInfo | SendDeleted DhcpClientInfo
  | Notify | SendRestart
  | GoWorker | GoMonitor | Watch | ClearPending

text \<open>\<open>processDhcpLease\<close>: the lock is taken once the file is read, and kept while the events are sent.\<close>

definition lease_acts :: "os_env \<Rightarrow> files \<Rightarrow> dhcpServer \<Rightarrow> act list" where
  "lease_acts os fs s =
     (case read_file os fs (dv_leasePath s) of
        Inl _ \<Rightarrow> []
      | Inr content \<Rightarrow>
          (case lease_loop (dv_subnet s) (dv_currentLeaseClients s) (split_on (CHR 0x0A) content)
                  \<lparr>la_current = [], la_sent = [], la_changed = False\<rparr> of
             Inl _ \<Rightarrow> []
           | Inr acc \<Rightarrow>
               (case deleted_loop (dv_subnet s) (la_current acc) (dv_currentLeaseClients s) of
                  Inl _ \<Rightarrow> []
                | Inr ds \<Rightarrow>
                    [Lock] @ map SendAdded (la_sent acc) @ map SendDeleted ds @ [PutLeases, Unlock])))"

text \<open>\<open>generateDnsmasqConfig\<close>: the specification is read without the lock.\<close>

definition generate_acts ::
    "os_env \<Rightarrow> (dnsmasq_data \<Rightarrow> string result) \<Rightarrow> dhcpServer \<times> files \<Rightarrow> act list" where
  "generate_acts os tmpl sf =
     (let (s, fs) = sf; p = dv_configPath s; b = dv_HostIpBindingsConfigPath s in
      case os_do os (OsParseTemplate (dv_configTemplatePath s)) of
        Inl _ \<Rightarrow> []
      | Inr _ \<Rightarrow>
      (case read_file os fs (dv_configTemplatePath s) of
        Inl _ \<Rightarrow> []
      | Inr _ \<Rightarrow>
      (case os_do os (OsMkdirAll (path_dir p)) of
        Inl _ \<Rightarrow> []
      | Inr _ \<Rightarrow>
      ReadSubnet #
      (case config_data s of
        Inl _ \<Rightarrow> []
      | Inr d \<Rightarrow>
      (case write_config os tmpl fs p d of
        (Inl _, _) \<Rightarrow> []
      | (Inr _, fs1) \<Rightarrow>
      (case (case read_file os fs1 b of
               Inl e \<Rightarrow> if IsNotExist e then create_bindings_file os fs1 b else (Inr (), fs1)
             | Inr _ \<Rightarrow> (Inr (), fs1)) of
        (Inl _, _) \<Rightarrow> []
      | (Inr _, fs2) \<Rightarrow> lease_acts os fs2 s))))))"

text \<open>\<open>startDnsmasq\<close>: the interface is set up from the specification; a started process is announced to the worker.\<close>

definition start_acts :: "mon_env \<Rightarrow> mon_state \<Rightarrow> act list" where
  "start_acts env st =
     ReadSubnet #
     (case fst (setupInterface (me_net env) (mo_s st) (mo_net st)) of
        Inl _ \<Rightarrow> []
      | Inr _ \<Rightarrow>
          generate_acts (me_os env) (me_tmpl env) (mo_s st, mo_fs st) @
          (case generateDnsmasqConfig (me_os env) (me_tmpl env) (mo_s st, mo_fs st) of
             (Inl _, _) \<Rightarrow> []
           | (Inr _, s1, _) \<Rightarrow>
               (case os_do (me_os env) (OsStart (dv_configPath s1)) of Inl _ \<Rightarrow> [] | Inr _ \<Rightarrow> [Notify])))"

text \<open>What follows the \<open>select\<close> in a turn of \<open>monitor\<close>.\<close>

definition after_acts :: "mon_env \<Rightarrow> turn_flags \<Rightarrow> mon_state \<Rightarrow> act list" where
  "after_acts env fl st =
     (let gen = generateDnsmasqConfig (me_os env) (me_tmpl env) (mo_s st, mo_fs st);
          (r, s1, fs1) = (if needRenewConfig fl then gen else (Inr (), mo_s st, mo_fs st))
      in (if needRenewConfig fl then generate_acts (me_os env) (me_tmpl env) (mo_s st, mo_fs st) else []) @
         (case r of
            Inl _ \<Rightarrow> []
          | Inr _ \<Rightarrow>
              if needReload fl then (if me_os env (OsSignal ''HUP'') \<noteq> None then [] else [Notify])
              else if needRestart fl then start_acts env (st\<lparr>mo_s := s1, mo_fs := fs1\<rparr>)
              else []))"

text \<open>The case of the \<open>select\<close>: an added binding is written under the lock, a deleted one without it.\<close>

definition select_acts :: "mon_env \<Rightarrow> monitor_event \<Rightarrow> mon_state \<Rightarrow> act list" where
  "select_acts env ev st =
     (let m = dv_currentManualBindingClients (mo_s st) in
      case ev of
        LeaseEvent True \<Rightarrow>
          lease_acts (me_os env) (mo_fs st) (mo_s st) @
          (case fst (processDhcpLease (me_os env) (mo_fs st) True (mo_s st)) of Inl _ \<Rightarrow> [] | Inr _ \<Rightarrow> [Notify])
      | AddedBindingEvent \<Rightarrow>
          (case dv_addedBindingIp (mo_s st) of
             [] \<Rightarrow> []
           | info # _ \<Rightarrow> (case add_binding info m of None \<Rightarrow> [] | Some _ \<Rightarrow> [Lock, PutBinding, Unlock]))
      | DeletedBindingEvent \<Rightarrow>
          (case dv_deletedBindingIp (mo_s st) of
             [] \<Rightarrow> []
           | info # _ \<Rightarrow> (case delete_binding info m of None \<Rightarrow> [] | Some _ \<Rightarrow> [DeleteBinding]))
      | _ \<Rightarrow> [])"

definition turn_acts :: "mon_env \<Rightarrow> monitor_event \<Rightarrow> mon_state \<Rightarrow> act list" where
  "turn_acts env ev st =
     select_acts env ev st @
     (case select_case env ev st of
        (SelFlags fl, st1) \<Rightarrow> after_acts env fl st1
      | _ \<Rightarrow> [])"

text \<open>
  \<open>monitor\<close> before its loop: the watch of the lease directory, then the name of the subnet is read.
  \<open>Run\<close>: the worker is started first, the monitor once the process runs. \<open>UpdateService\<close>.
\<close>

definition monitor_acts :: "act list" where
  "monitor_acts = [Watch, RLock, ReadSubnet, RUnlock]"

definition Run_acts :: "mon_env \<Rightarrow> mon_state \<Rightarrow> act list" where
  "Run_acts env st =
     [GoWorker] @ start_acts env st @ (case fst (startDnsmasq env st) of Inl _ \<Rightarrow> [] | Inr _ \<Rightarrow> [GoMonitor])"

definition UpdateService_acts :: "act list" where
  "UpdateService_acts = [Lock, PutSubnet, Unlock, SendRestart]"

text \<open>
  A tick of \<open>statusUpdateWorker\<close> with an update pending: an attempt of \<open>updateSubnetWithRetry\<close> holds the
  lock for reading, and reads the data if the subnet could be read. One to five attempts are made.
\<close>

definition attempt_acts :: "bool \<Rightarrow> act list" where
  "attempt_acts got = [RLock, ReadSubnet] @ (if got then [ReadStatus] else []) @ [RUnlock]"

definition worker_acts :: "bool list \<Rightarrow> act list" where
  "worker_acts gots = concat (map attempt_acts gots) @ [ClearPending]"

section \<open>Agreement with the calls themselves\<close>

fun act_added :: "act \<Rightarrow> DhcpClientInfo list" where
  "act_added (SendAdded ci) = [ci]"
| "act_added _ = []"

fun act_deleted :: "act \<Rightarrow> DhcpClientInfo list" where
  "act_deleted (SendDeleted ci) = [ci]"
| "act_deleted _ = []"

definition sent_added :: "act list \<Rightarrow> DhcpClientInfo list" where
  "sent_added as = concat (map act_added as)"

definition sent_deleted :: "act list \<Rightarrow> DhcpClientInfo list" where
  "sent_deleted as = concat (map act_deleted as)"

definition notified :: "act list \<Rightarrow> nat" where
  "notified as = length (filter (\<lambda>a. a = Notify) as)"

lemma act_sent_simps [simp]:
  "sent_added [] = []" "sent_added (a # as) = act_added a @ sent_added as"
  "sent_added (as @ bs) = sent_added as @ sent_added bs"
  "sent_deleted [] = []" "sent_deleted (a # as) = act_deleted a @ sent_deleted as"
  "sent_deleted (as @ bs) = sent_deleted as @ sent_deleted bs"
  "notified [] = 0" "notified (a # as) = (if a = Notify then 1 else 0) + notified as"
  "notified (as @ bs) = notified as + notified bs"
  by (simp_all add: sent_added_def sent_deleted_def notified_def)

lemma sent_maps [simp]:
  "sent_added (map SendAdded cs) = cs" "sent_added (map SendDeleted cs) = []"
  "sent_deleted (map SendAdded cs) = []" "sent_deleted (map SendDeleted cs) = cs"
  "notified (map SendAdded cs) = 0" "notified (map SendDeleted cs) = 0"
  by (induction cs) simp_all

text \<open>What a call of the server with the given acts does to its state.\<close>

definition enacted :: "act list \<Rightarrow> dhcpServer \<Rightarrow> dhcpServer \<Rightarrow> bool" where
  "enacted as s s' \<longleftrightarrow>
     dv_addedDhcpClient s' = dv_addedDhcpClient s @ sent_added as
   \<and> dv_deletedDhcpClient s' = dv_deletedDhcpClient s @ sent_deleted as
   \<and> dv_statusUpdates s' = dv_statusUpdates s + notified as
   \<and> (PutLeases \<notin> set as \<longrightarrow> dv_currentLeaseClients s' = dv_currentLeaseClients s)
   \<and> (PutBinding \<notin> set as \<and> DeleteBinding \<notin> set as \<longrightarrow>
        dv_currentManualBindingClients s' = dv_currentManualBindingClients s)
   \<and> (PutSubnet \<notin> set as \<longrightarrow> dv_subnet s' = dv_subnet s)"

lemma enacted_refl [simp]: "enacted [] s s"
  by (simp add: enacted_def)

lemma enacted_trans: "enacted as s s1 \<Longrightarrow> enacted bs s1 s2 \<Longrightarrow> enacted (as @ bs) s s2"
  by (auto simp: enacted_def)

lemma enacted_read: "enacted as s s' \<Longrightarrow> enacted (ReadSubnet # as) s s'"
  by (simp add: enacted_def)

lemma enacted_notify [simp]: "enacted [Notify] s (notify_status (s\<lparr>dv_cmd := b\<rparr>))" "enacted [Notify] s (notify_status s)"
  by (simp_all add: enacted_def notify_status_def)

text \<open>The lease file fails in no other way than by a panic once it has been read.\<close>

lemma lease_loop_panics: "lease_loop sn prev lines acc = Inl e \<Longrightarrow> is_panic e"
proof (induction lines arbitrary: acc)
  case (Cons line lines)
  have "is_panic e" if "lease_one sn prev line acc = Inl e"
    using that by (auto simp: lease_one_def lease_client_def sync_enabled_def and_then_Inl Let_def
        split: if_splits option.splits prod.splits)
  with Cons show ?case by (auto simp: and_then_Inl)
qed simp

lemma deleted_loop_panics: "deleted_loop sn cur prev = Inl e \<Longrightarrow> is_panic e"
  by (induction sn cur prev rule: deleted_loop.induct)
    (auto simp: and_then_Inl sync_enabled_def split: if_splits option.splits)

lemma lease_acts_agree:
  assumes "processDhcpLease os fs b s = (r, s')" "\<forall>e. r = Inl e \<longrightarrow> \<not> is_panic e"
  shows "enacted (lease_acts os fs s) s s'"
  using assms
  by (auto simp: processDhcpLease_def lease_acts_def enacted_def dest: lease_loop_panics deleted_loop_panics
      split: sum.splits if_splits)

text \<open>A result together with the acts that lead to it, through the cases both take.\<close>

definition yields :: "dhcpServer \<Rightarrow> unit result \<times> dhcpServer \<times> files \<Rightarrow> act list \<Rightarrow> bool" where
  "yields s q as \<longleftrightarrow> (case q of (r, s', _) \<Rightarrow> (\<forall>e. r = Inl e \<longrightarrow> \<not> is_panic e) \<longrightarrow> enacted as s s')"

lemma yields_sum:
  "(\<And>e. x = Inl e \<Longrightarrow> yields s (f e) (f' e)) \<Longrightarrow> (\<And>y. x = Inr y \<Longrightarrow> yields s (g y) (g' y)) \<Longrightarrow>
   yields s (case x of Inl e \<Rightarrow> f e | Inr y \<Rightarrow> g y) (case x of Inl e \<Rightarrow> f' e | Inr y \<Rightarrow> g' y)"
  by (cases x) auto

lemma yields_pair:
  "(\<And>a b. x = (a, b) \<Longrightarrow> yields s (f a b) (f' a b)) \<Longrightarrow>
   yields s (case x of (a, b) \<Rightarrow> f a b) (case x of (a, b) \<Rightarrow> f' a b)"
  by (cases x) auto

lemma yields_read: "yields s q as \<Longrightarrow> yields s q (ReadSubnet # as)"
  by (auto simp: yields_def enacted_read)

lemma yields_nothing: "yields s (Inl e, s, fs) []"
  by (simp add: yields_def)

lemma is_panic_wrap [simp]: "is_panic (wrap_unless_panic m e) = is_panic e"
  by (cases e) auto

lemma yields_lease:
  "yields s (case processDhcpLease os fs True s of
     (Inl e, s1) \<Rightarrow> (Inl (wrap_unless_panic m e), s1, fs)
   | (Inr _, s1) \<Rightarrow>
       (case UpdateDhcpBindings os fs s1 of
          (Inl e, fs3) \<Rightarrow> (Inl e, s1, fs3)
        | (Inr _, fs3) \<Rightarrow> (case read_file os fs3 p of Inl e \<Rightarrow> (Inl e, s1, fs3) | Inr _ \<Rightarrow> (Inr (), s1, fs3))))
   (lease_acts os fs s)"
  using lease_acts_agree [of os fs True s] by (auto simp: yields_def split: sum.split prod.split)

lemma generate_acts_agree:
  assumes "generateDnsmasqConfig os tmpl (s, fs) = (r, s', fs')" "\<forall>e. r = Inl e \<longrightarrow> \<not> is_panic e"
  shows "enacted (generate_acts os tmpl (s, fs)) s s'"
proof -
  have "yields s (generateDnsmasqConfig os tmpl (s, fs)) (generate_acts os tmpl (s, fs))"
    unfolding generateDnsmasqConfig_def generate_acts_def Let_def prod.case
    by (intro yields_sum yields_pair yields_read yields_nothing yields_lease)
  with assms show ?thesis by (simp add: yields_def)
qed

lemma start_acts_agree:
  assumes "startDnsmasq env st = (r, st')" "\<forall>e. r = Inl e \<longrightarrow> \<not> is_panic e"
  shows "enacted (start_acts env st) (mo_s st) (mo_s st')"
proof -
  obtain r1 h where i: "setupInterface (me_net env) (mo_s st) (mo_net st) = (r1, h)"
    by (cases "setupInterface (me_net env) (mo_s st) (mo_net st)")
  obtain r2 s1 fs1 where g: "generateDnsmasqConfig (me_os env) (me_tmpl env) (mo_s st, mo_fs st) = (r2, s1, fs1)"
    by (metis prod_cases3)
  show ?thesis
  proof (cases r1)
    case (Inl e)
    with assms i show ?thesis by (auto simp: startDnsmasq_def start_acts_def intro: enacted_read)
  next
    case (Inr u)
    have G: "\<forall>e. r2 = Inl e \<longrightarrow> \<not> is_panic e"
      using assms i g Inr by (auto simp: startDnsmasq_def)
    note A = generate_acts_agree [OF g G]
    show ?thesis
      using assms i g Inr A enacted_trans [OF A, of _ "mo_s st'"]
      by (cases r2) (auto simp: startDnsmasq_def start_acts_def os_do_def intro!: enacted_read split: option.splits)
  qed
qed

lemma after_acts_agree:
  assumes "after_select env fl st = (Going, st')"
  shows "enacted (after_acts env fl st) (mo_s st) (mo_s st')"
proof -
  let ?ga = "if needRenewConfig fl then generate_acts (me_os env) (me_tmpl env) (mo_s st, mo_fs st) else []"
  obtain r1 s1 fs1 where g: "(if needRenewConfig fl then generateDnsmasqConfig (me_os env) (me_tmpl env) (mo_s st, mo_fs st)
      else (Inr (), mo_s st, mo_fs st)) = (r1, s1, fs1)"
    by (metis prod_cases3)
  have G: "\<forall>e. r1 = Inl e \<longrightarrow> \<not> is_panic e"
    using assms unfolding after_select_def g by (auto split: if_splits)
  have A: "enacted ?ga (mo_s st) s1"
    using g G by (auto intro: generate_acts_agree)
  obtain r2 st2 where d: "startDnsmasq env (st\<lparr>mo_s := s1, mo_fs := fs1\<rparr>) = (r2, st2)"
    by (cases "startDnsmasq env (st\<lparr>mo_s := s1, mo_fs := fs1\<rparr>)")
  have D: "enacted (start_acts env (st\<lparr>mo_s := s1, mo_fs := fs1\<rparr>)) s1 (mo_s st2)" if "\<forall>e. r2 = Inl e \<longrightarrow> \<not> is_panic e"
    using start_acts_agree [OF d that] by simp
  show ?thesis
    using assms A enacted_trans [OF A D] enacted_trans [OF A enacted_notify(2)]
    unfolding after_select_def after_acts_def Let_def g
    by (cases r1; cases r2) (auto simp: d split: if_splits)
qed

lemma select_acts_agree:
  assumes "select_case env ev st = (sel, st1)" "\<forall>e. sel \<noteq> SelPanic e"
  shows "enacted (select_acts env ev st) (mo_s st) (mo_s st1)"
proof -
  have B: "mo_s st1 = (mo_s st2)\<lparr>dv_currentManualBindingClients :=
      (case ch of None \<Rightarrow> dv_currentManualBindingClients (mo_s st2) | Some m \<Rightarrow> m)\<rparr>"
    if "binding_case env ch st2 = (sel, st1)" for ch st2
    using that by (auto simp: binding_case_def Let_def split: option.splits prod.splits sum.splits)
  show ?thesis
  proof (cases ev)
    case (LeaseEvent w)
    obtain r s1 where p: "processDhcpLease (me_os env) (mo_fs st) True (mo_s st) = (r, s1)"
      by (cases "processDhcpLease (me_os env) (mo_fs st) True (mo_s st)")
    have G: "\<forall>e. r = Inl e \<longrightarrow> \<not> is_panic e" if w
      using assms LeaseEvent p that by (auto simp: select_case_def on_err_def split: if_splits)
    show ?thesis
      using assms LeaseEvent p lease_acts_agree [OF p G] enacted_trans [OF lease_acts_agree [OF p G] enacted_notify(2)]
      by (cases w; cases r) (auto simp: select_case_def select_acts_def)
  qed (use assms in \<open>auto simp: select_case_def select_acts_def enacted_def no_flags_def dest!: B
      split: list.splits option.splits if_splits\<close>)
qed

lemma Run_acts_agree:
  assumes "startDnsmasq env st = (r, st')" "\<forall>e. r = Inl e \<longrightarrow> \<not> is_panic e"
  shows "enacted (Run_acts env st) (mo_s st) (mo_s st')"
  using start_acts_agree [OF assms] by (auto simp: Run_acts_def enacted_def split: sum.split)

lemma UpdateService_acts_agree:
  "enacted UpdateService_acts s (UpdateService sn s)
   \<and> dv_restarts (UpdateService sn s) = dv_restarts s + length (filter (\<lambda>a. a = SendRestart) UpdateService_acts)"
  by (simp add: enacted_def UpdateService_acts_def UpdateService_def)

text \<open>The acts of a turn are those of the turn: a turn of \<open>monitor\<close> that goes on sends to the Redfish
  controller exactly the clients its acts send, in their order, notifies the worker as often as they do, and changes the
  leases, the bindings or the specification only if they write them.\<close>

theorem turn_acts_agree:
  assumes "monitor_turn env ev st = (Going, st')"
  shows "dv_addedDhcpClient (mo_s st') = dv_addedDhcpClient (mo_s st) @ sent_added (turn_acts env ev st)
    \<and> dv_deletedDhcpClient (mo_s st') = dv_deletedDhcpClient (mo_s st) @ sent_deleted (turn_acts env ev st)
    \<and> dv_statusUpdates (mo_s st') = dv_statusUpdates (mo_s st) + notified (turn_acts env ev st)
    \<and> (PutLeases \<notin> set (turn_acts env ev st) \<longrightarrow> dv_currentLeaseClients (mo_s st') = dv_currentLeaseClients (mo_s st))
    \<and> (PutBinding \<notin> set (turn_acts env ev st) \<and> DeleteBinding \<notin> set (turn_acts env ev st) \<longrightarrow>
         dv_currentManualBindingClients (mo_s st') = dv_currentManualBindingClients (mo_s st))
    \<and> (PutSubnet \<notin> set (turn_acts env ev st) \<longrightarrow> dv_subnet (mo_s st') = dv_subnet (mo_s st))"
proof -
  obtain sel st1 where s: "select_case env ev st = (sel, st1)" by (cases "select_case env ev st")
  have "enacted (turn_acts env ev st) (mo_s st) (mo_s st')"
    using assms s select_acts_agree [OF s] enacted_trans [OF select_acts_agree [OF s] after_acts_agree]
    by (cases sel) (auto simp: monitor_turn_def turn_acts_def)
  then show ?thesis by (simp add: enacted_def)
qed

text \<open>A write to a lease file that is not there, on a server that has no leases.\<close>

lemma no_lease_turn:
  "\<exists>st'. monitor_turn free_env (LeaseEvent True) \<lparr>mo_s = example_server, mo_fs = (\<lambda>_. None), mo_net = []\<rparr> = (Going, st')"
  "turn_acts free_env (LeaseEvent True) \<lparr>mo_s = example_server, mo_fs = (\<lambda>_. None), mo_net = []\<rparr> = [Notify]"
proof -
  have p: "processDhcpLease (\<lambda>_. None) (\<lambda>_. None) True example_server = (Inr False, example_server)"
    "lease_acts (\<lambda>_. None) (\<lambda>_. None) example_server = []"
    by (simp_all add: processDhcpLease_def lease_acts_def read_file_def os_do_def IsNotExist_def)
  show "\<exists>st'. monitor_turn free_env (LeaseEvent True) \<lparr>mo_s = example_server, mo_fs = (\<lambda>_. None), mo_net = []\<rparr> = (Going, st')"
    "turn_acts free_env (LeaseEvent True) \<lparr>mo_s = example_server, mo_fs = (\<lambda>_. None), mo_net = []\<rparr> = [Notify]"
    by (simp_all add: monitor_turn_def select_case_def turn_acts_def select_acts_def after_select_def after_acts_def
        no_flags_def Let_def free_env_def p)
qed

lemma turn_acts_agree_witness:
  "\<exists>st'. monitor_turn free_env (LeaseEvent True) \<lparr>mo_s = example_server, mo_fs = (\<lambda>_. None), mo_net = []\<rparr> = (Going, st')
     \<and> dv_statusUpdates (mo_s st') = 1 \<and> dv_currentLeaseClients (mo_s st') = []"
proof -
  obtain st' where t: "monitor_turn free_env (LeaseEvent True) \<lparr>mo_s = example_server, mo_fs = (\<lambda>_. None), mo_net = []\<rparr> = (Going, st')"
    using no_lease_turn(1) by blast
  have e: "dv_statusUpdates example_server = 0" "dv_currentLeaseClients example_server = []"
    by (simp_all add: example_server_def NewDhcpServer_def Let_def)
  from turn_acts_agree [OF t] t show ?thesis by (simp add: no_lease_turn(2) e)
qed

end
