(* ===== verification/ServerRun.thy ===== *)
theory ServerRun
  imports ServerActs
begin

text \<open>
  The goroutines of one DHCP server at work together: the caller (the reconciliation that runs, updates
  and stops the server), \<open>monitor\<close> and \<open>statusUpdateWorker\<close>. \<open>statusUpdateCh\<close> and \<open>restartCh\<close> have no
  buffer, so a send on them is a step of two goroutines; \<open>lockData\<close> is the lock of \<open>Mutexes\<close>. A step is
  the next act of one goroutine, with the acts of \<open>ServerActs\<close>; which goroutine steps is up to Go. The
  Redfish controller takes what is sent to it. Other servers that send on the same channels, and
  the queues of binding events, which \<open>SubnetManager\<close> has, are left out.
\<close>

section \<open>The goroutines\<close>

datatype role = Caller | Monitor | Worker

text \<open>\<open>Doing []\<close> is a goroutine at its \<open>select\<close>, and the caller between two calls.\<close>

datatype goroutine = NotStarted | Doing "act list" | Ended

record server_world =
  sw_lock :: RWMutex
  sw_added :: "DhcpClientInfo list"
  sw_deleted :: "DhcpClientInfo list"
  sw_pending :: bool
  sw_stopped :: bool
  sw_go :: "role \<Rightarrow> goroutine"

fun role_id :: "role \<Rightarrow> nat" where
  "role_id Caller = 0"
| "role_id Monitor = 1"
| "role_id Worker = 2"

definition redfish_capacity :: nat where
  "redfish_capacity = 1000"

text \<open>The acts of one goroutine alone; none where it waits, and for the sends that need a second goroutine.\<close>

fun local_act :: "role \<Rightarrow> act \<Rightarrow> server_world \<Rightarrow> server_world option" where
  "local_act r Lock w = map_option (\<lambda>l. w\<lparr>sw_lock := l\<rparr>) (sync_Lock (role_id r) (sw_lock w))"
| "local_act r Unlock w = map_option (\<lambda>l. w\<lparr>sw_lock := l\<rparr>) (sync_Unlock (sw_lock w))"
| "local_act r RLock w = map_option (\<lambda>l. w\<lparr>sw_lock := l\<rparr>) (sync_RLock (role_id r) (sw_lock w))"
| "local_act r RUnlock w = map_option (\<lambda>l. w\<lparr>sw_lock := l\<rparr>) (sync_RUnlock (role_id r) (sw_lock w))"
| "local_act r (SendAdded ci) w =
     (if length (sw_added w) < redfish_capacity then Some (w\<lparr>sw_added := sw_added w @ [ci]\<rparr>) else None)"
| "local_act r (SendDeleted ci) w =
     (if length (sw_deleted w) < redfish_capacity then Some (w\<lparr>sw_deleted := sw_deleted w @ [ci]\<rparr>) else None)"
| "local_act r GoWorker w = Some (w\<lparr>sw_go := (sw_go w)(Worker := Doing [])\<rparr>)"
| "local_act r GoMonitor w = Some (w\<lparr>sw_go := (sw_go w)(Monitor := Doing monitor_acts)\<rparr>)"
| "local_act r ClearPending w = Some (w\<lparr>sw_pending := False\<rparr>)"
| "local_act r Notify w = None"
| "local_act r SendRestart w = None"
| "local_act r _ w = Some w"

abbreviation becomes :: "server_world \<Rightarrow> role \<Rightarrow> goroutine \<Rightarrow> server_world" where
  "becomes w r g \<equiv> w\<lparr>sw_go := (sw_go w)(r := g)\<rparr>"

text \<open>
  The steps the server takes of itself: an act; the two sends that wait for their receiver; the watch
  that fails, after which \<open>monitor\<close> returns; the tick of the worker; the end of a loop that finds
  \<open>stopCh\<close> closed; the Redfish controller takes an event.
\<close>

inductive server_step :: "server_world \<Rightarrow> server_world \<Rightarrow> bool" where
  act: "sw_go w r = Doing (a # as) \<Longrightarrow> local_act r a (becomes w r (Doing as)) = Some w' \<Longrightarrow> server_step w w'"
| notify: "sw_go w r = Doing (Notify # as) \<Longrightarrow> sw_go w Worker = Doing [] \<Longrightarrow>
    server_step w (becomes w r (Doing as)\<lparr>sw_pending := True\<rparr>)"
| restart: "sw_go w Caller = Doing (SendRestart # as) \<Longrightarrow> sw_go w Monitor = Doing [] \<Longrightarrow>
    monitor_turn env RestartEvent st = (Going, st') \<Longrightarrow>
    server_step w (becomes (becomes w Caller (Doing as)) Monitor (Doing (turn_acts env RestartEvent st)))"
| watch_failed: "sw_go w Monitor = Doing (Watch # as) \<Longrightarrow> server_step w (becomes w Monitor Ended)"
| tick: "sw_go w Worker = Doing [] \<Longrightarrow> sw_pending w \<Longrightarrow> gots \<noteq> [] \<Longrightarrow> length gots \<le> 5 \<Longrightarrow>
    server_step w (becomes w Worker (Doing (worker_acts gots)))"
| loop_ends: "r \<noteq> Caller \<Longrightarrow> sw_go w r = Doing [] \<Longrightarrow> sw_stopped w \<Longrightarrow> server_step w (becomes w r Ended)"
| take_added: "sw_added w = ci # cs \<Longrightarrow> server_step w (w\<lparr>sw_added := cs\<rparr>)"
| take_deleted: "sw_deleted w = ci # cs \<Longrightarrow> server_step w (w\<lparr>sw_deleted := cs\<rparr>)"

text \<open>
  What comes from outside: an event for the monitor, with any state of the server; a changed
  specification; the end. The last two reach only a server whose \<open>Run\<close> returned nil.
\<close>

inductive outside_step :: "server_world \<Rightarrow> server_world \<Rightarrow> bool" where
  turn: "sw_go w Monitor = Doing [] \<Longrightarrow> ev \<noteq> StopEvent \<Longrightarrow> ev \<noteq> RestartEvent \<Longrightarrow>
    monitor_turn env ev st = (Going, st') \<Longrightarrow>
    outside_step w (becomes w Monitor (Doing (turn_acts env ev st)))"
| update: "sw_go w Caller = Doing [] \<Longrightarrow> sw_go w Monitor \<noteq> NotStarted \<Longrightarrow> \<not> sw_stopped w \<Longrightarrow>
    outside_step w (becomes w Caller (Doing UpdateService_acts))"
| stop: "sw_go w Caller = Doing [] \<Longrightarrow> sw_go w Monitor \<noteq> NotStarted \<Longrightarrow> \<not> sw_stopped w \<Longrightarrow>
    outside_step w (w\<lparr>sw_stopped := True\<rparr>)"

definition server_start :: "mon_env \<Rightarrow> mon_state \<Rightarrow> server_world" where
  "server_start env st =
     \<lparr>sw_lock = new_mutex, sw_added = [], sw_deleted = [], sw_pending = False, sw_stopped = False,
      sw_go = (\<lambda>_. NotStarted)(Caller := Doing (Run_acts env st))\<rparr>"

inductive server_reachable :: "server_world \<Rightarrow> bool" where
  reach_start: "server_reachable (server_start env st)"
| reach_step: "server_reachable w \<Longrightarrow> server_step w w' \<Longrightarrow> server_reachable w'"
| reach_outside: "server_reachable w \<Longrightarrow> outside_step w w' \<Longrightarrow> server_reachable w'"

inductive_cases server_stepE: "server_step w w'"
inductive_cases outside_stepE: "outside_step w w'"

section \<open>The acts of a goroutine follow the lock\<close>

text \<open>How a goroutine holds the lock can be read off what it is still going to do.\<close>

datatype hold = Free | Writing | Reading

fun mode :: "act list \<Rightarrow> hold" where
  "mode [] = Free"
| "mode (a # as) =
     (case a of Unlock \<Rightarrow> Writing | RUnlock \<Rightarrow> Reading | Lock \<Rightarrow> Free | RLock \<Rightarrow> Free | _ \<Rightarrow> mode as)"

text \<open>Sections of the lock do not nest, and what is done in them is what they are for.\<close>

fun well_locked :: "act list \<Rightarrow> bool" where
  "well_locked [] = True"
| "well_locked (a # as) = (well_locked as \<and>
     (case a of
        Lock \<Rightarrow> mode as = Writing | Unlock \<Rightarrow> mode as = Free
      | RLock \<Rightarrow> mode as = Reading | RUnlock \<Rightarrow> mode as = Free
      | PutLeases \<Rightarrow> mode as = Writing | PutBinding \<Rightarrow> mode as = Writing | PutSubnet \<Rightarrow> mode as = Writing
      | SendAdded _ \<Rightarrow> mode as = Writing | SendDeleted _ \<Rightarrow> mode as = Writing
      | ReadStatus \<Rightarrow> mode as = Reading
      | ReadSubnet \<Rightarrow> True
      | _ \<Rightarrow> mode as = Free))"

fun may :: "role \<Rightarrow> act \<Rightarrow> bool" where
  "may Caller a \<longleftrightarrow> a \<notin> {RLock, RUnlock, PutBinding, DeleteBinding, ReadStatus, Watch, ClearPending}"
| "may Monitor a \<longleftrightarrow> a \<notin> {PutSubnet, ReadStatus, SendRestart, GoWorker, GoMonitor, ClearPending}"
| "may Worker a \<longleftrightarrow> a \<in> {RLock, RUnlock, ReadSubnet, ReadStatus, ClearPending}"

lemma mode_append: "well_locked as \<Longrightarrow> mode bs = Free \<Longrightarrow> mode (as @ bs) = mode as"
  by (induction as) (auto split: act.splits)

lemma well_locked_append:
  "well_locked as \<Longrightarrow> well_locked bs \<Longrightarrow> mode bs = Free \<Longrightarrow> well_locked (as @ bs)"
  by (induction as) (auto simp: mode_append split: act.splits)

text \<open>Acts from free to free that both the caller and the monitor may do.\<close>

definition shared_act :: "act \<Rightarrow> bool" where
  "shared_act a \<longleftrightarrow> may Caller a \<and> may Monitor a"

definition whole :: "(act \<Rightarrow> bool) \<Rightarrow> act list \<Rightarrow> bool" where
  "whole P as \<longleftrightarrow> well_locked as \<and> mode as = Free \<and> list_all P as"

lemma whole_Nil [simp]: "whole P []"
  by (simp add: whole_def)

lemma whole_append: "whole P as \<Longrightarrow> whole P bs \<Longrightarrow> whole P (as @ bs)"
  by (simp add: whole_def well_locked_append mode_append)

lemma whole_mono: "whole P as \<Longrightarrow> (\<And>a. P a \<Longrightarrow> Q a) \<Longrightarrow> whole Q as"
  by (auto simp: whole_def list.pred_set)

lemma whole_read [simp]: "whole P (ReadSubnet # as) \<longleftrightarrow> P ReadSubnet \<and> whole P as"
  by (auto simp: whole_def)

lemma shared_acts [simp]:
  "shared_act Lock" "shared_act Unlock" "shared_act PutLeases" "shared_act ReadSubnet" "shared_act (SendAdded ci)"
  "shared_act (SendDeleted ci)" "shared_act Notify"
  by (simp_all add: shared_act_def)

lemma whole_notify [simp]: "whole P [Notify] \<longleftrightarrow> P Notify"
  by (simp add: whole_def)

lemma mode_sends: "mode (map SendAdded xs @ map SendDeleted ds @ [PutLeases, Unlock]) = Writing"
proof -
  have "mode (map SendDeleted ds @ [PutLeases, Unlock]) = Writing" by (induction ds) simp_all
  then show ?thesis by (induction xs) simp_all
qed

lemma well_locked_sends: "well_locked (map SendAdded xs @ map SendDeleted ds @ [PutLeases, Unlock])"
proof -
  have "well_locked (map SendDeleted ds @ [PutLeases, Unlock])"
  proof (induction ds)
    case (Cons d ds)
    then show ?case using mode_sends [of "[]" ds] by simp
  qed simp
  then show ?thesis by (induction xs) (simp_all add: mode_sends)
qed

lemma whole_lease: "whole shared_act (lease_acts os fs s)"
  using mode_sends well_locked_sends
  by (auto simp: lease_acts_def whole_def list_all_iff split: sum.splits)

lemma whole_generate: "whole shared_act (generate_acts os tmpl sf)"
  by (cases sf) (auto simp: generate_acts_def Let_def whole_lease split: sum.splits prod.splits if_splits)

lemma whole_start: "whole shared_act (start_acts env st)"
  by (auto simp: start_acts_def intro!: whole_append whole_generate split: sum.splits prod.splits)

lemma whole_after: "whole shared_act (after_acts env fl st)"
  by (auto simp: after_acts_def Let_def intro!: whole_append whole_generate whole_start
      split: sum.splits prod.splits)

lemma shared_may: "shared_act a \<Longrightarrow> may Caller a" "shared_act a \<Longrightarrow> may Monitor a"
  by (simp_all add: shared_act_def)

lemma whole_turn: "whole (may Monitor) (turn_acts env ev st)"
proof -
  have L: "whole (may Monitor) (lease_acts os fs s)" for os fs s
    using whole_mono [OF whole_lease shared_may(2)] .
  have B: "whole (may Monitor) [Lock, PutBinding, Unlock]" "whole (may Monitor) [DeleteBinding]"
    by (simp_all add: whole_def)
  have "whole (may Monitor) (select_acts env ev st)"
    by (auto simp: select_acts_def Let_def B intro!: whole_append L
        split: monitor_event.splits list.splits option.splits sum.splits bool.splits)
  moreover have "whole (may Monitor) (after_acts env fl st1)" for fl st1
    using whole_mono [OF whole_after shared_may(2)] .
  ultimately show ?thesis
    by (auto simp: turn_acts_def intro!: whole_append split: prod.splits selected.splits)
qed

lemma whole_monitor: "whole (may Monitor) monitor_acts"
  by (simp add: whole_def monitor_acts_def)

lemma whole_update: "whole (may Caller) UpdateService_acts"
  by (simp add: whole_def UpdateService_acts_def)

lemma whole_worker: "whole (may Worker) (worker_acts gots)"
proof -
  have "whole (may Worker) (concat (map attempt_acts gots))"
    by (induction gots) (auto simp: attempt_acts_def intro!: whole_append, auto simp: whole_def)
  then show ?thesis unfolding worker_acts_def by (rule whole_append) (simp add: whole_def)
qed

section \<open>The invariant\<close>

fun todo :: "goroutine \<Rightarrow> act list" where
  "todo (Doing as) = as"
| "todo _ = []"

definition hold_of :: "server_world \<Rightarrow> role \<Rightarrow> hold" where
  "hold_of w r = mode (todo (sw_go w r))"

text \<open>The lock is held by those who are in a section of it.\<close>

definition lock_fits :: "RWMutex \<Rightarrow> (role \<Rightarrow> hold) \<Rightarrow> bool" where
  "lock_fits l h \<longleftrightarrow>
     (\<forall>n. rw_writer l = Some n \<longleftrightarrow> (\<exists>r. n = role_id r \<and> h r = Writing))
   \<and> (\<forall>n. count (rw_readers l) n = (if \<exists>r. n = role_id r \<and> h r = Reading then 1 else 0))
   \<and> (rw_writer l \<noteq> None \<longrightarrow> rw_readers l = {#})"

definition scripts_ok :: "server_world \<Rightarrow> bool" where
  "scripts_ok w \<longleftrightarrow> (\<forall>r. well_locked (todo (sw_go w r)) \<and> list_all (may r) (todo (sw_go w r)))"

text \<open>Who has been started, and how a tick of the worker ends.\<close>

definition started_ok :: "(role \<Rightarrow> goroutine) \<Rightarrow> bool \<Rightarrow> bool" where
  "started_ok go stopped \<longleftrightarrow>
     (let as = todo (go Caller); bs = todo (go Worker) in
        go Caller \<noteq> NotStarted \<and> go Caller \<noteq> Ended
      \<and> (go Worker = NotStarted \<longrightarrow> as \<noteq> [] \<and> hd as = GoWorker)
      \<and> (GoWorker \<in> set as \<longrightarrow> go Worker = NotStarted \<and> GoWorker \<notin> set (tl as))
      \<and> (GoMonitor \<in> set as \<longrightarrow> go Monitor = NotStarted \<and> GoMonitor \<notin> set (butlast as))
      \<and> (SendRestart \<in> set as \<longrightarrow> go Monitor \<noteq> NotStarted)
      \<and> (go Monitor \<noteq> NotStarted \<longrightarrow> go Worker \<noteq> NotStarted)
      \<and> (go Worker = Ended \<longrightarrow> stopped)
      \<and> (stopped \<longrightarrow> go Monitor \<noteq> NotStarted)
      \<and> (bs \<noteq> [] \<longrightarrow> last bs = ClearPending)
      \<and> length bs \<le> 21)"

definition server_inv :: "server_world \<Rightarrow> bool" where
  "server_inv w \<longleftrightarrow> scripts_ok w \<and> lock_fits (sw_lock w) (hold_of w) \<and> started_ok (sw_go w) (sw_stopped w)"

lemma role_id_eq [simp]: "role_id r = role_id r' \<longleftrightarrow> r = r'"
  by (cases r; cases r') simp_all

lemma fits_writer: "lock_fits l h \<Longrightarrow> h r = Writing \<longleftrightarrow> rw_writer l = Some (role_id r)"
  by (auto simp: lock_fits_def)

lemma fits_reader: "lock_fits l h \<Longrightarrow> h r = Reading \<longleftrightarrow> count (rw_readers l) (role_id r) = 1"
  by (auto simp: lock_fits_def)

lemma fits_one_writer: "lock_fits l h \<Longrightarrow> h r = Writing \<Longrightarrow> h r' = Writing \<Longrightarrow> r = r'"
  by (simp add: fits_writer)

lemma fits_no_reader: "lock_fits l h \<Longrightarrow> h r = Writing \<Longrightarrow> h r' \<noteq> Reading"
  by (simp add: fits_writer fits_reader) (simp add: lock_fits_def)

lemma fits_Lock:
  assumes "lock_fits l h" "sync_Lock (role_id r) l = Some l'"
  shows "lock_fits l' (h(r := Writing))"
proof -
  have l: "rw_writer l = None" "rw_readers l = {#}" "l' = l\<lparr>rw_writer := Some (role_id r)\<rparr>"
    using assms(2) by (auto simp: sync_Lock_def split: if_splits)
  with fits_writer [OF assms(1)] fits_reader [OF assms(1)] have "h x \<noteq> Writing \<and> h x \<noteq> Reading" for x
    by simp
  with l show ?thesis by (auto simp: lock_fits_def)
qed

lemma fits_Unlock:
  assumes "lock_fits l h" "h r = Writing" "sync_Unlock l = Some l'"
  shows "lock_fits l' (h(r := Free))"
proof -
  have l': "l' = l\<lparr>rw_writer := None\<rparr>" using assms(3) by (auto simp: sync_Unlock_def split: if_splits)
  have "rw_readers l = {#}" using assms(1,2) by (auto simp: lock_fits_def)
  moreover have "h x \<noteq> Writing" if "x \<noteq> r" for x using fits_one_writer [OF assms(1,2)] that by auto
  moreover have "h x \<noteq> Reading" for x using fits_no_reader [OF assms(1,2)] by auto
  ultimately show ?thesis using l' by (auto simp: lock_fits_def)
qed

lemma fits_RLock:
  assumes "lock_fits l h" "h r = Free" "sync_RLock (role_id r) l = Some l'"
  shows "lock_fits l' (h(r := Reading))"
proof -
  have l: "rw_writer l = None" "l' = l\<lparr>rw_readers := add_mset (role_id r) (rw_readers l)\<rparr>"
    using assms(3) by (auto simp: sync_RLock_def split: if_splits)
  with fits_writer [OF assms(1)] have "h x \<noteq> Writing" for x by simp
  moreover have "(\<exists>x. n = role_id x \<and> (h(r := Reading)) x = Reading) \<longleftrightarrow>
      n = role_id r \<or> (\<exists>x. n = role_id x \<and> h x = Reading)" for n
    by (auto simp: fun_upd_def)
  moreover have "count (rw_readers l) (role_id r) = 0" using assms(1,2) by (simp add: lock_fits_def)
  ultimately show ?thesis using l assms(1) by (auto simp: lock_fits_def fun_upd_def)
qed

lemma fits_RUnlock:
  assumes "lock_fits l h" "h r = Reading" "sync_RUnlock (role_id r) l = Some l'"
  shows "lock_fits l' (h(r := Free))"
proof -
  have l: "l' = l\<lparr>rw_readers := rw_readers l - {#role_id r#}\<rparr>" "rw_writer l = None"
    using assms by (auto simp: sync_RUnlock_def lock_fits_def split: if_splits)
  with fits_writer [OF assms(1)] have "h x \<noteq> Writing" for x by simp
  moreover have "(\<exists>x. n = role_id x \<and> (h(r := Free)) x = Reading) \<longleftrightarrow>
      n \<noteq> role_id r \<and> (\<exists>x. n = role_id x \<and> h x = Reading)" for n
    by (auto simp: fun_upd_def)
  moreover have "count (rw_readers l) (role_id r) = 1" using assms(1,2) by (simp add: fits_reader)
  ultimately show ?thesis using l assms(1) by (auto simp: lock_fits_def fun_upd_def)
qed

section \<open>The invariant is kept\<close>

lemma hold_of_becomes [simp]: "hold_of (becomes w r g) = (hold_of w)(r := mode (todo g))"
  by (auto simp: hold_of_def)

lemma hold_of_upd [simp]:
  "hold_of (w\<lparr>sw_go := go(r := g)\<rparr>) = (hold_of (w\<lparr>sw_go := go\<rparr>))(r := mode (todo g))"
  by (auto simp: hold_of_def)

lemma hold_of_cong [simp]:
  "hold_of (w\<lparr>sw_go := sw_go w\<rparr>) = hold_of w"
  "hold_of (w\<lparr>sw_lock := l\<rparr>) = hold_of w" "hold_of (w\<lparr>sw_added := cs\<rparr>) = hold_of w"
  "hold_of (w\<lparr>sw_deleted := cs\<rparr>) = hold_of w" "hold_of (w\<lparr>sw_pending := b\<rparr>) = hold_of w"
  "hold_of (w\<lparr>sw_stopped := b\<rparr>) = hold_of w"
  by (auto simp: hold_of_def)

lemma scripts_becomes:
  "scripts_ok w \<Longrightarrow> whole (may r) (todo g) \<Longrightarrow> scripts_ok (becomes w r g)"
  by (simp add: scripts_ok_def whole_def)

lemma scripts_doing:
  assumes "scripts_ok w" "sw_go w r = Doing as"
  shows "well_locked as" "list_all (may r) as"
  using assms by (metis scripts_ok_def todo.simps(1))+

text \<open>A goroutine at its \<open>select\<close>, not started or ended holds nothing; what it is given to do changes nothing in that.\<close>

lemma inv_scripts_step:
  assumes "scripts_ok w" "lock_fits (sw_lock w) (hold_of w)" "hold_of w r = Free" "whole (may r) (todo g)"
  shows "scripts_ok (becomes w r g) \<and> lock_fits (sw_lock w) (hold_of (becomes w r g))"
proof -
  have "(hold_of w)(r := mode (todo g)) = hold_of w" using assms(3,4) by (auto simp: whole_def)
  with assms show ?thesis by (simp add: scripts_becomes)
qed

lemma local_act_go:
  "local_act r a w = Some w' \<Longrightarrow> a \<noteq> GoWorker \<Longrightarrow> a \<noteq> GoMonitor \<Longrightarrow>
   sw_go w' = sw_go w \<and> sw_stopped w' = sw_stopped w"
  by (cases a) (auto split: if_splits)

lemma act_scripts:
  assumes "scripts_ok w" "sw_go w r = Doing (a # as)" "local_act r a (becomes w r (Doing as)) = Some w'"
  shows "scripts_ok w'"
proof -
  have p: "scripts_ok (becomes w r (Doing as))"
    using assms(1) scripts_doing [OF assms(1,2)] by (simp add: scripts_ok_def)
  consider "a = GoWorker" | "a = GoMonitor" | "a \<noteq> GoWorker" "a \<noteq> GoMonitor" by blast
  then show ?thesis
  proof cases
    case 1
    then show ?thesis using assms(3) scripts_becomes [OF p, of Worker "Doing []"] by simp
  next
    case 2
    then show ?thesis using assms(3) scripts_becomes [OF p, of Monitor "Doing monitor_acts"] whole_monitor by simp
  next
    case 3
    with local_act_go [OF assms(3)] p show ?thesis by (simp add: scripts_ok_def)
  qed
qed

lemma act_fits:
  assumes "server_inv w" "sw_go w r = Doing (a # as)" "local_act r a (becomes w r (Doing as)) = Some w'"
  shows "lock_fits (sw_lock w') (hold_of w')"
proof -
  have sc: "scripts_ok w" and f: "lock_fits (sw_lock w) (hold_of w)"
    using assms(1) by (simp_all add: server_inv_def)
  note l = scripts_doing(1) [OF sc assms(2)]
  have h: "hold_of w r = mode (a # as)" using assms(2) by (simp add: hold_of_def)
  have same: "lock_fits (sw_lock w) ((hold_of w)(r := mode as))" if "mode as = mode (a # as)"
    using f h that by (metis fun_upd_triv)
  have st: "started_ok (sw_go w) (sw_stopped w)" and m: "may r a"
    using assms(1) scripts_doing(2) [OF sc assms(2)] by (simp_all add: server_inv_def)
  have new: "hold_of w Worker = Free" if "a = GoWorker"
    using st m assms(2) that by (cases r) (auto simp: started_ok_def Let_def hold_of_def)
  have new': "hold_of w Monitor = Free" if "a = GoMonitor"
    using st m assms(2) that by (cases r) (auto simp: started_ok_def Let_def hold_of_def)
  show ?thesis
  proof (cases a)
    case Lock
    then show ?thesis using assms(3) l fits_Lock [OF f] by auto
  next
    case Unlock
    then show ?thesis using assms(3) l h fits_Unlock [OF f] by auto
  next
    case RLock
    then show ?thesis using assms(3) l h fits_RLock [OF f] by auto
  next
    case RUnlock
    then show ?thesis using assms(3) l h fits_RUnlock [OF f] by auto
  next
    case GoWorker
    then have "(hold_of w)(r := mode as, Worker := Free) = hold_of w"
      using h new by (auto simp: fun_eq_iff)
    with GoWorker assms(3) f show ?thesis by auto
  next
    case GoMonitor
    then have "(hold_of w)(r := mode as, Monitor := Free) = hold_of w"
      using h new' by (auto simp: fun_eq_iff)
    with GoMonitor assms(3) f whole_monitor show ?thesis by (auto simp: whole_def)
  qed (use assms(3) same in \<open>auto split: if_splits\<close>)
qed

lemma started_pop:
  assumes "started_ok go b" "go r = Doing (a # as)" "a \<noteq> GoWorker" "a \<noteq> GoMonitor"
  shows "started_ok (go(r := Doing as)) b"
proof -
  have "GoMonitor \<notin> set (butlast as)" if "GoMonitor \<notin> set (butlast (a # as))" for as
    using that by (auto split: if_splits)
  then show ?thesis
    using assms by (cases r) (auto simp: started_ok_def Let_def split: if_splits)
qed

lemma started_monitor:
  "started_ok go b \<Longrightarrow> go Monitor \<noteq> NotStarted \<Longrightarrow> g \<noteq> NotStarted \<Longrightarrow> started_ok (go(Monitor := g)) b"
  by (auto simp: started_ok_def Let_def)

lemma act_started:
  assumes "server_inv w" "sw_go w r = Doing (a # as)" "local_act r a (becomes w r (Doing as)) = Some w'"
  shows "started_ok (sw_go w') (sw_stopped w')"
proof -
  have s: "started_ok (sw_go w) (sw_stopped w)" and m: "may r a"
    using assms(1,2) scripts_doing(2) [of w r "a # as"] by (simp_all add: server_inv_def)
  consider "a = GoWorker" | "a = GoMonitor" | "a \<noteq> GoWorker" "a \<noteq> GoMonitor" by blast
  then show ?thesis
  proof cases
    case 1
    with m have r: "r = Caller" by (cases r) auto
    have e: "GoMonitor \<notin> set (butlast as)" if "GoMonitor \<notin> set (butlast (GoWorker # as))"
      using that by (auto split: if_splits)
    show ?thesis using 1 r s e assms(2,3) by (auto simp: started_ok_def Let_def)
  next
    case 2
    with m have r: "r = Caller" by (cases r) auto
    have e: "as = []" using s assms(2) 2 r by (auto simp: started_ok_def Let_def split: if_splits)
    show ?thesis using 2 r s e assms(2,3) by (auto simp: started_ok_def Let_def)
  next
    case 3
    with local_act_go [OF assms(3)] started_pop [OF s assms(2)] show ?thesis by simp
  qed
qed

lemma length_worker_acts: "length gots \<le> 5 \<Longrightarrow> length (worker_acts gots) \<le> 21"
proof -
  have "length (concat (map attempt_acts gots)) \<le> 4 * length gots"
    by (induction gots) (auto simp: attempt_acts_def)
  then show "length gots \<le> 5 \<Longrightarrow> ?thesis" by (simp add: worker_acts_def)
qed

lemma inv_select:
  assumes "server_inv w" "sw_go w r = g" "mode (todo g) = Free" "whole (may r) (todo g')"
    "started_ok ((sw_go w)(r := g')) (sw_stopped w)"
  shows "server_inv (becomes w r g')"
  using inv_scripts_step [of w r g'] assms by (simp add: server_inv_def hold_of_def)

text \<open>A goroutine past an act that is free of the lock.\<close>

lemma inv_pop:
  assumes "server_inv w" "sw_go w r = Doing (a # as)" "a = Notify \<or> a = SendRestart"
  shows "server_inv (becomes w r (Doing as))"
proof (rule inv_select [OF assms(1,2)])
  have sc: "scripts_ok w" and s: "started_ok (sw_go w) (sw_stopped w)" using assms(1) by (simp_all add: server_inv_def)
  note l = scripts_doing [OF sc assms(2)]
  show "mode (todo (Doing (a # as))) = Free" "whole (may r) (todo (Doing as))"
    using l assms(3) by (auto simp: whole_def)
  show "started_ok ((sw_go w)(r := Doing as)) (sw_stopped w)"
    using started_pop [OF s assms(2)] assms(3) by auto
qed

lemma server_step_inv: "server_step w w' \<Longrightarrow> server_inv w \<Longrightarrow> server_inv w'"
proof (induction rule: server_step.induct)
  case (act w r a as w')
  have "scripts_ok w" using act.prems by (simp add: server_inv_def)
  from act_scripts [OF this act.hyps] act_fits [OF act.prems act.hyps] act_started [OF act.prems act.hyps]
  show ?case by (simp add: server_inv_def)
next
  case (notify w r as)
  have "server_inv (becomes w r (Doing as))" using inv_pop [OF notify.prems notify.hyps(1)] by simp
  then show ?case by (simp add: server_inv_def scripts_ok_def)
next
  case (restart w as env st st')
  have i: "server_inv (becomes w Caller (Doing as))" using inv_pop [OF restart.prems restart.hyps(1)] by simp
  then have "started_ok (sw_go (becomes w Caller (Doing as))) (sw_stopped w)" by (simp add: server_inv_def)
  from inv_select [OF i, of Monitor "Doing []" "Doing (turn_acts env RestartEvent st)"] started_monitor [OF this]
  show ?case using restart.hyps(2) whole_turn by simp
next
  case (watch_failed w as)
  have sc: "scripts_ok w" and s: "started_ok (sw_go w) (sw_stopped w)"
    using watch_failed.prems by (simp_all add: server_inv_def)
  show ?case
    using inv_select [OF watch_failed.prems watch_failed.hyps, of Ended] started_monitor [OF s]
      scripts_doing [OF sc watch_failed.hyps] watch_failed.hyps by simp
next
  case (tick w gots)
  have "started_ok (sw_go w) (sw_stopped w)" using tick.prems by (simp add: server_inv_def)
  then have "started_ok ((sw_go w)(Worker := Doing (worker_acts gots))) (sw_stopped w)"
    using tick.hyps(1) length_worker_acts [OF tick.hyps(4)]
    by (simp add: started_ok_def Let_def) (simp add: worker_acts_def)
  then show ?case using inv_select [OF tick.prems tick.hyps(1)] whole_worker by simp
next
  case (loop_ends r w)
  have "started_ok (sw_go w) (sw_stopped w)" using loop_ends.prems by (simp add: server_inv_def)
  then have "started_ok ((sw_go w)(r := Ended)) (sw_stopped w)"
    using loop_ends.hyps by (cases r) (auto simp: started_ok_def Let_def)
  then show ?case using inv_select [OF loop_ends.prems loop_ends.hyps(2), of Ended] by simp
qed (simp_all add: server_inv_def scripts_ok_def)

lemma outside_step_inv: "outside_step w w' \<Longrightarrow> server_inv w \<Longrightarrow> server_inv w'"
proof (induction rule: outside_step.induct)
  case (turn w ev env st st')
  then have "started_ok (sw_go w) (sw_stopped w)" by (simp add: server_inv_def)
  from started_monitor [OF this] show ?case
    using inv_select [OF turn.prems turn.hyps(1), of "Doing (turn_acts env ev st)"] whole_turn turn.hyps(1) by simp
next
  case (update w)
  then have "started_ok (sw_go w) (sw_stopped w)" by (simp add: server_inv_def)
  then have "started_ok ((sw_go w)(Caller := Doing UpdateService_acts)) (sw_stopped w)"
    using update.hyps by (simp add: started_ok_def Let_def UpdateService_acts_def)
  then show ?case using inv_select [OF update.prems update.hyps(1)] whole_update by simp
qed (simp add: server_inv_def scripts_ok_def started_ok_def Let_def)

lemma server_start_inv: "server_inv (server_start env st)"
proof -
  have s: "whole (may Caller) (start_acts env st)" using whole_mono [OF whole_start shared_may(1)] .
  have g: "whole (may Caller) [GoWorker]" "whole (may Caller) [GoMonitor]" by (simp_all add: whole_def)
  have w: "whole (may Caller) (Run_acts env st)"
    unfolding Run_acts_def by (intro whole_append g s) (auto simp: g split: sum.split)
  have n: "a \<noteq> GoWorker \<and> a \<noteq> GoMonitor \<and> a \<noteq> SendRestart" if "a \<in> set (start_acts env st)" for a
    using whole_start [of env st] that by (auto simp: whole_def list_all_iff shared_act_def)
  have "started_ok (sw_go (server_start env st)) (sw_stopped (server_start env st))"
    using n by (auto simp: started_ok_def Let_def server_start_def Run_acts_def butlast_append
        split: sum.splits dest: in_set_butlastD)
  with w show ?thesis
    by (auto simp: server_inv_def scripts_ok_def server_start_def whole_def hold_of_def lock_fits_def new_mutex_def)
qed

theorem server_reachable_inv: "server_reachable w \<Longrightarrow> server_inv w"
  by (induction rule: server_reachable.induct) (use server_start_inv server_step_inv outside_step_inv in blast)+

end
