(* ===== verification/Rendezvous.thy ===== *)
theory Rendezvous
  imports ServerRun SubnetManager
begin

text \<open>
  What the goroutines of a DHCP server promise each other: left alone they come to rest, and a goroutine that
  waits for ever waits on a channel whose receiver has returned; which of the shared data can be read while
  it is written. The last section reaches the states that show what the promises do not cover.
\<close>

section \<open>A run of its own steps ends\<close>

fun alive_size :: "goroutine \<Rightarrow> nat" where
  "alive_size (Doing as) = Suc (length as)"
| "alive_size _ = 0"

text \<open>A pending update is more work than any tick has acts.\<close>

definition worker_work :: "server_world \<Rightarrow> nat" where
  "worker_work w = (if sw_go w Worker = Doing [] \<and> sw_pending w then 30 else alive_size (sw_go w Worker))"

definition server_work :: "server_world \<Rightarrow> nat \<times> nat \<times> nat \<times> nat" where
  "server_work w =
     (length (todo (sw_go w Caller)), alive_size (sw_go w Monitor), worker_work w, length (sw_added w) + length (sw_deleted w))"

definition work_less :: "((nat \<times> nat \<times> nat \<times> nat) \<times> (nat \<times> nat \<times> nat \<times> nat)) set" where
  "work_less = less_than <*lex*> less_than <*lex*> less_than <*lex*> less_than"

lemma work_less_iff:
  "((a', b', c', d'), (a, b, c, d)) \<in> work_less \<longleftrightarrow>
   a' < a \<or> a' = a \<and> (b' < b \<or> b' = b \<and> (c' < c \<or> c' = c \<and> d' < d))"
  by (auto simp: work_less_def)

lemma wf_work_less: "wf work_less"
  by (simp add: work_less_def wf_lex_prod)

lemma act_work:
  assumes "server_inv w" "sw_go w r = Doing (a # as)" "local_act r a (becomes w r (Doing as)) = Some w'"
  shows "(server_work w', server_work w) \<in> work_less"
proof -
  have m: "may r a"
    using assms(1,2) scripts_doing(2) [of w r "a # as"] by (simp add: server_inv_def)
  show ?thesis
  proof (cases r)
    case Caller
    have "sw_go w' Caller = Doing as"
      using assms(3) Caller local_act_go [OF assms(3)] by (cases "a = GoWorker \<or> a = GoMonitor") auto
    with Caller assms(2) show ?thesis by (simp add: server_work_def work_less_iff)
  next
    case Monitor
    with m local_act_go [OF assms(3)] have "sw_go w' = (sw_go w)(Monitor := Doing as)" by auto
    with Monitor assms(2) show ?thesis by (simp add: server_work_def work_less_iff)
  next
    case Worker
    with m local_act_go [OF assms(3)] have g: "sw_go w' = (sw_go w)(Worker := Doing as)" by auto
    have "\<not> sw_pending w'" if "as = []"
    proof -
      have "a = ClearPending" using assms(1,2) Worker that by (simp add: server_inv_def started_ok_def Let_def)
      with assms(3) show ?thesis by auto
    qed
    then have "worker_work w' < worker_work w"
      using Worker assms(2) g by (auto simp: worker_work_def)
    with Worker g show ?thesis by (simp add: server_work_def work_less_iff)
  qed
qed

lemma server_step_work: "server_step w w' \<Longrightarrow> server_inv w \<Longrightarrow> (server_work w', server_work w) \<in> work_less"
proof (induction rule: server_step.induct)
  case (act w r a as w')
  then show ?case by (intro act_work)
next
  case (notify w r as)
  then have "r \<noteq> Worker" by auto
  then show ?case using notify.hyps by (cases r) (simp_all add: server_work_def work_less_iff)
next
  case (tick w gots)
  then have "worker_work (becomes w Worker (Doing (worker_acts gots))) < worker_work w"
    using length_worker_acts [OF tick.hyps(4)] by (simp add: worker_work_def worker_acts_def)
  then show ?case by (simp add: server_work_def work_less_iff)
next
  case (loop_ends r w)
  then show ?case
    by (cases r) (simp_all add: server_work_def work_less_iff worker_work_def)
qed (auto simp: server_work_def work_less_iff worker_work_def)

text \<open>Steps that keep an invariant and lessen a well-founded amount of work.\<close>

locale settling =
  fixes step :: "'s \<Rightarrow> 's \<Rightarrow> bool" and inv :: "'s \<Rightarrow> bool" and work :: "'s \<Rightarrow> 'm" and less :: "('m \<times> 'm) set"
  assumes wf_less: "wf less"
    and step_inv: "step s s' \<Longrightarrow> inv s \<Longrightarrow> inv s'"
    and step_work: "step s s' \<Longrightarrow> inv s \<Longrightarrow> (work s', work s) \<in> less"
begin

lemma steps_inv: "step\<^sup>*\<^sup>* s s' \<Longrightarrow> inv s \<Longrightarrow> inv s'"
  by (induction rule: rtranclp_induct) (auto intro: step_inv)

lemma no_endless_run:
  assumes "inv s"
  shows "\<not> (\<exists>f. f 0 = s \<and> (\<forall>i. step (f i) (f (Suc i))))"
proof
  assume "\<exists>f. f 0 = s \<and> (\<forall>i. step (f i) (f (Suc i)))"
  then obtain f where f: "f 0 = s" "\<And>i. step (f i) (f (Suc i))" by blast
  have "inv (f i)" for i
    by (induction i) (use f assms step_inv in auto)
  with f(2) step_work have "(work (f (Suc i)), work (f i)) \<in> less" for i by blast
  then show False using wf_less [unfolded wf_iff_no_infinite_down_chain] by (metis comp_apply)
qed

text \<open>So a run leads to a state without a step.\<close>

lemma settles: "inv s \<Longrightarrow> \<exists>s'. step\<^sup>*\<^sup>* s s' \<and> (\<forall>s''. \<not> step s' s'')"
proof (induction "work s" arbitrary: s rule: wf_induct_rule [OF wf_less])
  case (1 s)
  show ?case
  proof (cases "\<exists>s1. step s s1")
    case True
    then obtain s1 where s1: "step s s1" by blast
    with "1.hyps" [of s1] "1.prems" step_inv step_work obtain s' where "step\<^sup>*\<^sup>* s1 s'" "\<forall>s''. \<not> step s' s''" by blast
    with s1 show ?thesis by (meson converse_rtranclp_into_rtranclp)
  qed blast
qed

end

interpretation server: settling server_step server_inv server_work work_less
  by unfold_locales (use wf_work_less server_step_inv server_step_work in blast)+

section \<open>Who still waits when it has ended\<close>

definition server_at_rest :: "server_world \<Rightarrow> bool" where
  "server_at_rest w \<longleftrightarrow>
     (\<forall>r. todo (sw_go w r) = []) \<and> sw_added w = [] \<and> sw_deleted w = [] \<and> sw_lock w = new_mutex
   \<and> (sw_go w Worker = Doing [] \<longrightarrow> \<not> sw_pending w \<and> \<not> sw_stopped w)"

definition waits_for_worker :: "server_world \<Rightarrow> role \<Rightarrow> bool" where
  "waits_for_worker w r \<longleftrightarrow> (\<exists>as. sw_go w r = Doing (Notify # as)) \<and> sw_go w Worker = Ended"

definition waits_for_monitor :: "server_world \<Rightarrow> bool" where
  "waits_for_monitor w \<longleftrightarrow> (\<exists>as. sw_go w Caller = Doing (SendRestart # as)) \<and> sw_go w Monitor = Ended"

text \<open>A goroutine in a section of the lock moves, if the Redfish controller has made room.\<close>

lemma holder_moves:
  assumes "server_inv w" "sw_added w = []" "sw_deleted w = []" "hold_of w r \<noteq> Free"
  shows "\<exists>w'. server_step w w'"
proof -
  obtain a as where g: "sw_go w r = Doing (a # as)"
    using assms(4) by (cases "sw_go w r"; cases "todo (sw_go w r)") (auto simp: hold_of_def)
  have sc: "scripts_ok w" and f: "lock_fits (sw_lock w) (hold_of w)" using assms(1) by (simp_all add: server_inv_def)
  note l = scripts_doing(1) [OF sc g]
  have h: "mode (a # as) = hold_of w r" using g by (simp add: hold_of_def)
  have w: "rw_writer (sw_lock w) \<noteq> None" if "hold_of w r = Writing" using fits_writer [OF f, of r] that by auto
  have rd: "role_id r \<in># rw_readers (sw_lock w)" if "hold_of w r = Reading"
    using fits_reader [OF f, of r] that by (simp flip: count_greater_zero_iff)
  have "\<exists>w'. local_act r a (becomes w r (Doing as)) = Some w'"
    using l h assms(2-4) w rd
    by (cases a) (auto simp: sync_Unlock_def sync_RUnlock_def redfish_capacity_def)
  with act [of w r a as] g show ?thesis by blast
qed

lemma lock_free:
  assumes "server_inv w" "\<And>r. hold_of w r = Free"
  shows "sw_lock w = new_mutex"
proof -
  have f: "lock_fits (sw_lock w) (hold_of w)" using assms(1) by (simp add: server_inv_def)
  then have "rw_writer (sw_lock w) = None" using assms(2) by (simp add: lock_fits_def)
  moreover have "rw_readers (sw_lock w) = {#}" using f assms(2) by (intro multiset_eqI) (simp add: lock_fits_def)
  ultimately show ?thesis by (simp add: new_mutex_def)
qed

text \<open>\<open>monitor\<close> can always handle a restart: with a template that cannot be parsed it logs the error.\<close>

lemma some_restart: "\<exists>env st st'. monitor_turn env RestartEvent st = (Going, st')"
proof -
  let ?env = "free_env\<lparr>me_os := \<lambda>_. Some []\<rparr>"
  have "monitor_turn ?env RestartEvent running = (Going, snd (monitor_turn ?env RestartEvent running))"
    by (simp add: monitor_turn_def select_case_def after_select_def generateDnsmasqConfig_def no_flags_def Let_def os_do_def)
  then show ?thesis by blast
qed

lemma blocked_head:
  assumes "server_inv w" "\<And>w'. \<not> server_step w w'" "sw_go w r = Doing (a # as)"
  shows "a = Notify \<or> a = SendRestart"
proof (rule ccontr)
  assume n: "\<not> (a = Notify \<or> a = SendRestart)"
  have q: "sw_added w = []" "sw_deleted w = []"
    using assms(2) take_added take_deleted by (metis neq_Nil_conv)+
  have free: "hold_of w r' = Free" for r'
    using holder_moves [OF assms(1) q] assms(2) by blast
  have l: "sw_lock w = new_mutex" using lock_free [OF assms(1) free] .
  have "well_locked (a # as)" using scripts_doing(1) [OF _ assms(3)] assms(1) unfolding server_inv_def by blast
  moreover have "mode (a # as) = Free" using free [of r] assms(3) by (simp add: hold_of_def)
  ultimately have "\<exists>w'. local_act r a (becomes w r (Doing as)) = Some w'"
    using n q l by (cases a) (auto simp: sync_Lock_def sync_RLock_def new_mutex_def redfish_capacity_def)
  with act [of w r a as] assms(2,3) show False by blast
qed

lemma no_step_blocked:
  assumes "server_inv w" "\<And>w'. \<not> server_step w w'"
  shows "server_at_rest w \<or> (\<exists>r. waits_for_worker w r) \<or> waits_for_monitor w"
proof -
  have sc: "scripts_ok w" and st: "started_ok (sw_go w) (sw_stopped w)"
    using assms(1) by (simp_all add: server_inv_def)
  note head = blocked_head [OF assms]
  have wk: "todo (sw_go w Worker) = []"
    using head [of Worker] scripts_doing(2) [OF sc, of Worker]
    by (cases "sw_go w Worker"; cases "todo (sw_go w Worker)") force+
  have ns: "sw_go w Worker \<noteq> NotStarted"
  proof
    assume "sw_go w Worker = NotStarted"
    then have "todo (sw_go w Caller) \<noteq> [] \<and> hd (todo (sw_go w Caller)) = GoWorker"
      using st by (simp add: started_ok_def Let_def)
    then obtain as where "sw_go w Caller = Doing (GoWorker # as)"
      by (cases "sw_go w Caller"; cases "todo (sw_go w Caller)") auto
    with head [of Caller] show False by blast
  qed
  have wait: "waits_for_worker w r" if "sw_go w r = Doing (Notify # as)" for r as
    using notify [OF that] wk ns assms(2) that by (cases "sw_go w Worker") (auto simp: waits_for_worker_def)
  show ?thesis
  proof (cases "\<exists>r. todo (sw_go w r) \<noteq> []")
    case True
    then obtain r a as where r: "sw_go w r = Doing (a # as)"
      by (metis list.exhaust todo.cases todo.simps)
    show ?thesis
    proof (cases "a = Notify")
      case False
      then have s: "a = SendRestart" using head [OF r] by blast
      then have c: "r = Caller" using scripts_doing(2) [OF sc r] by (cases r) auto
      show ?thesis
      proof (cases "sw_go w Monitor")
        case NotStarted
        then show ?thesis using st r s c by (simp add: started_ok_def Let_def)
      next
        case (Doing bs)
        then show ?thesis
        proof (cases bs)
          case Nil
          then show ?thesis using restart [of w as] some_restart Doing r s c assms(2) by blast
        next
          case (Cons b cs)
          then show ?thesis
            using head [of Monitor b cs] scripts_doing(2) [OF sc, of Monitor] wait [of Monitor cs] Doing by auto
        qed
      next
        case Ended
        then show ?thesis using r s c by (auto simp: waits_for_monitor_def)
      qed
    qed (use wait r in blast)
  next
    case False
    then have t: "todo (sw_go w r) = []" for r by blast
    then have "hold_of w r = Free" for r by (simp add: hold_of_def)
    with assms(1) have "sw_lock w = new_mutex" by (intro lock_free)
    moreover have "sw_added w = []" "sw_deleted w = []"
      using assms(2) take_added take_deleted by (metis neq_Nil_conv)+
    moreover have "\<not> sw_pending w \<and> \<not> sw_stopped w" if "sw_go w Worker = Doing []"
      using tick [OF that, of "[True]"] loop_ends [OF _ that] assms(2) by force
    ultimately show ?thesis using t by (simp add: server_at_rest_def)
  qed
qed

lemma steps_stopped: "server_step\<^sup>*\<^sup>* w w' \<Longrightarrow> sw_stopped w' = sw_stopped w"
proof (induction rule: rtranclp_induct)
  case (step w1 w2)
  have "sw_stopped w2 = sw_stopped w1" using step(2)
  proof (cases rule: server_step.cases)
    case (act r a as)
    then show ?thesis by (cases a) (auto split: if_splits)
  qed auto
  with step show ?case by simp
qed simp

text \<open>Property C8: left alone, a DHCP server comes to rest: from every state it can be in, however its
  goroutines take their turns, its own steps come to an end (there is no livelock), and when none is left
  either all its calls have returned, all events are delivered and no status update is pending, or
  it has been stopped and someone waits for the worker that has returned, or its caller waits for
  a monitor that has returned. So as long as the server runs there is no deadlock between the lock, the full
  channels and the two channels without a buffer.\<close>

theorem server_comes_to_rest:
  assumes "server_reachable w"
  shows "\<not> (\<exists>f. f 0 = w \<and> (\<forall>i. server_step (f i) (f (Suc i))))
    \<and> (\<exists>w'. server_step\<^sup>*\<^sup>* w w' \<and> (\<forall>w''. \<not> server_step w' w''))
    \<and> (\<forall>w'. server_step\<^sup>*\<^sup>* w w' \<and> (\<forall>w''. \<not> server_step w' w'') \<longrightarrow>
         server_at_rest w' \<or> (\<exists>r. waits_for_worker w' r \<and> sw_stopped w) \<or> waits_for_monitor w')"
proof (intro conjI allI impI)
  have i: "server_inv w" using server_reachable_inv [OF assms] .
  then show "\<not> (\<exists>f. f 0 = w \<and> (\<forall>i. server_step (f i) (f (Suc i))))" by (rule server.no_endless_run)
  show "\<exists>w'. server_step\<^sup>*\<^sup>* w w' \<and> (\<forall>w''. \<not> server_step w' w'')" using server.settles [OF i] .
  fix w'
  assume w': "server_step\<^sup>*\<^sup>* w w' \<and> (\<forall>w''. \<not> server_step w' w'')"
  then have i': "server_inv w'" using server.steps_inv i by blast
  have "sw_stopped w" if "waits_for_worker w' r" for r
    using that i' steps_stopped [of w w'] w'
    by (auto simp: waits_for_worker_def server_inv_def started_ok_def Let_def)
  with no_step_blocked [OF i'] w'
  show "server_at_rest w' \<or> (\<exists>r. waits_for_worker w' r \<and> sw_stopped w) \<or> waits_for_monitor w'" by blast
qed

section \<open>What is read while it is written\<close>

datatype server_data = Leases | Bindings | Specification

fun data_read :: "act \<Rightarrow> server_data set" where
  "data_read ReadStatus = {Leases, Bindings, Specification}"
| "data_read ReadSubnet = {Specification}"
| "data_read _ = {}"

fun data_written :: "act \<Rightarrow> server_data set" where
  "data_written PutLeases = {Leases}"
| "data_written PutBinding = {Bindings}"
| "data_written DeleteBinding = {Bindings}"
| "data_written PutSubnet = {Specification}"
| "data_written _ = {}"

text \<open>Two goroutines about to access the same data, one of them to write it.\<close>

definition race :: "server_world \<Rightarrow> act \<Rightarrow> act \<Rightarrow> bool" where
  "race w a b \<longleftrightarrow> (\<exists>r r' as bs. r \<noteq> r' \<and> sw_go w r = Doing (a # as) \<and> sw_go w r' = Doing (b # bs)
     \<and> data_written a \<inter> (data_read b \<union> data_written b) \<noteq> {})"

lemma races_only:
  assumes "server_reachable w" "race w a b"
  shows "a = DeleteBinding \<and> b = ReadStatus \<or> a = PutSubnet \<and> b = ReadSubnet"
proof -
  obtain r r' as bs where g: "r \<noteq> r'" "sw_go w r = Doing (a # as)" "sw_go w r' = Doing (b # bs)"
    and c: "data_written a \<inter> (data_read b \<union> data_written b) \<noteq> {}"
    using assms(2) unfolding race_def by blast
  have sc: "scripts_ok w" and f: "lock_fits (sw_lock w) (hold_of w)"
    using server_reachable_inv [OF assms(1)] by (simp_all add: server_inv_def)
  note l = scripts_doing [OF sc g(2)] scripts_doing [OF sc g(3)]
  have h: "hold_of w r = mode (a # as)" "hold_of w r' = mode (b # bs)" using g by (simp_all add: hold_of_def)
  have "\<not> (mode (a # as) = Writing \<and> mode (b # bs) = Reading)"
    "\<not> (mode (a # as) = Writing \<and> mode (b # bs) = Writing)"
    using fits_no_reader [OF f, of r r'] fits_one_writer [OF f, of r r'] h g(1) by auto
  moreover have "a \<in> {PutLeases, PutBinding, DeleteBinding, PutSubnet}" using c by (cases a) simp_all
  moreover have "b \<in> {PutLeases, PutBinding, DeleteBinding, PutSubnet, ReadStatus, ReadSubnet}" using c by (cases b) simp_all
  moreover have m: "x = Monitor" if "may x e" "e = PutBinding \<or> e = DeleteBinding" for x e
    using that by (cases x) auto
  have "\<not> ((a = PutBinding \<or> a = DeleteBinding) \<and> (b = PutBinding \<or> b = DeleteBinding))"
    using m [of r a] m [of r' b] l(2,4) g(1) by auto
  ultimately show ?thesis using l(1,3) c by (elim insertE emptyE) simp_all
qed

section \<open>States that are reached\<close>

text \<open>A goroutine goes on alone while the others wait for something to do.\<close>

definition quiet_but :: "role \<Rightarrow> server_world \<Rightarrow> bool" where
  "quiet_but r w \<longleftrightarrow> (\<forall>r'. r' \<noteq> r \<longrightarrow> todo (sw_go w r') = []) \<and> sw_added w = [] \<and> sw_deleted w = []"

lemma drive_one:
  assumes w: "server_reachable w" "quiet_but r w" "sw_go w r = Doing (a # as)" "sw_go w Worker = Doing []"
    and a: "a \<noteq> GoWorker" "a \<noteq> GoMonitor" "a \<noteq> SendRestart"
  shows "\<exists>w'. server_reachable w' \<and> quiet_but r w' \<and> sw_go w' = (sw_go w)(r := Doing as)
    \<and> sw_stopped w' = sw_stopped w \<and> sw_pending w' = (sw_pending w \<and> a \<noteq> ClearPending \<or> a = Notify)"
proof -
  have q: "sw_added w = []" "sw_deleted w = []" using w(2) by (simp_all add: quiet_but_def)
  note s = reach_step [OF w(1)]
  have i: "server_inv w" using server_reachable_inv [OF w(1)] .
  have sc: "scripts_ok w" and f: "lock_fits (sw_lock w) (hold_of w)" using i by (simp_all add: server_inv_def)
  note l = scripts_doing(1) [OF sc w(3)]
  have h: "hold_of w r = mode (a # as)" using w(3) by (simp add: hold_of_def)
  have o: "hold_of w r' = Free" if "r' \<noteq> r" for r' using w(2) that by (simp add: quiet_but_def hold_of_def)
  show ?thesis
  proof (cases "a = Notify")
    case True
    then show ?thesis using s [OF notify, of r as] w by (fastforce simp: quiet_but_def)
  next
    case False
    have fr: "sw_lock w = new_mutex" if "mode (a # as) = Free"
      using lock_free [OF i] o h that by metis
    have wr: "rw_writer (sw_lock w) \<noteq> None" if "mode (a # as) = Writing"
      using fits_writer [OF f, of r] that h by auto
    have rd: "role_id r \<in># rw_readers (sw_lock w)" if "mode (a # as) = Reading"
      using fits_reader [OF f, of r] that h by (simp flip: count_greater_zero_iff)
    have "\<exists>w'. local_act r a (becomes w r (Doing as)) = Some w'"
      using l q a False fr wr rd
      by (cases a) (auto simp: sync_Lock_def sync_RLock_def sync_Unlock_def sync_RUnlock_def new_mutex_def redfish_capacity_def)
    then obtain w1 where w1: "local_act r a (becomes w r (Doing as)) = Some w1" by blast
    have r1: "server_reachable w1" using s [OF act, of r a as w1] w(3) w1 by blast
    have g: "sw_go w1 = (sw_go w)(r := Doing as)" "sw_stopped w1 = sw_stopped w"
      using local_act_go [OF w1 a(1,2)] by simp_all
    have pend: "sw_pending w1 = (sw_pending w \<and> a \<noteq> ClearPending)"
      using w1 False a by (cases a) (auto split: if_splits)
    have quiet: "quiet_but r w2" if "sw_go w2 = sw_go w1" "sw_added w2 = []" "sw_deleted w2 = []" for w2
      using that w(2) g(1) by (simp add: quiet_but_def)
    consider ci where "a = SendAdded ci" | ci where "a = SendDeleted ci" | "sw_added w1 = []" "sw_deleted w1 = []"
      using w1 q a False by (cases a) (auto split: if_splits)
    then show ?thesis
    proof cases
      case (1 ci)
      then have "sw_added w1 = [ci]" "sw_deleted w1 = []" using w1 q by (auto simp: redfish_capacity_def)
      then show ?thesis
        using reach_step [OF r1 take_added] quiet [of "w1\<lparr>sw_added := []\<rparr>"] g pend False by (intro exI [of _ "w1\<lparr>sw_added := []\<rparr>"]) auto
    next
      case (2 ci)
      then have "sw_deleted w1 = [ci]" "sw_added w1 = []" using w1 q by (auto simp: redfish_capacity_def)
      then show ?thesis
        using reach_step [OF r1 take_deleted] quiet [of "w1\<lparr>sw_deleted := []\<rparr>"] g pend False by (intro exI [of _ "w1\<lparr>sw_deleted := []\<rparr>"]) auto
    next
      case 3
      then show ?thesis using r1 quiet [of w1] g pend False by blast
    qed
  qed
qed

lemma drive:
  assumes "server_reachable w" "quiet_but r w" "sw_go w r = Doing (as @ bs)" "sw_go w Worker = Doing []" "r \<noteq> Worker"
    and "\<forall>a\<in>set as. a \<noteq> GoWorker \<and> a \<noteq> GoMonitor \<and> a \<noteq> SendRestart"
  shows "\<exists>w'. server_reachable w' \<and> quiet_but r w' \<and> sw_go w' = (sw_go w)(r := Doing bs)
    \<and> sw_stopped w' = sw_stopped w \<and> (sw_pending w \<or> Notify \<in> set as \<longrightarrow> sw_pending w')"
  using assms
proof (induction as arbitrary: w)
  case Nil
  then show ?case by (intro exI [of _ w]) (simp add: fun_upd_idem)
next
  case (Cons a as)
  have m: "a \<noteq> ClearPending"
    using server_reachable_inv [OF Cons.prems(1)] scripts_doing(2) [OF _ Cons.prems(3)] Cons.prems(5)
    by (cases r) (auto simp: server_inv_def)
  obtain w1 where w1: "server_reachable w1" "quiet_but r w1" "sw_go w1 = (sw_go w)(r := Doing (as @ bs))"
    "sw_stopped w1 = sw_stopped w" "sw_pending w1 = (sw_pending w \<or> a = Notify)"
    using drive_one [OF Cons.prems(1,2) _ Cons.prems(4), of a "as @ bs"] Cons.prems(3,6) m by auto
  have "sw_go w1 r = Doing (as @ bs)" "sw_go w1 Worker = Doing []"
    using w1(3) Cons.prems(4,5) by simp_all
  then obtain w2 where w2: "server_reachable w2" "quiet_but r w2" "sw_go w2 = (sw_go w1)(r := Doing bs)"
    "sw_stopped w2 = sw_stopped w1" "sw_pending w1 \<or> Notify \<in> set as \<longrightarrow> sw_pending w2"
    using Cons.IH [OF w1(1,2)] Cons.prems(5,6) by (metis list.set_intros(2))
  have "sw_go w2 = (sw_go w)(r := Doing bs)" using w2(3) unfolding w1(3) by simp
  with w1(4,5) w2 show ?case by (intro exI [of _ w2]) simp
qed

lemma start_notifies: "startDnsmasq env st = (Inr (), t) \<Longrightarrow> Notify \<in> set (start_acts env st)"
  by (auto simp: startDnsmasq_def start_acts_def os_do_def split: sum.splits prod.splits option.splits)

lemma start_acts_plain: "\<forall>a\<in>set (start_acts env st). a \<noteq> GoWorker \<and> a \<noteq> GoMonitor \<and> a \<noteq> SendRestart"
  using whole_start [of env st] by (auto simp: whole_def list_all_iff shared_act_def)

text \<open>A server as \<open>Run\<close> leaves it when it fails, and when it succeeds.\<close>

lemma server_failed:
  assumes "startDnsmasq env st = (Inl e, t)"
  shows "\<exists>w. server_reachable w \<and> sw_go w = (\<lambda>_. Doing [])(Monitor := NotStarted)"
proof -
  let ?w = "server_start env st"
  have g: "sw_go ?w Caller = Doing (GoWorker # start_acts env st)"
    using assms by (simp add: server_start_def Run_acts_def)
  let ?w1 = "becomes ?w Caller (Doing (start_acts env st))\<lparr>sw_go := (sw_go (becomes ?w Caller (Doing (start_acts env st))))(Worker := Doing [])\<rparr>"
  have r1: "server_reachable ?w1" using reach_step [OF reach_start act [OF g]] by simp
  have g1: "sw_go ?w1 = (\<lambda>_. NotStarted)(Caller := Doing (start_acts env st @ []), Worker := Doing [])"
    by (simp add: server_start_def)
  have "quiet_but Caller ?w1" by (auto simp: quiet_but_def server_start_def)
  then obtain w' where "server_reachable w'" "sw_go w' = (sw_go ?w1)(Caller := Doing [])"
    using drive [OF r1, of Caller "start_acts env st" "[]"] g1 start_acts_plain by auto
  moreover have "(sw_go ?w1)(Caller := Doing []) = (\<lambda>_. Doing [])(Monitor := NotStarted)"
  proof
    fix r show "((sw_go ?w1)(Caller := Doing [])) r = ((\<lambda>_. Doing [])(Monitor := NotStarted)) r"
      unfolding g1 by (cases r) simp_all
  qed
  ultimately show ?thesis by auto
qed

lemma server_up:
  assumes "startDnsmasq env st = (Inr (), t)"
  shows "\<exists>w. server_reachable w \<and> quiet_but Monitor w \<and> sw_go w = (\<lambda>_. Doing [])(Monitor := Doing monitor_acts)
    \<and> \<not> sw_stopped w \<and> sw_pending w"
proof -
  let ?w = "server_start env st"
  let ?as = "start_acts env st"
  have g: "sw_go ?w Caller = Doing (GoWorker # ?as @ [GoMonitor])"
    using assms by (simp add: server_start_def Run_acts_def)
  let ?w1 = "becomes ?w Caller (Doing (?as @ [GoMonitor]))\<lparr>sw_go := (sw_go (becomes ?w Caller (Doing (?as @ [GoMonitor]))))(Worker := Doing [])\<rparr>"
  have r1: "server_reachable ?w1" using reach_step [OF reach_start act [OF g]] by simp
  have g1: "sw_go ?w1 = (\<lambda>_. NotStarted)(Caller := Doing (?as @ [GoMonitor]), Worker := Doing [])"
    by (simp add: server_start_def)
  have "quiet_but Caller ?w1" by (auto simp: quiet_but_def server_start_def)
  then obtain w2 where w2: "server_reachable w2" "quiet_but Caller w2" "sw_go w2 = (sw_go ?w1)(Caller := Doing [GoMonitor])"
    "\<not> sw_stopped w2" "sw_pending w2"
    using drive [OF r1, of Caller ?as "[GoMonitor]"] g1 start_acts_plain start_notifies [OF assms]
    by (auto simp: server_start_def)
  let ?w3 = "becomes (becomes w2 Caller (Doing [])) Monitor (Doing monitor_acts)"
  have "sw_go w2 Caller = Doing [GoMonitor]" using w2(3) by simp
  from reach_step [OF w2(1) act [OF this]] have "server_reachable ?w3" by simp
  moreover have "sw_go ?w3 = (\<lambda>_. Doing [])(Monitor := Doing monitor_acts)"
  proof
    fix r show "sw_go ?w3 r = ((\<lambda>_. Doing [])(Monitor := Doing monitor_acts)) r"
      using w2(3) unfolding g1 by (cases r) simp_all
  qed
  moreover from this have "quiet_but Monitor ?w3" using w2(2) by (auto simp: quiet_but_def)
  ultimately show ?thesis using w2(4,5) by (intro exI [of _ ?w3]) auto
qed

lemma example_start: "\<exists>t. startDnsmasq free_env (new_server example_env example_config example_subnet) = (Inr (), t)"
  using example_run by (auto simp: Run_def split: prod.splits sum.splits)

text \<open>A server that waits for events, and one whose lease directory could not be watched.\<close>

lemma server_idle:
  "\<exists>w. server_reachable w \<and> (\<forall>r. quiet_but r w) \<and> sw_go w = (\<lambda>_. Doing []) \<and> \<not> sw_stopped w \<and> sw_pending w"
proof -
  obtain w where w: "server_reachable w" "quiet_but Monitor w" "sw_go w = (\<lambda>_. Doing [])(Monitor := Doing monitor_acts)"
    "\<not> sw_stopped w" "sw_pending w"
    using server_up example_start by blast
  have "sw_go w Monitor = Doing (monitor_acts @ [])" using w(3) by simp
  moreover have "sw_go w Worker = Doing []" using w(3) by simp
  moreover have "\<forall>a\<in>set monitor_acts. a \<noteq> GoWorker \<and> a \<noteq> GoMonitor \<and> a \<noteq> SendRestart" by (simp add: monitor_acts_def)
  ultimately obtain w' where w': "server_reachable w'" "quiet_but Monitor w'" "sw_go w' = (sw_go w)(Monitor := Doing [])"
    "sw_stopped w' = sw_stopped w" "sw_pending w'"
    using drive [OF w(1,2), of monitor_acts "[]"] w(5) by blast
  have "sw_go w' = (\<lambda>_. Doing [])" unfolding w'(3) w(3) by auto
  with w' w(4) show ?thesis by (intro exI [of _ w']) (auto simp: quiet_but_def)
qed

lemma server_unwatched:
  "\<exists>w. server_reachable w \<and> quiet_but Caller w \<and> sw_go w = (\<lambda>_. Doing [])(Monitor := Ended) \<and> \<not> sw_stopped w"
proof -
  obtain w where w: "server_reachable w" "quiet_but Monitor w" "sw_go w = (\<lambda>_. Doing [])(Monitor := Doing monitor_acts)"
    "\<not> sw_stopped w"
    using server_up example_start by blast
  have "sw_go w Monitor = Doing (Watch # tl monitor_acts)" using w(3) by (simp add: monitor_acts_def)
  from reach_step [OF w(1) watch_failed [OF this]] have "server_reachable (becomes w Monitor Ended)" .
  moreover have "sw_go (becomes w Monitor Ended) = (\<lambda>_. Doing [])(Monitor := Ended)" using w(3) by auto
  moreover from this have "quiet_but Caller (becomes w Monitor Ended)" using w(2) by (auto simp: quiet_but_def)
  ultimately show ?thesis using w(4) by (intro exI [of _ "becomes w Monitor Ended"]) auto
qed

section \<open>Waiting for ever\<close>

definition later :: "server_world \<Rightarrow> server_world \<Rightarrow> bool" where
  "later = (\<lambda>w w'. server_step w w' \<or> outside_step w w')\<^sup>*\<^sup>*"

lemma later_inv: "later w w' \<Longrightarrow> server_inv w \<Longrightarrow> server_inv w'"
  unfolding later_def by (induction rule: rtranclp_induct) (auto intro: server_step_inv outside_step_inv)

lemma later_keeps:
  assumes "later w w'" "server_inv w" "P w"
    and "\<And>w w'. server_inv w \<Longrightarrow> P w \<Longrightarrow> server_step w w' \<Longrightarrow> P w'"
    and "\<And>w w'. server_inv w \<Longrightarrow> P w \<Longrightarrow> outside_step w w' \<Longrightarrow> P w'"
  shows "P w'"
  using assms(1) unfolding later_def
proof (induction rule: rtranclp_induct)
  case (step w1 w2)
  have "server_inv w1" using later_inv [OF _ assms(2)] step(1) by (simp add: later_def)
  with step assms(4,5) show ?case by blast
qed (rule assms(3))

text \<open>What an act changes besides the goroutine itself.\<close>

lemma local_act_others:
  assumes "server_inv w" "sw_go w r = Doing (a # as)" "local_act r a (becomes w r (Doing as)) = Some w'"
    "r' \<noteq> r" "sw_go w r' \<noteq> NotStarted"
  shows "sw_go w' r' = sw_go w r'"
proof (cases "a = GoWorker \<or> a = GoMonitor")
  case True
  have s: "started_ok (sw_go w) (sw_stopped w)" and m: "may r a"
    using assms(1,2) scripts_doing(2) [of w r "a # as"] by (simp_all add: server_inv_def)
  then have c: "sw_go w Caller = Doing (a # as)" using True assms(2) by (cases r) auto
  have "a = GoWorker \<Longrightarrow> r' \<noteq> Worker" "a = GoMonitor \<Longrightarrow> r' \<noteq> Monitor"
    using s c assms(5) by (auto simp: started_ok_def Let_def)
  then show ?thesis using True assms(3,4) by auto
next
  case False
  then show ?thesis using local_act_go [OF assms(3)] assms(4) by auto
qed

lemma waiting_worker_step:
  assumes "server_inv w" "waits_for_worker w r" "server_step w w' \<or> outside_step w w'"
  shows "waits_for_worker w' r"
proof -
  obtain as where g: "sw_go w r = Doing (Notify # as)" "sw_go w Worker = Ended"
    using assms(2) by (auto simp: waits_for_worker_def)
  from assms(3) have "sw_go w' r = sw_go w r \<and> sw_go w' Worker = sw_go w Worker"
  proof
    assume "server_step w w'"
    then show ?thesis
    proof (cases rule: server_step.cases)
      case (act r1 a as1)
      have "r1 \<noteq> r" "r1 \<noteq> Worker" using act g by auto
      then show ?thesis using local_act_others [OF assms(1) act] g by auto
    qed (use g in auto)
  next
    assume "outside_step w w'"
    then show ?thesis by (cases rule: outside_step.cases) (use g in auto)
  qed
  with g show ?thesis by (simp add: waits_for_worker_def)
qed

lemma waiting_monitor_step:
  assumes "server_inv w" "waits_for_monitor w" "server_step w w' \<or> outside_step w w'"
  shows "waits_for_monitor w'"
proof -
  obtain as where g: "sw_go w Caller = Doing (SendRestart # as)" "sw_go w Monitor = Ended"
    using assms(2) by (auto simp: waits_for_monitor_def)
  from assms(3) have "sw_go w' Caller = sw_go w Caller \<and> sw_go w' Monitor = sw_go w Monitor"
  proof
    assume "server_step w w'"
    then show ?thesis
    proof (cases rule: server_step.cases)
      case (act r1 a as1)
      have "r1 \<noteq> Caller" "r1 \<noteq> Monitor" using act g by auto
      then show ?thesis using local_act_others [OF assms(1) act] g by auto
    qed (use g in auto)
  next
    assume "outside_step w w'"
    then show ?thesis by (cases rule: outside_step.cases) (use g in auto)
  qed
  with g show ?thesis by (simp add: waits_for_monitor_def)
qed

text \<open>A server whose \<open>Run\<close> failed: nobody has it, so nobody stops it.\<close>

definition orphaned :: "server_world \<Rightarrow> bool" where
  "orphaned w \<longleftrightarrow> sw_go w Caller = Doing [] \<and> sw_go w Monitor = NotStarted \<and> sw_go w Worker \<noteq> NotStarted \<and> sw_go w Worker \<noteq> Ended"

lemma orphaned_step:
  assumes "server_inv w" "orphaned w" "server_step w w' \<or> outside_step w w'"
  shows "orphaned w'"
  using assms(3)
proof
  have ns: "\<not> sw_stopped w"
    using assms(1,2) by (simp add: server_inv_def started_ok_def Let_def orphaned_def)
  assume "server_step w w'"
  then show ?thesis
  proof (cases rule: server_step.cases)
    case (act r1 a as1)
    then have r: "r1 = Worker" using assms(2) by (cases r1) (auto simp: orphaned_def)
    have "may Worker a" using assms(1) act(1) scripts_doing(2) [of w Worker "a # as1"] r by (simp add: server_inv_def)
    with local_act_go [OF act(2)] r assms(2) show ?thesis by (auto simp: orphaned_def)
  next
    case (notify r1 as1)
    then show ?thesis using assms(2) by (cases r1) (auto simp: orphaned_def)
  next
    case (loop_ends r1)
    then show ?thesis using ns by simp
  qed (use assms(2) in \<open>auto simp: orphaned_def\<close>)
next
  assume "outside_step w w'"
  then show ?thesis by (cases rule: outside_step.cases) (use assms(2) in \<open>auto simp: orphaned_def\<close>)
qed

section \<open>The races are reached\<close>

lemma deletion_turn:
  "\<exists>st st' as. monitor_turn free_env DeletedBindingEvent st = (Going, st')
     \<and> turn_acts free_env DeletedBindingEvent st = DeleteBinding # as"
proof -
  let ?st = "running\<lparr>mo_s := UpdateBindingIpEvents [] [binding_info ''00:11:22:33:44:55''] (mo_s running)\<rparr>"
  have e: "equal_fold ''00:11:22:33:44:55'' ''00:11:22:33:44:55''" by (simp add: equal_fold_def)
  have q: "dv_deletedBindingIp (mo_s ?st) = [binding_info ''00:11:22:33:44:55'']"
    by (simp add: UpdateBindingIpEvents_def running_def bound_server_def example_server_def NewDhcpServer_def Let_def)
  have c: "dv_currentManualBindingClients (mo_s ?st) = [(''10.0.0.1'', example_client)]"
    using running_bindings(1) by (simp add: UpdateBindingIpEvents_def)
  have d: "delete_binding (binding_info ''00:11:22:33:44:55'') [(''10.0.0.1'', example_client)] = Some []"
    by (simp add: delete_binding_def binding_info_def example_client_def e gm_del_def)
  obtain fs' where u: "UpdateDhcpBindings (me_os free_env) (mo_fs ?st)
      ((mo_s ?st)\<lparr>dv_deletedBindingIp := [], dv_currentManualBindingClients := []\<rparr>) = (Inr (), fs')"
    using UpdateDhcpBindings_no_failure [of "mo_fs ?st" "(mo_s ?st)\<lparr>dv_deletedBindingIp := [], dv_currentManualBindingClients := []\<rparr>"]
    by (metis free_env_def mon_env.select_convs(1) prod.collapse)
  have cmd: "dv_cmd (mo_s ?st)" using running_bindings(2) by (simp add: UpdateBindingIpEvents_def)
  have "\<exists>st'. monitor_turn free_env DeletedBindingEvent ?st = (Going, st')"
    using cmd u unfolding monitor_turn_def select_case_def monitor_event.case q list.case c d binding_case_def
    by (simp add: Let_def after_select_def no_flags_def free_env_def)
  moreover have "\<exists>as. turn_acts free_env DeletedBindingEvent ?st = DeleteBinding # as"
    unfolding turn_acts_def select_acts_def monitor_event.case q list.case c d Let_def by simp
  ultimately show ?thesis by blast
qed

lemma deletion_race: "\<exists>w. server_reachable w \<and> race w DeleteBinding ReadStatus"
proof -
  obtain w where w: "server_reachable w" "sw_go w = (\<lambda>_. Doing [])" "sw_pending w" using server_idle by blast
  obtain st st' as where t: "monitor_turn free_env DeletedBindingEvent st = (Going, st')"
    "turn_acts free_env DeletedBindingEvent st = DeleteBinding # as"
    using deletion_turn by blast
  let ?bs = "[ReadStatus, RUnlock, ClearPending]"
  have l: "sw_lock w = new_mutex"
    using lock_free [OF server_reachable_inv [OF w(1)]] w(2) by (simp add: hold_of_def)
  let ?w1 = "becomes w Worker (Doing (worker_acts [True]))"
  have r1: "server_reachable ?w1" using reach_step [OF w(1) tick] w(2,3) by simp
  have "sw_go ?w1 Worker = Doing (RLock # ReadSubnet # ?bs)"
    by (simp add: worker_acts_def attempt_acts_def)
  from reach_step [OF r1 act [OF this]] l obtain w2 where r2: "server_reachable w2"
    and g2: "sw_go w2 = (sw_go ?w1)(Worker := Doing (ReadSubnet # ?bs))"
    by (simp add: sync_RLock_def new_mutex_def)
  have "sw_go w2 Worker = Doing (ReadSubnet # ?bs)" using g2 by simp
  from reach_step [OF r2 act [OF this]] have r3: "server_reachable (becomes w2 Worker (Doing ?bs))" by simp
  let ?w4 = "becomes (becomes w2 Worker (Doing ?bs)) Monitor (Doing (DeleteBinding # as))"
  have "sw_go (becomes w2 Worker (Doing ?bs)) Monitor = Doing []" using g2 w(2) by simp
  from reach_outside [OF r3 turn [OF this _ _ t(1)]] have "server_reachable ?w4" using t(2) by simp
  moreover have "race ?w4 DeleteBinding ReadStatus"
    unfolding race_def by (rule exI [of _ Monitor], rule exI [of _ Worker]) simp
  ultimately show ?thesis by blast
qed

text \<open>A restart whose configuration file cannot be created, with the specification read before.\<close>

lemma restart_turn:
  "\<exists>env st st'. monitor_turn env RestartEvent st = (Going, st') \<and> turn_acts env RestartEvent st = [ReadSubnet]"
proof -
  let ?s = "example_server" and ?p = "dv_configPath example_server"
  let ?env = "free_env\<lparr>me_os := (\<lambda>_. None)(OsCreate ?p := Some [])\<rparr>"
  let ?st = "\<lparr>mo_s = ?s, mo_fs = installed_files, mo_net = []\<rparr>"
  obtain d where d: "config_data ?s = Inr d" using example_data by blast
  have o: "os_do (me_os ?env) c = Inr ()" if "c \<noteq> OsCreate ?p" for c using that by simp
  have r: "read_file (me_os ?env) installed_files (dv_configTemplatePath ?s) = Inr ''template''"
    using example_paths by (simp add: read_file_def o installed_files_def)
  obtain e fs1 where w: "write_config (me_os ?env) (me_tmpl ?env) installed_files ?p d = (Inl (Errorf ''failed to create config file: %v'' e), fs1)"
    using example_paths
    by (simp add: write_config_def remove_file_def o Let_def IsNotExist_def os_do_def ErrExist_def
        installed_files_def example_files_def)
  have "generateDnsmasqConfig (me_os ?env) (me_tmpl ?env) (?s, installed_files)
      = (Inl (Errorf ''failed to create config file: %v'' e), ?s, fs1)"
    unfolding generateDnsmasqConfig_def Let_def prod.case
    by (simp only: o os_call.distinct os_call.inject sum.case r d w prod.case simp_thms not_False_eq_True)
  moreover have "generate_acts (me_os ?env) (me_tmpl ?env) (?s, installed_files) = [ReadSubnet]"
    unfolding generate_acts_def Let_def prod.case
    by (simp only: o os_call.distinct os_call.inject sum.case r d w prod.case simp_thms not_False_eq_True)
  moreover have "?s\<lparr>dv_restarts := dv_restarts ?s - 1\<rparr> = ?s"
    by (simp add: example_server_def NewDhcpServer_def Let_def)
  ultimately have "monitor_turn ?env RestartEvent ?st = (Going, ?st\<lparr>mo_fs := fs1\<rparr>)
      \<and> turn_acts ?env RestartEvent ?st = [ReadSubnet]"
    by (simp add: monitor_turn_def turn_acts_def select_acts_def select_case_def after_select_def after_acts_def
        no_flags_def Let_def del: fun_upd_apply)
  then show ?thesis by blast
qed

lemma specification_race: "\<exists>w. server_reachable w \<and> race w PutSubnet ReadSubnet"
proof -
  obtain w where w: "server_reachable w" "\<forall>r. quiet_but r w" "sw_go w = (\<lambda>_. Doing [])" "\<not> sw_stopped w"
    using server_idle by blast
  obtain env st st' where t: "monitor_turn env RestartEvent st = (Going, st')" "turn_acts env RestartEvent st = [ReadSubnet]"
    using restart_turn by blast
  let ?w1 = "becomes w Caller (Doing UpdateService_acts)"
  have r1: "server_reachable ?w1" using reach_outside [OF w(1) update] w(3,4) by simp
  have "quiet_but Caller ?w1" using w(2) by (simp add: quiet_but_def)
  then obtain w2 where w2: "server_reachable w2" "sw_go w2 = (sw_go ?w1)(Caller := Doing [SendRestart])" "\<not> sw_stopped w2"
    using drive [OF r1, of Caller "[Lock, PutSubnet, Unlock]" "[SendRestart]"] w(3,4)
    by (auto simp: UpdateService_acts_def)
  have g2: "sw_go w2 Caller = Doing [SendRestart]" "sw_go w2 Monitor = Doing []" "sw_go w2 Worker = Doing []"
    using w2(2) w(3) by simp_all
  let ?w3 = "becomes (becomes w2 Caller (Doing [])) Monitor (Doing [ReadSubnet])"
  have r3: "server_reachable ?w3" using reach_step [OF w2(1) restart [OF g2(1,2) t(1)]] t(2) by simp
  let ?w4 = "becomes ?w3 Caller (Doing UpdateService_acts)"
  have r4: "server_reachable ?w4" using reach_outside [OF r3 update] w2(3) by simp
  have "hold_of ?w4 r = Free" for r using g2 by (cases r) (simp_all add: hold_of_def UpdateService_acts_def)
  then have l: "sw_lock ?w4 = new_mutex" by (rule lock_free [OF server_reachable_inv [OF r4]])
  have "sw_go ?w4 Caller = Doing (Lock # [PutSubnet, Unlock, SendRestart])" by (simp add: UpdateService_acts_def)
  from reach_step [OF r4 act [OF this]] l
  have "\<exists>w5. server_reachable w5 \<and> sw_go w5 = (sw_go ?w4)(Caller := Doing [PutSubnet, Unlock, SendRestart])"
    by (auto simp: sync_Lock_def new_mutex_def)
  then obtain w5 where r5: "server_reachable w5" "sw_go w5 = (sw_go ?w4)(Caller := Doing [PutSubnet, Unlock, SendRestart])"
    by blast
  have "race w5 PutSubnet ReadSubnet"
    unfolding race_def r5(2) by (rule exI [of _ Caller], rule exI [of _ Monitor]) simp
  with r5(1) show ?thesis by blast
qed

text \<open>Property C9: of what the goroutines of a server share, the leases, the bindings and the specification,
  two things only can be accessed by one of them while another one writes: the map of the bindings, from which
  \<open>monitor\<close> deletes without \<open>lockData\<close> while the status worker reads it (Go ends the process when it notices),
  and the pointer to the specification, which \<open>generateDnsmasqConfig\<close> and \<open>setupInterface\<close> read without the
  lock while \<open>UpdateService\<close> sets it. Both happen.\<close>

theorem server_races:
  "(\<forall>w a b. server_reachable w \<and> race w a b \<longrightarrow>
      a = DeleteBinding \<and> b = ReadStatus \<or> a = PutSubnet \<and> b = ReadSubnet)
   \<and> (\<exists>w. server_reachable w \<and> race w DeleteBinding ReadStatus)
   \<and> (\<exists>w. server_reachable w \<and> race w PutSubnet ReadSubnet)"
  using races_only deletion_race specification_race by blast

section \<open>What is never received\<close>

lemma monitor_waits: "\<exists>w. server_reachable w \<and> waits_for_worker w Monitor"
proof -
  obtain w where w: "server_reachable w" "sw_go w = (\<lambda>_. Doing [])" "\<not> sw_stopped w" using server_idle by blast
  let ?st = "\<lparr>mo_s = example_server, mo_fs = (\<lambda>_. None), mo_net = []\<rparr>"
  obtain st' where t: "monitor_turn free_env (LeaseEvent True) ?st = (Going, st')" using no_lease_turn(1) by blast
  let ?w1 = "becomes w Monitor (Doing [Notify])" let ?w2 = "?w1\<lparr>sw_stopped := True\<rparr>"
  have m: "sw_go w Monitor = Doing []" using w(2) by simp
  have r1: "server_reachable ?w1" using reach_outside [OF w(1) turn [OF m _ _ t]] no_lease_turn(2) by simp
  have r2: "server_reachable ?w2" using reach_outside [OF r1 stop] w(2,3) by simp
  have "server_reachable (becomes ?w2 Worker Ended)" using reach_step [OF r2 loop_ends [of Worker]] w(2) by simp
  moreover have "waits_for_worker (becomes ?w2 Worker Ended) Monitor" by (simp add: waits_for_worker_def)
  ultimately show ?thesis by blast
qed

lemma caller_waits: "\<exists>w. server_reachable w \<and> \<not> sw_stopped w \<and> waits_for_monitor w"
proof -
  obtain w where w: "server_reachable w" "quiet_but Caller w" "sw_go w = (\<lambda>_. Doing [])(Monitor := Ended)" "\<not> sw_stopped w"
    using server_unwatched by blast
  let ?w1 = "becomes w Caller (Doing UpdateService_acts)"
  have r1: "server_reachable ?w1" using reach_outside [OF w(1) update] w(3,4) by simp
  have "quiet_but Caller ?w1" using w(2) by (simp add: quiet_but_def)
  then obtain w2 where w2: "server_reachable w2" "sw_go w2 = (sw_go ?w1)(Caller := Doing [SendRestart])" "\<not> sw_stopped w2"
    using drive [OF r1, of Caller "[Lock, PutSubnet, Unlock]" "[SendRestart]"] w(3,4)
    by (auto simp: UpdateService_acts_def)
  then have "waits_for_monitor w2" using w(3) by (simp add: waits_for_monitor_def)
  with w2 show ?thesis by blast
qed

lemma worker_orphaned: "\<exists>w. server_reachable w \<and> orphaned w"
proof -
  let ?env = "free_env\<lparr>me_net := example_net_env\<lparr>ne_LinkByName := (\<lambda>_ _. Inl (SysErr []))\<rparr>\<rparr>"
  have "\<exists>e t. startDnsmasq ?env running = (Inl e, t)"
    by (simp add: startDnsmasq_def setupInterface_def split: prod.splits sum.splits)
  then obtain w where "server_reachable w" "sw_go w = (\<lambda>_. Doing [])(Monitor := NotStarted)" using server_failed by blast
  then show ?thesis by (auto simp: orphaned_def)
qed

text \<open>Property C10: three waits have no end, and each is reached. The monitor of a stopped server that is about
  to notify the worker when the worker has seen \<open>stopCh\<close> first: it never returns and keeps its
  watcher. The caller of \<open>UpdateService\<close> when the lease directory could not be watched, for then \<open>monitor\<close> has returned
  and nobody receives from \<open>restartCh\<close>: the only worker of the subnet controller is blocked, for
  every subnet. And the worker of a server whose \<open>Run\<close> failed, which was started first and which nobody stops.\<close>

theorem waits_without_end:
  "(\<exists>w. server_reachable w \<and> waits_for_worker w Monitor \<and> (\<forall>w'. later w w' \<longrightarrow> waits_for_worker w' Monitor))
   \<and> (\<exists>w. server_reachable w \<and> \<not> sw_stopped w \<and> waits_for_monitor w \<and> (\<forall>w'. later w w' \<longrightarrow> waits_for_monitor w'))
   \<and> (\<exists>w. server_reachable w \<and> orphaned w \<and> (\<forall>w'. later w w' \<longrightarrow> orphaned w'))"
proof (intro conjI)
  show "\<exists>w. server_reachable w \<and> waits_for_worker w Monitor \<and> (\<forall>w'. later w w' \<longrightarrow> waits_for_worker w' Monitor)"
    using monitor_waits later_keeps [where P = "\<lambda>w. waits_for_worker w Monitor"] waiting_worker_step server_reachable_inv by metis
  show "\<exists>w. server_reachable w \<and> \<not> sw_stopped w \<and> waits_for_monitor w \<and> (\<forall>w'. later w w' \<longrightarrow> waits_for_monitor w')"
    using caller_waits later_keeps [where P = waits_for_monitor] waiting_monitor_step server_reachable_inv by metis
  show "\<exists>w. server_reachable w \<and> orphaned w \<and> (\<forall>w'. later w w' \<longrightarrow> orphaned w')"
    using worker_orphaned later_keeps [where P = orphaned] orphaned_step server_reachable_inv by metis
qed

section \<open>Witnesses\<close>

lemma server_comes_to_rest_witness:
  "\<exists>w w'. server_reachable w \<and> sw_pending w \<and> server_step\<^sup>*\<^sup>* w w' \<and> (server_at_rest w' \<or> waits_for_monitor w')"
proof -
  obtain w where w: "server_reachable w" "\<not> sw_stopped w" "sw_pending w" using server_idle by blast
  from server_comes_to_rest [OF w(1)] w show ?thesis by metis
qed

lemma server_races_witness:
  "\<exists>w. server_reachable w \<and> race w DeleteBinding ReadStatus \<and> \<not> race w PutBinding ReadStatus"
  using server_races by blast

lemma waits_without_end_witness: "\<exists>w. server_reachable w \<and> waits_for_monitor w \<and> later w w"
  using waits_without_end by (auto simp: later_def)

end
