(* ===== verification/ManagerRaces.thy ===== *)
theory ManagerRaces
  imports Agreement
begin

text \<open>
  Two orders of turns of the subnet manager (\<open>pkg/subnet/manager.go\<close>) that lead where no single
  reconciliation does: an event that slept because its server was not there yet comes after a newer one, and the
  start at the election comes between the lookup of a reconciliation and the rest of it.
\<close>

section \<open>A delayed event comes last\<close>

text \<open>Without deletions the monitor only applies what is in its queue, in order.\<close>

lemma monitor_applies:
  "monitor evs st = (r, st') \<Longrightarrow> \<forall>(env, ev) \<in> set evs. ev \<noteq> DeletedBindingEvent \<Longrightarrow>
   fold apply_added (dv_addedBindingIp (mo_s st')) (dv_currentManualBindingClients (mo_s st'))
     = fold apply_added (dv_addedBindingIp (mo_s st)) (dv_currentManualBindingClients (mo_s st))"
proof (induction evs st rule: monitor.induct)
  case (2 env ev evs st)
  obtain r1 st1 where t: "monitor_turn env ev st = (r1, st1)" by (cases "monitor_turn env ev st")
  have one: "fold apply_added (dv_addedBindingIp (mo_s st1)) (dv_currentManualBindingClients (mo_s st1))
      = fold apply_added (dv_addedBindingIp (mo_s st)) (dv_currentManualBindingClients (mo_s st))"
  proof (cases "ev = AddedBindingEvent")
    case True
    with monitor_turn_bindings [OF t] show ?thesis
      by (cases "dv_addedBindingIp (mo_s st)") (simp_all add: bindings_after_added)
  next
    case False
    then have "bindings_after ev (mo_s st) = dv_currentManualBindingClients (mo_s st)"
      using "2.prems"(2) by (simp add: bindings_after_def Let_def split: monitor_event.splits)
    with False monitor_turn_bindings [OF t] show ?thesis by simp
  qed
  show ?case
  proof (cases r1)
    case Going
    with "2.prems" t have "monitor evs st1 = (r, st')" by simp
    with "2.IH" [OF t [symmetric] Going] "2.prems"(2) one show ?thesis by simp
  qed (use "2.prems"(1) t one in auto)
qed simp

lemma Reconcile_with_queues:
  "Reconcile_with server env name s = (out, w, s') \<Longrightarrow>
   sm_addedBindingIp s' = sm_addedBindingIp s \<and> sm_deletedBindingIp s' = sm_deletedBindingIp s
   \<and> sm_delayedAdded s' = sm_delayedAdded s \<and> sm_delayedDeleted s' = sm_delayedDeleted s"
  by (auto simp: Reconcile_with_def Let_def split: sum.splits option.splits if_splits prod.splits)

text \<open>
  What the server of a subnet has in its queue after an event that slept through its start and a newer event for the
  same subnet.
\<close>

lemma delayed_comes_last:
  assumes "sm_addedBindingIp m = [old]" "sm_delayedAdded m = []" "gm_get (sm_servers m) k = None"
    and "bd_Subnet old = k" "bd_Subnet new = k" "k \<noteq> []"
    and "Reconcile env k (processBindingIpEvents TakeAdded m) = (out, w, m1)" "gm_get (sm_servers m1) k = Some st"
  shows "gm_get (sm_servers (fold processBindingIpEvents [TakeAdded, WakeAdded, TakeAdded]
             (m1\<lparr>sm_addedBindingIp := sm_addedBindingIp m1 @ [new]\<rparr>))) k
         = Some (srv_UpdateBindingIpEvents [old] [] (srv_UpdateBindingIpEvents [new] [] st))"
proof -
  have m: "processBindingIpEvents TakeAdded m = m\<lparr>sm_addedBindingIp := [], sm_delayedAdded := [old]\<rparr>"
    using assms(1-4,6) by simp
  have q: "sm_addedBindingIp m1 = []" "sm_delayedAdded m1 = [old]"
    using Reconcile_with_queues [OF assms(7) [unfolded Reconcile_def]] unfolding m by simp_all
  show ?thesis using q assms(4-6,8) by simp
qed

text \<open>Property C17: a binding event that finds no server sleeps for thirty seconds and is then sent again, behind
  what was announced meanwhile: when the server has started and a newer event for the same address is delivered first,
  the server takes the older one last and, deletions aside, ends with the older hardware address.\<close>

theorem delayed_binding_overtaken:
  assumes "sm_addedBindingIp m = [old]" "sm_delayedAdded m = []" "gm_get (sm_servers m) k = None"
    and "bd_Subnet old = k" "bd_Subnet new = k" "k \<noteq> []" "bd_IPAddr new = bd_IPAddr old"
    and "Reconcile env k (processBindingIpEvents TakeAdded m) = (out, w, m1)" "gm_get (sm_servers m1) k = Some st"
  shows "\<exists>st2. gm_get (sm_servers (fold processBindingIpEvents [TakeAdded, WakeAdded, TakeAdded]
             (m1\<lparr>sm_addedBindingIp := sm_addedBindingIp m1 @ [new]\<rparr>))) k = Some st2
     \<and> dv_addedBindingIp (mo_s st2) = dv_addedBindingIp (mo_s st) @ [new, old]
     \<and> (\<forall>evs r st3. monitor evs st2 = (r, st3) \<and> (\<forall>(env, ev) \<in> set evs. ev \<noteq> DeletedBindingEvent)
          \<and> dv_addedBindingIp (mo_s st3) = [] \<longrightarrow>
          map_option dc_MAC (gm_get (dv_currentManualBindingClients (mo_s st3)) (bd_IPAddr new)) = Some (bd_MacAddr old))"
proof -
  let ?st2 = "srv_UpdateBindingIpEvents [old] [] (srv_UpdateBindingIpEvents [new] [] st)"
  have q: "dv_addedBindingIp (mo_s ?st2) = dv_addedBindingIp (mo_s st) @ [new, old]"
    by (simp add: srv_UpdateBindingIpEvents_def UpdateBindingIpEvents_def)
  have "map_option dc_MAC (gm_get (dv_currentManualBindingClients (mo_s st3)) (bd_IPAddr new)) = Some (bd_MacAddr old)"
    if "monitor evs ?st2 = (r, st3)" "\<forall>(env, ev) \<in> set evs. ev \<noteq> DeletedBindingEvent" "dv_addedBindingIp (mo_s st3) = []" for evs r st3
    using monitor_applies [OF that(1,2)] that(3) assms(7) unfolding q by (simp add: apply_added_get)
  with delayed_comes_last [OF assms(1-6,8,9)] q show ?thesis by blast
qed

section \<open>A server is started twice\<close>

text \<open>Property C18: at the election the controllers run before the manager starts its servers, and a reconciliation
  does not keep the lock between its lookup and its start of a server: when \<open>start_all\<close> comes in between, both start a server for
  the same subnet. The one \<open>start_all\<close> started is taken out of the map without being stopped, and nothing can stop it
  any more; a reconciliation whose lookup came after would have updated it.\<close>

theorem server_started_twice:
  assumes "gm_get (sm_servers m) k = None" "om_Name (sn_Meta sn) = k" "om_DeletionTimestamp (sn_Meta sn) = None"
    and "Run (se_mon env0) (new_server env0 (sm_config m) sn) = (Inr (), t0)"
    and "se_got env = Inr sn" "HasSpecChanged (sm_cache m) sn"
    and "Run (se_mon env) (new_server env (sm_config m) sn) = (Inr (), t1)"
  shows "\<exists>m1. start_all [(env0, sn)] m = (Inr (), m1) \<and> gm_get (sm_servers m1) k = Some t0
    \<and> (\<exists>m2. Reconcile_with (gm_get (sm_servers m) k) env k m1 = ((empty_result, None), None, m2)
         \<and> gm_get (sm_servers m2) k = Some (srv_UpdateBindingIpEvents (GetInfoForSubnet (se_bindings env) k) [] t1)
         \<and> \<not> dv_stopped (mo_s t0))
    \<and> (\<exists>m3. Reconcile env k m1 = ((empty_result, None), None, m3)
         \<and> gm_get (sm_servers m3) k = Some (srv_UpdateService sn t0))"
proof -
  let ?m1 = "m\<lparr>sm_servers := gm_put k t0 (sm_servers m)\<rparr>"
  have id: "srv_UpdateBindingIpEvents [] [] t1 = t1"
    by (simp add: srv_UpdateBindingIpEvents_def UpdateBindingIpEvents_def)
  have "start_all [(env0, sn)] m = (Inr (), ?m1)" using assms(1-4) by simp
  moreover have "\<not> dv_stopped (mo_s t0)" using Run_frame [OF assms(4)] by simp
  moreover have "\<exists>m2. Reconcile_with (gm_get (sm_servers m) k) env k ?m1 = ((empty_result, None), None, m2)
      \<and> gm_get (sm_servers m2) k = Some (srv_UpdateBindingIpEvents (GetInfoForSubnet (se_bindings env) k) [] t1)"
    using assms(1,2,5-7) id by (simp add: Reconcile_with_def Let_def)
  moreover have "\<exists>m3. Reconcile env k ?m1 = ((empty_result, None), None, m3)
      \<and> gm_get (sm_servers m3) k = Some (srv_UpdateService sn t0)"
    using assms(2,5,6) by (simp add: Reconcile_def Reconcile_with_def)
  ultimately show ?thesis by (intro exI [of _ ?m1]) simp
qed

section \<open>Witnesses\<close>

text \<open>A manager at the start of the agent, with one event in its channel.\<close>

definition early_manager :: subnetManager where
  "early_manager = example_manager\<lparr>sm_addedBindingIp := [binding_info ''aa'']\<rparr>"

lemma early_simps:
  "sm_addedBindingIp early_manager = [binding_info ''aa'']" "sm_delayedAdded early_manager = []"
  "sm_servers early_manager = []" "sm_config early_manager = example_config" "sm_cache early_manager = NewSubnetCache"
  by (simp_all add: early_manager_def example_manager_def NewSubnetReconciler_def)

lemma example_changed: "HasSpecChanged NewSubnetCache example_subnet"
  by (simp add: HasSpecChanged_def NewSubnetCache_def)

lemma early_reconcile:
  assumes "sm_servers m = []" "sm_config m = example_config" "sm_cache m = NewSubnetCache"
  shows "\<exists>m1 st. Reconcile example_env ''net1'' m = ((empty_result, None), None, m1)
    \<and> gm_get (sm_servers m1) ''net1'' = Some st \<and> dv_addedBindingIp (mo_s st) = [binding_info ''aa'']"
proof -
  obtain t where t: "Run free_env (new_server example_env example_config example_subnet) = (Inr (), t)"
    using example_run by blast
  have q: "dv_addedBindingIp (mo_s t) = []" using Run_frame [OF t] by simp
  have e: "se_got example_env = Inr example_subnet" "se_mon example_env = free_env"
    "GetInfoForSubnet (se_bindings example_env) ''net1'' = [binding_info ''aa'']"
    by (simp_all add: example_env_def GetInfoForSubnet_def binding_info_def)
  let ?st = "srv_UpdateBindingIpEvents [binding_info ''aa''] [] t"
  have "Reconcile example_env ''net1'' m = ((empty_result, None), None,
      m\<lparr>sm_servers := gm_put ''net1'' ?st [], sm_cache := SubnetCache_Set example_subnet NewSubnetCache\<rparr>)"
    using example_changed by (simp add: Reconcile_def Reconcile_with_def Let_def assms e t example_name)
  moreover have "dv_addedBindingIp (mo_s ?st) = [binding_info ''aa'']"
    using q by (simp add: srv_UpdateBindingIpEvents_def UpdateBindingIpEvents_def)
  ultimately show ?thesis by simp
qed

lemma delayed_binding_overtaken_witness:
  "\<exists>m1 st2. Reconcile example_env ''net1'' (processBindingIpEvents TakeAdded early_manager) = ((empty_result, None), None, m1)
     \<and> gm_get (sm_servers (fold processBindingIpEvents [TakeAdded, WakeAdded, TakeAdded]
          (m1\<lparr>sm_addedBindingIp := sm_addedBindingIp m1 @ [binding_info ''bb'']\<rparr>))) ''net1'' = Some st2
     \<and> dv_addedBindingIp (mo_s st2) = [binding_info ''aa'', binding_info ''bb'', binding_info ''aa'']"
proof -
  let ?m = "processBindingIpEvents TakeAdded early_manager"
  have n: "bd_Subnet (binding_info mac) = ''net1''" for mac by (simp add: binding_info_def)
  have "sm_servers ?m = []" "sm_config ?m = example_config" "sm_cache ?m = NewSubnetCache"
    by (simp_all add: early_simps n)
  from early_reconcile [OF this] obtain m1 st where r: "Reconcile example_env ''net1'' ?m = ((empty_result, None), None, m1)"
    "gm_get (sm_servers m1) ''net1'' = Some st" "dv_addedBindingIp (mo_s st) = [binding_info ''aa'']" by blast
  have "gm_get (sm_servers early_manager) ''net1'' = None" by (simp add: early_simps)
  from delayed_binding_overtaken [OF early_simps(1,2) this n n [of "''bb''"] _ _ r(1,2)] r(1,3) show ?thesis
    by (auto simp: binding_info_def)
qed

lemma server_started_twice_witness:
  "\<exists>m1 m2 t. start_all [(example_env, example_subnet)] example_manager = (Inr (), m1)
     \<and> gm_get (sm_servers m1) ''net1'' = Some t \<and> \<not> dv_stopped (mo_s t)
     \<and> Reconcile_with None example_env ''net1'' m1 = ((empty_result, None), None, m2)"
proof -
  have c: "sm_servers example_manager = []" "sm_config example_manager = example_config" "sm_cache example_manager = NewSubnetCache"
    by (simp_all add: example_manager_def NewSubnetReconciler_def)
  obtain t where t: "Run (se_mon example_env) (new_server example_env (sm_config example_manager) example_subnet) = (Inr (), t)"
    using example_run by (auto simp: c example_env_def)
  have n: "gm_get (sm_servers example_manager) ''net1'' = None" by (simp add: c)
  have d: "om_DeletionTimestamp (sn_Meta example_subnet) = None" by (simp add: example_subnet_def new_meta_def)
  have g: "se_got example_env = Inr example_subnet" by (simp add: example_env_def)
  have h: "HasSpecChanged (sm_cache example_manager) example_subnet" using example_changed by (simp add: c)
  from server_started_twice [OF n example_name d t g h t] show ?thesis unfolding n by blast
qed

end
