(* ===== verification/KubeClient.thy ===== *)
theory KubeClient
  imports Prelude Complex_Main
begin

text \<open>
  The generated client of the custom resources (\<open>pkg/k8s/client\<close>): how the clients are made from a
  configuration, the informers of the five kinds and the factory that shares, starts and stops them. The
  REST client, the discovery client, the rate limiter and the informer itself belong to \<open>client-go\<close>: they
  are parameters, or records of what they were made with.
\<close>

section \<open>Clients\<close>

datatype rate_limiter = TokenBucket rat int | GivenLimiter nat

record RestConfig =
  rc_UserAgent :: string
  rc_QPS :: rat
  rc_Burst :: int
  rc_RateLimiter :: "rate_limiter option"
  rc_GroupVersion :: "(string \<times> string) option"
  rc_APIPath :: string
  rc_Negotiated :: bool

text \<open>What \<open>client-go\<close> makes of a configuration.\<close>

record ('h, 'r, 'd) client_go =
  cg_DefaultKubernetesUserAgent :: string
  cg_HTTPClientFor :: "RestConfig \<Rightarrow> 'h result"
  cg_RESTClientForConfigAndClient :: "RestConfig \<Rightarrow> 'h \<Rightarrow> 'r result"
  cg_NewDiscoveryClientForConfigAndClient :: "RestConfig \<Rightarrow> 'h \<Rightarrow> 'd result"

definition SchemeGroupVersion :: "string \<times> string" where
  "SchemeGroupVersion = (''topohub.infrastructure.io'', ''v1beta1'')"

definition with_agent :: "('h, 'r, 'd) client_go \<Rightarrow> RestConfig \<Rightarrow> RestConfig" where
  "with_agent cg c = (if rc_UserAgent c = [] then c\<lparr>rc_UserAgent := cg_DefaultKubernetesUserAgent cg\<rparr> else c)"

definition setConfigDefaults :: "('h, 'r, 'd) client_go \<Rightarrow> RestConfig \<Rightarrow> RestConfig" where
  "setConfigDefaults cg c =
     with_agent cg (c\<lparr>rc_GroupVersion := Some SchemeGroupVersion, rc_APIPath := ''/apis'', rc_Negotiated := True\<rparr>)"

definition V1beta1_NewForConfigAndClient :: "('h, 'r, 'd) client_go \<Rightarrow> RestConfig \<Rightarrow> 'h \<Rightarrow> 'r result" where
  "V1beta1_NewForConfigAndClient cg c h = cg_RESTClientForConfigAndClient cg (setConfigDefaults cg c) h"

definition V1beta1_NewForConfig :: "('h, 'r, 'd) client_go \<Rightarrow> RestConfig \<Rightarrow> 'r result" where
  "V1beta1_NewForConfig cg c =
     (let config = setConfigDefaults cg c in
      and_then (cg_HTTPClientFor cg config) (\<lambda>h. V1beta1_NewForConfigAndClient cg config h))"

text \<open>The client set has the clients of all groups and the discovery client; they share one rate limiter.\<close>

definition set_limiter :: "RestConfig \<Rightarrow> RestConfig result" where
  "set_limiter c =
     (if rc_RateLimiter c = None \<and> rc_QPS c > 0 then
        (if rc_Burst c \<le> 0 then Inl (Errorf ''burst is required to be greater than 0 when RateLimiter is not set and QPS is set to greater than 0'' [])
         else Inr (c\<lparr>rc_RateLimiter := Some (TokenBucket (rc_QPS c) (rc_Burst c))\<rparr>))
      else Inr c)"

definition Clientset_NewForConfigAndClient :: "('h, 'r, 'd) client_go \<Rightarrow> RestConfig \<Rightarrow> 'h \<Rightarrow> ('r \<times> 'd) result" where
  "Clientset_NewForConfigAndClient cg c h =
     and_then (set_limiter c) (\<lambda>c1.
     and_then (V1beta1_NewForConfigAndClient cg c1 h) (\<lambda>r.
     and_then (cg_NewDiscoveryClientForConfigAndClient cg c1 h) (\<lambda>d. Inr (r, d))))"

definition Clientset_NewForConfig :: "('h, 'r, 'd) client_go \<Rightarrow> RestConfig \<Rightarrow> ('r \<times> 'd) result" where
  "Clientset_NewForConfig cg c =
     (let c1 = with_agent cg c in and_then (cg_HTTPClientFor cg c1) (\<lambda>h. Clientset_NewForConfigAndClient cg c1 h))"

text \<open>\<open>None\<close> is the panic of the variants that do not return an error.\<close>

definition Clientset_NewForConfigOrDie :: "('h, 'r, 'd) client_go \<Rightarrow> RestConfig \<Rightarrow> ('r \<times> 'd) option" where
  "Clientset_NewForConfigOrDie cg c = (case Clientset_NewForConfig cg c of Inl _ \<Rightarrow> None | Inr cs \<Rightarrow> Some cs)"

definition V1beta1_NewForConfigOrDie :: "('h, 'r, 'd) client_go \<Rightarrow> RestConfig \<Rightarrow> 'r option" where
  "V1beta1_NewForConfigOrDie cg c = (case V1beta1_NewForConfig cg c of Inl _ \<Rightarrow> None | Inr cs \<Rightarrow> Some cs)"

section \<open>The clients of the kinds\<close>

text \<open>
  The kinds of the group (\<open>register.go\<close>), and for each client and lister the resource it is made for. A
  client asks for its resource at the REST client it is given, in no namespace.
\<close>

definition registered_kinds :: "string list" where
  "registered_kinds = [''Subnet'', ''SubnetList'', ''HostEndpoint'', ''HostEndpointList'', ''RedfishStatus'', ''RedfishStatusList'',
     ''HostOperation'', ''HostOperationList'', ''BindingIp'', ''BindingIpList'', ''SSHStatus'', ''SSHStatusList'']"

record 'r typed_client =
  tc_resource :: string
  tc_client :: 'r
  tc_namespace :: string
  tc_object :: string
  tc_list :: string

definition newHostEndpoints :: "'r \<Rightarrow> 'r typed_client" where
  "newHostEndpoints c = \<lparr>tc_resource = ''hostendpoints'', tc_client = c, tc_namespace = [], tc_object = ''HostEndpoint'', tc_list = ''HostEndpointList''\<rparr>"

definition newHostOperations :: "'r \<Rightarrow> 'r typed_client" where
  "newHostOperations c = \<lparr>tc_resource = ''hostoperations'', tc_client = c, tc_namespace = [], tc_object = ''HostOperation'', tc_list = ''HostOperationList''\<rparr>"

definition newRedfishStatuses :: "'r \<Rightarrow> 'r typed_client" where
  "newRedfishStatuses c = \<lparr>tc_resource = ''redfishstatuses'', tc_client = c, tc_namespace = [], tc_object = ''RedfishStatus'', tc_list = ''RedfishStatusList''\<rparr>"

definition newSSHStatuses :: "'r \<Rightarrow> 'r typed_client" where
  "newSSHStatuses c = \<lparr>tc_resource = ''sshstatuses'', tc_client = c, tc_namespace = [], tc_object = ''SSHStatus'', tc_list = ''SSHStatusList''\<rparr>"

definition newSubnets :: "'r \<Rightarrow> 'r typed_client" where
  "newSubnets c = \<lparr>tc_resource = ''subnets'', tc_client = c, tc_namespace = [], tc_object = ''Subnet'', tc_list = ''SubnetList''\<rparr>"

text \<open>\<open>Resource\<close> of \<open>register.go\<close>, and the resource a lister names in its errors.\<close>

definition Resource :: "string \<Rightarrow> string \<times> string" where
  "Resource resource = (fst SchemeGroupVersion, resource)"

definition NewHostEndpointLister :: "'i \<Rightarrow> 'i \<times> string \<times> string" where
  "NewHostEndpointLister indexer = (indexer, Resource ''hostendpoint'')"

definition NewHostOperationLister :: "'i \<Rightarrow> 'i \<times> string \<times> string" where
  "NewHostOperationLister indexer = (indexer, Resource ''hostoperation'')"

definition NewRedfishStatusLister :: "'i \<Rightarrow> 'i \<times> string \<times> string" where
  "NewRedfishStatusLister indexer = (indexer, Resource ''redfishstatus'')"

definition NewSSHStatusLister :: "'i \<Rightarrow> 'i \<times> string \<times> string" where
  "NewSSHStatusLister indexer = (indexer, Resource ''sshstatus'')"

definition NewSubnetLister :: "'i \<Rightarrow> 'i \<times> string \<times> string" where
  "NewSubnetLister indexer = (indexer, Resource ''subnet'')"

text \<open>There is a client for every registered kind but \<open>BindingIp\<close>.\<close>

lemma clients_of_kinds:
  "{tc_object (newHostEndpoints c), tc_object (newHostOperations c), tc_object (newRedfishStatuses c),
      tc_object (newSSHStatuses c), tc_object (newSubnets c)}
   \<union> {tc_list (newHostEndpoints c), tc_list (newHostOperations c), tc_list (newRedfishStatuses c),
      tc_list (newSSHStatuses c), tc_list (newSubnets c)}
   = set registered_kinds - {''BindingIp'', ''BindingIpList''}"
  by (auto simp: registered_kinds_def newHostEndpoints_def newHostOperations_def newRedfishStatuses_def newSSHStatuses_def newSubnets_def)

section \<open>Informers\<close>

text \<open>An informer by what it was made with; \<open>in_id\<close> tells informers made at different times apart.\<close>

record 'o informer =
  in_id :: nat
  in_kind :: string
  in_resource :: string
  in_resync :: int
  in_indexers :: "string list"
  in_tweak :: "('o \<Rightarrow> 'o) option"
  in_transform :: "nat option"

definition apply_tweak :: "('o \<Rightarrow> 'o) option \<Rightarrow> 'o \<Rightarrow> 'o" where
  "apply_tweak tweak options = (case tweak of None \<Rightarrow> options | Some f \<Rightarrow> f options)"

text \<open>\<open>ListFunc\<close> and \<open>WatchFunc\<close>: the verb, the resource and the options of the request.\<close>

definition ListFunc :: "'o informer \<Rightarrow> 'o \<Rightarrow> string \<times> string \<times> 'o" where
  "ListFunc i options = (''list'', in_resource i, apply_tweak (in_tweak i) options)"

definition WatchFunc :: "'o informer \<Rightarrow> 'o \<Rightarrow> string \<times> string \<times> 'o" where
  "WatchFunc i options = (''watch'', in_resource i, apply_tweak (in_tweak i) options)"

type_synonym 'o new_informer = "nat \<Rightarrow> int \<Rightarrow> string list \<Rightarrow> ('o \<Rightarrow> 'o) option \<Rightarrow> 'o informer"

definition NewFilteredHostEndpointInformer :: "'o new_informer" where
  "NewFilteredHostEndpointInformer n resync indexers tweak = \<lparr>in_id = n, in_kind = ''HostEndpoint'', in_resource = ''hostendpoints'',
     in_resync = resync, in_indexers = indexers, in_tweak = tweak, in_transform = None\<rparr>"

definition NewFilteredHostOperationInformer :: "'o new_informer" where
  "NewFilteredHostOperationInformer n resync indexers tweak = \<lparr>in_id = n, in_kind = ''HostOperation'', in_resource = ''hostoperations'',
     in_resync = resync, in_indexers = indexers, in_tweak = tweak, in_transform = None\<rparr>"

definition NewFilteredRedfishStatusInformer :: "'o new_informer" where
  "NewFilteredRedfishStatusInformer n resync indexers tweak = \<lparr>in_id = n, in_kind = ''RedfishStatus'', in_resource = ''redfishstatuses'',
     in_resync = resync, in_indexers = indexers, in_tweak = tweak, in_transform = None\<rparr>"

definition NewFilteredSSHStatusInformer :: "'o new_informer" where
  "NewFilteredSSHStatusInformer n resync indexers tweak = \<lparr>in_id = n, in_kind = ''SSHStatus'', in_resource = ''sshstatuses'',
     in_resync = resync, in_indexers = indexers, in_tweak = tweak, in_transform = None\<rparr>"

definition NewFilteredSubnetInformer :: "'o new_informer" where
  "NewFilteredSubnetInformer n resync indexers tweak = \<lparr>in_id = n, in_kind = ''Subnet'', in_resource = ''subnets'',
     in_resync = resync, in_indexers = indexers, in_tweak = tweak, in_transform = None\<rparr>"

text \<open>\<open>defaultInformer\<close> of each kind, with the index of the namespaces.\<close>

definition NamespaceIndex :: string where
  "NamespaceIndex = ''namespace''"

definition defaultInformer :: "'o new_informer \<Rightarrow> ('o \<Rightarrow> 'o) option \<Rightarrow> nat \<Rightarrow> int \<Rightarrow> 'o informer" where
  "defaultInformer new tweak n resync = new n resync [NamespaceIndex] tweak"

section \<open>The factory\<close>

text \<open>
  \<open>sf_goroutines\<close> are the informers that were started, each with its stop channel, \<open>sf_ended\<close> the places in it
  of those whose \<open>Run\<close> has returned.
\<close>

record 'o sharedInformerFactory =
  sf_namespace :: string
  sf_tweakListOptions :: "('o \<Rightarrow> 'o) option"
  sf_defaultResync :: int
  sf_customResync :: "(string, int) gomap"
  sf_transform :: "nat option"
  sf_informers :: "(string, 'o informer) gomap"
  sf_startedInformers :: "(string, bool) gomap"
  sf_wg :: nat
  sf_shuttingDown :: bool
  sf_next :: nat
  sf_goroutines :: "(nat \<times> nat) list"
  sf_ended :: "nat set"

type_synonym 'o factory_option = "'o sharedInformerFactory \<Rightarrow> 'o sharedInformerFactory"

definition WithCustomResyncConfig :: "(string, int) gomap \<Rightarrow> 'o factory_option" where
  "WithCustomResyncConfig resyncConfig f =
     f\<lparr>sf_customResync := fold (\<lambda>(k, v). gm_put k v) resyncConfig (sf_customResync f)\<rparr>"

definition WithTweakListOptions :: "('o \<Rightarrow> 'o) option \<Rightarrow> 'o factory_option" where
  "WithTweakListOptions tweak f = f\<lparr>sf_tweakListOptions := tweak\<rparr>"

definition WithNamespace :: "string \<Rightarrow> 'o factory_option" where
  "WithNamespace ns f = f\<lparr>sf_namespace := ns\<rparr>"

definition WithTransform :: "nat option \<Rightarrow> 'o factory_option" where
  "WithTransform t f = f\<lparr>sf_transform := t\<rparr>"

definition NewSharedInformerFactoryWithOptions :: "int \<Rightarrow> 'o factory_option list \<Rightarrow> 'o sharedInformerFactory" where
  "NewSharedInformerFactoryWithOptions defaultResync opts = fold (\<lambda>opt f. opt f) opts
     \<lparr>sf_namespace = [], sf_tweakListOptions = None, sf_defaultResync = defaultResync, sf_customResync = [],
      sf_transform = None, sf_informers = [], sf_startedInformers = [], sf_wg = 0, sf_shuttingDown = False,
      sf_next = 0, sf_goroutines = [], sf_ended = {}\<rparr>"

definition NewSharedInformerFactory :: "int \<Rightarrow> 'o sharedInformerFactory" where
  "NewSharedInformerFactory defaultResync = NewSharedInformerFactoryWithOptions defaultResync []"

definition NewFilteredSharedInformerFactory :: "int \<Rightarrow> string \<Rightarrow> ('o \<Rightarrow> 'o) option \<Rightarrow> 'o sharedInformerFactory" where
  "NewFilteredSharedInformerFactory defaultResync ns tweak =
     NewSharedInformerFactoryWithOptions defaultResync [WithNamespace ns, WithTweakListOptions tweak]"

definition InformerFor :: "string \<Rightarrow> (nat \<Rightarrow> int \<Rightarrow> 'o informer) \<Rightarrow> 'o sharedInformerFactory \<Rightarrow> 'o informer \<times> 'o sharedInformerFactory" where
  "InformerFor kind newFunc f =
     (case gm_get (sf_informers f) kind of Some i \<Rightarrow> (i, f) | None \<Rightarrow>
       (let resync = (case gm_get (sf_customResync f) kind of Some d \<Rightarrow> d | None \<Rightarrow> sf_defaultResync f);
            i = (newFunc (sf_next f) resync)\<lparr>in_transform := sf_transform f\<rparr>
        in (i, f\<lparr>sf_informers := gm_put kind i (sf_informers f), sf_next := sf_next f + 1\<rparr>)))"

text \<open>\<open>Start\<close>: those not started yet, each in a goroutine of its own. Go visits the map in any order.\<close>

fun start_loop :: "nat \<Rightarrow> (string \<times> 'o informer) list \<Rightarrow> 'o sharedInformerFactory \<Rightarrow> 'o sharedInformerFactory" where
  "start_loop stopCh [] f = f"
| "start_loop stopCh ((kind, i) # rest) f =
     start_loop stopCh rest
       (if gm_get (sf_startedInformers f) kind = Some True then f
        else f\<lparr>sf_wg := sf_wg f + 1, sf_goroutines := sf_goroutines f @ [(in_id i, stopCh)],
               sf_startedInformers := gm_put kind True (sf_startedInformers f)\<rparr>)"

definition Start :: "nat \<Rightarrow> 'o sharedInformerFactory \<Rightarrow> 'o sharedInformerFactory" where
  "Start stopCh f = (if sf_shuttingDown f then f else start_loop stopCh (sf_informers f) f)"

text \<open>\<open>Shutdown\<close> up to its wait, which ends when \<open>sf_wg\<close> is 0.\<close>

definition Shutdown :: "'o sharedInformerFactory \<Rightarrow> 'o sharedInformerFactory" where
  "Shutdown f = f\<lparr>sf_shuttingDown := True\<rparr>"

definition WaitForCacheSync :: "('o informer \<Rightarrow> bool) \<Rightarrow> 'o sharedInformerFactory \<Rightarrow> (string, bool) gomap" where
  "WaitForCacheSync sync f =
     map (\<lambda>(k, i). (k, sync i)) (filter (\<lambda>(k, i). gm_get (sf_startedInformers f) k = Some True) (sf_informers f))"

text \<open>The informers of the kinds, by the factory; \<open>ForResource\<close> finds them by the name of the resource.\<close>

definition HostEndpoints_Informer :: "'o sharedInformerFactory \<Rightarrow> 'o informer \<times> 'o sharedInformerFactory" where
  "HostEndpoints_Informer f = InformerFor ''HostEndpoint'' (defaultInformer NewFilteredHostEndpointInformer (sf_tweakListOptions f)) f"

definition HostOperations_Informer :: "'o sharedInformerFactory \<Rightarrow> 'o informer \<times> 'o sharedInformerFactory" where
  "HostOperations_Informer f = InformerFor ''HostOperation'' (defaultInformer NewFilteredHostOperationInformer (sf_tweakListOptions f)) f"

definition RedfishStatuses_Informer :: "'o sharedInformerFactory \<Rightarrow> 'o informer \<times> 'o sharedInformerFactory" where
  "RedfishStatuses_Informer f = InformerFor ''RedfishStatus'' (defaultInformer NewFilteredRedfishStatusInformer (sf_tweakListOptions f)) f"

definition SSHStatuses_Informer :: "'o sharedInformerFactory \<Rightarrow> 'o informer \<times> 'o sharedInformerFactory" where
  "SSHStatuses_Informer f = InformerFor ''SSHStatus'' (defaultInformer NewFilteredSSHStatusInformer (sf_tweakListOptions f)) f"

definition Subnets_Informer :: "'o sharedInformerFactory \<Rightarrow> 'o informer \<times> 'o sharedInformerFactory" where
  "Subnets_Informer f = InformerFor ''Subnet'' (defaultInformer NewFilteredSubnetInformer (sf_tweakListOptions f)) f"

definition ForResource :: "(string \<times> string) \<times> string \<Rightarrow> 'o sharedInformerFactory \<Rightarrow> 'o informer result \<times> 'o sharedInformerFactory" where
  "ForResource resource f =
     (if resource = (SchemeGroupVersion, ''hostendpoints'') then map_prod Inr id (HostEndpoints_Informer f)
      else if resource = (SchemeGroupVersion, ''hostoperations'') then map_prod Inr id (HostOperations_Informer f)
      else if resource = (SchemeGroupVersion, ''redfishstatuses'') then map_prod Inr id (RedfishStatuses_Informer f)
      else if resource = (SchemeGroupVersion, ''sshstatuses'') then map_prod Inr id (SSHStatuses_Informer f)
      else if resource = (SchemeGroupVersion, ''subnets'') then map_prod Inr id (Subnets_Informer f)
      else (Inl (Errorf ''no informer found for'' []), f))"

text \<open>The calls on a factory, all under its lock, and the ends of its goroutines.\<close>

inductive factory_step :: "'o sharedInformerFactory \<Rightarrow> 'o sharedInformerFactory \<Rightarrow> bool" where
  resource: "factory_step f (snd (ForResource resource f))"
| start: "factory_step f (Start stopCh f)"
| shutdown: "factory_step f (Shutdown f)"
| ended: "k < length (sf_goroutines f) \<Longrightarrow> k \<notin> sf_ended f \<Longrightarrow>
    factory_step f (f\<lparr>sf_ended := insert k (sf_ended f), sf_wg := sf_wg f - 1\<rparr>)"

section \<open>Lemmas\<close>

text \<open>The client of the group is made for its version under \<open>/apis\<close>, with the rate limiter of the client set.\<close>

lemma setConfigDefaults_fields:
  "rc_GroupVersion (setConfigDefaults cg c) = Some SchemeGroupVersion" "rc_APIPath (setConfigDefaults cg c) = ''/apis''"
  "rc_RateLimiter (setConfigDefaults cg c) = rc_RateLimiter c"
  by (simp_all add: setConfigDefaults_def with_agent_def)

lemma Clientset_NewForConfig_ok:
  "Clientset_NewForConfig cg c = Inr (r, d) \<Longrightarrow>
   \<exists>h c1. cg_HTTPClientFor cg (with_agent cg c) = Inr h \<and> set_limiter (with_agent cg c) = Inr c1
     \<and> cg_RESTClientForConfigAndClient cg (setConfigDefaults cg c1) h = Inr r
     \<and> cg_NewDiscoveryClientForConfigAndClient cg c1 h = Inr d"
  by (auto simp: Clientset_NewForConfig_def Clientset_NewForConfigAndClient_def V1beta1_NewForConfigAndClient_def
      Let_def elim!: and_then.elims)

lemma set_limiter_burst: "rc_RateLimiter c = None \<Longrightarrow> rc_QPS c > 0 \<Longrightarrow> rc_Burst c \<le> 0 \<Longrightarrow> \<exists>e. set_limiter c = Inl e"
  by (simp add: set_limiter_def)

text \<open>There is no informer for bindings.\<close>

lemma ForResource_bindings: "ForResource (SchemeGroupVersion, ''bindingips'') f = (Inl (Errorf ''no informer found for'' []), f)"
  by (simp add: ForResource_def)

text \<open>Every informer was started at most once, the wait group counts those that have not ended.\<close>

definition factory_inv :: "'o sharedInformerFactory \<Rightarrow> bool" where
  "factory_inv f \<longleftrightarrow> gm_ok (sf_informers f)
     \<and> (\<forall>(k, i) \<in> set (sf_informers f). in_id i < sf_next f)
     \<and> inj_on (\<lambda>(k, i). in_id i) (set (sf_informers f))
     \<and> (\<forall>(k, i) \<in> set (sf_informers f). in_id i \<in> fst ` set (sf_goroutines f) \<longrightarrow> gm_get (sf_startedInformers f) k = Some True)
     \<and> fst ` set (sf_goroutines f) \<subseteq> {..<sf_next f}
     \<and> distinct (map fst (sf_goroutines f))
     \<and> sf_ended f \<subseteq> {..<length (sf_goroutines f)}
     \<and> sf_wg f + card (sf_ended f) = length (sf_goroutines f)"

lemmas informer_news = defaultInformer_def NewFilteredHostEndpointInformer_def NewFilteredHostOperationInformer_def
  NewFilteredRedfishStatusInformer_def NewFilteredSSHStatusInformer_def NewFilteredSubnetInformer_def

lemmas kind_informers = HostEndpoints_Informer_def HostOperations_Informer_def RedfishStatuses_Informer_def
  SSHStatuses_Informer_def Subnets_Informer_def

lemma informer_ids:
  "in_id (defaultInformer NewFilteredHostEndpointInformer tweak n r) = n" "in_id (defaultInformer NewFilteredHostOperationInformer tweak n r) = n"
  "in_id (defaultInformer NewFilteredRedfishStatusInformer tweak n r) = n" "in_id (defaultInformer NewFilteredSSHStatusInformer tweak n r) = n"
  "in_id (defaultInformer NewFilteredSubnetInformer tweak n r) = n"
  by (simp_all add: informer_news)

lemma InformerFor_shared:
  "InformerFor kind new f = (i, f') \<Longrightarrow> gm_get (sf_informers f') kind = Some i \<and> InformerFor kind new' f' = (i, f')"
  by (auto simp: InformerFor_def Let_def split: option.splits)

lemma InformerFor_frame:
  "sf_goroutines (snd (InformerFor kind new f)) = sf_goroutines f" "sf_shuttingDown (snd (InformerFor kind new f)) = sf_shuttingDown f"
  "sf_wg (snd (InformerFor kind new f)) = sf_wg f" "sf_ended (snd (InformerFor kind new f)) = sf_ended f"
  by (auto simp: InformerFor_def Let_def split: option.splits)

lemma add_informer_inv:
  assumes "factory_inv f" "kind \<notin> fst ` set (sf_informers f)" "in_id i = sf_next f"
  shows "factory_inv (f\<lparr>sf_informers := sf_informers f @ [(kind, i)], sf_next := sf_next f + 1\<rparr>)"
proof -
  have "sf_next f \<notin> (\<lambda>(k, i). in_id i) ` set (sf_informers f)" "sf_next f \<notin> fst ` set (sf_goroutines f)"
    using assms(1) by (auto simp: factory_inv_def)
  moreover have "(\<lambda>(k, i). in_id i) ` (set (sf_informers f) - {(kind, i)}) \<subseteq> (\<lambda>(k, i). in_id i) ` set (sf_informers f)" by blast
  ultimately show ?thesis using assms unfolding factory_inv_def
    by (intro conjI) (auto simp: less_Suc_eq inj_on_insert)
qed

lemma InformerFor_inv:
  assumes "factory_inv f" "\<And>n r. in_id (new n r) = n"
  shows "factory_inv (snd (InformerFor kind new f))"
proof (cases "gm_get (sf_informers f) kind")
  case None
  then have k: "kind \<notin> fst ` set (sf_informers f)" by (simp add: map_of_eq_None_iff)
  with None show ?thesis by (simp add: InformerFor_def Let_def gm_put_new add_informer_inv [OF assms(1) k, simplified] assms(2))
next
  case (Some i)
  with assms(1) show ?thesis by (simp add: InformerFor_def)
qed

lemma snd_map_prod_id: "map_prod g id p = (x, y) \<Longrightarrow> y = snd p"
  by (cases p) simp

lemma ForResource_cases:
  assumes "ForResource resource f = (x, f')"
  shows "f' = f \<or> (\<exists>kind new. f' = snd (InformerFor kind new f) \<and> (\<forall>n r. in_id (new n r) = n))"
proof -
  have "f' = f \<or> f' = snd (HostEndpoints_Informer f) \<or> f' = snd (HostOperations_Informer f)
      \<or> f' = snd (RedfishStatuses_Informer f) \<or> f' = snd (SSHStatuses_Informer f) \<or> f' = snd (Subnets_Informer f)"
    using assms unfolding ForResource_def by (auto split: if_splits dest: snd_map_prod_id)
  then show ?thesis unfolding kind_informers by (metis informer_ids)
qed

lemma start_loop_frame:
  "sf_informers (start_loop ch ms f) = sf_informers f \<and> sf_shuttingDown (start_loop ch ms f) = sf_shuttingDown f"
  by (induction ch ms f rule: start_loop.induct) auto

lemma start_one_inv:
  assumes "factory_inv f" "(k, i) \<in> set (sf_informers f)" "gm_get (sf_startedInformers f) k \<noteq> Some True"
  shows "factory_inv (f\<lparr>sf_wg := sf_wg f + 1, sf_goroutines := sf_goroutines f @ [(in_id i, ch)],
           sf_startedInformers := gm_put k True (sf_startedInformers f)\<rparr>)"
proof -
  have n: "in_id i \<notin> fst ` set (sf_goroutines f)" using assms by (auto simp: factory_inv_def)
  have u: "k' = k" if "(k', j) \<in> set (sf_informers f)" "in_id j = in_id i" for k' j
  proof -
    have "(k', j) = (k, i)"
      by (rule inj_onD [of "\<lambda>(k, i). in_id i" "set (sf_informers f)"]) (use assms(1,2) that in \<open>auto simp: factory_inv_def\<close>)
    then show ?thesis by simp
  qed
  have "in_id i < sf_next f" using assms(1,2) by (auto simp: factory_inv_def)
  with assms(1) n u show ?thesis unfolding factory_inv_def by (auto simp: less_Suc_eq split: prod.splits)
qed

lemma start_loop_inv:
  "factory_inv f \<Longrightarrow> set ms \<subseteq> set (sf_informers f) \<Longrightarrow> factory_inv (start_loop ch ms f)"
proof (induction ch ms f rule: start_loop.induct)
  case (2 ch k i rest f)
  then show ?case using start_one_inv [of f k i ch] by (cases "gm_get (sf_startedInformers f) k = Some True") auto
qed simp

lemma factory_step_inv: "factory_step f f' \<Longrightarrow> factory_inv f \<Longrightarrow> factory_inv f'"
proof (induction rule: factory_step.induct)
  case (resource f r)
  obtain x f' where r: "ForResource r f = (x, f')" by (cases "ForResource r f")
  from ForResource_cases [OF r] InformerFor_inv [OF resource] resource r show ?case by auto
next
  case (start f ch)
  then show ?case by (simp add: Start_def start_loop_inv)
next
  case (ended k f)
  then have "finite (sf_ended f)" "sf_wg f > 0"
    by (auto simp: factory_inv_def finite_subset)
      (metis add_0 card_mono card_subset_eq finite_lessThan lessThan_iff card_lessThan neq0_conv)
  with ended show ?case by (auto simp: factory_inv_def)
qed (simp add: Shutdown_def factory_inv_def)

lemma factory_run_inv: "factory_step\<^sup>*\<^sup>* f f' \<Longrightarrow> factory_inv f \<Longrightarrow> factory_inv f'"
  by (induction rule: rtranclp_induct) (auto intro: factory_step_inv)

text \<open>After \<open>Shutdown\<close> nothing is started.\<close>

lemma factory_step_down:
  "factory_step f f' \<Longrightarrow> sf_shuttingDown f \<Longrightarrow> sf_shuttingDown f' \<and> sf_goroutines f' = sf_goroutines f"
proof (induction rule: factory_step.induct)
  case (resource f r)
  obtain x f' where r: "ForResource r f = (x, f')" by (cases "ForResource r f")
  from ForResource_cases [OF r] resource r show ?case by (auto simp: InformerFor_frame)
qed (simp_all add: Start_def Shutdown_def)

lemma factory_run_down:
  "factory_step\<^sup>*\<^sup>* f f' \<Longrightarrow> sf_shuttingDown f \<Longrightarrow> sf_shuttingDown f' \<and> sf_goroutines f' = sf_goroutines f"
  by (induction rule: rtranclp_induct) (use factory_step_down in fastforce)+

text \<open>A step that ends a goroutine needs one that has not ended.\<close>

lemma factory_step_all_ended:
  "factory_step f f' \<Longrightarrow> sf_shuttingDown f \<Longrightarrow> sf_ended f = {..<length (sf_goroutines f)} \<Longrightarrow> sf_ended f' = sf_ended f"
proof (induction rule: factory_step.induct)
  case (resource f r)
  obtain x f' where r: "ForResource r f = (x, f')" by (cases "ForResource r f")
  from ForResource_cases [OF r] r show ?case by (auto simp: InformerFor_frame)
qed (auto simp: Start_def Shutdown_def)

lemma factory_run_all_ended:
  "factory_step\<^sup>*\<^sup>* f f' \<Longrightarrow> sf_shuttingDown f \<Longrightarrow> sf_ended f = {..<length (sf_goroutines f)} \<Longrightarrow> sf_ended f' = sf_ended f"
proof (induction rule: rtranclp_induct)
  case (step g g')
  with factory_run_down [of f g] factory_step_all_ended [of g g'] show ?case by simp
qed simp

text \<open>A factory as it is made, with any options.\<close>

definition configured :: "int \<Rightarrow> (string, int) gomap \<Rightarrow> ('o \<Rightarrow> 'o) option \<Rightarrow> string \<Rightarrow> nat option \<Rightarrow> 'o sharedInformerFactory" where
  "configured resync custom tweak ns transform = NewSharedInformerFactoryWithOptions resync
     [WithCustomResyncConfig custom, WithTweakListOptions tweak, WithNamespace ns, WithTransform transform]"

lemma configured_inv: "factory_inv (configured resync custom tweak ns transform)"
  by (simp add: configured_def NewSharedInformerFactoryWithOptions_def WithCustomResyncConfig_def WithTweakListOptions_def
      WithNamespace_def WithTransform_def factory_inv_def)

section \<open>Start and stop\<close>

text \<open>Whatever calls are made on a factory, no informer is started twice; when \<open>Shutdown\<close> has returned all that
  were started have ended, and none is started afterwards.\<close>

lemma informers_started_once:
  assumes "factory_step\<^sup>*\<^sup>* (configured resync custom tweak ns transform) f"
  shows "distinct (map fst (sf_goroutines f))
    \<and> (sf_shuttingDown f \<and> sf_wg f = 0 \<longrightarrow>
        (\<forall>f'. factory_step\<^sup>*\<^sup>* f f' \<longrightarrow> sf_goroutines f' = sf_goroutines f \<and> sf_ended f' = {..<length (sf_goroutines f)}))"
proof -
  have i: "factory_inv f" by (rule factory_run_inv [OF assms configured_inv])
  have e: "sf_ended f = {..<length (sf_goroutines f)}" if "sf_wg f = 0"
    using i that by (intro card_subset_eq) (auto simp: factory_inv_def)
  show ?thesis using i e factory_run_down factory_run_all_ended by (fastforce simp: factory_inv_def)
qed

lemma informers_started_once_witness:
  "\<exists>f :: unit sharedInformerFactory. distinct (map fst (sf_goroutines f)) \<and> length (sf_goroutines f) = 2"
proof -
  let ?f0 = "configured 30 [] None [] None :: unit sharedInformerFactory"
  let ?f1 = "snd (ForResource (SchemeGroupVersion, ''subnets'') ?f0)"
  let ?f2 = "snd (ForResource (SchemeGroupVersion, ''sshstatuses'') ?f1)"
  have "factory_step\<^sup>*\<^sup>* ?f0 (Start 0 (Start 0 ?f2))"
    by (meson factory_step.resource factory_step.start rtranclp.rtrancl_refl rtranclp.rtrancl_into_rtrancl)
  from conjunct1 [OF informers_started_once [OF this]]
  have "distinct (map fst (sf_goroutines (Start 0 (Start 0 ?f2))))" .
  moreover have "length (sf_goroutines (Start 0 (Start 0 ?f2))) = 2" by code_simp
  ultimately show ?thesis by blast
qed

end
