(* ===== verification/ClientInterfaces.thy ===== *)
theory ClientInterfaces
  imports KubeClient
begin

text \<open>
  How the generated client is reached: the interfaces of the client set and of the informer factory
  (\<open>clientset.go\<close>, \<open>topohub.infrastructure.io_client.go\<close>, the two \<open>interface.go\<close>), and the fake client for
  tests (\<open>versioned/fake\<close>, \<open>v1beta1/fake\<close>). The object tracker behind the fake client, its
  reaction to calls and the fake discovery client belong to \<open>client-go\<close> and are parameters.
\<close>

section \<open>Interfaces of the client\<close>

text \<open>A receiver may be nil, \<open>None\<close>; then so is the result.\<close>

definition V1beta1_New :: "'r \<Rightarrow> 'r" where
  "V1beta1_New c = c"

definition V1beta1_RESTClient :: "'r option \<Rightarrow> 'r option" where
  "V1beta1_RESTClient c = (case c of None \<Rightarrow> None | Some r \<Rightarrow> Some r)"

definition Clientset_New :: "('r \<Rightarrow> 'd) \<Rightarrow> 'r \<Rightarrow> 'r \<times> 'd" where
  "Clientset_New newDiscoveryClient c = (V1beta1_New c, newDiscoveryClient c)"

definition Clientset_TopohubV1beta1 :: "'r \<times> 'd \<Rightarrow> 'r" where
  "Clientset_TopohubV1beta1 cs = fst cs"

definition Clientset_Discovery :: "('r \<times> 'd) option \<Rightarrow> 'd option" where
  "Clientset_Discovery c = (case c of None \<Rightarrow> None | Some cs \<Rightarrow> Some (snd cs))"

definition V1beta1_clients :: "'r \<Rightarrow> (string \<times> 'r typed_client) list" where
  "V1beta1_clients c =
     [(''HostEndpoints'', newHostEndpoints c), (''HostOperations'', newHostOperations c),
      (''RedfishStatuses'', newRedfishStatuses c), (''SSHStatuses'', newSSHStatuses c), (''Subnets'', newSubnets c)]"

section \<open>Interfaces of the informers\<close>

text \<open>
  The factory that a group, a version and the informer of a kind refer to is the argument of \<open>kind_Informer\<close>.
  The kinds have no namespace: the informers do not get the one of the version.
\<close>

record 'o informer_version =
  vn_namespace :: string
  vn_tweakListOptions :: "('o \<Rightarrow> 'o) option"

record 'o kind_informer =
  ki_kind :: string
  ki_new :: "'o new_informer"
  ki_tweakListOptions :: "('o \<Rightarrow> 'o) option"

definition group_New :: "string \<Rightarrow> ('o \<Rightarrow> 'o) option \<Rightarrow> 'o informer_version" where
  "group_New namespace tweak = \<lparr>vn_namespace = namespace, vn_tweakListOptions = tweak\<rparr>"

definition version_New :: "string \<Rightarrow> ('o \<Rightarrow> 'o) option \<Rightarrow> 'o informer_version" where
  "version_New namespace tweak = \<lparr>vn_namespace = namespace, vn_tweakListOptions = tweak\<rparr>"

definition group_V1beta1 :: "'o informer_version \<Rightarrow> 'o informer_version" where
  "group_V1beta1 g = version_New (vn_namespace g) (vn_tweakListOptions g)"

definition factory_Topohub :: "'o sharedInformerFactory \<Rightarrow> 'o informer_version" where
  "factory_Topohub f = group_New (sf_namespace f) (sf_tweakListOptions f)"

definition version_HostEndpoints :: "'o informer_version \<Rightarrow> 'o kind_informer" where
  "version_HostEndpoints v = \<lparr>ki_kind = ''HostEndpoint'', ki_new = NewFilteredHostEndpointInformer, ki_tweakListOptions = vn_tweakListOptions v\<rparr>"

definition version_HostOperations :: "'o informer_version \<Rightarrow> 'o kind_informer" where
  "version_HostOperations v = \<lparr>ki_kind = ''HostOperation'', ki_new = NewFilteredHostOperationInformer, ki_tweakListOptions = vn_tweakListOptions v\<rparr>"

definition version_RedfishStatuses :: "'o informer_version \<Rightarrow> 'o kind_informer" where
  "version_RedfishStatuses v = \<lparr>ki_kind = ''RedfishStatus'', ki_new = NewFilteredRedfishStatusInformer, ki_tweakListOptions = vn_tweakListOptions v\<rparr>"

definition version_SSHStatuses :: "'o informer_version \<Rightarrow> 'o kind_informer" where
  "version_SSHStatuses v = \<lparr>ki_kind = ''SSHStatus'', ki_new = NewFilteredSSHStatusInformer, ki_tweakListOptions = vn_tweakListOptions v\<rparr>"

definition version_Subnets :: "'o informer_version \<Rightarrow> 'o kind_informer" where
  "version_Subnets v = \<lparr>ki_kind = ''Subnet'', ki_new = NewFilteredSubnetInformer, ki_tweakListOptions = vn_tweakListOptions v\<rparr>"

definition kind_Informer :: "'o kind_informer \<Rightarrow> 'o sharedInformerFactory \<Rightarrow> 'o informer \<times> 'o sharedInformerFactory" where
  "kind_Informer k f = InformerFor (ki_kind k) (defaultInformer (ki_new k) (ki_tweakListOptions k)) f"

text \<open>\<open>NewSubnetInformer\<close> and its siblings make an informer outside of every factory, without a tweak.\<close>

definition NewInformer :: "'o new_informer \<Rightarrow> nat \<Rightarrow> int \<Rightarrow> string list \<Rightarrow> 'o informer" where
  "NewInformer new n resync indexers = new n resync indexers None"

text \<open>The way over the interfaces leads to the informers the factory shares.\<close>

lemma interface_informers:
  "kind_Informer (version_HostEndpoints (group_V1beta1 (factory_Topohub f))) f = HostEndpoints_Informer f"
  "kind_Informer (version_HostOperations (group_V1beta1 (factory_Topohub f))) f = HostOperations_Informer f"
  "kind_Informer (version_RedfishStatuses (group_V1beta1 (factory_Topohub f))) f = RedfishStatuses_Informer f"
  "kind_Informer (version_SSHStatuses (group_V1beta1 (factory_Topohub f))) f = SSHStatuses_Informer f"
  "kind_Informer (version_Subnets (group_V1beta1 (factory_Topohub f))) f = Subnets_Informer f"
  by (simp_all add: kind_Informer_def group_V1beta1_def version_New_def factory_Topohub_def group_New_def
      version_HostEndpoints_def version_HostOperations_def version_RedfishStatuses_def version_SSHStatuses_def
      version_Subnets_def kind_informers)

text \<open>The namespace of a factory has no effect on its informers.\<close>

lemma namespace_ignored:
  "fst (kind_Informer (version_Subnets (group_V1beta1 (factory_Topohub f))) f)
   = fst (kind_Informer (version_Subnets (group_V1beta1 (factory_Topohub (f\<lparr>sf_namespace := ns\<rparr>)))) f)"
  by (simp add: version_Subnets_def group_V1beta1_def version_New_def factory_Topohub_def group_New_def)

section \<open>Schemes\<close>

text \<open>
  \<open>scheme/register.go\<close> and \<open>fake/register.go\<close>: the types of \<open>v1\<close>, then those of every builder in order;
  an error is a panic, \<open>None\<close>.
\<close>

definition localSchemeBuilder :: "('s \<Rightarrow> 's result) \<Rightarrow> ('s \<Rightarrow> 's result) list" where
  "localSchemeBuilder topohubAddToScheme = [topohubAddToScheme]"

fun AddToScheme :: "('s \<Rightarrow> 's result) list \<Rightarrow> 's \<Rightarrow> 's result" where
  "AddToScheme [] s = Inr s"
| "AddToScheme (f # fs) s = and_then (f s) (AddToScheme fs)"

definition scheme_init :: "(string \<Rightarrow> 's \<Rightarrow> 's) \<Rightarrow> ('s \<Rightarrow> 's result) \<Rightarrow> 's \<Rightarrow> 's option" where
  "scheme_init addToGroupVersion topohubAddToScheme newScheme =
     (case AddToScheme (localSchemeBuilder topohubAddToScheme) (addToGroupVersion ''v1'' newScheme) of
        Inl _ \<Rightarrow> None
      | Inr s \<Rightarrow> Some s)"

definition fake_scheme_init :: "(string \<Rightarrow> 's \<Rightarrow> 's) \<Rightarrow> ('s \<Rightarrow> 's result) \<Rightarrow> 's \<Rightarrow> 's option" where
  "fake_scheme_init addToGroupVersion topohubAddToScheme newScheme =
     (case AddToScheme (localSchemeBuilder topohubAddToScheme) (addToGroupVersion ''v1'' newScheme) of
        Inl _ \<Rightarrow> None
      | Inr s \<Rightarrow> Some s)"

lemma fake_scheme: "fake_scheme_init add topo s = scheme_init add topo s"
  by (simp add: fake_scheme_init_def scheme_init_def)

lemma scheme_init_eq:
  "scheme_init add topo s = (case topo (add ''v1'' s) of Inl _ \<Rightarrow> None | Inr s' \<Rightarrow> Some s')"
  by (cases "topo (add ''v1'' s)") (simp_all add: scheme_init_def localSchemeBuilder_def)

section \<open>The fake client\<close>

text \<open>The tracker of \<open>client-go\<close>: a new one, adding an object, watching a resource in a namespace.\<close>

record ('t, 'o, 'w) tracker_lib =
  tl_new :: 't
  tl_Add :: "'o \<Rightarrow> 't \<Rightarrow> 't result"
  tl_Watch :: "string \<Rightarrow> string \<Rightarrow> 't \<Rightarrow> 'w result"

text \<open>A fake client set with its tracker and the verbs and resources its reactions are registered for.\<close>

record 't fake_clientset =
  fc_tracker :: 't
  fc_objectReactions :: "(string \<times> string) list"
  fc_watchReactions :: "string list"

fun add_objects :: "('t, 'o, 'w) tracker_lib \<Rightarrow> 'o list \<Rightarrow> 't \<Rightarrow> 't option" where
  "add_objects lib [] t = Some t"
| "add_objects lib (obj # objs) t = (case tl_Add lib obj t of Inl _ \<Rightarrow> None | Inr t' \<Rightarrow> add_objects lib objs t')"

definition NewSimpleClientset :: "('t, 'o, 'w) tracker_lib \<Rightarrow> 'o list \<Rightarrow> 't fake_clientset option" where
  "NewSimpleClientset lib objects =
     map_option (\<lambda>t. \<lparr>fc_tracker = t, fc_objectReactions = [(''*'', ''*'')], fc_watchReactions = [''*'']\<rparr>)
       (add_objects lib objects (tl_new lib))"

text \<open>The reaction to a watch: whether it was handled, the watch and the error.\<close>

definition watch_reaction ::
    "('t, 'o, 'w) tracker_lib \<Rightarrow> string \<Rightarrow> string \<Rightarrow> 't fake_clientset \<Rightarrow> bool \<times> 'w option \<times> goerr option" where
  "watch_reaction lib gvr ns cs =
     (case tl_Watch lib gvr ns (fc_tracker cs) of Inl err \<Rightarrow> (False, None, Some err) | Inr w \<Rightarrow> (True, Some w, None))"

definition fake_Tracker :: "'t fake_clientset \<Rightarrow> 't" where
  "fake_Tracker c = fc_tracker c"

definition fake_RESTClient :: "'c \<Rightarrow> 'r option" where
  "fake_RESTClient c = None"

text \<open>The fake client of a kind; a list is its metadata and its items.\<close>

record fake_client =
  fk_resource :: "(string \<times> string) \<times> string"
  fk_kind :: "(string \<times> string) \<times> string"
  fk_namespace :: string
  fk_object :: string
  fk_list :: string

record ('m, 'i) object_list =
  ol_ListMeta :: 'm
  ol_Items :: "'i list"

definition newFakeHostEndpoints :: fake_client where
  "newFakeHostEndpoints = \<lparr>fk_resource = (SchemeGroupVersion, ''hostendpoints''), fk_kind = (SchemeGroupVersion, ''HostEndpoint''),
     fk_namespace = [], fk_object = ''HostEndpoint'', fk_list = ''HostEndpointList''\<rparr>"

definition newFakeHostOperations :: fake_client where
  "newFakeHostOperations = \<lparr>fk_resource = (SchemeGroupVersion, ''hostoperations''), fk_kind = (SchemeGroupVersion, ''HostOperation''),
     fk_namespace = [], fk_object = ''HostOperation'', fk_list = ''HostOperationList''\<rparr>"

definition newFakeRedfishStatuses :: fake_client where
  "newFakeRedfishStatuses = \<lparr>fk_resource = (SchemeGroupVersion, ''redfishstatuses''), fk_kind = (SchemeGroupVersion, ''RedfishStatus''),
     fk_namespace = [], fk_object = ''RedfishStatus'', fk_list = ''RedfishStatusList''\<rparr>"

definition newFakeSSHStatuses :: fake_client where
  "newFakeSSHStatuses = \<lparr>fk_resource = (SchemeGroupVersion, ''sshstatuses''), fk_kind = (SchemeGroupVersion, ''SSHStatus''),
     fk_namespace = [], fk_object = ''SSHStatus'', fk_list = ''SSHStatusList''\<rparr>"

definition newFakeSubnets :: fake_client where
  "newFakeSubnets = \<lparr>fk_resource = (SchemeGroupVersion, ''subnets''), fk_kind = (SchemeGroupVersion, ''Subnet''),
     fk_namespace = [], fk_object = ''Subnet'', fk_list = ''SubnetList''\<rparr>"

definition copy_list_meta :: "('m, 'i) object_list \<Rightarrow> ('m, 'i) object_list \<Rightarrow> ('m, 'i) object_list" where
  "copy_list_meta dst src = dst\<lparr>ol_ListMeta := ol_ListMeta src\<rparr>"

definition set_items :: "('m, 'i) object_list \<Rightarrow> 'i list \<Rightarrow> ('m, 'i) object_list" where
  "set_items list items = list\<lparr>ol_Items := items\<rparr>"

definition fake_V1beta1_clients :: "(string \<times> fake_client) list" where
  "fake_V1beta1_clients =
     [(''HostEndpoints'', newFakeHostEndpoints), (''HostOperations'', newFakeHostOperations),
      (''RedfishStatuses'', newFakeRedfishStatuses), (''SSHStatuses'', newFakeSSHStatuses), (''Subnets'', newFakeSubnets)]"

section \<open>Lemmas\<close>

text \<open>The objects are added in order, and one that cannot be added is a panic.\<close>

lemma add_objects_append:
  "add_objects lib (xs @ ys) t = Option.bind (add_objects lib xs t) (add_objects lib ys)"
  by (induction xs arbitrary: t) (auto split: sum.split)

lemma NewSimpleClientset_panics:
  "add_objects lib xs (tl_new lib) = Some t \<Longrightarrow> tl_Add lib obj t = Inl e \<Longrightarrow>
   NewSimpleClientset lib (xs @ obj # ys) = None"
  by (simp add: NewSimpleClientset_def add_objects_append)

text \<open>What was filtered from a list has the metadata of the list that was read and the items that were kept.\<close>

lemma filtered_list:
  "ol_ListMeta (set_items (copy_list_meta new list) items) = ol_ListMeta list
   \<and> ol_Items (set_items (copy_list_meta new list) items) = items"
  by (simp add: set_items_def copy_list_meta_def)

text \<open>
  A test against the fake client asks for what the program asks for: by the same method, the same resource, in no
  namespace, for the same kinds of objects and lists.
\<close>

lemma fake_clients_match:
  "map (\<lambda>(m, k). (m, snd (fk_resource k), fk_namespace k, fk_object k, fk_list k)) fake_V1beta1_clients
   = map (\<lambda>(m, t). (m, tc_resource t, tc_namespace t, tc_object t, tc_list t)) (V1beta1_clients c)"
  "list_all (\<lambda>(m, k). fst (fk_resource k) = SchemeGroupVersion \<and> fk_kind k = (SchemeGroupVersion, fk_object k)) fake_V1beta1_clients"
  by (simp_all add: fake_V1beta1_clients_def V1beta1_clients_def newFakeHostEndpoints_def newFakeHostOperations_def
      newFakeRedfishStatuses_def newFakeSSHStatuses_def newFakeSubnets_def newHostEndpoints_def newHostOperations_def
      newRedfishStatuses_def newSSHStatuses_def newSubnets_def)

end
