(* ===== verification/DeepCopy.thy ===== *)
theory DeepCopy
  imports ApiTypes
begin

text \<open>
  The deep copies of the custom resources (\<open>k8s/apis/.../zz_generated.deepcopy.go\<close> and
  \<open>hostendpoint_deepcopy.go\<close>), with pointers: a struct is its value fields, kept in the record of
  \<open>ApiTypes\<close> whose pointer fields are not looked at, and its pointers into a heap. The other theories
  treat a deep copy as the same value; here this is proved of the generated copies. The copy of
  \<open>ObjectMeta\<close> belongs to the Kubernetes library and is a value here.
\<close>

section \<open>The heap\<close>

type_synonym ptr = "nat option"

record sync_p =
  yp_val :: SyncRedfishstatusSpec
  yp_DefaultClusterName :: ptr

record feature_p =
  fp_val :: FeatureSpec
  fp_SyncRedfishstatus :: sync_p

record ipv4_p =
  vp_val :: IPv4SubnetSpec
  vp_Gateway :: ptr
  vp_Dns :: ptr

record interface_p =
  ip_val :: InterfaceSpec
  ip_VlanID :: ptr

record subnet_spec_p =
  tp_IPv4Subnet :: ipv4_p
  tp_Interface :: interface_p
  tp_Feature :: ptr

record subnet_status_p =
  up_val :: SubnetStatus
  up_DhcpStatus :: ptr
  up_HostNode :: ptr
  up_Conditions :: ptr

record subnet_p =
  np_Meta :: ObjectMeta
  np_Spec :: subnet_spec_p
  np_Status :: subnet_status_p

record basic_p =
  bp_val :: BasicInfo
  bp_DhcpExpireTime :: ptr
  bp_SubnetName :: ptr
  bp_Hostname :: ptr

record log_p =
  lp_val :: LogStruct
  lp_LastestLog :: ptr
  lp_LastestWarningLog :: ptr

record redfish_p =
  rp_val :: RedfishStatusStatus
  rp_Basic :: basic_p
  rp_Info :: ptr
  rp_Log :: log_p

record ssh_basic_p =
  hp_val :: SSHBasicInfo
  hp_SubnetName :: ptr

record ssh_p =
  xp_val :: SSHStatusStatus
  xp_Basic :: ssh_basic_p
  xp_Info :: ptr

record endpoint_p =
  ep_val :: HostEndpointSpec
  ep_ClusterName :: ptr
  ep_SecretName :: ptr
  ep_SecretNamespace :: ptr
  ep_HTTPS :: ptr
  ep_Port :: ptr
  ep_Type :: ptr

record redfish_object_p =
  rq_Meta :: ObjectMeta
  rq_Status :: redfish_p

record ssh_object_p =
  xq_Meta :: ObjectMeta
  xq_Status :: ssh_p

record endpoint_object_p =
  eq_Meta :: ObjectMeta
  eq_Spec :: endpoint_p

text \<open>What lies behind a pointer; the items of a list are one array.\<close>

datatype cell =
    CellStr string
  | CellBool bool
  | CellInt int
  | CellLog LogEntry
  | CellDhcp DhcpStatusSpec
  | CellConds "Condition list"
  | CellMap "(string, string) gomap"
  | CellFeature feature_p
  | CellSubnets "subnet_p list"
  | CellRedfishStatuses "redfish_object_p list"
  | CellSSHStatuses "ssh_object_p list"
  | CellHostEndpoints "endpoint_object_p list"
  | CellBindingIps "BindingIp list"
  | CellHostOperations "HostOperation list"

record gheap =
  gh_next :: nat
  gh_cell :: "nat \<Rightarrow> cell option"

definition new_cell :: "cell \<Rightarrow> gheap \<Rightarrow> nat \<times> gheap" where
  "new_cell c h = (gh_next h, \<lparr>gh_next = gh_next h + 1, gh_cell = (gh_cell h)(gh_next h := Some c)\<rparr>)"

definition write_cell :: "nat \<Rightarrow> cell \<Rightarrow> gheap \<Rightarrow> gheap" where
  "write_cell a c h = h\<lparr>gh_cell := (gh_cell h)(a := Some c)\<rparr>"

definition load :: "gheap \<Rightarrow> ptr \<Rightarrow> cell option" where
  "load h p = (case p of None \<Rightarrow> None | Some a \<Rightarrow> gh_cell h a)"

text \<open>\<open>*out = new(T); **out = **in\<close>, unless the pointer is nil.\<close>

definition copy_ptr :: "ptr \<Rightarrow> gheap \<Rightarrow> ptr \<times> gheap" where
  "copy_ptr p h =
     (case load h p of None \<Rightarrow> (None, h) | Some c \<Rightarrow> (let (b, h1) = new_cell c h in (Some b, h1)))"

text \<open>A map is made and filled in a loop over the old one.\<close>

definition copy_map :: "ptr \<Rightarrow> gheap \<Rightarrow> ptr \<times> gheap" where
  "copy_map p h =
     (case load h p of
        Some (CellMap m) \<Rightarrow> (let (b, h1) = new_cell (CellMap (fold (\<lambda>(k, v). gm_put k v) m [])) h in (Some b, h1))
      | _ \<Rightarrow> (None, h))"

text \<open>
  \<open>*out = new(T); (*in).DeepCopyInto(*out)\<close> for a thing with pointers of its own: the new cell, filled with
  the old thing by \<open>*out = *in\<close>, then gets the copies of its parts.
\<close>

definition copy_cell :: "(cell \<Rightarrow> 'a option) \<Rightarrow> ('a \<Rightarrow> cell) \<Rightarrow> ('a \<Rightarrow> gheap \<Rightarrow> 'a \<times> gheap) \<Rightarrow> ptr \<Rightarrow> gheap \<Rightarrow> ptr \<times> gheap" where
  "copy_cell get mk deepCopyInto p h =
     (case load h p of None \<Rightarrow> (None, h) | Some c \<Rightarrow>
       (case get c of None \<Rightarrow> (None, h) | Some x \<Rightarrow>
         (let (b, h1) = new_cell c h; (y, h2) = deepCopyInto x h1 in (Some b, write_cell b (mk y) h2))))"

section \<open>The copies\<close>

definition SyncRedfishstatusSpec_DeepCopyInto :: "sync_p \<Rightarrow> gheap \<Rightarrow> sync_p \<times> gheap" where
  "SyncRedfishstatusSpec_DeepCopyInto x h =
     (let (p, h1) = copy_ptr (yp_DefaultClusterName x) h in (x\<lparr>yp_DefaultClusterName := p\<rparr>, h1))"

definition FeatureSpec_DeepCopyInto :: "feature_p \<Rightarrow> gheap \<Rightarrow> feature_p \<times> gheap" where
  "FeatureSpec_DeepCopyInto x h =
     (let (y, h1) = SyncRedfishstatusSpec_DeepCopyInto (fp_SyncRedfishstatus x) h in (x\<lparr>fp_SyncRedfishstatus := y\<rparr>, h1))"

definition feature_of :: "cell \<Rightarrow> feature_p option" where
  "feature_of c = (case c of CellFeature f \<Rightarrow> Some f | _ \<Rightarrow> None)"

definition copy_feature :: "ptr \<Rightarrow> gheap \<Rightarrow> ptr \<times> gheap" where
  "copy_feature = copy_cell feature_of CellFeature FeatureSpec_DeepCopyInto"

definition IPv4SubnetSpec_DeepCopyInto :: "ipv4_p \<Rightarrow> gheap \<Rightarrow> ipv4_p \<times> gheap" where
  "IPv4SubnetSpec_DeepCopyInto x h =
     (let (p, h1) = copy_ptr (vp_Gateway x) h; (q, h2) = copy_ptr (vp_Dns x) h1
      in (x\<lparr>vp_Gateway := p, vp_Dns := q\<rparr>, h2))"

definition InterfaceSpec_DeepCopyInto :: "interface_p \<Rightarrow> gheap \<Rightarrow> interface_p \<times> gheap" where
  "InterfaceSpec_DeepCopyInto x h = (let (p, h1) = copy_ptr (ip_VlanID x) h in (x\<lparr>ip_VlanID := p\<rparr>, h1))"

definition SubnetSpec_DeepCopyInto :: "subnet_spec_p \<Rightarrow> gheap \<Rightarrow> subnet_spec_p \<times> gheap" where
  "SubnetSpec_DeepCopyInto x h =
     (let (v, h1) = IPv4SubnetSpec_DeepCopyInto (tp_IPv4Subnet x) h;
          (i, h2) = InterfaceSpec_DeepCopyInto (tp_Interface x) h1;
          (f, h3) = copy_feature (tp_Feature x) h2
      in (x\<lparr>tp_IPv4Subnet := v, tp_Interface := i, tp_Feature := f\<rparr>, h3))"

definition SubnetStatus_DeepCopyInto :: "subnet_status_p \<Rightarrow> gheap \<Rightarrow> subnet_status_p \<times> gheap" where
  "SubnetStatus_DeepCopyInto x h =
     (let (d, h1) = copy_ptr (up_DhcpStatus x) h; (n, h2) = copy_ptr (up_HostNode x) h1;
          (c, h3) = copy_ptr (up_Conditions x) h2
      in (x\<lparr>up_DhcpStatus := d, up_HostNode := n, up_Conditions := c\<rparr>, h3))"

definition Subnet_DeepCopyInto :: "subnet_p \<Rightarrow> gheap \<Rightarrow> subnet_p \<times> gheap" where
  "Subnet_DeepCopyInto x h =
     (let (s, h1) = SubnetSpec_DeepCopyInto (np_Spec x) h; (t, h2) = SubnetStatus_DeepCopyInto (np_Status x) h1
      in (x\<lparr>np_Spec := s, np_Status := t\<rparr>, h2))"

definition BasicInfo_DeepCopyInto :: "basic_p \<Rightarrow> gheap \<Rightarrow> basic_p \<times> gheap" where
  "BasicInfo_DeepCopyInto x h =
     (let (p, h1) = copy_ptr (bp_DhcpExpireTime x) h; (q, h2) = copy_ptr (bp_SubnetName x) h1;
          (r, h3) = copy_ptr (bp_Hostname x) h2
      in (x\<lparr>bp_DhcpExpireTime := p, bp_SubnetName := q, bp_Hostname := r\<rparr>, h3))"

definition LogStruct_DeepCopyInto :: "log_p \<Rightarrow> gheap \<Rightarrow> log_p \<times> gheap" where
  "LogStruct_DeepCopyInto x h =
     (let (p, h1) = copy_ptr (lp_LastestLog x) h; (q, h2) = copy_ptr (lp_LastestWarningLog x) h1
      in (x\<lparr>lp_LastestLog := p, lp_LastestWarningLog := q\<rparr>, h2))"

definition RedfishStatusStatus_DeepCopyInto :: "redfish_p \<Rightarrow> gheap \<Rightarrow> redfish_p \<times> gheap" where
  "RedfishStatusStatus_DeepCopyInto x h =
     (let (b, h1) = BasicInfo_DeepCopyInto (rp_Basic x) h; (i, h2) = copy_map (rp_Info x) h1;
          (l, h3) = LogStruct_DeepCopyInto (rp_Log x) h2
      in (x\<lparr>rp_Basic := b, rp_Info := i, rp_Log := l\<rparr>, h3))"

definition SSHBasicInfo_DeepCopyInto :: "ssh_basic_p \<Rightarrow> gheap \<Rightarrow> ssh_basic_p \<times> gheap" where
  "SSHBasicInfo_DeepCopyInto x h = (let (p, h1) = copy_ptr (hp_SubnetName x) h in (x\<lparr>hp_SubnetName := p\<rparr>, h1))"

definition SSHStatusStatus_DeepCopyInto :: "ssh_p \<Rightarrow> gheap \<Rightarrow> ssh_p \<times> gheap" where
  "SSHStatusStatus_DeepCopyInto x h =
     (let (b, h1) = SSHBasicInfo_DeepCopyInto (xp_Basic x) h; (i, h2) = copy_map (xp_Info x) h1
      in (x\<lparr>xp_Basic := b, xp_Info := i\<rparr>, h2))"

text \<open>The copy of the specification of a \<open>HostEndpoint\<close> is kept by hand.\<close>

definition HostEndpointSpec_DeepCopyInto :: "endpoint_p \<Rightarrow> gheap \<Rightarrow> endpoint_p \<times> gheap" where
  "HostEndpointSpec_DeepCopyInto x h =
     (let (p, h1) = copy_ptr (ep_HTTPS x) h; (q, h2) = copy_ptr (ep_Port x) h1
      in (x\<lparr>ep_HTTPS := p, ep_Port := q\<rparr>, h2))"

definition RedfishStatus_DeepCopyInto :: "redfish_object_p \<Rightarrow> gheap \<Rightarrow> redfish_object_p \<times> gheap" where
  "RedfishStatus_DeepCopyInto x h = (let (s, h1) = RedfishStatusStatus_DeepCopyInto (rq_Status x) h in (x\<lparr>rq_Status := s\<rparr>, h1))"

definition SSHStatus_DeepCopyInto :: "ssh_object_p \<Rightarrow> gheap \<Rightarrow> ssh_object_p \<times> gheap" where
  "SSHStatus_DeepCopyInto x h = (let (s, h1) = SSHStatusStatus_DeepCopyInto (xq_Status x) h in (x\<lparr>xq_Status := s\<rparr>, h1))"

definition HostEndpoint_DeepCopyInto :: "endpoint_object_p \<Rightarrow> gheap \<Rightarrow> endpoint_object_p \<times> gheap" where
  "HostEndpoint_DeepCopyInto x h = (let (s, h1) = HostEndpointSpec_DeepCopyInto (eq_Spec x) h in (x\<lparr>eq_Spec := s\<rparr>, h1))"

text \<open>\<open>DeepCopy\<close> of a pointer to an object: nil stays nil.\<close>

definition DeepCopy_nil :: "('a \<Rightarrow> gheap \<Rightarrow> 'a \<times> gheap) \<Rightarrow> 'a option \<Rightarrow> gheap \<Rightarrow> 'a option \<times> gheap" where
  "DeepCopy_nil deepCopyInto x h =
     (case x of None \<Rightarrow> (None, h) | Some v \<Rightarrow> (let (out, h1) = deepCopyInto v h in (Some out, h1)))"

section \<open>What a deep copy promises\<close>

definition heap_ok :: "gheap \<Rightarrow> bool" where
  "heap_ok h \<longleftrightarrow> (\<forall>a c. gh_cell h a = Some c \<longrightarrow> a < gh_next h \<and> (\<forall>m. c = CellMap m \<longrightarrow> gm_ok m))"

definition extends :: "gheap \<Rightarrow> gheap \<Rightarrow> bool" where
  "extends h h' \<longleftrightarrow> heap_ok h' \<and> gh_next h \<le> gh_next h' \<and> (\<forall>a < gh_next h. gh_cell h' a = gh_cell h a)"

text \<open>
  A copy leaves the cells there were as they are, has the value of the original, and all its pointers
  lead to new cells; the value and the pointers of a thing depend on the cells it points to only.
\<close>

locale deep_copy =
  fixes copy :: "'a \<Rightarrow> gheap \<Rightarrow> 'a \<times> gheap"
    and ptrs :: "gheap \<Rightarrow> 'a \<Rightarrow> nat set"
    and view :: "gheap \<Rightarrow> 'a \<Rightarrow> 'v"
  assumes copy_law: "heap_ok h \<Longrightarrow> ptrs h x \<subseteq> {..<gh_next h} \<Longrightarrow> copy x h = (y, h') \<Longrightarrow>
      extends h h' \<and> view h' y = view h x \<and> ptrs h' y \<subseteq> {gh_next h..<gh_next h'}"
    and depends: "\<forall>a \<in> ptrs h x. gh_cell h' a = gh_cell h a \<Longrightarrow> view h' x = view h x \<and> ptrs h' x = ptrs h x"
begin

lemma kept:
  assumes "extends h h'" "ptrs h x \<subseteq> {..<gh_next h}"
  shows "view h' x = view h x \<and> ptrs h' x = ptrs h x"
  using assms by (intro depends) (auto simp: extends_def)

text \<open>The original does not change with the copy, nor when something is written through the copy.\<close>

lemma separate:
  assumes "heap_ok h" "ptrs h x \<subseteq> {..<gh_next h}" "copy x h = (y, h')" "a \<in> ptrs h' y"
  shows "view (write_cell a c h') x = view h x"
proof -
  have e: "extends h h'" "a \<ge> gh_next h" using copy_law [OF assms(1-3)] assms(4) by auto
  have "view h' x = view h x" "ptrs h' x = ptrs h x" using kept [OF e(1) assms(2)] by simp_all
  moreover have "view (write_cell a c h') x = view h' x"
    using e assms(2) \<open>ptrs h' x = ptrs h x\<close> by (intro conjunct1 [OF depends]) (auto simp: write_cell_def)
  ultimately show ?thesis by simp
qed

end

lemma extends_refl [simp]: "extends h h \<longleftrightarrow> heap_ok h"
  by (auto simp: extends_def)

lemma extends_trans: "extends h h1 \<Longrightarrow> extends h1 h2 \<Longrightarrow> extends h h2"
  by (auto simp: extends_def)

lemma extends_ok: "extends h h' \<Longrightarrow> heap_ok h'"
  by (simp add: extends_def)

lemma new_cell_extends:
  assumes "heap_ok h" "new_cell c h = (b, h')" "\<And>m. c = CellMap m \<Longrightarrow> gm_ok m"
  shows "extends h h' \<and> gh_cell h' b = Some c \<and> b = gh_next h \<and> gh_next h' = gh_next h + 1"
  using assms by (auto simp: new_cell_def extends_def heap_ok_def less_Suc_eq split: if_splits)

section \<open>Copies of parts\<close>

definition ptr_addrs :: "gheap \<Rightarrow> ptr \<Rightarrow> nat set" where
  "ptr_addrs h p = set_option p"

interpretation ptr: deep_copy copy_ptr ptr_addrs load
proof unfold_locales
  fix h x y h'
  assume h: "heap_ok h" "ptr_addrs h x \<subseteq> {..<gh_next h}" "copy_ptr x h = (y, h')"
  show "extends h h' \<and> load h' y = load h x \<and> ptr_addrs h' y \<subseteq> {gh_next h..<gh_next h'}"
  proof (cases "load h x")
    case None
    then have "y = None" "h' = h" using h(3) by (simp_all add: copy_ptr_def)
    with None h(1) show ?thesis by (simp add: ptr_addrs_def load_def [of _ None])
  next
    case (Some c)
    obtain b h1 where n: "new_cell c h = (b, h1)" by (cases "new_cell c h")
    have "c = CellMap m \<Longrightarrow> gm_ok m" for m
      using h(1) Some by (auto simp: heap_ok_def load_def split: option.splits)
    from new_cell_extends [OF h(1) n this] h(3) Some n show ?thesis
      by (auto simp: copy_ptr_def ptr_addrs_def load_def)
  qed
qed (auto simp: ptr_addrs_def load_def split: option.splits)

lemma fold_gm_put:
  "gm_ok (acc @ m) \<Longrightarrow> fold (\<lambda>(k, v). gm_put k v) m acc = acc @ m"
  by (induction m arbitrary: acc) (auto simp: gm_put_new)

interpretation map_ptr: deep_copy copy_map ptr_addrs
  "\<lambda>h p. case load h p of Some (CellMap m) \<Rightarrow> Some m | _ \<Rightarrow> None"
proof unfold_locales
  fix h x y h'
  assume h: "heap_ok h" "ptr_addrs h x \<subseteq> {..<gh_next h}" "copy_map x h = (y, h')"
  let ?v = "\<lambda>h p. case load h p of Some (CellMap m) \<Rightarrow> Some m | _ \<Rightarrow> None"
  show "extends h h' \<and> ?v h' y = ?v h x \<and> ptr_addrs h' y \<subseteq> {gh_next h..<gh_next h'}"
  proof (cases "\<exists>m. load h x = Some (CellMap m)")
    case False
    with h have "y = None" "h' = h" by (auto simp: copy_map_def split: option.splits cell.splits)
    with h(1) False show ?thesis by (auto simp: ptr_addrs_def load_def split: option.splits cell.splits)
  next
    case True
    then obtain m where m: "load h x = Some (CellMap m)" by blast
    then have ok: "gm_ok m" using h(1) by (auto simp: heap_ok_def load_def split: option.splits)
    then have f: "fold (\<lambda>(k, v). gm_put k v) m [] = m" using fold_gm_put [of "[]" m] by simp
    obtain b h1 where n: "new_cell (CellMap m) h = (b, h1)" by (cases "new_cell (CellMap m) h")
    from new_cell_extends [OF h(1) n] ok h(3) m n show ?thesis
      by (auto simp: copy_map_def f ptr_addrs_def load_def)
  qed
qed (auto simp: ptr_addrs_def load_def split: option.splits)

text \<open>Two parts one after the other, and a struct by its parts.\<close>

definition copy_then :: "('a \<Rightarrow> gheap \<Rightarrow> 'a \<times> gheap) \<Rightarrow> ('b \<Rightarrow> gheap \<Rightarrow> 'b \<times> gheap)
    \<Rightarrow> 'a \<times> 'b \<Rightarrow> gheap \<Rightarrow> ('a \<times> 'b) \<times> gheap" where
  "copy_then c d p h = (let (y1, h1) = c (fst p) h; (y2, h2) = d (snd p) h1 in ((y1, y2), h2))"

lemma deep_copy_then:
  assumes "deep_copy c p v" "deep_copy d q w"
  shows "deep_copy (copy_then c d) (\<lambda>h x. p h (fst x) \<union> q h (snd x)) (\<lambda>h x. (v h (fst x), w h (snd x)))"
proof
  fix h x y h'
  assume h: "heap_ok h" "p h (fst x) \<union> q h (snd x) \<subseteq> {..<gh_next h}" "copy_then c d x h = (y, h')"
  obtain y1 h1 where 1: "c (fst x) h = (y1, h1)" by (cases "c (fst x) h")
  obtain y2 h2 where 2: "d (snd x) h1 = (y2, h2)" by (cases "d (snd x) h1")
  have y: "y = (y1, y2)" "h' = h2" using h(3) 1 2 by (simp_all add: copy_then_def)
  note l1 = deep_copy.copy_law [OF assms(1) h(1) _ 1]
  have e1: "extends h h1" using l1 h(2) by simp
  have k: "w h1 (snd x) = w h (snd x)" "q h1 (snd x) = q h (snd x)"
    using deep_copy.kept [OF assms(2) e1, of "snd x"] h(2) by simp_all
  have n: "q h1 (snd x) \<subseteq> {..<gh_next h1}" using k(2) h(2) e1 by (auto simp: extends_def)
  note l2 = deep_copy.copy_law [OF assms(2) extends_ok [OF e1] n 2]
  have f: "extends h1 h2" "w h2 y2 = w h (snd x)" "q h2 y2 \<subseteq> {gh_next h1..<gh_next h2}" using l2 k by simp_all
  have g: "v h1 y1 = v h (fst x)" "p h1 y1 \<subseteq> {gh_next h..<gh_next h1}" using l1 h(2) by simp_all
  have "p h1 y1 \<subseteq> {..<gh_next h1}" using g(2) by auto
  with deep_copy.kept [OF assms(1) f(1)] have "v h2 y1 = v h (fst x)" "p h2 y1 \<subseteq> {gh_next h..<gh_next h1}"
    using g by simp_all
  moreover have "gh_next h \<le> gh_next h1" "gh_next h1 \<le> gh_next h2" using e1 f(1) by (simp_all add: extends_def)
  ultimately show "extends h h' \<and> (v h' (fst y), w h' (snd y)) = (v h (fst x), w h (snd x))
      \<and> p h' (fst y) \<union> q h' (snd y) \<subseteq> {gh_next h..<gh_next h'}"
    using extends_trans [OF e1 f(1)] f(2,3) unfolding y by fastforce
next
  fix h h' :: gheap and x
  assume "\<forall>a \<in> p h (fst x) \<union> q h (snd x). gh_cell h' a = gh_cell h a"
  then show "(v h' (fst x), w h' (snd x)) = (v h (fst x), w h (snd x))
      \<and> p h' (fst x) \<union> q h' (snd x) = p h (fst x) \<union> q h (snd x)"
    using deep_copy.depends [OF assms(1), of h "fst x" h'] deep_copy.depends [OF assms(2), of h "snd x" h'] by auto
qed

lemma deep_copy_struct:
  assumes "deep_copy c p v"
    and "\<And>x h. copy x h = (let (y, h') = c (parts x) h in (put y x, h'))"
    and "\<And>y x. parts (put y x) = y" "\<And>y x. rest (put y x) = rest x"
    and "\<And>h x. ptrs h x = p h (parts x)" "\<And>h x. view h x = build (v h (parts x)) (rest x)"
  shows "deep_copy copy ptrs view"
proof
  fix h x y h'
  assume h: "heap_ok h" "ptrs h x \<subseteq> {..<gh_next h}" "copy x h = (y, h')"
  obtain z h1 where z: "c (parts x) h = (z, h1)" by (cases "c (parts x) h")
  have "y = put z x" "h' = h1" using h(3) z by (simp_all add: assms(2))
  with deep_copy.copy_law [OF assms(1) h(1) _ z] h(2)
  show "extends h h' \<and> view h' y = view h x \<and> ptrs h' y \<subseteq> {gh_next h..<gh_next h'}"
    by (simp add: assms(3-6))
next
  fix h h' :: gheap and x
  assume "\<forall>a \<in> ptrs h x. gh_cell h' a = gh_cell h a"
  with deep_copy.depends [OF assms(1), of h "parts x" h'] show "view h' x = view h x \<and> ptrs h' x = ptrs h x"
    by (simp add: assms(5,6))
qed

text \<open>A pointer to a cell with pointers of its own.\<close>

definition cell_at :: "(cell \<Rightarrow> 'a option) \<Rightarrow> gheap \<Rightarrow> ptr \<Rightarrow> 'a option" where
  "cell_at get h p = Option.bind (load h p) get"

definition cell_ptrs :: "(cell \<Rightarrow> 'a option) \<Rightarrow> (gheap \<Rightarrow> 'a \<Rightarrow> nat set) \<Rightarrow> gheap \<Rightarrow> ptr \<Rightarrow> nat set" where
  "cell_ptrs get ptrs h p = set_option p \<union> (case cell_at get h p of None \<Rightarrow> {} | Some x \<Rightarrow> ptrs h x)"

lemma write_new_extends:
  assumes "extends h h'" "gh_next h \<le> b" "b < gh_next h'" "\<And>m. c = CellMap m \<Longrightarrow> gm_ok m"
  shows "extends h (write_cell b c h')"
  using assms by (auto simp: extends_def heap_ok_def write_cell_def)

lemma deep_copy_cell:
  assumes "deep_copy copy ptrs view" and get: "\<And>x. get (mk x) = Some x" "\<And>m. get (CellMap m) = None"
  shows "deep_copy (copy_cell get mk copy) (cell_ptrs get ptrs) (\<lambda>h p. map_option (view h) (cell_at get h p))"
proof
  fix h p q h'
  assume h: "heap_ok h" "cell_ptrs get ptrs h p \<subseteq> {..<gh_next h}" "copy_cell get mk copy p h = (q, h')"
  show "extends h h' \<and> map_option (view h') (cell_at get h' q) = map_option (view h) (cell_at get h p)
      \<and> cell_ptrs get ptrs h' q \<subseteq> {gh_next h..<gh_next h'}"
  proof (cases "cell_at get h p")
    case None
    then have "q = None" "h' = h" using h(3) by (auto simp: copy_cell_def cell_at_def split: option.splits)
    with None h(1) show ?thesis by (simp add: cell_ptrs_def cell_at_def [of _ _ None] load_def)
  next
    case (Some x)
    then obtain c where c: "load h p = Some c" "get c = Some x" by (auto simp: cell_at_def bind_eq_Some_conv)
    obtain b h1 where n: "new_cell c h = (b, h1)" by (cases "new_cell c h")
    obtain y h2 where y: "copy x h1 = (y, h2)" by (cases "copy x h1")
    have q: "q = Some b" "h' = write_cell b (mk y) h2" using h(3) c n y by (simp_all add: copy_cell_def)
    have m: "c \<noteq> CellMap m" "mk y \<noteq> CellMap m" for m using c(2) get by (metis option.distinct(1))+
    have e1: "extends h h1" "b = gh_next h" "gh_next h1 = gh_next h + 1" using new_cell_extends [OF h(1) n] m by auto
    have px: "ptrs h x \<subseteq> {..<gh_next h}" using h(2) Some by (simp add: cell_ptrs_def)
    note k = deep_copy.kept [OF assms(1) e1(1) px]
    have px1: "ptrs h1 x \<subseteq> {..<gh_next h1}" using k px e1(3) by auto
    note l = deep_copy.copy_law [OF assms(1) extends_ok [OF e1(1)] px1 y]
    have e2: "extends h1 h2" "gh_next h1 \<le> gh_next h2" using l by (auto simp: extends_def)
    have e3: "extends h h'" unfolding q
      by (rule write_new_extends [OF extends_trans [OF e1(1) e2(1)]]) (use e1 e2 m in auto)
    have "view h' y = view h2 y \<and> ptrs h' y = ptrs h2 y"
      by (rule deep_copy.depends [OF assms(1)]) (use l e1 in \<open>auto simp: q write_cell_def\<close>)
    moreover have "cell_at get h' q = Some y" by (simp add: q cell_at_def load_def write_cell_def get)
    ultimately show ?thesis using e1 e2 e3 k l Some by (auto simp: cell_ptrs_def q write_cell_def)
  qed
next
  fix h h' :: gheap and p
  assume a: "\<forall>a \<in> cell_ptrs get ptrs h p. gh_cell h' a = gh_cell h a"
  then have l: "cell_at get h' p = cell_at get h p"
    by (auto simp: cell_ptrs_def cell_at_def load_def split: option.splits)
  with a deep_copy.depends [OF assms(1), of h _ h']
  show "map_option (view h') (cell_at get h' p) = map_option (view h) (cell_at get h p)
      \<and> cell_ptrs get ptrs h' p = cell_ptrs get ptrs h p"
    by (cases "cell_at get h p") (simp_all add: cell_ptrs_def)
qed

section \<open>The structs\<close>

definition as_str :: "cell option \<Rightarrow> string option" where
  "as_str c = (case c of Some (CellStr s) \<Rightarrow> Some s | _ \<Rightarrow> None)"

definition as_int :: "cell option \<Rightarrow> int option" where
  "as_int c = (case c of Some (CellInt i) \<Rightarrow> Some i | _ \<Rightarrow> None)"

definition as_bool :: "cell option \<Rightarrow> bool option" where
  "as_bool c = (case c of Some (CellBool b) \<Rightarrow> Some b | _ \<Rightarrow> None)"

definition as_log :: "cell option \<Rightarrow> LogEntry option" where
  "as_log c = (case c of Some (CellLog e) \<Rightarrow> Some e | _ \<Rightarrow> None)"

definition as_dhcp :: "cell option \<Rightarrow> DhcpStatusSpec option" where
  "as_dhcp c = (case c of Some (CellDhcp d) \<Rightarrow> Some d | _ \<Rightarrow> None)"

definition as_conds :: "cell option \<Rightarrow> Condition list" where
  "as_conds c = (case c of Some (CellConds cs) \<Rightarrow> cs | _ \<Rightarrow> [])"

definition sync_view :: "gheap \<Rightarrow> sync_p \<Rightarrow> SyncRedfishstatusSpec" where
  "sync_view h x = (yp_val x)\<lparr>sync_DefaultClusterName := as_str (load h (yp_DefaultClusterName x))\<rparr>"

interpretation sync: deep_copy SyncRedfishstatusSpec_DeepCopyInto "\<lambda>h x. ptr_addrs h (yp_DefaultClusterName x)" sync_view
  by (rule deep_copy_struct [OF ptr.deep_copy_axioms, where parts = yp_DefaultClusterName
      and put = "\<lambda>p x. x\<lparr>yp_DefaultClusterName := p\<rparr>" and rest = yp_val
      and build = "\<lambda>c r. r\<lparr>sync_DefaultClusterName := as_str c\<rparr>"])
    (simp_all add: SyncRedfishstatusSpec_DeepCopyInto_def sync_view_def)

definition feature_ptrs :: "gheap \<Rightarrow> feature_p \<Rightarrow> nat set" where
  "feature_ptrs h x = ptr_addrs h (yp_DefaultClusterName (fp_SyncRedfishstatus x))"

definition feature_view :: "gheap \<Rightarrow> feature_p \<Rightarrow> FeatureSpec" where
  "feature_view h x = (fp_val x)\<lparr>ft_SyncRedfishstatus := sync_view h (fp_SyncRedfishstatus x)\<rparr>"

interpretation feature: deep_copy FeatureSpec_DeepCopyInto feature_ptrs feature_view
  by (rule deep_copy_struct [OF sync.deep_copy_axioms, where parts = fp_SyncRedfishstatus
      and put = "\<lambda>y x. x\<lparr>fp_SyncRedfishstatus := y\<rparr>" and rest = fp_val
      and build = "\<lambda>s r. r\<lparr>ft_SyncRedfishstatus := s\<rparr>"])
    (simp_all add: FeatureSpec_DeepCopyInto_def feature_view_def feature_ptrs_def)

lemma feature_of_simps [simp]: "feature_of (CellFeature f) = Some f" "feature_of (CellMap m) = None"
  by (simp_all add: feature_of_def)

interpretation feature_ptr: deep_copy copy_feature "cell_ptrs feature_of feature_ptrs"
  "\<lambda>h p. map_option (feature_view h) (cell_at feature_of h p)"
  unfolding copy_feature_def by (rule deep_copy_cell [OF feature.deep_copy_axioms]) simp_all

lemmas two_ptrs = deep_copy_then [OF ptr.deep_copy_axioms ptr.deep_copy_axioms]

lemmas three_ptrs = deep_copy_then [OF ptr.deep_copy_axioms two_ptrs]

definition ipv4_ptrs :: "gheap \<Rightarrow> ipv4_p \<Rightarrow> nat set" where
  "ipv4_ptrs h x = ptr_addrs h (vp_Gateway x) \<union> ptr_addrs h (vp_Dns x)"

definition ipv4_view :: "gheap \<Rightarrow> ipv4_p \<Rightarrow> IPv4SubnetSpec" where
  "ipv4_view h x = (vp_val x)\<lparr>v4_Gateway := as_str (load h (vp_Gateway x)), v4_Dns := as_str (load h (vp_Dns x))\<rparr>"

interpretation ipv4: deep_copy IPv4SubnetSpec_DeepCopyInto ipv4_ptrs ipv4_view
  by (rule deep_copy_struct [OF two_ptrs, where parts = "\<lambda>x. (vp_Gateway x, vp_Dns x)"
      and put = "\<lambda>(p, q) x. x\<lparr>vp_Gateway := p, vp_Dns := q\<rparr>" and rest = vp_val
      and build = "\<lambda>(p, q) r. r\<lparr>v4_Gateway := as_str p, v4_Dns := as_str q\<rparr>"])
    (auto simp: IPv4SubnetSpec_DeepCopyInto_def copy_then_def ipv4_view_def ipv4_ptrs_def split: prod.splits)

definition interface_view :: "gheap \<Rightarrow> interface_p \<Rightarrow> InterfaceSpec" where
  "interface_view h x = (ip_val x)\<lparr>if_VlanID := as_int (load h (ip_VlanID x))\<rparr>"

interpretation interface: deep_copy InterfaceSpec_DeepCopyInto "\<lambda>h x. ptr_addrs h (ip_VlanID x)" interface_view
  by (rule deep_copy_struct [OF ptr.deep_copy_axioms, where parts = ip_VlanID and put = "\<lambda>p x. x\<lparr>ip_VlanID := p\<rparr>"
      and rest = ip_val and build = "\<lambda>c r. r\<lparr>if_VlanID := as_int c\<rparr>"])
    (simp_all add: InterfaceSpec_DeepCopyInto_def interface_view_def)

definition subnet_spec_ptrs :: "gheap \<Rightarrow> subnet_spec_p \<Rightarrow> nat set" where
  "subnet_spec_ptrs h x = ipv4_ptrs h (tp_IPv4Subnet x) \<union> (ptr_addrs h (ip_VlanID (tp_Interface x)) \<union> cell_ptrs feature_of feature_ptrs h (tp_Feature x))"

definition subnet_spec_view :: "gheap \<Rightarrow> subnet_spec_p \<Rightarrow> SubnetSpec" where
  "subnet_spec_view h x = \<lparr>sp_IPv4Subnet = ipv4_view h (tp_IPv4Subnet x), sp_Interface = interface_view h (tp_Interface x),
     sp_Feature = map_option (feature_view h) (cell_at feature_of h (tp_Feature x))\<rparr>"

interpretation subnet_spec: deep_copy SubnetSpec_DeepCopyInto subnet_spec_ptrs subnet_spec_view
  by (rule deep_copy_struct [OF deep_copy_then [OF ipv4.deep_copy_axioms
        deep_copy_then [OF interface.deep_copy_axioms feature_ptr.deep_copy_axioms]],
      where parts = "\<lambda>x. (tp_IPv4Subnet x, tp_Interface x, tp_Feature x)"
      and put = "\<lambda>(v, i, f) x. x\<lparr>tp_IPv4Subnet := v, tp_Interface := i, tp_Feature := f\<rparr>" and rest = "\<lambda>_. ()"
      and build = "\<lambda>(v, i, f) _. \<lparr>sp_IPv4Subnet = v, sp_Interface = i, sp_Feature = f\<rparr>"])
    (auto simp: SubnetSpec_DeepCopyInto_def copy_then_def subnet_spec_view_def subnet_spec_ptrs_def split: prod.splits)

definition subnet_status_ptrs :: "gheap \<Rightarrow> subnet_status_p \<Rightarrow> nat set" where
  "subnet_status_ptrs h x = ptr_addrs h (up_DhcpStatus x) \<union> (ptr_addrs h (up_HostNode x) \<union> ptr_addrs h (up_Conditions x))"

definition subnet_status_view :: "gheap \<Rightarrow> subnet_status_p \<Rightarrow> SubnetStatus" where
  "subnet_status_view h x = (up_val x)\<lparr>ss_DhcpStatus := as_dhcp (load h (up_DhcpStatus x)),
     ss_HostNode := as_str (load h (up_HostNode x)), ss_Conditions := as_conds (load h (up_Conditions x))\<rparr>"

interpretation subnet_status: deep_copy SubnetStatus_DeepCopyInto subnet_status_ptrs subnet_status_view
  by (rule deep_copy_struct [OF three_ptrs, where parts = "\<lambda>x. (up_DhcpStatus x, up_HostNode x, up_Conditions x)"
      and put = "\<lambda>(d, n, c) x. x\<lparr>up_DhcpStatus := d, up_HostNode := n, up_Conditions := c\<rparr>" and rest = up_val
      and build = "\<lambda>(d, n, c) r. r\<lparr>ss_DhcpStatus := as_dhcp d, ss_HostNode := as_str n, ss_Conditions := as_conds c\<rparr>"])
    (auto simp: SubnetStatus_DeepCopyInto_def copy_then_def subnet_status_view_def subnet_status_ptrs_def split: prod.splits)

definition subnet_ptrs :: "gheap \<Rightarrow> subnet_p \<Rightarrow> nat set" where
  "subnet_ptrs h x = subnet_spec_ptrs h (np_Spec x) \<union> subnet_status_ptrs h (np_Status x)"

definition subnet_view :: "gheap \<Rightarrow> subnet_p \<Rightarrow> Subnet" where
  "subnet_view h x = \<lparr>sn_Meta = np_Meta x, sn_Spec = subnet_spec_view h (np_Spec x),
     sn_Status = subnet_status_view h (np_Status x)\<rparr>"

interpretation subnet: deep_copy Subnet_DeepCopyInto subnet_ptrs subnet_view
  by (rule deep_copy_struct [OF deep_copy_then [OF subnet_spec.deep_copy_axioms subnet_status.deep_copy_axioms],
      where parts = "\<lambda>x. (np_Spec x, np_Status x)" and put = "\<lambda>(s, t) x. x\<lparr>np_Spec := s, np_Status := t\<rparr>"
      and rest = np_Meta and build = "\<lambda>(s, t) m. \<lparr>sn_Meta = m, sn_Spec = s, sn_Status = t\<rparr>"])
    (auto simp: Subnet_DeepCopyInto_def copy_then_def subnet_view_def subnet_ptrs_def split: prod.splits)

definition basic_ptrs :: "gheap \<Rightarrow> basic_p \<Rightarrow> nat set" where
  "basic_ptrs h x = ptr_addrs h (bp_DhcpExpireTime x) \<union> (ptr_addrs h (bp_SubnetName x) \<union> ptr_addrs h (bp_Hostname x))"

definition basic_view :: "gheap \<Rightarrow> basic_p \<Rightarrow> BasicInfo" where
  "basic_view h x = (bp_val x)\<lparr>b_DhcpExpireTime := as_str (load h (bp_DhcpExpireTime x)),
     b_SubnetName := as_str (load h (bp_SubnetName x)), b_Hostname := as_str (load h (bp_Hostname x))\<rparr>"

interpretation basic: deep_copy BasicInfo_DeepCopyInto basic_ptrs basic_view
  by (rule deep_copy_struct [OF three_ptrs, where parts = "\<lambda>x. (bp_DhcpExpireTime x, bp_SubnetName x, bp_Hostname x)"
      and put = "\<lambda>(p, q, r) x. x\<lparr>bp_DhcpExpireTime := p, bp_SubnetName := q, bp_Hostname := r\<rparr>" and rest = bp_val
      and build = "\<lambda>(p, q, r) x. x\<lparr>b_DhcpExpireTime := as_str p, b_SubnetName := as_str q, b_Hostname := as_str r\<rparr>"])
    (auto simp: BasicInfo_DeepCopyInto_def copy_then_def basic_view_def basic_ptrs_def split: prod.splits)

definition log_ptrs :: "gheap \<Rightarrow> log_p \<Rightarrow> nat set" where
  "log_ptrs h x = ptr_addrs h (lp_LastestLog x) \<union> ptr_addrs h (lp_LastestWarningLog x)"

definition log_view :: "gheap \<Rightarrow> log_p \<Rightarrow> LogStruct" where
  "log_view h x = (lp_val x)\<lparr>l_LastestLog := as_log (load h (lp_LastestLog x)),
     l_LastestWarningLog := as_log (load h (lp_LastestWarningLog x))\<rparr>"

interpretation logs: deep_copy LogStruct_DeepCopyInto log_ptrs log_view
  by (rule deep_copy_struct [OF two_ptrs, where parts = "\<lambda>x. (lp_LastestLog x, lp_LastestWarningLog x)"
      and put = "\<lambda>(p, q) x. x\<lparr>lp_LastestLog := p, lp_LastestWarningLog := q\<rparr>" and rest = lp_val
      and build = "\<lambda>(p, q) r. r\<lparr>l_LastestLog := as_log p, l_LastestWarningLog := as_log q\<rparr>"])
    (auto simp: LogStruct_DeepCopyInto_def copy_then_def log_view_def log_ptrs_def split: prod.splits)

definition map_at :: "gheap \<Rightarrow> ptr \<Rightarrow> (string, string) gomap option" where
  "map_at h p = (case load h p of Some (CellMap m) \<Rightarrow> Some m | _ \<Rightarrow> None)"

lemmas map_copy = map_ptr.deep_copy_axioms [folded map_at_def]

definition nil_map :: "(string, string) gomap option \<Rightarrow> (string, string) gomap" where
  "nil_map m = (case m of None \<Rightarrow> [] | Some l \<Rightarrow> l)"

definition redfish_ptrs :: "gheap \<Rightarrow> redfish_p \<Rightarrow> nat set" where
  "redfish_ptrs h x = basic_ptrs h (rp_Basic x) \<union> (ptr_addrs h (rp_Info x) \<union> log_ptrs h (rp_Log x))"

definition redfish_view :: "gheap \<Rightarrow> redfish_p \<Rightarrow> RedfishStatusStatus" where
  "redfish_view h x = (rp_val x)\<lparr>r_Basic := basic_view h (rp_Basic x), r_Info := nil_map (map_at h (rp_Info x)),
     r_Log := log_view h (rp_Log x)\<rparr>"

interpretation redfish: deep_copy RedfishStatusStatus_DeepCopyInto redfish_ptrs redfish_view
  by (rule deep_copy_struct [OF deep_copy_then [OF basic.deep_copy_axioms deep_copy_then [OF map_copy logs.deep_copy_axioms]],
      where parts = "\<lambda>x. (rp_Basic x, rp_Info x, rp_Log x)"
      and put = "\<lambda>(b, i, l) x. x\<lparr>rp_Basic := b, rp_Info := i, rp_Log := l\<rparr>" and rest = rp_val
      and build = "\<lambda>(b, i, l) r. r\<lparr>r_Basic := b, r_Info := nil_map i, r_Log := l\<rparr>"])
    (auto simp: RedfishStatusStatus_DeepCopyInto_def copy_then_def redfish_view_def redfish_ptrs_def split: prod.splits)

definition ssh_basic_view :: "gheap \<Rightarrow> ssh_basic_p \<Rightarrow> SSHBasicInfo" where
  "ssh_basic_view h x = (hp_val x)\<lparr>sb_SubnetName := as_str (load h (hp_SubnetName x))\<rparr>"

interpretation ssh_basic: deep_copy SSHBasicInfo_DeepCopyInto "\<lambda>h x. ptr_addrs h (hp_SubnetName x)" ssh_basic_view
  by (rule deep_copy_struct [OF ptr.deep_copy_axioms, where parts = hp_SubnetName and put = "\<lambda>p x. x\<lparr>hp_SubnetName := p\<rparr>"
      and rest = hp_val and build = "\<lambda>c r. r\<lparr>sb_SubnetName := as_str c\<rparr>"])
    (simp_all add: SSHBasicInfo_DeepCopyInto_def ssh_basic_view_def)

definition ssh_ptrs :: "gheap \<Rightarrow> ssh_p \<Rightarrow> nat set" where
  "ssh_ptrs h x = ptr_addrs h (hp_SubnetName (xp_Basic x)) \<union> ptr_addrs h (xp_Info x)"

definition ssh_status_view :: "gheap \<Rightarrow> ssh_p \<Rightarrow> SSHStatusStatus" where
  "ssh_status_view h x = (xp_val x)\<lparr>s_Basic := ssh_basic_view h (xp_Basic x), s_Info := nil_map (map_at h (xp_Info x))\<rparr>"

interpretation ssh: deep_copy SSHStatusStatus_DeepCopyInto ssh_ptrs ssh_status_view
  by (rule deep_copy_struct [OF deep_copy_then [OF ssh_basic.deep_copy_axioms map_copy],
      where parts = "\<lambda>x. (xp_Basic x, xp_Info x)" and put = "\<lambda>(b, i) x. x\<lparr>xp_Basic := b, xp_Info := i\<rparr>"
      and rest = xp_val and build = "\<lambda>(b, i) r. r\<lparr>s_Basic := b, s_Info := nil_map i\<rparr>"])
    (auto simp: SSHStatusStatus_DeepCopyInto_def copy_then_def ssh_status_view_def ssh_ptrs_def split: prod.splits)

definition redfish_object_view :: "gheap \<Rightarrow> redfish_object_p \<Rightarrow> RedfishStatus" where
  "redfish_object_view h x = \<lparr>rf_Meta = rq_Meta x, rf_Status = redfish_view h (rq_Status x)\<rparr>"

interpretation redfish_object: deep_copy RedfishStatus_DeepCopyInto "\<lambda>h x. redfish_ptrs h (rq_Status x)" redfish_object_view
  by (rule deep_copy_struct [OF redfish.deep_copy_axioms, where parts = rq_Status and put = "\<lambda>s x. x\<lparr>rq_Status := s\<rparr>"
      and rest = rq_Meta and build = "\<lambda>s m. \<lparr>rf_Meta = m, rf_Status = s\<rparr>"])
    (simp_all add: RedfishStatus_DeepCopyInto_def redfish_object_view_def)

definition ssh_object_view :: "gheap \<Rightarrow> ssh_object_p \<Rightarrow> SSHStatus" where
  "ssh_object_view h x = \<lparr>sh_Meta = xq_Meta x, sh_Status = ssh_status_view h (xq_Status x)\<rparr>"

interpretation ssh_object: deep_copy SSHStatus_DeepCopyInto "\<lambda>h x. ssh_ptrs h (xq_Status x)" ssh_object_view
  by (rule deep_copy_struct [OF ssh.deep_copy_axioms, where parts = xq_Status and put = "\<lambda>s x. x\<lparr>xq_Status := s\<rparr>"
      and rest = xq_Meta and build = "\<lambda>s m. \<lparr>sh_Meta = m, sh_Status = s\<rparr>"])
    (simp_all add: SSHStatus_DeepCopyInto_def ssh_object_view_def)

text \<open>The nil check changes nothing of this.\<close>

lemma deep_copy_nil:
  assumes "deep_copy c p v"
  shows "deep_copy (DeepCopy_nil c) (\<lambda>h x. case x of None \<Rightarrow> {} | Some y \<Rightarrow> p h y) (\<lambda>h. map_option (v h))"
proof
  fix h x y h'
  assume h: "heap_ok h" "(case x of None \<Rightarrow> {} | Some y \<Rightarrow> p h y) \<subseteq> {..<gh_next h}" "DeepCopy_nil c x h = (y, h')"
  show "extends h h' \<and> map_option (v h') y = map_option (v h) x
      \<and> (case y of None \<Rightarrow> {} | Some z \<Rightarrow> p h' z) \<subseteq> {gh_next h..<gh_next h'}"
  proof (cases x)
    case (Some x0)
    obtain z h1 where z: "c x0 h = (z, h1)" by (cases "c x0 h")
    with deep_copy.copy_law [OF assms h(1) _ z] h Some show ?thesis by (auto simp: DeepCopy_nil_def)
  qed (use h in \<open>auto simp: DeepCopy_nil_def\<close>)
next
  fix h h' :: gheap and x
  assume "\<forall>a \<in> (case x of None \<Rightarrow> {} | Some y \<Rightarrow> p h y). gh_cell h' a = gh_cell h a"
  with deep_copy.depends [OF assms, of h _ h']
  show "map_option (v h') x = map_option (v h) x
      \<and> (case x of None \<Rightarrow> {} | Some y \<Rightarrow> p h' y) = (case x of None \<Rightarrow> {} | Some y \<Rightarrow> p h y)"
    by (cases x) auto
qed

definition object_ptrs :: "(gheap \<Rightarrow> 'a \<Rightarrow> nat set) \<Rightarrow> gheap \<Rightarrow> 'a option \<Rightarrow> nat set" where
  "object_ptrs p h x = (case x of None \<Rightarrow> {} | Some y \<Rightarrow> p h y)"

lemma DeepCopy_independent:
  assumes "deep_copy c p v"
  shows "deep_copy (DeepCopy_nil c) (object_ptrs p) (\<lambda>h. map_option (v h))"
  using deep_copy_nil [OF assms] unfolding object_ptrs_def .

definition endpoint_ptrs :: "gheap \<Rightarrow> endpoint_p \<Rightarrow> nat set" where
  "endpoint_ptrs h x = ptr_addrs h (ep_ClusterName x) \<union> ptr_addrs h (ep_SecretName x) \<union> ptr_addrs h (ep_SecretNamespace x)
     \<union> ptr_addrs h (ep_HTTPS x) \<union> ptr_addrs h (ep_Port x) \<union> ptr_addrs h (ep_Type x)"

definition endpoint_view :: "gheap \<Rightarrow> endpoint_p \<Rightarrow> HostEndpointSpec" where
  "endpoint_view h x = (ep_val x)\<lparr>he_ClusterName := as_str (load h (ep_ClusterName x)),
     he_SecretName := as_str (load h (ep_SecretName x)), he_SecretNamespace := as_str (load h (ep_SecretNamespace x)),
     he_HTTPS := as_bool (load h (ep_HTTPS x)), he_Port := as_int (load h (ep_Port x)), he_Type := as_str (load h (ep_Type x))\<rparr>"

section \<open>Independence\<close>

text \<open>A copy has the value of the original, which keeps it whatever is written through the copy.\<close>

definition independent :: "('a \<Rightarrow> gheap \<Rightarrow> 'a \<times> gheap) \<Rightarrow> (gheap \<Rightarrow> 'a \<Rightarrow> nat set) \<Rightarrow> (gheap \<Rightarrow> 'a \<Rightarrow> 'v) \<Rightarrow> bool" where
  "independent copy ptrs view \<longleftrightarrow>
     (\<forall>h x y h'. heap_ok h \<longrightarrow> ptrs h x \<subseteq> {..<gh_next h} \<longrightarrow> copy x h = (y, h') \<longrightarrow>
        view h' y = view h x \<and> view h' x = view h x \<and> (\<forall>a \<in> ptrs h' y. \<forall>c. view (write_cell a c h') x = view h x))"

lemma deep_copy_independent:
  assumes "deep_copy copy ptrs view"
  shows "independent copy ptrs view"
  unfolding independent_def
proof (intro allI impI)
  fix h x y h'
  assume h: "heap_ok h" "ptrs h x \<subseteq> {..<gh_next h}" "copy x h = (y, h')"
  from deep_copy.copy_law [OF assms h] have "extends h h'" "view h' y = view h x" by simp_all
  with deep_copy.kept [OF assms _ h(2)] deep_copy.separate [OF assms h]
  show "view h' y = view h x \<and> view h' x = view h x \<and> (\<forall>a \<in> ptrs h' y. \<forall>c. view (write_cell a c h') x = view h x)"
    by simp
qed

lemma independentD:
  "independent copy ptrs view \<Longrightarrow> heap_ok h \<Longrightarrow> ptrs h x \<subseteq> {..<gh_next h} \<Longrightarrow> copy x h = (y, h') \<Longrightarrow>
   a \<in> ptrs h' y \<Longrightarrow> view (write_cell a c h') x = view h x"
  unfolding independent_def by blast

text \<open>An endpoint whose cluster name is behind a pointer.\<close>

definition named_endpoint :: endpoint_p where
  "named_endpoint = \<lparr>ep_val = \<lparr>he_ClusterName = None, he_IPAddr = ''10.0.0.5'', he_SecretName = None, he_SecretNamespace = None,
       he_HTTPS = None, he_Port = None, he_Type = None\<rparr>,
     ep_ClusterName = Some 0, ep_SecretName = None, ep_SecretNamespace = None, ep_HTTPS = None, ep_Port = None, ep_Type = None\<rparr>"

lemma endpoint_copy_shares:
  "\<not> independent HostEndpointSpec_DeepCopyInto endpoint_ptrs endpoint_view"
proof
  define h where "h = \<lparr>gh_next = 1, gh_cell = [0 \<mapsto> CellStr ''old'']\<rparr>"
  assume i: "independent HostEndpointSpec_DeepCopyInto endpoint_ptrs endpoint_view"
  have h: "heap_ok h" by (simp add: heap_ok_def h_def)
  have p: "endpoint_ptrs h named_endpoint = {0}" by (simp add: endpoint_ptrs_def ptr_addrs_def named_endpoint_def)
  have l: "endpoint_ptrs h named_endpoint \<subseteq> {..<gh_next h}" "0 \<in> endpoint_ptrs h named_endpoint"
    unfolding p by (simp_all add: h_def)
  have c: "HostEndpointSpec_DeepCopyInto named_endpoint h = (named_endpoint, h)"
    by (simp add: HostEndpointSpec_DeepCopyInto_def copy_ptr_def load_def named_endpoint_def)
  have "he_ClusterName (endpoint_view (write_cell 0 (CellStr ''new'') h) named_endpoint) = he_ClusterName (endpoint_view h named_endpoint)"
    by (simp only: independentD [OF i h l(1) c l(2)])
  then show False by (simp add: endpoint_view_def named_endpoint_def write_cell_def load_def as_str_def h_def)
qed

end
