(* ===== verification/DeepCopyLists.thy ===== *)
theory DeepCopyLists
  imports DeepCopy
begin

text \<open>
  The deep copies of lists of custom resources, of the structs without pointers, and the \<open>DeepCopy\<close>
  and \<open>DeepCopyObject\<close> methods of all of them. \<open>ListMeta\<close> belongs to the Kubernetes library and is a value.
\<close>

section \<open>Structs without pointers\<close>

definition BindingIpSpec_DeepCopyInto :: "BindingIpSpec \<Rightarrow> gheap \<Rightarrow> BindingIpSpec \<times> gheap" where
  "BindingIpSpec_DeepCopyInto x h = (x, h)"

definition BindingIpStatus_DeepCopyInto :: "BindingIpStatus \<Rightarrow> gheap \<Rightarrow> BindingIpStatus \<times> gheap" where
  "BindingIpStatus_DeepCopyInto x h = (x, h)"

definition HostOperationSpec_DeepCopyInto :: "HostOperationSpec \<Rightarrow> gheap \<Rightarrow> HostOperationSpec \<times> gheap" where
  "HostOperationSpec_DeepCopyInto x h = (x, h)"

definition HostOperationStatus_DeepCopyInto :: "HostOperationStatus \<Rightarrow> gheap \<Rightarrow> HostOperationStatus \<times> gheap" where
  "HostOperationStatus_DeepCopyInto x h = (x, h)"

definition DhcpStatusSpec_DeepCopyInto :: "DhcpStatusSpec \<Rightarrow> gheap \<Rightarrow> DhcpStatusSpec \<times> gheap" where
  "DhcpStatusSpec_DeepCopyInto x h = (x, h)"

definition LogEntry_DeepCopyInto :: "LogEntry \<Rightarrow> gheap \<Rightarrow> LogEntry \<times> gheap" where
  "LogEntry_DeepCopyInto x h = (x, h)"

definition BindingIp_DeepCopyInto :: "BindingIp \<Rightarrow> gheap \<Rightarrow> BindingIp \<times> gheap" where
  "BindingIp_DeepCopyInto x h = (\<lparr>bi_Meta = bi_Meta x, bi_Spec = bi_Spec x, bi_Status = bi_Status x\<rparr>, h)"

definition HostOperation_DeepCopyInto :: "HostOperation \<Rightarrow> gheap \<Rightarrow> HostOperation \<times> gheap" where
  "HostOperation_DeepCopyInto x h = (\<lparr>ho_Meta = ho_Meta x, ho_Spec = ho_Spec x, ho_Status = ho_Status x\<rparr>, h)"

section \<open>Lists\<close>

text \<open>The loop over the items: each is copied into its place of the new array.\<close>

primrec copy_items :: "('a \<Rightarrow> gheap \<Rightarrow> 'a \<times> gheap) \<Rightarrow> 'a list \<Rightarrow> gheap \<Rightarrow> 'a list \<times> gheap" where
  "copy_items deepCopyInto [] h = ([], h)"
| "copy_items deepCopyInto (x # xs) h =
     (let (y, h1) = deepCopyInto x h; (ys, h2) = copy_items deepCopyInto xs h1 in (y # ys, h2))"

record 'm list_p =
  lq_Meta :: 'm
  lq_Items :: ptr

definition subnets_of :: "cell \<Rightarrow> subnet_p list option" where
  "subnets_of c = (case c of CellSubnets xs \<Rightarrow> Some xs | _ \<Rightarrow> None)"

definition redfishes_of :: "cell \<Rightarrow> redfish_object_p list option" where
  "redfishes_of c = (case c of CellRedfishStatuses xs \<Rightarrow> Some xs | _ \<Rightarrow> None)"

definition sshs_of :: "cell \<Rightarrow> ssh_object_p list option" where
  "sshs_of c = (case c of CellSSHStatuses xs \<Rightarrow> Some xs | _ \<Rightarrow> None)"

definition endpoints_of :: "cell \<Rightarrow> endpoint_object_p list option" where
  "endpoints_of c = (case c of CellHostEndpoints xs \<Rightarrow> Some xs | _ \<Rightarrow> None)"

definition bindings_of :: "cell \<Rightarrow> BindingIp list option" where
  "bindings_of c = (case c of CellBindingIps xs \<Rightarrow> Some xs | _ \<Rightarrow> None)"

definition operations_of :: "cell \<Rightarrow> HostOperation list option" where
  "operations_of c = (case c of CellHostOperations xs \<Rightarrow> Some xs | _ \<Rightarrow> None)"

lemma items_of_simps [simp]:
  "subnets_of (CellSubnets a) = Some a" "subnets_of (CellMap m) = None"
  "redfishes_of (CellRedfishStatuses b) = Some b" "redfishes_of (CellMap m) = None"
  "sshs_of (CellSSHStatuses c) = Some c" "sshs_of (CellMap m) = None"
  "endpoints_of (CellHostEndpoints d) = Some d" "endpoints_of (CellMap m) = None"
  "bindings_of (CellBindingIps e) = Some e" "bindings_of (CellMap m) = None"
  "operations_of (CellHostOperations f) = Some f" "operations_of (CellMap m) = None"
  by (simp_all add: subnets_of_def redfishes_of_def sshs_of_def endpoints_of_def bindings_of_def operations_of_def)

definition SubnetList_DeepCopyInto :: "'m list_p \<Rightarrow> gheap \<Rightarrow> 'm list_p \<times> gheap" where
  "SubnetList_DeepCopyInto x h =
     (let (p, h1) = copy_cell subnets_of CellSubnets (copy_items Subnet_DeepCopyInto) (lq_Items x) h in (x\<lparr>lq_Items := p\<rparr>, h1))"

definition RedfishStatusList_DeepCopyInto :: "'m list_p \<Rightarrow> gheap \<Rightarrow> 'm list_p \<times> gheap" where
  "RedfishStatusList_DeepCopyInto x h =
     (let (p, h1) = copy_cell redfishes_of CellRedfishStatuses (copy_items RedfishStatus_DeepCopyInto) (lq_Items x) h in (x\<lparr>lq_Items := p\<rparr>, h1))"

definition SSHStatusList_DeepCopyInto :: "'m list_p \<Rightarrow> gheap \<Rightarrow> 'm list_p \<times> gheap" where
  "SSHStatusList_DeepCopyInto x h =
     (let (p, h1) = copy_cell sshs_of CellSSHStatuses (copy_items SSHStatus_DeepCopyInto) (lq_Items x) h in (x\<lparr>lq_Items := p\<rparr>, h1))"

definition HostEndpointList_DeepCopyInto :: "'m list_p \<Rightarrow> gheap \<Rightarrow> 'm list_p \<times> gheap" where
  "HostEndpointList_DeepCopyInto x h =
     (let (p, h1) = copy_cell endpoints_of CellHostEndpoints (copy_items HostEndpoint_DeepCopyInto) (lq_Items x) h in (x\<lparr>lq_Items := p\<rparr>, h1))"

definition BindingIpList_DeepCopyInto :: "'m list_p \<Rightarrow> gheap \<Rightarrow> 'm list_p \<times> gheap" where
  "BindingIpList_DeepCopyInto x h =
     (let (p, h1) = copy_cell bindings_of CellBindingIps (copy_items BindingIp_DeepCopyInto) (lq_Items x) h in (x\<lparr>lq_Items := p\<rparr>, h1))"

definition HostOperationList_DeepCopyInto :: "'m list_p \<Rightarrow> gheap \<Rightarrow> 'm list_p \<times> gheap" where
  "HostOperationList_DeepCopyInto x h =
     (let (p, h1) = copy_cell operations_of CellHostOperations (copy_items HostOperation_DeepCopyInto) (lq_Items x) h in (x\<lparr>lq_Items := p\<rparr>, h1))"

section \<open>DeepCopy and DeepCopyObject\<close>

text \<open>\<open>DeepCopyObject\<close> gives the copy as an interface value, which is nil for a nil copy.\<close>

definition DeepCopyObject_nil :: "('a option \<Rightarrow> gheap \<Rightarrow> 'a option \<times> gheap) \<Rightarrow> 'a option \<Rightarrow> gheap \<Rightarrow> 'a option \<times> gheap" where
  "DeepCopyObject_nil deepCopy x h =
     (let (c, h1) = deepCopy x h in (case c of Some v \<Rightarrow> (Some v, h1) | None \<Rightarrow> (None, h1)))"

definition BasicInfo_DeepCopy :: "basic_p option \<Rightarrow> gheap \<Rightarrow> basic_p option \<times> gheap" where
  "BasicInfo_DeepCopy = DeepCopy_nil BasicInfo_DeepCopyInto"

definition BindingIp_DeepCopy :: "BindingIp option \<Rightarrow> gheap \<Rightarrow> BindingIp option \<times> gheap" where
  "BindingIp_DeepCopy = DeepCopy_nil BindingIp_DeepCopyInto"

definition BindingIp_DeepCopyObject :: "BindingIp option \<Rightarrow> gheap \<Rightarrow> BindingIp option \<times> gheap" where
  "BindingIp_DeepCopyObject = DeepCopyObject_nil BindingIp_DeepCopy"

definition BindingIpList_DeepCopy :: "'m list_p option \<Rightarrow> gheap \<Rightarrow> 'm list_p option \<times> gheap" where
  "BindingIpList_DeepCopy = DeepCopy_nil BindingIpList_DeepCopyInto"

definition BindingIpList_DeepCopyObject :: "'m list_p option \<Rightarrow> gheap \<Rightarrow> 'm list_p option \<times> gheap" where
  "BindingIpList_DeepCopyObject = DeepCopyObject_nil BindingIpList_DeepCopy"

definition BindingIpSpec_DeepCopy :: "BindingIpSpec option \<Rightarrow> gheap \<Rightarrow> BindingIpSpec option \<times> gheap" where
  "BindingIpSpec_DeepCopy = DeepCopy_nil BindingIpSpec_DeepCopyInto"

definition BindingIpStatus_DeepCopy :: "BindingIpStatus option \<Rightarrow> gheap \<Rightarrow> BindingIpStatus option \<times> gheap" where
  "BindingIpStatus_DeepCopy = DeepCopy_nil BindingIpStatus_DeepCopyInto"

definition DhcpStatusSpec_DeepCopy :: "DhcpStatusSpec option \<Rightarrow> gheap \<Rightarrow> DhcpStatusSpec option \<times> gheap" where
  "DhcpStatusSpec_DeepCopy = DeepCopy_nil DhcpStatusSpec_DeepCopyInto"

definition FeatureSpec_DeepCopy :: "feature_p option \<Rightarrow> gheap \<Rightarrow> feature_p option \<times> gheap" where
  "FeatureSpec_DeepCopy = DeepCopy_nil FeatureSpec_DeepCopyInto"

definition HostOperation_DeepCopy :: "HostOperation option \<Rightarrow> gheap \<Rightarrow> HostOperation option \<times> gheap" where
  "HostOperation_DeepCopy = DeepCopy_nil HostOperation_DeepCopyInto"

definition HostOperation_DeepCopyObject :: "HostOperation option \<Rightarrow> gheap \<Rightarrow> HostOperation option \<times> gheap" where
  "HostOperation_DeepCopyObject = DeepCopyObject_nil HostOperation_DeepCopy"

definition HostOperationList_DeepCopy :: "'m list_p option \<Rightarrow> gheap \<Rightarrow> 'm list_p option \<times> gheap" where
  "HostOperationList_DeepCopy = DeepCopy_nil HostOperationList_DeepCopyInto"

definition HostOperationList_DeepCopyObject :: "'m list_p option \<Rightarrow> gheap \<Rightarrow> 'm list_p option \<times> gheap" where
  "HostOperationList_DeepCopyObject = DeepCopyObject_nil HostOperationList_DeepCopy"

definition HostOperationSpec_DeepCopy :: "HostOperationSpec option \<Rightarrow> gheap \<Rightarrow> HostOperationSpec option \<times> gheap" where
  "HostOperationSpec_DeepCopy = DeepCopy_nil HostOperationSpec_DeepCopyInto"

definition HostOperationStatus_DeepCopy :: "HostOperationStatus option \<Rightarrow> gheap \<Rightarrow> HostOperationStatus option \<times> gheap" where
  "HostOperationStatus_DeepCopy = DeepCopy_nil HostOperationStatus_DeepCopyInto"

definition IPv4SubnetSpec_DeepCopy :: "ipv4_p option \<Rightarrow> gheap \<Rightarrow> ipv4_p option \<times> gheap" where
  "IPv4SubnetSpec_DeepCopy = DeepCopy_nil IPv4SubnetSpec_DeepCopyInto"

definition InterfaceSpec_DeepCopy :: "interface_p option \<Rightarrow> gheap \<Rightarrow> interface_p option \<times> gheap" where
  "InterfaceSpec_DeepCopy = DeepCopy_nil InterfaceSpec_DeepCopyInto"

definition LogEntry_DeepCopy :: "LogEntry option \<Rightarrow> gheap \<Rightarrow> LogEntry option \<times> gheap" where
  "LogEntry_DeepCopy = DeepCopy_nil LogEntry_DeepCopyInto"

definition LogStruct_DeepCopy :: "log_p option \<Rightarrow> gheap \<Rightarrow> log_p option \<times> gheap" where
  "LogStruct_DeepCopy = DeepCopy_nil LogStruct_DeepCopyInto"

definition RedfishStatus_DeepCopy :: "redfish_object_p option \<Rightarrow> gheap \<Rightarrow> redfish_object_p option \<times> gheap" where
  "RedfishStatus_DeepCopy = DeepCopy_nil RedfishStatus_DeepCopyInto"

definition RedfishStatus_DeepCopyObject :: "redfish_object_p option \<Rightarrow> gheap \<Rightarrow> redfish_object_p option \<times> gheap" where
  "RedfishStatus_DeepCopyObject = DeepCopyObject_nil RedfishStatus_DeepCopy"

definition RedfishStatusList_DeepCopy :: "'m list_p option \<Rightarrow> gheap \<Rightarrow> 'm list_p option \<times> gheap" where
  "RedfishStatusList_DeepCopy = DeepCopy_nil RedfishStatusList_DeepCopyInto"

definition RedfishStatusList_DeepCopyObject :: "'m list_p option \<Rightarrow> gheap \<Rightarrow> 'm list_p option \<times> gheap" where
  "RedfishStatusList_DeepCopyObject = DeepCopyObject_nil RedfishStatusList_DeepCopy"

definition RedfishStatusStatus_DeepCopy :: "redfish_p option \<Rightarrow> gheap \<Rightarrow> redfish_p option \<times> gheap" where
  "RedfishStatusStatus_DeepCopy = DeepCopy_nil RedfishStatusStatus_DeepCopyInto"

definition SSHBasicInfo_DeepCopy :: "ssh_basic_p option \<Rightarrow> gheap \<Rightarrow> ssh_basic_p option \<times> gheap" where
  "SSHBasicInfo_DeepCopy = DeepCopy_nil SSHBasicInfo_DeepCopyInto"

definition SSHStatus_DeepCopy :: "ssh_object_p option \<Rightarrow> gheap \<Rightarrow> ssh_object_p option \<times> gheap" where
  "SSHStatus_DeepCopy = DeepCopy_nil SSHStatus_DeepCopyInto"

definition SSHStatus_DeepCopyObject :: "ssh_object_p option \<Rightarrow> gheap \<Rightarrow> ssh_object_p option \<times> gheap" where
  "SSHStatus_DeepCopyObject = DeepCopyObject_nil SSHStatus_DeepCopy"

definition SSHStatusList_DeepCopy :: "'m list_p option \<Rightarrow> gheap \<Rightarrow> 'm list_p option \<times> gheap" where
  "SSHStatusList_DeepCopy = DeepCopy_nil SSHStatusList_DeepCopyInto"

definition SSHStatusList_DeepCopyObject :: "'m list_p option \<Rightarrow> gheap \<Rightarrow> 'm list_p option \<times> gheap" where
  "SSHStatusList_DeepCopyObject = DeepCopyObject_nil SSHStatusList_DeepCopy"

definition SSHStatusStatus_DeepCopy :: "ssh_p option \<Rightarrow> gheap \<Rightarrow> ssh_p option \<times> gheap" where
  "SSHStatusStatus_DeepCopy = DeepCopy_nil SSHStatusStatus_DeepCopyInto"

definition Subnet_DeepCopy :: "subnet_p option \<Rightarrow> gheap \<Rightarrow> subnet_p option \<times> gheap" where
  "Subnet_DeepCopy = DeepCopy_nil Subnet_DeepCopyInto"

definition Subnet_DeepCopyObject :: "subnet_p option \<Rightarrow> gheap \<Rightarrow> subnet_p option \<times> gheap" where
  "Subnet_DeepCopyObject = DeepCopyObject_nil Subnet_DeepCopy"

definition SubnetList_DeepCopy :: "'m list_p option \<Rightarrow> gheap \<Rightarrow> 'm list_p option \<times> gheap" where
  "SubnetList_DeepCopy = DeepCopy_nil SubnetList_DeepCopyInto"

definition SubnetList_DeepCopyObject :: "'m list_p option \<Rightarrow> gheap \<Rightarrow> 'm list_p option \<times> gheap" where
  "SubnetList_DeepCopyObject = DeepCopyObject_nil SubnetList_DeepCopy"

definition SubnetSpec_DeepCopy :: "subnet_spec_p option \<Rightarrow> gheap \<Rightarrow> subnet_spec_p option \<times> gheap" where
  "SubnetSpec_DeepCopy = DeepCopy_nil SubnetSpec_DeepCopyInto"

definition SubnetStatus_DeepCopy :: "subnet_status_p option \<Rightarrow> gheap \<Rightarrow> subnet_status_p option \<times> gheap" where
  "SubnetStatus_DeepCopy = DeepCopy_nil SubnetStatus_DeepCopyInto"

definition SyncRedfishstatusSpec_DeepCopy :: "sync_p option \<Rightarrow> gheap \<Rightarrow> sync_p option \<times> gheap" where
  "SyncRedfishstatusSpec_DeepCopy = DeepCopy_nil SyncRedfishstatusSpec_DeepCopyInto"

definition HostEndpoint_DeepCopy :: "endpoint_object_p option \<Rightarrow> gheap \<Rightarrow> endpoint_object_p option \<times> gheap" where
  "HostEndpoint_DeepCopy = DeepCopy_nil HostEndpoint_DeepCopyInto"

definition HostEndpoint_DeepCopyObject :: "endpoint_object_p option \<Rightarrow> gheap \<Rightarrow> endpoint_object_p option \<times> gheap" where
  "HostEndpoint_DeepCopyObject = DeepCopyObject_nil HostEndpoint_DeepCopy"

definition HostEndpointSpec_DeepCopy :: "endpoint_p option \<Rightarrow> gheap \<Rightarrow> endpoint_p option \<times> gheap" where
  "HostEndpointSpec_DeepCopy = DeepCopy_nil HostEndpointSpec_DeepCopyInto"

definition HostEndpointList_DeepCopy :: "'m list_p option \<Rightarrow> gheap \<Rightarrow> 'm list_p option \<times> gheap" where
  "HostEndpointList_DeepCopy = DeepCopy_nil HostEndpointList_DeepCopyInto"

definition HostEndpointList_DeepCopyObject :: "'m list_p option \<Rightarrow> gheap \<Rightarrow> 'm list_p option \<times> gheap" where
  "HostEndpointList_DeepCopyObject = DeepCopyObject_nil HostEndpointList_DeepCopy"

section \<open>The copies are independent\<close>

context deep_copy
begin

lemma items_law:
  "heap_ok h \<Longrightarrow> (\<Union>x \<in> set xs. ptrs h x) \<subseteq> {..<gh_next h} \<Longrightarrow> copy_items copy xs h = (ys, h') \<Longrightarrow>
   extends h h' \<and> map (view h') ys = map (view h) xs \<and> (\<Union>y \<in> set ys. ptrs h' y) \<subseteq> {gh_next h..<gh_next h'}"
proof (induction xs arbitrary: h ys h')
  case (Cons x xs)
  obtain y h1 where y: "copy x h = (y, h1)" by (cases "copy x h")
  obtain zs h2 where zs: "copy_items copy xs h1 = (zs, h2)" by (cases "copy_items copy xs h1")
  have ys: "ys = y # zs" "h' = h2" using Cons.prems(3) y zs by simp_all
  have l1: "extends h h1" "view h1 y = view h x" "ptrs h1 y \<subseteq> {gh_next h..<gh_next h1}"
    using copy_law [OF Cons.prems(1) _ y] Cons.prems(2) by simp_all
  have k: "view h1 z = view h z \<and> ptrs h1 z = ptrs h z" if "z \<in> set xs" for z
    by (rule kept [OF l1(1)]) (use Cons.prems(2) that in auto)
  have n: "gh_next h \<le> gh_next h1" using l1(1) by (simp add: extends_def)
  have "(\<Union>z \<in> set xs. ptrs h1 z) \<subseteq> {..<gh_next h1}" using k Cons.prems(2) n by fastforce
  from Cons.IH [OF extends_ok [OF l1(1)] this zs] k
  have l2: "extends h1 h2" "map (view h2) zs = map (view h) xs" "(\<Union>z \<in> set zs. ptrs h2 z) \<subseteq> {gh_next h1..<gh_next h2}"
    by simp_all
  have "ptrs h1 y \<subseteq> {..<gh_next h1}" using l1(3) by auto
  with kept [OF l2(1)] l1 have "view h2 y = view h x" "ptrs h2 y \<subseteq> {gh_next h..<gh_next h1}" by simp_all
  moreover have "gh_next h1 \<le> gh_next h2" using l2(1) by (simp add: extends_def)
  ultimately show ?case using extends_trans [OF l1(1) l2(1)] l2 n unfolding ys by fastforce
qed simp

lemma items_deep_copy: "deep_copy (copy_items copy) (\<lambda>h xs. \<Union>x \<in> set xs. ptrs h x) (\<lambda>h. map (view h))"
proof
  fix h h' :: gheap and xs
  assume "\<forall>a \<in> (\<Union>x \<in> set xs. ptrs h x). gh_cell h' a = gh_cell h a"
  then have "view h' x = view h x \<and> ptrs h' x = ptrs h x" if "x \<in> set xs" for x
    using that by (intro depends) auto
  then show "map (view h') xs = map (view h) xs \<and> (\<Union>x \<in> set xs. ptrs h' x) = (\<Union>x \<in> set xs. ptrs h x)" by simp
qed (use items_law in auto)

end

text \<open>A list is its metadata and its items, behind a pointer.\<close>

definition list_ptrs :: "(cell \<Rightarrow> 'a list option) \<Rightarrow> (gheap \<Rightarrow> 'a \<Rightarrow> nat set) \<Rightarrow> gheap \<Rightarrow> 'm list_p \<Rightarrow> nat set" where
  "list_ptrs get ptrs h x = cell_ptrs get (\<lambda>h xs. \<Union>x \<in> set xs. ptrs h x) h (lq_Items x)"

definition list_view :: "(cell \<Rightarrow> 'a list option) \<Rightarrow> (gheap \<Rightarrow> 'a \<Rightarrow> 'v) \<Rightarrow> gheap \<Rightarrow> 'm list_p \<Rightarrow> 'm \<times> 'v list option" where
  "list_view get view h x = (lq_Meta x, map_option (map (view h)) (cell_at get h (lq_Items x)))"

lemma list_deep_copy:
  assumes "deep_copy c p v" "\<And>x. get (mk x) = Some x" "\<And>m. get (CellMap m) = None"
    and "\<And>x h. copy x h = (let (q, h1) = copy_cell get mk (copy_items c) (lq_Items x) h in (x\<lparr>lq_Items := q\<rparr>, h1))"
  shows "deep_copy copy (list_ptrs get p) (list_view get v)"
  by (rule deep_copy_struct [OF deep_copy_cell [OF deep_copy.items_deep_copy [OF assms(1)] assms(2,3)],
      where parts = lq_Items and put = "\<lambda>q x. x\<lparr>lq_Items := q\<rparr>" and rest = lq_Meta and build = "\<lambda>i m. (m, i)"])
    (simp_all add: assms(4) list_ptrs_def list_view_def)

lemma value_deep_copy:
  assumes "\<And>x h. c x h = (x, h)"
  shows "deep_copy c (\<lambda>h x. {}) (\<lambda>h x. x)"
  by unfold_locales (auto simp: assms)

interpretation binding: deep_copy BindingIp_DeepCopyInto "\<lambda>h x. {}" "\<lambda>h x. x"
  by (rule value_deep_copy) (simp add: BindingIp_DeepCopyInto_def)

interpretation operation: deep_copy HostOperation_DeepCopyInto "\<lambda>h x. {}" "\<lambda>h x. x"
  by (rule value_deep_copy) (simp add: HostOperation_DeepCopyInto_def)

interpretation subnets: deep_copy SubnetList_DeepCopyInto "list_ptrs subnets_of subnet_ptrs" "list_view subnets_of subnet_view"
  by (rule list_deep_copy [OF subnet.deep_copy_axioms]) (simp_all add: SubnetList_DeepCopyInto_def)

interpretation redfishes: deep_copy RedfishStatusList_DeepCopyInto "list_ptrs redfishes_of (\<lambda>h x. redfish_ptrs h (rq_Status x))"
    "list_view redfishes_of redfish_object_view"
  by (rule list_deep_copy [OF redfish_object.deep_copy_axioms]) (simp_all add: RedfishStatusList_DeepCopyInto_def)

interpretation sshs: deep_copy SSHStatusList_DeepCopyInto "list_ptrs sshs_of (\<lambda>h x. ssh_ptrs h (xq_Status x))"
    "list_view sshs_of ssh_object_view"
  by (rule list_deep_copy [OF ssh_object.deep_copy_axioms]) (simp_all add: SSHStatusList_DeepCopyInto_def)

interpretation bindings: deep_copy BindingIpList_DeepCopyInto "list_ptrs bindings_of (\<lambda>h x. {})" "list_view bindings_of (\<lambda>h x. x)"
  by (rule list_deep_copy [OF binding.deep_copy_axioms]) (simp_all add: BindingIpList_DeepCopyInto_def)

interpretation operations: deep_copy HostOperationList_DeepCopyInto "list_ptrs operations_of (\<lambda>h x. {})" "list_view operations_of (\<lambda>h x. x)"
  by (rule list_deep_copy [OF operation.deep_copy_axioms]) (simp_all add: HostOperationList_DeepCopyInto_def)

lemma DeepCopyObject_nil_same [simp]: "DeepCopyObject_nil c = c"
  by (intro ext) (auto simp: DeepCopyObject_nil_def split: prod.splits option.splits)

lemmas object_independent = deep_copy_independent [OF DeepCopy_independent]

lemmas object_copies =
  Subnet_DeepCopyObject_def Subnet_DeepCopy_def SubnetList_DeepCopyObject_def SubnetList_DeepCopy_def
  RedfishStatus_DeepCopyObject_def RedfishStatus_DeepCopy_def RedfishStatusList_DeepCopyObject_def RedfishStatusList_DeepCopy_def
  SSHStatus_DeepCopyObject_def SSHStatus_DeepCopy_def SSHStatusList_DeepCopyObject_def SSHStatusList_DeepCopy_def
  BindingIp_DeepCopyObject_def BindingIp_DeepCopy_def BindingIpList_DeepCopyObject_def BindingIpList_DeepCopy_def
  HostOperation_DeepCopyObject_def HostOperation_DeepCopy_def HostOperationList_DeepCopyObject_def HostOperationList_DeepCopy_def

section \<open>The copy that is kept by hand\<close>

text \<open>
  What holds of the copy of the specification of a \<open>HostEndpoint\<close>: it has the value of the original and the pointers
  of its \<open>HTTPS\<close> and \<open>Port\<close> are new, while the four other pointers are those of the original.
\<close>

definition shares_four :: "(endpoint_p \<Rightarrow> gheap \<Rightarrow> endpoint_p \<times> gheap) \<Rightarrow> bool" where
  "shares_four copy \<longleftrightarrow>
     (\<forall>h x y h'. heap_ok h \<longrightarrow> endpoint_ptrs h x \<subseteq> {..<gh_next h} \<longrightarrow> copy x h = (y, h') \<longrightarrow>
        endpoint_view h' y = endpoint_view h x \<and> endpoint_view h' x = endpoint_view h x
        \<and> ep_ClusterName y = ep_ClusterName x \<and> ep_SecretName y = ep_SecretName x
        \<and> ep_SecretNamespace y = ep_SecretNamespace x \<and> ep_Type y = ep_Type x
        \<and> (\<forall>a \<in> ptr_addrs h' (ep_HTTPS y) \<union> ptr_addrs h' (ep_Port y). \<forall>c.
             endpoint_view (write_cell a c h') x = endpoint_view h x))"

lemma endpoint_view_kept:
  assumes "\<forall>a \<in> endpoint_ptrs h x. gh_cell h' a = gh_cell h a"
  shows "endpoint_view h' x = endpoint_view h x"
proof -
  have "load h' p = load h p" if "ptr_addrs h p \<subseteq> endpoint_ptrs h x" for p
    using ptr.depends [of h p h'] assms that by blast
  then show ?thesis by (simp add: endpoint_view_def endpoint_ptrs_def le_supI1 le_supI2)
qed

lemma endpoint_copy_four: "shares_four HostEndpointSpec_DeepCopyInto"
  unfolding shares_four_def
proof (intro allI impI)
  fix h x y h'
  assume h: "heap_ok h" "endpoint_ptrs h x \<subseteq> {..<gh_next h}" "HostEndpointSpec_DeepCopyInto x h = (y, h')"
  obtain p h1 where p: "copy_ptr (ep_HTTPS x) h = (p, h1)" by fastforce
  obtain q h2 where q: "copy_ptr (ep_Port x) h1 = (q, h2)" by fastforce
  have y: "y = x\<lparr>ep_HTTPS := p, ep_Port := q\<rparr>" "h' = h2" using h(3) p q by (simp_all add: HostEndpointSpec_DeepCopyInto_def)
  have sub: "ptr_addrs h (ep_HTTPS x) \<subseteq> {..<gh_next h}" "ptr_addrs h (ep_Port x) \<subseteq> {..<gh_next h}"
    using h(2) by (simp_all add: endpoint_ptrs_def)
  have 1: "extends h h1" "load h1 p = load h (ep_HTTPS x)" "ptr_addrs h1 p \<subseteq> {gh_next h..<gh_next h1}"
    using ptr.copy_law [OF h(1) sub(1) p] by simp_all
  have port: "load h1 (ep_Port x) = load h (ep_Port x)" "ptr_addrs h1 (ep_Port x) = ptr_addrs h (ep_Port x)"
    using ptr.kept [OF 1(1) sub(2)] by simp_all
  have "ptr_addrs h1 (ep_Port x) \<subseteq> {..<gh_next h1}" using port(2) sub(2) 1(1) by (auto simp: extends_def)
  then have 2: "extends h1 h2" "load h2 q = load h (ep_Port x)" "ptr_addrs h2 q \<subseteq> {gh_next h1..<gh_next h2}"
    using ptr.copy_law [OF extends_ok [OF 1(1)] _ q] port(1) by simp_all
  have e: "extends h h2" by (rule extends_trans [OF 1(1) 2(1)])
  have "ptr_addrs h1 p \<subseteq> {..<gh_next h1}" using 1(3) by auto
  from ptr.kept [OF 2(1) this] have new: "load h2 p = load h (ep_HTTPS x)" "ptr_addrs h2 p \<subseteq> {gh_next h..<gh_next h1}"
    using 1(2,3) by simp_all
  have old: "load h2 r = load h r" if "ptr_addrs h r \<subseteq> {..<gh_next h}" for r using ptr.kept [OF e that] by simp
  have "\<forall>a \<in> endpoint_ptrs h x. gh_cell h2 a = gh_cell h a" using e h(2) by (auto simp: extends_def)
  then have keeps: "endpoint_view h2 x = endpoint_view h x" by (rule endpoint_view_kept)
  have "endpoint_view h2 y = endpoint_view h2 x"
    by (simp add: y endpoint_view_def new(1) 2(2) old sub)
  moreover have "endpoint_view (write_cell a c h2) x = endpoint_view h x"
    if "a \<in> ptr_addrs h2 p \<union> ptr_addrs h2 q" for a c
  proof (rule endpoint_view_kept)
    have "gh_next h \<le> a" using that new(2) 2(3) 1(1) by (auto simp: extends_def)
    then show "\<forall>b \<in> endpoint_ptrs h x. gh_cell (write_cell a c h2) b = gh_cell h b"
      using e h(2) by (auto simp: extends_def write_cell_def)
  qed
  ultimately show "endpoint_view h' y = endpoint_view h x \<and> endpoint_view h' x = endpoint_view h x
      \<and> ep_ClusterName y = ep_ClusterName x \<and> ep_SecretName y = ep_SecretName x
      \<and> ep_SecretNamespace y = ep_SecretNamespace x \<and> ep_Type y = ep_Type x
      \<and> (\<forall>a \<in> ptr_addrs h' (ep_HTTPS y) \<union> ptr_addrs h' (ep_Port y). \<forall>c.
           endpoint_view (write_cell a c h') x = endpoint_view h x)"
    using keeps by (simp add: y)
qed

section \<open>Properties\<close>

text \<open>Property C39: the copies of subnets, bindings, operations, Redfish and SSH statuses, and of lists of them, have the
  value of the original and share nothing with it: nothing written through the copy changes the original. The copy of
  the specification of a \<open>HostEndpoint\<close>, which is kept by hand, has the value of the original and its own \<open>HTTPS\<close> and
  port, but the pointers to the cluster name, the secret name, the secret namespace and the type are those of the
  original, so that what is written through them changes the original.\<close>

theorem deep_copies_independent:
  "independent Subnet_DeepCopyObject (object_ptrs subnet_ptrs) (\<lambda>h. map_option (subnet_view h))
   \<and> independent BindingIp_DeepCopyObject (object_ptrs (\<lambda>h x. {})) (\<lambda>h. map_option (\<lambda>x. x))
   \<and> independent HostOperation_DeepCopyObject (object_ptrs (\<lambda>h x. {})) (\<lambda>h. map_option (\<lambda>x. x))
   \<and> independent RedfishStatus_DeepCopyObject (object_ptrs (\<lambda>h x. redfish_ptrs h (rq_Status x)))
       (\<lambda>h. map_option (redfish_object_view h))
   \<and> independent SSHStatus_DeepCopyObject (object_ptrs (\<lambda>h x. ssh_ptrs h (xq_Status x)))
       (\<lambda>h. map_option (ssh_object_view h))
   \<and> independent SubnetList_DeepCopyObject (object_ptrs (list_ptrs subnets_of subnet_ptrs))
       (\<lambda>h. map_option (list_view subnets_of subnet_view h))
   \<and> independent RedfishStatusList_DeepCopyObject
       (object_ptrs (list_ptrs redfishes_of (\<lambda>h x. redfish_ptrs h (rq_Status x))))
       (\<lambda>h. map_option (list_view redfishes_of redfish_object_view h))
   \<and> independent SSHStatusList_DeepCopyObject (object_ptrs (list_ptrs sshs_of (\<lambda>h x. ssh_ptrs h (xq_Status x))))
       (\<lambda>h. map_option (list_view sshs_of ssh_object_view h))
   \<and> independent BindingIpList_DeepCopyObject (object_ptrs (list_ptrs bindings_of (\<lambda>h x. {})))
       (\<lambda>h. map_option (list_view bindings_of (\<lambda>h x. x) h))
   \<and> independent HostOperationList_DeepCopyObject (object_ptrs (list_ptrs operations_of (\<lambda>h x. {})))
       (\<lambda>h. map_option (list_view operations_of (\<lambda>h x. x) h))
   \<and> shares_four HostEndpointSpec_DeepCopyInto
   \<and> \<not> independent HostEndpointSpec_DeepCopyInto endpoint_ptrs endpoint_view"
  unfolding object_copies DeepCopyObject_nil_same
  by (intro conjI object_independent subnet.deep_copy_axioms binding.deep_copy_axioms operation.deep_copy_axioms
      redfish_object.deep_copy_axioms ssh_object.deep_copy_axioms subnets.deep_copy_axioms redfishes.deep_copy_axioms
      sshs.deep_copy_axioms bindings.deep_copy_axioms operations.deep_copy_axioms endpoint_copy_four endpoint_copy_shares)

text \<open>A list of one binding: writing to the new array leaves the old one; an endpoint with a cluster name.\<close>

definition one_binding :: "unit list_p" where
  "one_binding = \<lparr>lq_Meta = (), lq_Items = Some 0\<rparr>"

definition array_heap :: "BindingIp \<Rightarrow> gheap" where
  "array_heap b = \<lparr>gh_next = 1, gh_cell = [0 \<mapsto> CellBindingIps [b]]\<rparr>"

lemma deep_copies_independent_witness:
  "\<forall>b. \<exists>y h'. BindingIpList_DeepCopyObject (Some one_binding) (array_heap b) = (Some y, h') \<and> lq_Items y = Some 1
     \<and> list_view bindings_of (\<lambda>h x. x) h' y = ((), Some [b])
     \<and> list_view bindings_of (\<lambda>h x. x) (write_cell 1 (CellBindingIps []) h') one_binding = ((), Some [b])"
proof
  fix b
  let ?h = "array_heap b" and ?v = "\<lambda>h. map_option (list_view bindings_of (\<lambda>h x. x) h)"
  let ?p = "object_ptrs (list_ptrs bindings_of (\<lambda>h x. {}))"
  let ?y = "one_binding\<lparr>lq_Items := Some 1\<rparr>"
  obtain y h' where y0: "y = ?y" and c: "BindingIpList_DeepCopyObject (Some one_binding) ?h = (Some y, h')"
  proof (rule that [OF refl])
    show "BindingIpList_DeepCopyObject (Some one_binding) ?h
      = (Some ?y, snd (BindingIpList_DeepCopyObject (Some one_binding) ?h))"
      by (simp add: object_copies DeepCopy_nil_def BindingIpList_DeepCopyInto_def copy_cell_def one_binding_def
          array_heap_def load_def new_cell_def BindingIp_DeepCopyInto_def)
  qed
  have y: "lq_Items y = Some 1" by (simp add: y0)
  have i: "independent BindingIpList_DeepCopyObject ?p ?v" using deep_copies_independent by blast
  have h: "heap_ok ?h" "?p ?h (Some one_binding) \<subseteq> {..<gh_next ?h}"
    by (auto simp: heap_ok_def array_heap_def object_ptrs_def list_ptrs_def cell_ptrs_def one_binding_def split: option.splits)
  have a: "1 \<in> ?p h' (Some y)" by (simp add: object_ptrs_def list_ptrs_def cell_ptrs_def y)
  have o: "?v ?h (Some one_binding) = Some ((), Some [b])"
    by (simp add: list_view_def cell_at_def load_def one_binding_def array_heap_def)
  have "?v h' (Some y) = ?v ?h (Some one_binding)" using i h c unfolding independent_def by blast
  moreover have "?v (write_cell 1 (CellBindingIps []) h') (Some one_binding) = ?v ?h (Some one_binding)"
    by (rule independentD [OF i h c a])
  ultimately show "\<exists>y h'. BindingIpList_DeepCopyObject (Some one_binding) ?h = (Some y, h') \<and> lq_Items y = Some 1
     \<and> list_view bindings_of (\<lambda>h x. x) h' y = ((), Some [b])
     \<and> list_view bindings_of (\<lambda>h x. x) (write_cell 1 (CellBindingIps []) h') one_binding = ((), Some [b])"
    using c y o by auto
qed

end
