(* ===== verification/Webhooks.thy ===== *)
theory Webhooks
  imports Tools
begin

text \<open>
  The admission webhooks (\<open>pkg/webhook/*\<close>): a \<open>Default\<close> that completes an object before it is
  stored and the validators that accept or refuse it. What the API server lists, the interfaces of
  the host and their addresses are parameters. The contract every \<open>Default\<close> shares is the locale
  \<open>defaulter\<close>. The type assertion on the object always succeeds: the server calls a webhook with
  objects of the type it is registered for.
\<close>

section \<open>The contract of a defaulter\<close>

locale defaulter =
  fixes default :: "'o \<Rightarrow> 'o result"
    and meta :: "'o \<Rightarrow> ObjectMeta"
    and immutable :: "'o \<Rightarrow> 'i"
  assumes idem: "default x = Inr y \<Longrightarrow> default y = Inr y"
    and keeps_name: "default x = Inr y \<Longrightarrow> om_Name (meta y) = om_Name (meta x)"
    and keeps_owner: "default x = Inr y \<Longrightarrow> om_OwnerReferences (meta y) = om_OwnerReferences (meta x)"
    and keeps: "default x = Inr y \<Longrightarrow> immutable y = immutable x"
begin

text \<open>However often an object passes the webhook, it is what it was after the first time.\<close>

lemma repeated: "default x = Inr y \<Longrightarrow> ((\<lambda>r. and_then r default) ^^ n) (default x) = Inr y"
  by (induction n) (auto simp: idem)

lemma repeated_name:
  "((\<lambda>r. and_then r default) ^^ n) (default x) = Inr z \<Longrightarrow> om_Name (meta z) = om_Name (meta x)"
proof (cases "default x")
  case (Inl e)
  then have "((\<lambda>r. and_then r default) ^^ n) (default x) = Inl e" by (induction n) auto
  then show "((\<lambda>r. and_then r default) ^^ n) (default x) = Inr z \<Longrightarrow> ?thesis" by simp
next
  case (Inr y)
  with repeated [OF Inr, of n] keeps_name [OF Inr]
  show "((\<lambda>r. and_then r default) ^^ n) (default x) = Inr z \<Longrightarrow> ?thesis" by simp
qed

end

lemma set_label_owner [simp]:
  "om_OwnerReferences (set_label k v m) = om_OwnerReferences m"
  "om_OwnerReferences (make_labels m) = om_OwnerReferences m"
  by (simp_all add: set_label_def make_labels_def split: option.splits)

lemma gm_put_twice [simp]: "gm_put k v (gm_put k w m) = gm_put k v m"
  unfolding gm_put_def by (induction m) auto

lemma make_set_label [simp]: "make_labels (set_label k v (make_labels m)) = set_label k v (make_labels m)"
  by (simp add: make_labels_def set_label_def split: option.splits)

lemma set_label_twice [simp]: "set_label k v (set_label k w m) = set_label k v m"
  by (simp add: set_label_def option.map_comp comp_def)

section \<open>Subnet\<close>

definition SubnetDefault :: "AgentConfig \<Rightarrow> Subnet \<Rightarrow> Subnet result" where
  "SubnetDefault config subnet =
     (case sp_Feature (sn_Spec subnet) of
        None \<Rightarrow> Inl (Panic ''nil pointer dereference'')
      | Some ft \<Rightarrow>
          (let cluster = (case sync_DefaultClusterName (ft_SyncRedfishstatus ft) of
                 Some c \<Rightarrow> if c \<noteq> [] then c else [] | None \<Rightarrow> []);
               m = set_label LabelClusterName cluster (make_labels (sn_Meta subnet));
               i = sp_Interface (sn_Spec subnet);
               i1 = (if if_Interface i = [] then i\<lparr>if_Interface := cf_DhcpServerInterface config\<rparr> else i);
               i2 = (if if_VlanID i1 = None then i1\<lparr>if_VlanID := Some 0\<rparr> else i1)
           in Inr (subnet\<lparr>sn_Meta := m, sn_Spec := (sn_Spec subnet)\<lparr>sp_Interface := i2\<rparr>\<rparr>)))"

text \<open>The host and the API server as the subnet webhook sees them.\<close>

record subnet_hook =
  sk_Interfaces :: "string list result"
  sk_LinkByName :: "string \<Rightarrow> unit result"
  sk_AddrList :: "IPNet list result"
  sk_List :: "Subnet list result"

text \<open>The conflict check for one existing subnet; its third branch can never be taken.\<close>

definition iface_conflict :: "Subnet \<Rightarrow> InterfaceSpec \<Rightarrow> Subnet \<Rightarrow> unit result" where
  "iface_conflict subnet iface existing =
     (let ei = sp_Interface (sn_Spec existing); en = om_Name (sn_Meta existing) in
      if en = om_Name (sn_Meta subnet) then Inr ()
      else if if_Interface ei = if_Interface iface then
        (case (if_VlanID ei, if_VlanID iface) of
           (Some v, Some w) \<Rightarrow>
             if v = w then Inl (Errorf ''interface %s with VLAN ID %d is already used by subnet %s''
                                  [ArgS (if_Interface iface), ArgI w, ArgS en])
             else Inr ()
         | (None, None) \<Rightarrow> Inl (Errorf ''interface %s is already used by subnet %s''
                                  [ArgS (if_Interface iface), ArgS en])
         | _ \<Rightarrow> Inr ())
      else Inr ())"

definition validateInterface :: "subnet_hook \<Rightarrow> InterfaceSpec \<Rightarrow> IPNet \<Rightarrow> Subnet \<Rightarrow> unit result" where
  "validateInterface h iface cidr subnet =
     and_then (ValidateInterfaceExists (sk_Interfaces h) (if_Interface iface)) (\<lambda>_.
     and_then (guard (case if_VlanID iface of None \<Rightarrow> True | Some v \<Rightarrow> \<not> (v < 0 \<or> v > 4094))
        (Errorf ''VLAN ID must be between 0 and 4094'' [])) (\<lambda>_.
     and_then (wrap_err (\<lambda>e. Errorf ''interface IPv4 validation failed: %v'' [ArgE e])
        (ValidateIPWithSubnetMatch (if_IPv4 iface) cidr)) (\<lambda>_.
     and_then (wrap_err (\<lambda>e. Errorf ''failed to get host interface: %v'' [ArgE e])
        (sk_LinkByName h (if_Interface iface))) (\<lambda>_.
     and_then (wrap_err (\<lambda>e. Errorf ''interface IPv4 validation failed: %v'' [ArgE e])
        (ValidateHostInterfaceSubnet (sk_AddrList h) iface)) (\<lambda>_.
     and_then (wrap_err (\<lambda>e. Errorf ''failed to list existing subnets: %v'' [ArgE e]) (sk_List h)) (\<lambda>items.
       for_each (iface_conflict subnet iface) items))))))"

definition validateSubnet :: "subnet_hook \<Rightarrow> Subnet \<Rightarrow> unit result" where
  "validateSubnet h subnet =
     (let v4 = sp_IPv4Subnet (sn_Spec subnet) in
      case ParseCIDR (v4_Subnet v4) of
        None \<Rightarrow> Inl (Errorf ''invalid subnet format: %v'' [ArgE (SysErr (v4_Subnet v4))])
      | Some (_, ipNet) \<Rightarrow>
          and_then (wrap_err (\<lambda>e. Errorf ''invalid IP range: %v'' [ArgE e]) (ValidateIPRange (v4_IPRange v4) ipNet)) (\<lambda>_.
          and_then (case v4_Gateway v4 of
              None \<Rightarrow> Inr ()
            | Some g \<Rightarrow>
                (case ParseIP g of
                   None \<Rightarrow> Inl (Errorf ''invalid gateway IP: %s'' [ArgS g])
                 | Some a \<Rightarrow> guard (ValidateIPInSubnet a ipNet)
                     (Errorf ''gateway %s is not within subnet %s'' [ArgS g, ArgS (v4_Subnet v4)]))) (\<lambda>_.
          and_then (case v4_Dns v4 of
              None \<Rightarrow> Inr ()
            | Some d \<Rightarrow> guard (ParseIP d \<noteq> None) (Errorf ''invalid DNS IP: %s'' [ArgS d])) (\<lambda>_.
          wrap_err (\<lambda>e. Errorf ''invalid interface configuration: %v'' [ArgE e])
            (validateInterface h (sp_Interface (sn_Spec subnet)) ipNet subnet)))))"

definition SubnetValidateCreate :: "subnet_hook \<Rightarrow> Subnet \<Rightarrow> unit result" where
  "SubnetValidateCreate h subnet = validateSubnet h subnet"

definition SubnetValidateUpdate :: "subnet_hook \<Rightarrow> Subnet \<Rightarrow> Subnet \<Rightarrow> unit result" where
  "SubnetValidateUpdate h old new =
     (let o4 = sp_IPv4Subnet (sn_Spec old); n4 = sp_IPv4Subnet (sn_Spec new);
          oi = sp_Interface (sn_Spec old); ni = sp_Interface (sn_Spec new) in
      and_then (guard (v4_Subnet o4 = v4_Subnet n4) (Errorf ''subnet %s cannot be modified'' [ArgS (v4_Subnet o4)])) (\<lambda>_.
      case ParseCIDR (v4_Subnet n4) of
        None \<Rightarrow> Inl (Errorf ''invalid subnet format: %v'' [ArgE (SysErr (v4_Subnet n4))])
      | Some (_, ipNet) \<Rightarrow>
          and_then (ValidateIPRangeExpansion (v4_IPRange o4) (v4_IPRange n4) ipNet) (\<lambda>_.
          and_then (guard (if_Interface oi = if_Interface ni) (Errorf ''interface name cannot be modified'' [])) (\<lambda>_.
          and_then (guard (Int32PtrEqual (if_VlanID oi) (if_VlanID ni)) (Errorf ''interface VLAN ID cannot be modified'' [])) (\<lambda>_.
          and_then (guard (if_IPv4 oi = if_IPv4 ni) (Errorf ''interface IPv4 address cannot be modified'' [])) (\<lambda>_.
          validateSubnet h new))))))"

section \<open>BindingIp\<close>

definition BindingIpDefault :: "BindingIp \<Rightarrow> BindingIp result" where
  "BindingIpDefault b =
     Inr (b\<lparr>bi_Meta := set_label LabelSubnetName (bs_Subnet (bi_Spec b)) (make_labels (bi_Meta b))\<rparr>)"

record binding_hook =
  bk_GetSubnet :: "string \<Rightarrow> Subnet result"
  bk_List :: "BindingIp list result"

definition binding_conflict :: "BindingIp \<Rightarrow> BindingIp \<Rightarrow> unit result" where
  "binding_conflict b existing =
     (if om_Name (bi_Meta existing) = om_Name (bi_Meta b) then Inr ()
      else if bs_IpAddr (bi_Spec existing) = bs_IpAddr (bi_Spec b) then
        Inl (Errorf ''IP address %s is already used by BindingIP %s''
          [ArgS (bs_IpAddr (bi_Spec b)), ArgS (om_Name (bi_Meta existing))])
      else if equal_fold (bs_MacAddr (bi_Spec existing)) (bs_MacAddr (bi_Spec b)) then
        Inl (Errorf ''Mac %s is already used by BindingIP %s ''
          [ArgS (bs_MacAddr (bi_Spec b)), ArgS (om_Name (bi_Meta existing))])
      else Inr ())"

definition validateBindingIP :: "binding_hook \<Rightarrow> BindingIp \<Rightarrow> unit result" where
  "validateBindingIP h b =
     and_then (guard (IsValidUnicastMAC (bs_MacAddr (bi_Spec b)))
        (Errorf ''invalid unicast MAC address: %s'' [ArgS (bs_MacAddr (bi_Spec b))])) (\<lambda>_.
     and_then (wrap_err (\<lambda>e. Errorf ''failed to get subnet %s: %v'' [ArgS (bs_Subnet (bi_Spec b)), ArgE e])
        (bk_GetSubnet h (bs_Subnet (bi_Spec b)))) (\<lambda>subnet.
     case ParseIP (bs_IpAddr (bi_Spec b)) of
       None \<Rightarrow> Inl (Errorf ''invalid IP address: %s'' [ArgS (bs_IpAddr (bi_Spec b))])
     | Some a \<Rightarrow>
         and_then (guard (IsIPInRange a (v4_IPRange (sp_IPv4Subnet (sn_Spec subnet))))
           (Errorf ''IP address %s is not in subnet %s IP range: %s''
             [ArgS (bs_IpAddr (bi_Spec b)), ArgS (bs_Subnet (bi_Spec b)), ArgS (v4_IPRange (sp_IPv4Subnet (sn_Spec subnet)))])) (\<lambda>_.
         and_then (wrap_err (\<lambda>e. Errorf ''failed to list BindingIPs: %v'' [ArgE e]) (bk_List h)) (\<lambda>items.
           for_each (binding_conflict b) items))))"

definition BindingIpValidateCreate :: "binding_hook \<Rightarrow> BindingIp \<Rightarrow> unit result" where
  "BindingIpValidateCreate h b = validateBindingIP h b"

definition BindingIpValidateUpdate :: "binding_hook \<Rightarrow> BindingIp \<Rightarrow> BindingIp \<Rightarrow> unit result" where
  "BindingIpValidateUpdate h old b = validateBindingIP h b"

section \<open>HostEndpoint\<close>

text \<open>\<open>p == nil || *p == ""\<close>.\<close>

definition unset :: "string option \<Rightarrow> bool" where
  "unset p = (p = None \<or> p = Some [])"

definition default_endpoint_spec :: "AgentConfig \<Rightarrow> HostEndpointSpec \<Rightarrow> HostEndpointSpec" where
  "default_endpoint_spec config s0 =
     (let s1 = (if he_HTTPS s0 = None then s0\<lparr>he_HTTPS := Some True\<rparr> else s0);
          s2 = (if he_Port s1 = None then s1\<lparr>he_Port := Some 443\<rparr> else s1)
      in if unset (he_SecretName s2) \<and> unset (he_SecretNamespace s2) \<and> he_HTTPS s2 = Some True then
           s2\<lparr>he_SecretName := Some (cf_RedfishSecretName config),
              he_SecretNamespace := Some (cf_RedfishSecretNamespace config)\<rparr>
         else s2)"

definition HostEndpointDefault :: "AgentConfig \<Rightarrow> HostEndpoint \<Rightarrow> HostEndpoint result" where
  "HostEndpointDefault config e =
     (let s = default_endpoint_spec config (hep_Spec e);
          cluster = (case he_ClusterName s of Some c \<Rightarrow> if c \<noteq> [] then c else [] | None \<Rightarrow> [])
      in Inr (e\<lparr>hep_Spec := s, hep_Meta := set_label LabelClusterName cluster (make_labels (hep_Meta e))\<rparr>))"

text \<open>A secret is its data, a map from keys to bytes.\<close>

type_synonym secret_data = "(string, string) gomap"

record endpoint_hook =
  ek_ListEndpoints :: "HostEndpoint list result"
  ek_ListRedfish :: "RedfishStatus list result"
  ek_GetSecret :: "string \<Rightarrow> string \<Rightarrow> secret_data result"

definition validateHostEndpoint :: "endpoint_hook \<Rightarrow> HostEndpoint \<Rightarrow> unit result" where
  "validateHostEndpoint h e =
     (let s = hep_Spec e; setName = (\<not> unset (he_SecretName s)); setNs = (\<not> unset (he_SecretNamespace s)) in
      and_then (guard (ParseIP (he_IPAddr s) \<noteq> None)
        (Errorf ''invalid IP address, it should be like 192.168.0.10 '' [])) (\<lambda>_.
      and_then (wrap_err (\<lambda>x. Errorf ''failed to list hostEndpoints: %v'' [ArgE x]) (ek_ListEndpoints h)) (\<lambda>items.
      and_then (for_each (\<lambda>x. guard (\<not> (om_Name (hep_Meta x) \<noteq> om_Name (hep_Meta e)
             \<and> he_IPAddr (hep_Spec x) = he_IPAddr s))
           (Errorf ''IP address %s is already in use by another hostEndpoint %q''
             [ArgS (he_IPAddr s), ArgS (om_Name (hep_Meta x))])) items) (\<lambda>_.
      and_then (wrap_err (\<lambda>x. Errorf ''failed to list RedfishStatus: %v'' [ArgE x]) (ek_ListRedfish h)) (\<lambda>rs.
      and_then (for_each (\<lambda>x. guard (b_IpAddr (r_Basic (rf_Status x)) \<noteq> he_IPAddr s)
           (Errorf ''IP address %s is already used by RedfishStatus %s''
             [ArgS (he_IPAddr s), ArgS (om_Name (rf_Meta x))])) rs) (\<lambda>_.
      and_then (if setName \<and> setNs then
          (case ek_GetSecret h (the (he_SecretNamespace s)) (the (he_SecretName s)) of
             Inl _ \<Rightarrow> Inl (Errorf ''secret %s/%s not found''
                [ArgS (the (he_SecretNamespace s)), ArgS (the (he_SecretName s))])
           | Inr d \<Rightarrow>
               and_then (guard (gm_get d ''username'' \<noteq> None) (Errorf ''secret must contain username key'' [])) (\<lambda>_.
               guard (gm_get d ''password'' \<noteq> None) (Errorf ''secret must contain password key'' [])))
        else Inr ()) (\<lambda>_.
      guard (\<not> ((setName \<and> \<not> setNs) \<or> (\<not> setName \<and> setNs)))
        (Errorf ''secretName and secretNamespace must be both set or both unset'' []))))))))"

definition HostEndpointValidateCreate :: "endpoint_hook \<Rightarrow> HostEndpoint \<Rightarrow> unit result" where
  "HostEndpointValidateCreate h e = validateHostEndpoint h e"

definition HostEndpointValidateUpdate :: "HostEndpoint \<Rightarrow> HostEndpoint \<Rightarrow> unit result" where
  "HostEndpointValidateUpdate old new =
     Inl (Errorf ''updates to HostEndpoint resources are not allowed'' [])"

section \<open>HostOperation\<close>

definition HostOperationDefault :: "HostOperation \<Rightarrow> HostOperation result" where
  "HostOperationDefault op = Inr op"

definition HostOperationValidateCreate :: "(string \<Rightarrow> RedfishStatus result) \<Rightarrow> HostOperation \<Rightarrow> unit result" where
  "HostOperationValidateCreate get op =
     (let n = hos_RedfishStatusName (ho_Spec op) in
      case get n of
        Inl e \<Rightarrow> Inl (Errorf ''RedfishStatus %s not found: %v'' [ArgS n, ArgE e])
      | Inr r \<Rightarrow> guard (r_Healthy (rf_Status r))
          (Errorf ''RedfishStatus %s is not healthy, so it is not allowed to create hostOperation %s''
            [ArgS n, ArgS (om_Name (ho_Meta op))]))"

definition HostOperationValidateUpdate :: "HostOperation \<Rightarrow> HostOperation \<Rightarrow> unit result" where
  "HostOperationValidateUpdate old new =
     Inl (Errorf ''updates to HostOperation resources are not allowed'' [])"

definition HostOperationValidateDelete :: "HostOperation \<Rightarrow> unit result" where
  "HostOperationValidateDelete op = Inr ()"

section \<open>RedfishStatus and SSHStatus\<close>

definition RedfishStatusDefault :: "RedfishStatus \<Rightarrow> RedfishStatus result" where
  "RedfishStatusDefault r =
     (let b = r_Basic (rf_Status r);
          m1 = set_label LabelClusterName (b_ClusterName b) (make_labels (rf_Meta r));
          m2 = set_label LabelIPAddr (hd (split_on CHR ''/'' (b_IpAddr b))) m1;
          m3 = set_label LabelClientMode (if b_Type b = HostTypeDHCP then HostTypeDHCP else HostTypeEndpoint) m2
      in Inr (r\<lparr>rf_Meta := m3\<rparr>))"

text \<open>\<open>if wanted \<noteq> "" && Labels[k] == "" { Labels[k] = wanted }\<close>.\<close>

definition label_if_absent :: "string \<Rightarrow> string \<Rightarrow> ObjectMeta \<Rightarrow> ObjectMeta" where
  "label_if_absent k wanted m = (if wanted \<noteq> [] \<and> get_label k m = [] then set_label k wanted m else m)"

definition SSHStatusDefault :: "SSHStatus \<Rightarrow> SSHStatus result" where
  "SSHStatusDefault s =
     (let b = s_Basic (sh_Status s);
          m1 = label_if_absent LabelIPAddr (sb_IpAddr b) (make_labels (sh_Meta s));
          m2 = label_if_absent LabelClientMode HostTypeSSH m1;
          m3 = label_if_absent LabelClusterName (sb_ClusterName b) m2
      in Inr (s\<lparr>sh_Meta := m3\<rparr>))"

section \<open>Every webhook is a defaulter\<close>

lemma set_label_get_id:
  "om_Labels m \<noteq> None \<Longrightarrow> v \<noteq> [] \<Longrightarrow> get_label k m = v \<Longrightarrow> set_label k v m = m"
  by (auto simp: get_label_def intro!: set_label_id split: option.splits)

lemma label_if_absent_simps [simp]:
  "om_Name (label_if_absent k v m) = om_Name m"
  "om_OwnerReferences (label_if_absent k v m) = om_OwnerReferences m"
  "om_Labels (label_if_absent k v m) = None \<longleftrightarrow> om_Labels m = None"
  by (simp_all add: label_if_absent_def set_label_def)

lemma get_label_if_absent:
  "om_Labels m \<noteq> None \<Longrightarrow> get_label k (label_if_absent k' v m) =
     (if k = k' \<and> get_label k m = [] then v else get_label k m)"
  by (auto simp: label_if_absent_def get_set_label)

lemma label_if_absent_id: "wanted = [] \<or> get_label k m \<noteq> [] \<Longrightarrow> label_if_absent k wanted m = m"
  by (auto simp: label_if_absent_def)

lemma set_label_same:
  "om_Labels m = Some l \<Longrightarrow> gm_get l k = Some v \<Longrightarrow> set_label k v m = m"
  by (rule set_label_id)

lemma set_labels_idem:
  fixes v v' v'' :: string
  assumes "k \<noteq> k'" "k \<noteq> k''" "k' \<noteq> k''"
  defines "f \<equiv> \<lambda>m. set_label k'' v'' (set_label k' v' (set_label k v (make_labels m)))"
  shows "f (f m) = f m"
proof -
  obtain l where l: "om_Labels (f m) = Some l" "gm_get l k = Some v" "gm_get l k' = Some v'" "gm_get l k'' = Some v''"
    using assms(1-3) by (cases "om_Labels m") (simp_all add: f_def set_label_def make_labels_def)
  have "make_labels (f m) = f m" using l(1) by (simp add: make_labels_id)
  moreover have "set_label k v (f m) = f m" "set_label k' v' (f m) = f m" "set_label k'' v'' (f m) = f m"
    using l by (auto intro: set_label_id)
  ultimately have "set_label k'' v'' (set_label k' v' (set_label k v (make_labels (f m)))) = f m"
    by simp
  then show ?thesis by (simp only: f_def)
qed

interpretation subnet_defaulter: defaulter "SubnetDefault config" sn_Meta
  "\<lambda>s. (sp_IPv4Subnet (sn_Spec s), sp_Feature (sn_Spec s), if_IPv4 (sp_Interface (sn_Spec s)), sn_Status s)"
  by unfold_locales (auto simp: SubnetDefault_def Let_def split: option.splits if_splits)

interpretation binding_defaulter: defaulter BindingIpDefault bi_Meta "\<lambda>b. (bi_Spec b, bi_Status b)"
  by unfold_locales (auto simp: BindingIpDefault_def)

lemma default_endpoint_spec_simps [simp]:
  "he_IPAddr (default_endpoint_spec config s) = he_IPAddr s"
  "he_ClusterName (default_endpoint_spec config s) = he_ClusterName s"
  "he_Type (default_endpoint_spec config s) = he_Type s"
  "he_HTTPS (default_endpoint_spec config s) = Some (case he_HTTPS s of None \<Rightarrow> True | Some b \<Rightarrow> b)"
  "he_Port (default_endpoint_spec config s) = Some (case he_Port s of None \<Rightarrow> 443 | Some p \<Rightarrow> p)"
  by (simp_all add: default_endpoint_spec_def Let_def split: option.splits)

lemma default_endpoint_spec_secret:
  "(he_SecretName (default_endpoint_spec config s), he_SecretNamespace (default_endpoint_spec config s)) =
     (if unset (he_SecretName s) \<and> unset (he_SecretNamespace s) \<and> he_HTTPS s \<noteq> Some False
      then (Some (cf_RedfishSecretName config), Some (cf_RedfishSecretNamespace config))
      else (he_SecretName s, he_SecretNamespace s))"
  by (cases "he_HTTPS s"; cases "he_Port s") (simp_all add: default_endpoint_spec_def Let_def)

lemma default_endpoint_spec_idem [simp]:
  "default_endpoint_spec config (default_endpoint_spec config s) = default_endpoint_spec config s"
  by (rule HostEndpointSpec.equality)
    (use default_endpoint_spec_secret [of config s] default_endpoint_spec_secret [of config "default_endpoint_spec config s"]
      in \<open>auto split: option.splits if_splits\<close>)

interpretation endpoint_defaulter: defaulter "HostEndpointDefault config" hep_Meta
  "\<lambda>e. (he_IPAddr (hep_Spec e), he_ClusterName (hep_Spec e), he_Type (hep_Spec e))"
  by unfold_locales (auto simp: HostEndpointDefault_def Let_def)

interpretation operation_defaulter: defaulter HostOperationDefault ho_Meta "\<lambda>x. (ho_Spec x, ho_Status x)"
  by unfold_locales (auto simp: HostOperationDefault_def)

interpretation redfish_defaulter: defaulter RedfishStatusDefault rf_Meta rf_Status
proof unfold_locales
  fix x y assume d: "RedfishStatusDefault x = Inr y"
  have n: "LabelClusterName \<noteq> LabelIPAddr" "LabelClusterName \<noteq> LabelClientMode" "LabelIPAddr \<noteq> LabelClientMode"
    by (simp_all add: label_defs)
  have y: "y = x\<lparr>rf_Meta := rf_Meta y\<rparr>"
    and m: "rf_Meta y = set_label LabelClientMode (if b_Type (r_Basic (rf_Status x)) = HostTypeDHCP then HostTypeDHCP else HostTypeEndpoint)
      (set_label LabelIPAddr (hd (split_on CHR ''/'' (b_IpAddr (r_Basic (rf_Status x)))))
        (set_label LabelClusterName (b_ClusterName (r_Basic (rf_Status x))) (make_labels (rf_Meta x))))"
    using d [symmetric] unfolding RedfishStatusDefault_def Let_def sum.inject by simp_all
  have s: "rf_Status y = rf_Status x" by (subst y) simp
  from set_labels_idem [OF n] have "RedfishStatusDefault y = Inr (y\<lparr>rf_Meta := rf_Meta y\<rparr>)"
    unfolding RedfishStatusDefault_def Let_def s m by (simp only:)
  then show "RedfishStatusDefault y = Inr y" by simp
qed (auto simp: RedfishStatusDefault_def Let_def)

interpretation ssh_defaulter: defaulter SSHStatusDefault sh_Meta sh_Status
proof unfold_locales
  fix x y assume d: "SSHStatusDefault x = Inr y"
  let ?b = "s_Basic (sh_Status x)"
  have n: "LabelClusterName \<noteq> LabelIPAddr" "LabelClusterName \<noteq> LabelClientMode" "LabelIPAddr \<noteq> LabelClientMode"
    "HostTypeSSH \<noteq> []"
    by (simp_all add: label_defs HostTypeSSH_def)
  have y: "sh_Status y = sh_Status x" using d by (auto simp: SSHStatusDefault_def Let_def)
  define m where "m = sh_Meta y"
  have m: "m = label_if_absent LabelClusterName (sb_ClusterName ?b) (label_if_absent LabelClientMode HostTypeSSH
      (label_if_absent LabelIPAddr (sb_IpAddr ?b) (make_labels (sh_Meta x))))"
    using d by (auto simp: SSHStatusDefault_def Let_def m_def)
  have l: "om_Labels m \<noteq> None" unfolding m by simp
  have "sb_IpAddr ?b = [] \<or> get_label LabelIPAddr m \<noteq> []" "get_label LabelClientMode m \<noteq> []"
    "sb_ClusterName ?b = [] \<or> get_label LabelClusterName m \<noteq> []"
    unfolding m using n by (auto simp: get_label_if_absent)
  then have "label_if_absent LabelClusterName (sb_ClusterName ?b) (label_if_absent LabelClientMode HostTypeSSH
      (label_if_absent LabelIPAddr (sb_IpAddr ?b) (make_labels m))) = m"
    using l by (simp add: make_labels_id label_if_absent_id)
  then show "SSHStatusDefault y = Inr y" unfolding SSHStatusDefault_def Let_def y m_def by simp
qed (auto simp: SSHStatusDefault_def Let_def)

section \<open>What an accepted object satisfies\<close>

lemma validateSubnet_ok:
  assumes "validateSubnet h s = Inr ()"
  obtains a0 n where "ParseCIDR (v4_Subnet (sp_IPv4Subnet (sn_Spec s))) = Some (a0, n)"
    "ValidateIPRange (v4_IPRange (sp_IPv4Subnet (sn_Spec s))) n = Inr ()"
    "\<And>g. v4_Gateway (sp_IPv4Subnet (sn_Spec s)) = Some g \<Longrightarrow> \<exists>a. ParseIP g = Some a \<and> ValidateIPInSubnet a n"
    "validateInterface h (sp_Interface (sn_Spec s)) n s = Inr ()"
  using assms by (fastforce simp: validateSubnet_def Let_def split: option.splits)

lemma validateInterface_ok:
  assumes "validateInterface h i n s = Inr ()" "sk_List h = Inr items"
  shows "if_VlanID i = Some v \<Longrightarrow> 0 \<le> v \<and> v \<le> 4094"
    and "x \<in> set items \<Longrightarrow> iface_conflict s i x = Inr ()"
  using assms by (auto simp: validateInterface_def for_each_Inr)

lemma iface_conflict_ok:
  "iface_conflict s i x = Inr () \<longleftrightarrow> om_Name (sn_Meta x) = om_Name (sn_Meta s)
     \<or> if_Interface (sp_Interface (sn_Spec x)) \<noteq> if_Interface i \<or> if_VlanID (sp_Interface (sn_Spec x)) \<noteq> if_VlanID i"
  by (cases "if_VlanID (sp_Interface (sn_Spec x))"; cases "if_VlanID i") (auto simp: iface_conflict_def Let_def)

lemma SubnetValidateUpdate_ok:
  assumes "SubnetValidateUpdate h old new = Inr ()"
  shows "v4_Subnet (sp_IPv4Subnet (sn_Spec new)) = v4_Subnet (sp_IPv4Subnet (sn_Spec old))"
    "sp_Interface (sn_Spec new) = sp_Interface (sn_Spec old)" "validateSubnet h new = Inr ()"
    "\<exists>n. ValidateIPRangeExpansion (v4_IPRange (sp_IPv4Subnet (sn_Spec old))) (v4_IPRange (sp_IPv4Subnet (sn_Spec new))) n = Inr ()"
proof -
  have v: "Int32PtrEqual a b \<longleftrightarrow> a = b" for a b by (cases a; cases b) simp_all
  show "v4_Subnet (sp_IPv4Subnet (sn_Spec new)) = v4_Subnet (sp_IPv4Subnet (sn_Spec old))"
    "sp_Interface (sn_Spec new) = sp_Interface (sn_Spec old)" "validateSubnet h new = Inr ()"
    "\<exists>n. ValidateIPRangeExpansion (v4_IPRange (sp_IPv4Subnet (sn_Spec old))) (v4_IPRange (sp_IPv4Subnet (sn_Spec new))) n = Inr ()"
    using assms by (auto simp: SubnetValidateUpdate_def Let_def v split: option.splits intro: InterfaceSpec.equality)
qed

lemma SubnetDefault_simps:
  assumes "SubnetDefault config s = Inr s'"
  shows "if_VlanID (sp_Interface (sn_Spec s')) \<noteq> None" "om_Name (sn_Meta s') = om_Name (sn_Meta s)"
  using assms by (auto simp: SubnetDefault_def Let_def split: option.splits if_splits)

lemma validateBindingIP_ok:
  assumes "validateBindingIP h b = Inr ()" "bk_List h = Inr items"
  obtains s a where "IsValidUnicastMAC (bs_MacAddr (bi_Spec b))" "bk_GetSubnet h (bs_Subnet (bi_Spec b)) = Inr s"
    "ParseIP (bs_IpAddr (bi_Spec b)) = Some a" "IsIPInRange a (v4_IPRange (sp_IPv4Subnet (sn_Spec s)))"
    "\<And>x. x \<in> set items \<Longrightarrow> binding_conflict b x = Inr ()"
  using assms by (auto simp: validateBindingIP_def for_each_Inr split: option.splits)

lemma binding_conflict_ok:
  "binding_conflict b x = Inr () \<longleftrightarrow> om_Name (bi_Meta x) = om_Name (bi_Meta b)
     \<or> bs_IpAddr (bi_Spec x) \<noteq> bs_IpAddr (bi_Spec b) \<and> \<not> equal_fold (bs_MacAddr (bi_Spec x)) (bs_MacAddr (bi_Spec b))"
  by (auto simp: binding_conflict_def)

text \<open>\<open>subnet.Spec.Feature.SyncRedfishstatus\<close> without a nil check: the field is optional in the
  resource.\<close>

lemma SubnetDefault_panics:
  "sp_Feature (sn_Spec s) = None \<Longrightarrow> SubnetDefault config s = Inl (Panic ''nil pointer dereference'')"
  by (simp add: SubnetDefault_def)

section \<open>Host endpoints\<close>

lemma validateHostEndpoint_ok:
  assumes "validateHostEndpoint h e = Inr ()"
  shows "ParseIP (he_IPAddr (hep_Spec e)) \<noteq> None"
    and "ek_ListEndpoints h = Inr items \<Longrightarrow> x \<in> set items \<Longrightarrow> om_Name (hep_Meta x) \<noteq> om_Name (hep_Meta e) \<Longrightarrow>
      he_IPAddr (hep_Spec x) \<noteq> he_IPAddr (hep_Spec e)"
    and "ek_ListRedfish h = Inr rs \<Longrightarrow> r \<in> set rs \<Longrightarrow> b_IpAddr (r_Basic (rf_Status r)) \<noteq> he_IPAddr (hep_Spec e)"
    and "unset (he_SecretName (hep_Spec e)) \<longleftrightarrow> unset (he_SecretNamespace (hep_Spec e))"
    and "\<not> unset (he_SecretName (hep_Spec e)) \<Longrightarrow>
      \<exists>d. ek_GetSecret h (the (he_SecretNamespace (hep_Spec e))) (the (he_SecretName (hep_Spec e))) = Inr d
        \<and> gm_get d ''username'' \<noteq> None \<and> gm_get d ''password'' \<noteq> None"
proof -
  note d = assms [unfolded validateHostEndpoint_def Let_def, simplified]
  show "ParseIP (he_IPAddr (hep_Spec e)) \<noteq> None" using d by auto
  show "ek_ListEndpoints h = Inr items \<Longrightarrow> x \<in> set items \<Longrightarrow> om_Name (hep_Meta x) \<noteq> om_Name (hep_Meta e) \<Longrightarrow>
      he_IPAddr (hep_Spec x) \<noteq> he_IPAddr (hep_Spec e)"
    using d by (auto simp: for_each_Inr)
  show "ek_ListRedfish h = Inr rs \<Longrightarrow> r \<in> set rs \<Longrightarrow> b_IpAddr (r_Basic (rf_Status r)) \<noteq> he_IPAddr (hep_Spec e)"
    using d by (auto simp: for_each_Inr)
  show u: "unset (he_SecretName (hep_Spec e)) \<longleftrightarrow> unset (he_SecretNamespace (hep_Spec e))"
    using d by blast
  show "\<not> unset (he_SecretName (hep_Spec e)) \<Longrightarrow>
      \<exists>d. ek_GetSecret h (the (he_SecretNamespace (hep_Spec e))) (the (he_SecretName (hep_Spec e))) = Inr d
        \<and> gm_get d ''username'' \<noteq> None \<and> gm_get d ''password'' \<noteq> None"
    using d u by (auto split: sum.splits)
qed

text \<open>Property C25: a host endpoint that passed the defaulter and the validator has HTTPS and port
  set, an IP no other endpoint and no Redfish host uses, and either the name and namespace of a
  readable secret with a user name and a password, or neither; it has a secret whenever it uses
  HTTPS and a default secret is configured, and no later update changes it.\<close>

theorem HostEndpoint_admitted:
  assumes "HostEndpointDefault config e0 = Inr e" "HostEndpointValidateCreate h e = Inr ()"
    and "ek_ListEndpoints h = Inr items" "ek_ListRedfish h = Inr rs"
  shows "he_HTTPS (hep_Spec e) \<noteq> None \<and> he_Port (hep_Spec e) \<noteq> None
    \<and> he_IPAddr (hep_Spec e) \<notin> (\<lambda>x. he_IPAddr (hep_Spec x)) ` {x \<in> set items. om_Name (hep_Meta x) \<noteq> om_Name (hep_Meta e)}
    \<and> he_IPAddr (hep_Spec e) \<notin> (\<lambda>r. b_IpAddr (r_Basic (rf_Status r))) ` set rs
    \<and> ((unset (he_SecretName (hep_Spec e)) \<and> unset (he_SecretNamespace (hep_Spec e))
          \<and> (he_HTTPS (hep_Spec e) = Some False \<or> cf_RedfishSecretName config = []))
       \<or> (\<exists>d. ek_GetSecret h (the (he_SecretNamespace (hep_Spec e))) (the (he_SecretName (hep_Spec e))) = Inr d
          \<and> gm_get d ''username'' \<noteq> None \<and> gm_get d ''password'' \<noteq> None))
    \<and> HostEndpointValidateUpdate e e' \<noteq> Inr ()"
proof -
  have v: "validateHostEndpoint h e = Inr ()" using assms(2) by (simp add: HostEndpointValidateCreate_def)
  have s: "hep_Spec e = default_endpoint_spec config (hep_Spec e0)"
    using assms(1) by (auto simp: HostEndpointDefault_def Let_def)
  have n: "unset (he_SecretName (hep_Spec e)) \<Longrightarrow> unset (he_SecretNamespace (hep_Spec e)) \<Longrightarrow>
      he_HTTPS (hep_Spec e) = Some False \<or> cf_RedfishSecretName config = []"
    using default_endpoint_spec_secret [of config "hep_Spec e0"] unfolding s
    by (cases "he_HTTPS (hep_Spec e0)") (auto simp: unset_def split: if_splits)
  note ok = validateHostEndpoint_ok [OF v]
  show ?thesis
  proof (intro conjI)
    show "he_HTTPS (hep_Spec e) \<noteq> None" "he_Port (hep_Spec e) \<noteq> None" unfolding s by simp_all
    show "HostEndpointValidateUpdate e e' \<noteq> Inr ()" by (simp add: HostEndpointValidateUpdate_def)
    show "he_IPAddr (hep_Spec e) \<notin> (\<lambda>x. he_IPAddr (hep_Spec x)) ` {x \<in> set items. om_Name (hep_Meta x) \<noteq> om_Name (hep_Meta e)}"
      using ok(2) [OF assms(3)] by force
    show "he_IPAddr (hep_Spec e) \<notin> (\<lambda>r. b_IpAddr (r_Basic (rf_Status r))) ` set rs"
      using ok(3) [OF assms(4)] by force
  qed (use ok(4,5) n in metis)
qed

lemma HostEndpoint_admitted_witness:
  "\<exists>e. HostEndpointDefault example_config \<lparr>hep_Meta = new_meta ''h1'', hep_Spec = \<lparr>he_ClusterName = None,
       he_IPAddr = ''192.168.1.15'', he_SecretName = None, he_SecretNamespace = None, he_HTTPS = None,
       he_Port = None, he_Type = None\<rparr>\<rparr> = Inr e \<and> he_Port (hep_Spec e) \<noteq> None"
proof -
  let ?e0 = "\<lparr>hep_Meta = new_meta ''h1'', hep_Spec = \<lparr>he_ClusterName = None, he_IPAddr = ''192.168.1.15'',
     he_SecretName = None, he_SecretNamespace = None, he_HTTPS = None, he_Port = None, he_Type = None\<rparr>\<rparr>"
  let ?h = "\<lparr>ek_ListEndpoints = Inr [], ek_ListRedfish = Inr [],
     ek_GetSecret = (\<lambda>ns n. Inr [(''username'', ''root''), (''password'', ''pw'')])\<rparr>"
  obtain e where e: "HostEndpointDefault example_config ?e0 = Inr e" by (simp add: HostEndpointDefault_def)
  then have s: "hep_Spec e = default_endpoint_spec example_config (hep_Spec ?e0)"
    by (auto simp: HostEndpointDefault_def Let_def)
  have p: "ParseIP ''192.168.1.15'' \<noteq> None" by code_simp
  have "HostEndpointValidateCreate ?h e = Inr ()"
    using p unfolding HostEndpointValidateCreate_def validateHostEndpoint_def s
    by (simp add: default_endpoint_spec_def unset_def example_config_def Let_def)
  from HostEndpoint_admitted [OF e this] e show ?thesis by auto
qed

end
