(* ===== verification/Admission.thy ===== *)
theory Admission
  imports Webhooks
begin

text \<open>
  What the webhooks of subnets and of binding IPs guarantee together. The API server's objects
  change by admitted requests, one after the other (two requests validated at the same time are
  not covered: each lists the objects before the other is stored). The webhook of subnets accepts
  every deletion (\<open>SubnetHook_ValidateDelete\<close>), so a binding may be left behind by its subnet, and then stand beside a new subnet
  of that name; \<open>st_Left\<close> is not an object of the API server but keeps the names of these bindings
  for the statements, until they are admitted again or deleted.
\<close>

record object_store =
  st_Subnets :: "Subnet list"
  st_Bindings :: "BindingIp list"
  st_Left :: "string list"

definition subnet_name :: "Subnet \<Rightarrow> string" where
  "subnet_name s = om_Name (sn_Meta s)"

definition binding_name :: "BindingIp \<Rightarrow> string" where
  "binding_name b = om_Name (bi_Meta b)"

definition subnet_range :: "Subnet \<Rightarrow> string" where
  "subnet_range s = v4_IPRange (sp_IPv4Subnet (sn_Spec s))"

definition get_subnet :: "object_store \<Rightarrow> string \<Rightarrow> Subnet result" where
  "get_subnet st n = (case find (\<lambda>s. subnet_name s = n) (st_Subnets st) of
     None \<Rightarrow> Inl (ApiErr NotFound) | Some s \<Rightarrow> Inr s)"

definition put_subnet :: "Subnet \<Rightarrow> Subnet list \<Rightarrow> Subnet list" where
  "put_subnet s = map (\<lambda>x. if subnet_name x = subnet_name s then s else x)"

definition put_binding :: "BindingIp \<Rightarrow> BindingIp list \<Rightarrow> BindingIp list" where
  "put_binding b = map (\<lambda>x. if binding_name x = binding_name b then b else x)"

text \<open>The bindings that name a subnet.\<close>

definition naming :: "string \<Rightarrow> BindingIp list \<Rightarrow> string list" where
  "naming n bs = map binding_name (filter (\<lambda>b. bs_Subnet (bi_Spec b) = n) bs)"

definition hook_of :: "object_store \<Rightarrow> binding_hook" where
  "hook_of st = \<lparr>bk_GetSubnet = get_subnet st, bk_List = Inr (st_Bindings st)\<rparr>"

inductive admitted :: "AgentConfig \<Rightarrow> object_store \<Rightarrow> bool" for config where
  empty: "admitted config \<lparr>st_Subnets = [], st_Bindings = [], st_Left = []\<rparr>"
| create_subnet: "admitted config st \<Longrightarrow> SubnetDefault config s0 = Inr s \<Longrightarrow>
    subnet_name s0 \<notin> subnet_name ` set (st_Subnets st) \<Longrightarrow> sk_List h = Inr (st_Subnets st) \<Longrightarrow>
    SubnetValidateCreate h s = Inr () \<Longrightarrow> admitted config (st\<lparr>st_Subnets := s # st_Subnets st\<rparr>)"
| update_subnet: "admitted config st \<Longrightarrow> SubnetDefault config s0 = Inr s \<Longrightarrow>
    old \<in> set (st_Subnets st) \<Longrightarrow> subnet_name s0 = subnet_name old \<Longrightarrow> sk_List h = Inr (st_Subnets st) \<Longrightarrow>
    SubnetValidateUpdate h old s = Inr () \<Longrightarrow> admitted config (st\<lparr>st_Subnets := put_subnet s (st_Subnets st)\<rparr>)"
| delete_subnet: "admitted config st \<Longrightarrow> old \<in> set (st_Subnets st) \<Longrightarrow>
    admitted config (st\<lparr>st_Subnets := filter (\<lambda>s. subnet_name s \<noteq> subnet_name old) (st_Subnets st),
      st_Left := naming (subnet_name old) (st_Bindings st) @ st_Left st\<rparr>)"
| create_binding: "admitted config st \<Longrightarrow> BindingIpDefault b0 = Inr b \<Longrightarrow>
    binding_name b0 \<notin> binding_name ` set (st_Bindings st) \<Longrightarrow>
    BindingIpValidateCreate (hook_of st) b = Inr () \<Longrightarrow>
    admitted config (st\<lparr>st_Bindings := b # st_Bindings st, st_Left := removeAll (binding_name b) (st_Left st)\<rparr>)"
| update_binding: "admitted config st \<Longrightarrow> BindingIpDefault b0 = Inr b \<Longrightarrow>
    old \<in> set (st_Bindings st) \<Longrightarrow> binding_name b0 = binding_name old \<Longrightarrow>
    BindingIpValidateUpdate (hook_of st) old b = Inr () \<Longrightarrow>
    admitted config (st\<lparr>st_Bindings := put_binding b (st_Bindings st),
      st_Left := removeAll (binding_name b) (st_Left st)\<rparr>)"
| delete_binding: "admitted config st \<Longrightarrow> old \<in> set (st_Bindings st) \<Longrightarrow>
    admitted config (st\<lparr>st_Bindings := filter (\<lambda>b. binding_name b \<noteq> binding_name old) (st_Bindings st)\<rparr>)"

section \<open>The invariant\<close>

definition subnet_valid :: "Subnet \<Rightarrow> bool" where
  "subnet_valid s \<longleftrightarrow> (\<exists>h. validateSubnet h s = Inr ()) \<and> if_VlanID (sp_Interface (sn_Spec s)) \<noteq> None"

definition subnets_apart :: "Subnet \<Rightarrow> Subnet \<Rightarrow> bool" where
  "subnets_apart s t \<longleftrightarrow> subnet_name s = subnet_name t
     \<or> if_Interface (sp_Interface (sn_Spec s)) \<noteq> if_Interface (sp_Interface (sn_Spec t))
     \<or> if_VlanID (sp_Interface (sn_Spec s)) \<noteq> if_VlanID (sp_Interface (sn_Spec t))"

definition binding_placed :: "Subnet list \<Rightarrow> BindingIp \<Rightarrow> bool" where
  "binding_placed ss b \<longleftrightarrow> IsValidUnicastMAC (bs_MacAddr (bi_Spec b)) \<and>
     (\<exists>s \<in> set ss. \<exists>a. subnet_name s = bs_Subnet (bi_Spec b) \<and> ParseIP (bs_IpAddr (bi_Spec b)) = Some a
        \<and> IsIPInRange a (subnet_range s))"

definition bindings_apart :: "BindingIp \<Rightarrow> BindingIp \<Rightarrow> bool" where
  "bindings_apart b c \<longleftrightarrow> binding_name b = binding_name c
     \<or> bs_IpAddr (bi_Spec b) \<noteq> bs_IpAddr (bi_Spec c) \<and> \<not> equal_fold (bs_MacAddr (bi_Spec b)) (bs_MacAddr (bi_Spec c))"

definition store_ok :: "object_store \<Rightarrow> bool" where
  "store_ok st \<longleftrightarrow> distinct (map subnet_name (st_Subnets st)) \<and> distinct (map binding_name (st_Bindings st))
     \<and> (\<forall>s \<in> set (st_Subnets st). subnet_valid s)
     \<and> (\<forall>s \<in> set (st_Subnets st). \<forall>t \<in> set (st_Subnets st). subnets_apart s t)
     \<and> (\<forall>b \<in> set (st_Bindings st). IsValidUnicastMAC (bs_MacAddr (bi_Spec b)))
     \<and> (\<forall>b \<in> set (st_Bindings st). binding_name b \<notin> set (st_Left st) \<longrightarrow> binding_placed (st_Subnets st) b)
     \<and> (\<forall>b \<in> set (st_Bindings st). \<forall>c \<in> set (st_Bindings st). bindings_apart b c)"

lemma subnets_apart_sym: "subnets_apart s t \<Longrightarrow> subnets_apart t s"
  by (auto simp: subnets_apart_def)

lemma bindings_apart_sym: "bindings_apart b c \<Longrightarrow> bindings_apart c b"
  by (auto simp: bindings_apart_def dest: equal_fold_sym)

lemma map_name_put [simp]:
  "map subnet_name (put_subnet s xs) = map subnet_name xs"
  "map binding_name (put_binding b ys) = map binding_name ys"
  by (simp_all add: put_subnet_def put_binding_def)

lemma set_put:
  "x \<in> set (put_subnet s xs) \<Longrightarrow> x = s \<or> x \<in> set xs"
  "y \<in> set (put_binding b ys) \<Longrightarrow> y = b \<or> y \<in> set ys \<and> binding_name y \<noteq> binding_name b"
  by (auto simp: put_subnet_def put_binding_def)

lemma get_subnet_Inr:
  "get_subnet st n = Inr s \<Longrightarrow> s \<in> set (st_Subnets st) \<and> subnet_name s = n"
  by (auto simp: get_subnet_def find_Some_iff split: option.splits)

text \<open>An accepted subnet is apart from every stored one.\<close>

lemma validateSubnet_apart:
  assumes "validateSubnet h s = Inr ()" "sk_List h = Inr items" "x \<in> set items"
  shows "subnets_apart s x"
proof -
  obtain n where "validateInterface h (sp_Interface (sn_Spec s)) n s = Inr ()"
    using assms(1) by (rule validateSubnet_ok)
  from validateInterface_ok(2) [OF this assms(2,3)] show ?thesis
    by (auto simp: iface_conflict_ok subnets_apart_def subnet_name_def)
qed

lemma validateBindingIP_store:
  assumes "validateBindingIP (hook_of st) b = Inr ()"
  shows "binding_placed (st_Subnets st) b" "x \<in> set (st_Bindings st) \<Longrightarrow> bindings_apart b x"
proof -
  have l: "bk_List (hook_of st) = Inr (st_Bindings st)" by (simp add: hook_of_def)
  obtain s a where "IsValidUnicastMAC (bs_MacAddr (bi_Spec b))"
    "bk_GetSubnet (hook_of st) (bs_Subnet (bi_Spec b)) = Inr s" "ParseIP (bs_IpAddr (bi_Spec b)) = Some a"
    "IsIPInRange a (v4_IPRange (sp_IPv4Subnet (sn_Spec s)))"
    and c: "\<And>x. x \<in> set (st_Bindings st) \<Longrightarrow> binding_conflict b x = Inr ()"
    by (rule validateBindingIP_ok [OF assms l]) blast
  then show "binding_placed (st_Subnets st) b"
    by (auto simp: hook_of_def binding_placed_def subnet_range_def dest: get_subnet_Inr)
  show "x \<in> set (st_Bindings st) \<Longrightarrow> bindings_apart b x"
    using c [of x] by (auto simp: binding_conflict_ok bindings_apart_def binding_name_def dest: equal_fold_sym)
qed

lemma binding_placed_mono:
  assumes "binding_placed ss b"
    and "\<And>s a. s \<in> set ss \<Longrightarrow> subnet_name s = bs_Subnet (bi_Spec b) \<Longrightarrow> length a = 16 \<Longrightarrow> IsIPInRange a (subnet_range s) \<Longrightarrow>
      \<exists>t \<in> set ts. subnet_name t = subnet_name s \<and> IsIPInRange a (subnet_range t)"
  shows "binding_placed ts b"
proof -
  obtain s a where s: "s \<in> set ss" "subnet_name s = bs_Subnet (bi_Spec b)"
    "ParseIP (bs_IpAddr (bi_Spec b)) = Some a" "IsIPInRange a (subnet_range s)" and m: "IsValidUnicastMAC (bs_MacAddr (bi_Spec b))"
    using assms(1) by (auto simp: binding_placed_def)
  from assms(2) [OF s(1,2) ParseIP_length [OF s(3)] s(4)] s m show ?thesis
    by (auto simp: binding_placed_def)
qed

lemma binding_placed_mac: "binding_placed ss b \<Longrightarrow> IsValidUnicastMAC (bs_MacAddr (bi_Spec b))"
  by (simp add: binding_placed_def)

lemma update_subnet_placed:
  assumes "distinct (map subnet_name ss)" "old \<in> set ss" "subnet_name s = subnet_name old"
    "SubnetValidateUpdate h old s = Inr ()" "binding_placed ss b"
  shows "binding_placed (put_subnet s ss) b"
  using assms(5)
proof (rule binding_placed_mono)
  fix t a assume t: "t \<in> set ss" and a: "length a = 16" "IsIPInRange a (subnet_range t)"
  show "\<exists>u \<in> set (put_subnet s ss). subnet_name u = subnet_name t \<and> IsIPInRange a (subnet_range u)"
  proof (cases "subnet_name t = subnet_name s")
    case True
    then have "t = old" using assms(1-3) t by (auto simp: distinct_map dest: inj_onD)
    then have "IsIPInRange a (subnet_range s)"
      using SubnetValidateUpdate_ok(4) [OF assms(4)] a expansion_keeps unfolding subnet_range_def by blast
    moreover have "s \<in> set (put_subnet s ss)" using assms(2,3) by (force simp: put_subnet_def)
    ultimately show ?thesis using True by auto
  next
    case False
    then have "t \<in> set (put_subnet s ss)" using t by (force simp: put_subnet_def)
    with a show ?thesis by blast
  qed
qed

lemma store_ok_admitted:
  assumes "admitted config st"
  shows "store_ok st"
  using assms
proof (induction rule: admitted.induct)
  case empty
  show ?case by (simp add: store_ok_def)
next
  case (create_subnet st s0 s h)
  then have v: "validateSubnet h s = Inr ()" by (simp add: SubnetValidateCreate_def)
  have n: "subnet_name s = subnet_name s0" "if_VlanID (sp_Interface (sn_Spec s)) \<noteq> None"
    using SubnetDefault_simps [OF create_subnet(2)] by (simp_all add: subnet_name_def)
  have ap: "subnets_apart s x" if "x \<in> set (st_Subnets st)" for x
    using validateSubnet_apart [OF v create_subnet(4) that] .
  have pl: "binding_placed (s # st_Subnets st) b" if "binding_placed (st_Subnets st) b" for b
    using that by (auto simp: binding_placed_def)
  have "subnet_valid s" using v n by (auto simp: subnet_valid_def)
  moreover have "subnets_apart s s" by (simp add: subnets_apart_def)
  ultimately show ?case using create_subnet n(1) ap pl subnets_apart_sym
    by (auto simp: store_ok_def)
next
  case (update_subnet st s0 s old h)
  have v: "validateSubnet h s = Inr ()" using SubnetValidateUpdate_ok(3) update_subnet by blast
  have n: "subnet_name s = subnet_name old" "if_VlanID (sp_Interface (sn_Spec s)) \<noteq> None"
    using SubnetDefault_simps [OF update_subnet(2)] update_subnet(4) by (simp_all add: subnet_name_def)
  have d: "distinct (map subnet_name (st_Subnets st))" using update_subnet by (simp add: store_ok_def)
  have pl: "binding_placed (put_subnet s (st_Subnets st)) b" if "binding_placed (st_Subnets st) b" for b
    using update_subnet_placed [OF d update_subnet(3) n(1) update_subnet(6) that] .
  have ap: "subnets_apart x y" if "x \<in> set (put_subnet s (st_Subnets st))" "y \<in> set (put_subnet s (st_Subnets st))" for x y
    using that [THEN set_put(1)] update_subnet validateSubnet_apart [OF v update_subnet(5)] subnets_apart_sym
    by (auto simp: store_ok_def) (simp add: subnets_apart_def)
  have "subnet_valid s" using v n by (auto simp: subnet_valid_def)
  then show ?case using update_subnet pl ap
    by (auto simp: store_ok_def dest: set_put(1))
next
  case (delete_subnet st old)
  have pl: "binding_placed (filter (\<lambda>s. subnet_name s \<noteq> subnet_name old) (st_Subnets st)) b"
    if "b \<in> set (st_Bindings st)" "binding_name b \<notin> set (naming (subnet_name old) (st_Bindings st))"
      "binding_name b \<notin> set (st_Left st)" for b
    by (rule binding_placed_mono [of "st_Subnets st"])
      (use delete_subnet that in \<open>auto simp: store_ok_def naming_def\<close>)
  with delete_subnet show ?case by (auto simp: store_ok_def distinct_map_filter)
next
  case (create_binding st b0 b)
  then have v: "validateBindingIP (hook_of st) b = Inr ()" by (simp add: BindingIpValidateCreate_def)
  have n: "binding_name b = binding_name b0"
    using create_binding(2) by (auto simp: BindingIpDefault_def binding_name_def)
  have new: "binding_name x \<noteq> binding_name b" if "x \<in> set (st_Bindings st)" for x
    using create_binding(3) n that by (metis imageI)
  have "bindings_apart b b" by (simp add: bindings_apart_def)
  then show ?case
    using create_binding new n validateBindingIP_store [OF v] bindings_apart_sym binding_placed_mac
    by (auto simp: store_ok_def)
next
  case (update_binding st b0 b old)
  then have v: "validateBindingIP (hook_of st) b = Inr ()" by (simp add: BindingIpValidateUpdate_def)
  have ap: "bindings_apart x y" if "x \<in> set (put_binding b (st_Bindings st))" "y \<in> set (put_binding b (st_Bindings st))" for x y
    using that [THEN set_put(2)] update_binding validateBindingIP_store(2) [OF v] bindings_apart_sym
    by (auto simp: store_ok_def) (simp add: bindings_apart_def)
  then show ?case using update_binding validateBindingIP_store(1) [OF v] binding_placed_mac
    by (auto simp: store_ok_def dest: set_put(2))
next
  case (delete_binding st old)
  then show ?case by (auto simp: store_ok_def distinct_map_filter)
qed

section \<open>A concrete store\<close>

definition example_hook :: "object_store \<Rightarrow> subnet_hook" where
  "example_hook st = \<lparr>sk_Interfaces = Inr [''lo'', ''eth1''], sk_LinkByName = (\<lambda>_. Inr ()),
     sk_AddrList = Inr [], sk_List = Inr (st_Subnets st)\<rparr>"

definition stored_subnet :: Subnet where
  "stored_subnet = (case SubnetDefault example_config example_subnet of Inr s \<Rightarrow> s | Inl _ \<Rightarrow> example_subnet)"

definition example_binding :: BindingIp where
  "example_binding = \<lparr>bi_Meta = (new_meta ''b1'')\<lparr>om_Labels := Some [(LabelSubnetName, ''net1'')]\<rparr>,
     bi_Spec = \<lparr>bs_Subnet = ''net1'', bs_IpAddr = ''192.168.1.15'', bs_MacAddr = ''00:11:22:33:44:55''\<rparr>,
     bi_Status = \<lparr>bst_Valid = True\<rparr>\<rparr>"

definition example_store :: object_store where
  "example_store = \<lparr>st_Subnets = [stored_subnet], st_Bindings = [example_binding], st_Left = []\<rparr>"

lemma ParseCIDR_gateway:
  "ParseCIDR ''192.168.1.1/24'' =
     Some (v4_prefix @ [192, 168, 1, 1], \<lparr>net_ip = [192, 168, 1, 0], net_mask = [255, 255, 255, 0]\<rparr>)"
proof -
  have p: "parse_addr ''192.168.1.1'' = Some [192, 168, 1, 1]" by code_simp
  have d: "dtoi ''24'' = Some 24" by (simp add: dtoi_def digit_val_def)
  have c: "cidr_mask 24 4 = [255, 255, 255, 0]" by (simp add: cidr_mask_numeral)
  show ?thesis by (simp add: ParseCIDR_def p d c as16_def ip_mask_def v4_prefix_def)
qed

lemma example_subnet_accepted:
  assumes "\<forall>x \<in> set (st_Subnets st). subnets_apart stored_subnet x"
  shows "SubnetValidateCreate (example_hook st) stored_subnet = Inr ()"
proof -
  have r: "ValidateIPRange ''192.168.1.10-192.168.1.20'' example_net = Inr ()"
    using example_range_ok by (simp add: ValidateIPRange_ok example_split(1))
  have c: "iface_conflict stored_subnet (sp_Interface (sn_Spec stored_subnet)) x = Inr ()" if "x \<in> set (st_Subnets st)" for x
    using assms that by (auto simp: iface_conflict_ok subnets_apart_def subnet_name_def)
  have n: "\<lparr>net_ip = [192, 168, 1, 0], net_mask = [255, 255, 255, 0]\<rparr> = example_net"
    by (simp add: example_net_def)
  have "ValidateIPWithSubnetMatch ''192.168.1.1/24'' example_net = Inr ()"
    by (simp add: ValidateIPWithSubnetMatch_def ParseCIDR_gateway ValidateIPInSubnet_def example_net_contains
        nil_mask_def) (simp add: example_net_def ip_mask_def To4_def v4_prefix_def ip_equal_same_length)
  moreover have "ValidateHostInterfaceSubnet (Inr []) i = Inr ()" if "if_IPv4 i = ''192.168.1.1/24''" for i
    using that ParseCIDR_gateway by (simp add: ValidateHostInterfaceSubnet_def netlink_ParseAddr_def)
  ultimately have "validateInterface (example_hook st) (sp_Interface (sn_Spec stored_subnet)) example_net stored_subnet = Inr ()"
    using c by (simp add: validateInterface_def example_hook_def for_each_Inr ValidateInterfaceExists_def)
       (simp add: stored_subnet_def SubnetDefault_def example_subnet_def example_feature_def)
  with r show ?thesis
    by (simp add: SubnetValidateCreate_def validateSubnet_def stored_subnet_def SubnetDefault_def example_subnet_def
        example_feature_def ParseCIDR_example n)
qed

lemma example_default:
  "SubnetDefault example_config example_subnet = Inr stored_subnet" "subnet_name stored_subnet = ''net1''"
  "subnet_range stored_subnet = ''192.168.1.10-192.168.1.20''"
  by (simp_all add: stored_subnet_def SubnetDefault_def example_subnet_def example_feature_def subnet_name_def
      subnet_range_def new_meta_def)

lemma example_binding_accepted:
  assumes "st_Subnets st = [stored_subnet]" "\<forall>x \<in> set (st_Bindings st). binding_conflict b x = Inr ()"
    and "bs_Subnet (bi_Spec b) = ''net1''" "ParseIP (bs_IpAddr (bi_Spec b)) = Some (v4_prefix @ [192, 168, 1, 15])"
    and "IsValidUnicastMAC (bs_MacAddr (bi_Spec b))"
  shows "BindingIpValidateCreate (hook_of st) b = Inr ()"
proof -
  have r: "IsIPInRange (v4_prefix @ [192, 168, 1, 15]) (subnet_range stored_subnet)"
    using example_ends by (simp add: IsIPInRange_iff range_set_def entry_set_def example_default split_on_absent)
  have "for_each (binding_conflict b) (st_Bindings st) = Inr ()" using assms(2) by (simp add: for_each_Inr)
  with r assms show ?thesis
    by (simp add: BindingIpValidateCreate_def validateBindingIP_def hook_of_def get_subnet_def example_default
        subnet_range_def [symmetric])
qed

lemma example_ip: "ParseIP ''192.168.1.15'' = Some (v4_prefix @ [192, 168, 1, 15])"
  by code_simp

lemma example_mac: "IsValidUnicastMAC ''00:11:22:33:44:55''" "IsValidUnicastMAC ''00-11-22-33-44-55''"
  by code_simp+

lemma example_store_admitted: "admitted example_config example_store"
proof -
  let ?e = "\<lparr>st_Subnets = [], st_Bindings = [], st_Left = []\<rparr>" and ?s = "\<lparr>st_Subnets = [stored_subnet], st_Bindings = [], st_Left = []\<rparr>"
  have "admitted example_config (?e\<lparr>st_Subnets := stored_subnet # st_Subnets ?e\<rparr>)"
    by (rule create_subnet [OF empty example_default(1)])
      (use example_subnet_accepted [of ?e] in \<open>simp_all add: example_hook_def\<close>)
  then have s: "admitted example_config ?s" by simp
  have d: "BindingIpDefault example_binding = Inr example_binding"
    by (simp add: BindingIpDefault_def example_binding_def make_labels_id set_label_id)
  have "admitted example_config (?s\<lparr>st_Bindings := example_binding # st_Bindings ?s,
      st_Left := removeAll (binding_name example_binding) (st_Left ?s)\<rparr>)"
    by (rule create_binding [OF s d]) (auto intro: example_binding_accepted simp: example_binding_def example_mac example_ip)
  then show ?thesis by (simp add: example_store_def)
qed

section \<open>Properties\<close>

text \<open>Property C23: whatever requests the webhooks admitted, every stored binding has a unicast hardware
  address; and unless its subnet was deleted since the binding was last admitted (the webhook accepts
  every deletion), it names a stored subnet, later widening of ranges included, its IP is in that
  subnet's range, and, the subnet being an IPv4 one, inside the network itself.\<close>

theorem admitted_binding_placed:
  assumes "admitted config st" "b \<in> set (st_Bindings st)"
  shows "IsValidUnicastMAC (bs_MacAddr (bi_Spec b)) \<and> (binding_name b \<notin> set (st_Left st) \<longrightarrow>
    (\<exists>s a. get_subnet st (bs_Subnet (bi_Spec b)) = Inr s \<and> ParseIP (bs_IpAddr (bi_Spec b)) = Some a
       \<and> IsIPInRange a (subnet_range s)
       \<and> (\<forall>a0 n. ParseCIDR (v4_Subnet (sp_IPv4Subnet (sn_Spec s))) = Some (a0, n) \<longrightarrow> length (net_mask n) = 4
             \<longrightarrow> ValidateIPInSubnet a n)))"
proof (intro conjI impI)
  have ok: "store_ok st" using assms(1) by (rule store_ok_admitted)
  then show "IsValidUnicastMAC (bs_MacAddr (bi_Spec b))" using assms(2) by (simp add: store_ok_def)
  assume "binding_name b \<notin> set (st_Left st)"
  with ok obtain s a where s: "s \<in> set (st_Subnets st)" "subnet_name s = bs_Subnet (bi_Spec b)"
    "ParseIP (bs_IpAddr (bi_Spec b)) = Some a" "IsIPInRange a (subnet_range s)"
    using assms(2) by (auto simp: store_ok_def binding_placed_def)
  have g: "get_subnet st (bs_Subnet (bi_Spec b)) = Inr s"
  proof -
    obtain s' where "get_subnet st (bs_Subnet (bi_Spec b)) = Inr s'"
      using s(1,2) by (cases "find (\<lambda>s. subnet_name s = bs_Subnet (bi_Spec b)) (st_Subnets st)")
        (auto simp: get_subnet_def find_None_iff)
    moreover from get_subnet_Inr [OF this] have "s' = s"
      using ok s(1,2) by (auto simp: store_ok_def distinct_map inj_on_def)
    ultimately show ?thesis by simp
  qed
  obtain h where "validateSubnet h s = Inr ()" using ok s(1) by (auto simp: store_ok_def subnet_valid_def)
  then obtain a0 n where n: "ParseCIDR (v4_Subnet (sp_IPv4Subnet (sn_Spec s))) = Some (a0, n)"
    "ValidateIPRange (subnet_range s) n = Inr ()" unfolding subnet_range_def by (rule validateSubnet_ok) blast
  have "length (net_mask n) = 4 \<longrightarrow> ValidateIPInSubnet a n"
    using range_in_subnet [OF n(1) _ n(2) ParseIP_length [OF s(3)] s(4)] by blast
  with g s n(1) show "\<exists>s a. get_subnet st (bs_Subnet (bi_Spec b)) = Inr s \<and> ParseIP (bs_IpAddr (bi_Spec b)) = Some a
       \<and> IsIPInRange a (subnet_range s)
       \<and> (\<forall>a0 n. ParseCIDR (v4_Subnet (sp_IPv4Subnet (sn_Spec s))) = Some (a0, n) \<longrightarrow> length (net_mask n) = 4
             \<longrightarrow> ValidateIPInSubnet a n)" by auto
qed

lemma admitted_binding_placed_witness:
  "\<exists>s a. get_subnet example_store ''net1'' = Inr s \<and> ParseIP ''192.168.1.15'' = Some a \<and> IsIPInRange a (subnet_range s)"
  using admitted_binding_placed [OF example_store_admitted, of example_binding]
  by (auto simp: example_store_def example_binding_def)

text \<open>The exception is real: after the deletion of its subnet a binding names none.\<close>

theorem binding_outlives_subnet:
  "\<exists>st. admitted example_config st \<and> example_binding \<in> set (st_Bindings st)
     \<and> get_subnet st (bs_Subnet (bi_Spec example_binding)) = Inl (ApiErr NotFound)"
proof -
  have "admitted example_config (example_store\<lparr>st_Subnets :=
      filter (\<lambda>s. subnet_name s \<noteq> subnet_name stored_subnet) (st_Subnets example_store),
      st_Left := naming (subnet_name stored_subnet) (st_Bindings example_store) @ st_Left example_store\<rparr>)"
    by (rule delete_subnet [OF example_store_admitted]) (simp add: example_store_def)
  then show ?thesis
    by (intro exI conjI, assumption) (simp_all add: example_store_def get_subnet_def)
qed

text \<open>Property C24: no two admitted subnets share an interface and VLAN ID (the ID is never nil after
  the defaulter), and no two admitted bindings share an IP text or, case folded, a MAC text.\<close>

theorem admitted_exclusive:
  assumes "admitted config st"
  shows "distinct (map (\<lambda>s. (if_Interface (sp_Interface (sn_Spec s)), if_VlanID (sp_Interface (sn_Spec s)))) (st_Subnets st))
    \<and> None \<notin> (\<lambda>s. if_VlanID (sp_Interface (sn_Spec s))) ` set (st_Subnets st)
    \<and> distinct (map (\<lambda>b. bs_IpAddr (bi_Spec b)) (st_Bindings st))
    \<and> distinct (map (\<lambda>b. to_lower (bs_MacAddr (bi_Spec b))) (st_Bindings st))"
proof -
  have ok: "store_ok st" using assms by (rule store_ok_admitted)
  then have s: "distinct (st_Subnets st)" "inj_on subnet_name (set (st_Subnets st))"
    and b: "distinct (st_Bindings st)" "inj_on binding_name (set (st_Bindings st))"
    by (simp_all add: store_ok_def distinct_map)
  have "subnets_apart x y" if "x \<in> set (st_Subnets st)" "y \<in> set (st_Subnets st)" for x y
    using ok that by (simp add: store_ok_def)
  then have "inj_on (\<lambda>s. (if_Interface (sp_Interface (sn_Spec s)), if_VlanID (sp_Interface (sn_Spec s)))) (set (st_Subnets st))"
    using s(2) unfolding inj_on_def subnets_apart_def by blast
  moreover have "bindings_apart x y" if "x \<in> set (st_Bindings st)" "y \<in> set (st_Bindings st)" for x y
    using ok that by (simp add: store_ok_def)
  then have "inj_on (\<lambda>b. bs_IpAddr (bi_Spec b)) (set (st_Bindings st))"
    "inj_on (\<lambda>b. to_lower (bs_MacAddr (bi_Spec b))) (set (st_Bindings st))"
    using b(2) unfolding inj_on_def bindings_apart_def equal_fold_def by blast+
  ultimately show ?thesis using ok s(1) b(1)
    by (auto simp: distinct_map store_ok_def subnet_valid_def image_iff)
qed

lemma admitted_exclusive_witness:
  "if_VlanID (sp_Interface (sn_Spec stored_subnet)) \<noteq> None
   \<and> distinct (map (\<lambda>b. bs_IpAddr (bi_Spec b)) (st_Bindings example_store))"
  using admitted_exclusive [OF example_store_admitted] by (auto simp: example_store_def image_iff)

text \<open>Uniqueness is one of texts: a second binding of the same hardware address, written
  with hyphens, is accepted beside the first, and so is one of the same IP address written in its
  IPv4-mapped form.\<close>

theorem duplicate_binding_accepted:
  "\<exists>b. binding_name b \<noteq> binding_name example_binding
     \<and> BindingIpValidateCreate (hook_of example_store) b = Inr ()
     \<and> ParseMAC (bs_MacAddr (bi_Spec b)) = ParseMAC (bs_MacAddr (bi_Spec example_binding))
     \<and> ParseIP (bs_IpAddr (bi_Spec b)) = ParseIP (bs_IpAddr (bi_Spec example_binding))"
proof -
  let ?b = "example_binding\<lparr>bi_Meta := new_meta ''b2'', bi_Spec := \<lparr>bs_Subnet = ''net1'',
      bs_IpAddr = ''::ffff:192.168.1.15'', bs_MacAddr = ''00-11-22-33-44-55''\<rparr>\<rparr>"
  have l: "v6_loop [] (Some 0) ''ffff:192.168.1.15'' = Some ([255, 255, 192, 168, 1, 15], Some 0, [])"
  proof -
    have "v6_step [] (Some 0) ''ffff:192.168.1.15'' = V6Next [255, 255] (Some 0) ''192.168.1.15''"
      "v6_step [255, 255] (Some 0) ''192.168.1.15'' = V6Break [255, 255, 192, 168, 1, 15] (Some 0) []"
      by (simp_all add: v6_step_def v6_after_colon_def hex_val_def parse_v4_fields_def digit_val_def)
    then show ?thesis by (simp add: v6_loop.simps [of "[]"] v6_loop.simps [of "[255, 255]"])
  qed
  have p: "ParseIP ''::ffff:192.168.1.15'' = Some (v4_prefix @ [192, 168, 1, 15])"
    by (simp add: ParseIP_def parse_addr_def parse_v6_def l v6_finish_def as16_def v4_prefix_def
        numeral_eq_Suc)
  have m: "ParseMAC ''00-11-22-33-44-55'' = ParseMAC ''00:11:22:33:44:55''" by code_simp
  have "BindingIpValidateCreate (hook_of example_store) ?b = Inr ()"
    by (rule example_binding_accepted)
      (simp_all add: example_store_def p example_mac binding_conflict_def example_binding_def equal_fold_def to_lower_def lower_char_def)
  moreover have "binding_name ?b \<noteq> binding_name example_binding"
    by (simp add: binding_name_def example_binding_def new_meta_def)
  ultimately show ?thesis using p m example_ip
    by (intro exI [of _ ?b]) (simp add: example_binding_def)
qed

end
