(* ===== verification/AdmissionRequest.thy ===== *)
theory AdmissionRequest
  imports Admission
begin

text \<open>
  The webhooks as the API server calls them (\<open>pkg/webhook\<close>): with an object of any kind, whose type each
  handler asserts first, the defaulter before the validator. \<open>SetupWebhookWithManager\<close> registers each for one
  kind.
\<close>

section \<open>Requests\<close>

datatype api_object =
    ASubnet Subnet
  | ABindingIp BindingIp
  | AHostEndpoint HostEndpoint
  | AHostOperation HostOperation
  | ARedfishStatus RedfishStatus
  | ASSHStatus SSHStatus

datatype api_kind = KSubnet | KBindingIp | KHostEndpoint | KHostOperation | KRedfishStatus | KSSHStatus

fun kind_of :: "api_object \<Rightarrow> api_kind" where
  "kind_of (ASubnet _) = KSubnet"
| "kind_of (ABindingIp _) = KBindingIp"
| "kind_of (AHostEndpoint _) = KHostEndpoint"
| "kind_of (AHostOperation _) = KHostOperation"
| "kind_of (ARedfishStatus _) = KRedfishStatus"
| "kind_of (ASSHStatus _) = KSSHStatus"

text \<open>\<open>%T\<close> of a pointer to an object.\<close>

fun go_type :: "api_object \<Rightarrow> string" where
  "go_type (ASubnet _) = ''*v1beta1.Subnet''"
| "go_type (ABindingIp _) = ''*v1beta1.BindingIp''"
| "go_type (AHostEndpoint _) = ''*v1beta1.HostEndpoint''"
| "go_type (AHostOperation _) = ''*v1beta1.HostOperation''"
| "go_type (ARedfishStatus _) = ''*v1beta1.RedfishStatus''"
| "go_type (ASSHStatus _) = ''*v1beta1.SSHStatus''"

text \<open>What the webhooks read from the API server, and the configuration two of them hold.\<close>

record hooks =
  hk_config :: AgentConfig
  hk_subnet :: subnet_hook
  hk_binding :: binding_hook
  hk_endpoint :: endpoint_hook
  hk_GetRedfish :: "string \<Rightarrow> RedfishStatus result"

definition not_a :: "string \<Rightarrow> goerr" where
  "not_a name = Errorf (''object is not a '' @ name) []"

definition not_an_operation :: "api_object \<Rightarrow> goerr" where
  "not_an_operation obj = Errorf ''expected a HostOperation but got a %T'' [ArgS (go_type obj)]"

section \<open>The handlers\<close>

fun SubnetHook_Default :: "hooks \<Rightarrow> api_object \<Rightarrow> api_object result" where
  "SubnetHook_Default h (ASubnet s) = map_sum id ASubnet (SubnetDefault (hk_config h) s)"
| "SubnetHook_Default h obj = Inl (not_a ''Subnet'')"

fun SubnetHook_ValidateCreate :: "hooks \<Rightarrow> api_object \<Rightarrow> unit result" where
  "SubnetHook_ValidateCreate h (ASubnet s) = SubnetValidateCreate (hk_subnet h) s"
| "SubnetHook_ValidateCreate h obj = Inl (not_a ''Subnet'')"

fun SubnetHook_ValidateUpdate :: "hooks \<Rightarrow> api_object \<Rightarrow> api_object \<Rightarrow> unit result" where
  "SubnetHook_ValidateUpdate h (ASubnet old) (ASubnet new) = SubnetValidateUpdate (hk_subnet h) old new"
| "SubnetHook_ValidateUpdate h (ASubnet old) obj = Inl (Errorf ''new object is not a Subnet'' [])"
| "SubnetHook_ValidateUpdate h obj new = Inl (Errorf ''old object is not a Subnet'' [])"

definition SubnetHook_ValidateDelete :: "hooks \<Rightarrow> api_object \<Rightarrow> unit result" where
  "SubnetHook_ValidateDelete h obj = Inr ()"

fun BindingHook_Default :: "hooks \<Rightarrow> api_object \<Rightarrow> api_object result" where
  "BindingHook_Default h (ABindingIp b) = map_sum id ABindingIp (BindingIpDefault b)"
| "BindingHook_Default h obj = Inl (not_a ''BindingIP'')"

fun BindingHook_ValidateCreate :: "hooks \<Rightarrow> api_object \<Rightarrow> unit result" where
  "BindingHook_ValidateCreate h (ABindingIp b) = BindingIpValidateCreate (hk_binding h) b"
| "BindingHook_ValidateCreate h obj = Inl (not_a ''BindingIP'')"

fun BindingHook_ValidateUpdate :: "hooks \<Rightarrow> api_object \<Rightarrow> api_object \<Rightarrow> unit result" where
  "BindingHook_ValidateUpdate h old (ABindingIp b) = validateBindingIP (hk_binding h) b"
| "BindingHook_ValidateUpdate h old obj = Inl (not_a ''BindingIP'')"

definition BindingHook_ValidateDelete :: "hooks \<Rightarrow> api_object \<Rightarrow> unit result" where
  "BindingHook_ValidateDelete h obj = Inr ()"

fun EndpointHook_Default :: "hooks \<Rightarrow> api_object \<Rightarrow> api_object result" where
  "EndpointHook_Default h (AHostEndpoint e) = map_sum id AHostEndpoint (HostEndpointDefault (hk_config h) e)"
| "EndpointHook_Default h obj = Inl (not_a ''HostEndpoint'')"

fun EndpointHook_ValidateCreate :: "hooks \<Rightarrow> api_object \<Rightarrow> unit result" where
  "EndpointHook_ValidateCreate h (AHostEndpoint e) = HostEndpointValidateCreate (hk_endpoint h) e"
| "EndpointHook_ValidateCreate h obj = Inl (not_a ''HostEndpoint'')"

fun EndpointHook_ValidateUpdate :: "hooks \<Rightarrow> api_object \<Rightarrow> api_object \<Rightarrow> unit result" where
  "EndpointHook_ValidateUpdate h old (AHostEndpoint e) =
     Inl (Errorf ''updates to HostEndpoint resources are not allowed'' [])"
| "EndpointHook_ValidateUpdate h old obj = Inl (not_a ''HostEndpoint'')"

definition EndpointHook_ValidateDelete :: "hooks \<Rightarrow> api_object \<Rightarrow> unit result" where
  "EndpointHook_ValidateDelete h obj = Inr ()"

fun OperationHook_Default :: "hooks \<Rightarrow> api_object \<Rightarrow> api_object result" where
  "OperationHook_Default h (AHostOperation op) = map_sum id AHostOperation (HostOperationDefault op)"
| "OperationHook_Default h obj = Inl (not_an_operation obj)"

fun OperationHook_ValidateCreate :: "hooks \<Rightarrow> api_object \<Rightarrow> unit result" where
  "OperationHook_ValidateCreate h (AHostOperation op) = HostOperationValidateCreate (hk_GetRedfish h) op"
| "OperationHook_ValidateCreate h obj = Inl (not_an_operation obj)"

fun OperationHook_ValidateUpdate :: "hooks \<Rightarrow> api_object \<Rightarrow> api_object \<Rightarrow> unit result" where
  "OperationHook_ValidateUpdate h (AHostOperation op) new =
     Inl (Errorf ''updates to HostOperation resources are not allowed'' [])"
| "OperationHook_ValidateUpdate h old new = Inl (not_an_operation old)"

fun OperationHook_ValidateDelete :: "hooks \<Rightarrow> api_object \<Rightarrow> unit result" where
  "OperationHook_ValidateDelete h (AHostOperation op) = HostOperationValidateDelete op"
| "OperationHook_ValidateDelete h obj = Inl (not_an_operation obj)"

fun RedfishHook_Default :: "hooks \<Rightarrow> api_object \<Rightarrow> api_object result" where
  "RedfishHook_Default h (ARedfishStatus r) = map_sum id ARedfishStatus (RedfishStatusDefault r)"
| "RedfishHook_Default h obj = Inl (not_a ''RedfishStatus'')"

fun RedfishHook_ValidateCreate :: "hooks \<Rightarrow> api_object \<Rightarrow> unit result" where
  "RedfishHook_ValidateCreate h (ARedfishStatus r) = Inr ()"
| "RedfishHook_ValidateCreate h obj = Inl (not_a ''RedfishStatus'')"

fun RedfishHook_ValidateUpdate :: "hooks \<Rightarrow> api_object \<Rightarrow> api_object \<Rightarrow> unit result" where
  "RedfishHook_ValidateUpdate h old (ARedfishStatus r) = Inr ()"
| "RedfishHook_ValidateUpdate h old obj = Inl (not_a ''RedfishStatus'')"

definition RedfishHook_ValidateDelete :: "hooks \<Rightarrow> api_object \<Rightarrow> unit result" where
  "RedfishHook_ValidateDelete h obj = Inr ()"

fun SSHHook_Default :: "hooks \<Rightarrow> api_object \<Rightarrow> api_object result" where
  "SSHHook_Default h (ASSHStatus s) = map_sum id ASSHStatus (SSHStatusDefault s)"
| "SSHHook_Default h obj = Inl (not_a ''SSHStatus'')"

fun SSHHook_ValidateCreate :: "hooks \<Rightarrow> api_object \<Rightarrow> unit result" where
  "SSHHook_ValidateCreate h (ASSHStatus s) = Inr ()"
| "SSHHook_ValidateCreate h obj = Inl (not_a ''SSHStatus'')"

fun SSHHook_ValidateUpdate :: "hooks \<Rightarrow> api_object \<Rightarrow> api_object \<Rightarrow> unit result" where
  "SSHHook_ValidateUpdate h old (ASSHStatus s) = Inr ()"
| "SSHHook_ValidateUpdate h old obj = Inl (not_a ''SSHStatus'')"

definition SSHHook_ValidateDelete :: "hooks \<Rightarrow> api_object \<Rightarrow> unit result" where
  "SSHHook_ValidateDelete h obj = Inr ()"

section \<open>Registration\<close>

record webhook =
  wh_Default :: "hooks \<Rightarrow> api_object \<Rightarrow> api_object result"
  wh_ValidateCreate :: "hooks \<Rightarrow> api_object \<Rightarrow> unit result"
  wh_ValidateUpdate :: "hooks \<Rightarrow> api_object \<Rightarrow> api_object \<Rightarrow> unit result"
  wh_ValidateDelete :: "hooks \<Rightarrow> api_object \<Rightarrow> unit result"

fun webhook_for :: "api_kind \<Rightarrow> webhook" where
  "webhook_for KSubnet = \<lparr>wh_Default = SubnetHook_Default, wh_ValidateCreate = SubnetHook_ValidateCreate,
     wh_ValidateUpdate = SubnetHook_ValidateUpdate, wh_ValidateDelete = SubnetHook_ValidateDelete\<rparr>"
| "webhook_for KBindingIp = \<lparr>wh_Default = BindingHook_Default, wh_ValidateCreate = BindingHook_ValidateCreate,
     wh_ValidateUpdate = BindingHook_ValidateUpdate, wh_ValidateDelete = BindingHook_ValidateDelete\<rparr>"
| "webhook_for KHostEndpoint = \<lparr>wh_Default = EndpointHook_Default, wh_ValidateCreate = EndpointHook_ValidateCreate,
     wh_ValidateUpdate = EndpointHook_ValidateUpdate, wh_ValidateDelete = EndpointHook_ValidateDelete\<rparr>"
| "webhook_for KHostOperation = \<lparr>wh_Default = OperationHook_Default, wh_ValidateCreate = OperationHook_ValidateCreate,
     wh_ValidateUpdate = OperationHook_ValidateUpdate, wh_ValidateDelete = OperationHook_ValidateDelete\<rparr>"
| "webhook_for KRedfishStatus = \<lparr>wh_Default = RedfishHook_Default, wh_ValidateCreate = RedfishHook_ValidateCreate,
     wh_ValidateUpdate = RedfishHook_ValidateUpdate, wh_ValidateDelete = RedfishHook_ValidateDelete\<rparr>"
| "webhook_for KSSHStatus = \<lparr>wh_Default = SSHHook_Default, wh_ValidateCreate = SSHHook_ValidateCreate,
     wh_ValidateUpdate = SSHHook_ValidateUpdate, wh_ValidateDelete = SSHHook_ValidateDelete\<rparr>"

text \<open>A request to create and one to update, through both webhooks of a kind: the object that is stored.\<close>

definition admit_create :: "hooks \<Rightarrow> api_kind \<Rightarrow> api_object \<Rightarrow> api_object result" where
  "admit_create h k obj =
     and_then (wh_Default (webhook_for k) h obj) (\<lambda>obj1. and_then (wh_ValidateCreate (webhook_for k) h obj1) (\<lambda>_. Inr obj1))"

definition admit_update :: "hooks \<Rightarrow> api_kind \<Rightarrow> api_object \<Rightarrow> api_object \<Rightarrow> api_object result" where
  "admit_update h k old obj =
     and_then (wh_Default (webhook_for k) h obj) (\<lambda>obj1. and_then (wh_ValidateUpdate (webhook_for k) h old obj1) (\<lambda>_. Inr obj1))"

section \<open>Lemmas\<close>

text \<open>A webhook refuses the objects of every other kind, and changes no kind.\<close>

lemma map_sum_Inr [go_simps]: "map_sum id f r = Inr y \<longleftrightarrow> (\<exists>x. r = Inr x \<and> y = f x)"
  by (cases r) auto

lemma default_kind: "wh_Default (webhook_for k) h obj = Inr obj1 \<Longrightarrow> kind_of obj = k \<and> kind_of obj1 = k"
  by (cases k; cases obj) (auto simp: go_simps)

lemma default_again:
  assumes "wh_Default (webhook_for k) h obj = Inr obj1"
  shows "wh_Default (webhook_for k) h obj1 = Inr obj1"
  using assms
    subnet_defaulter.idem binding_defaulter.idem endpoint_defaulter.idem operation_defaulter.idem redfish_defaulter.idem
    ssh_defaulter.idem
  by (cases k; cases obj) (auto simp: go_simps)

text \<open>What is stored is stored again unchanged when it is sent again.\<close>

lemma admit_create_again: "admit_create h k obj = Inr obj1 \<Longrightarrow> kind_of obj1 = k \<and> admit_create h k obj1 = Inr obj1"
  using default_kind default_again by (auto simp: admit_create_def go_simps)

text \<open>Host endpoints and operations are never changed by an update.\<close>

lemma no_update: "k = KHostEndpoint \<or> k = KHostOperation \<Longrightarrow> \<exists>e. admit_update h k old obj = Inl e"
proof -
  assume k: "k = KHostEndpoint \<or> k = KHostOperation"
  have "wh_ValidateUpdate (webhook_for k) h old new \<noteq> Inr ()" for new
    using k by (cases old; cases new) auto
  then have "admit_update h k old obj \<noteq> Inr new" for new by (auto simp: admit_update_def go_simps)
  then show ?thesis by (cases "admit_update h k old obj") auto
qed

end
