(* ===== verification/InfoFields.thy ===== *)
theory InfoFields
  imports RedfishInfo "HOL-Library.Sublist"
begin

text \<open>
  What the map of \<open>GetInfo\<close> (\<open>pkg/redfish/getinfo.go\<close>) holds in the end: every key the function writes, for
  the manager, the system and each processor, memory module, storage unit, drive, PCIe device and port, still has the value
  that was read for it.
\<close>

section \<open>What is expected\<close>

definition holds :: "info \<Rightarrow> string \<Rightarrow> (string \<times> string) list \<Rightarrow> bool" where
  "holds r front kvs \<longleftrightarrow> (\<forall>(k, v) \<in> set kvs. gm_get r (front @ k) = Some v)"

definition bmc_fields :: "GoManager \<Rightarrow> (string \<times> string) list" where
  "bmc_fields bmc = [(''BmcFirmwareVersion'', mg_FirmwareVersion bmc), (''BmcStatus'', mg_Health bmc)]"

definition system_fields :: "ComputerSystem \<Rightarrow> (string \<times> string) list" where
  "system_fields sys =
     [(''BiosVerison'', cs_BIOSVersion sys), (''HostName'', cs_HostName sys), (''Manufacturer'', cs_Manufacturer sys),
      (''PowerState'', cs_PowerState sys), (''SystemStatus'', cs_Health sys),
      (''CpuPhysicalCore'', dec_of_int (cs_CpuCount sys)), (''CpuLogicalCore'', dec_of_int (cs_CpuLogicalCount sys)),
      (''CpuModel'', cs_CpuModel sys), (''CpuStatus'', cs_CpuHealth sys),
      (''MemoryTotalGiB'', sprintf_f0 (cs_MemoryGiB sys)), (''MemoryStatus'', cs_MemoryHealth sys)]"

definition cpu_fields :: "GoProcessor \<Rightarrow> (string \<times> string) list" where
  "cpu_fields c = [(''.Manufacturer'', pr_Manufacturer c), (''.ProcessorType'', pr_ProcessorType c),
     (''.Health'', pr_Health c), (''.State'', pr_State c)]"

definition memory_fields :: "GoMemory \<Rightarrow> (string \<times> string) list" where
  "memory_fields m = [(''.Manufacturer'', mm_Manufacturer m), (''.MemoryType'', mm_MemoryType m),
     (''.MemoryDeviceType'', mm_MemoryDeviceType m), (''.Model'', mm_Model m),
     (''.CapacityGiB'', sprintf_f2 (mm_CapacityMiB m) 1024), (''.Health'', mm_Health m), (''.State'', mm_State m)]"

definition storage_fields :: "GoStorage \<Rightarrow> (string \<times> string) list" where
  "storage_fields s = [(''.Name'', sg_Name s), (''.Id'', sg_ID s), (''.Health'', sg_Health s), (''.State'', sg_State s)]"

definition drive_fields :: "GoDrive \<Rightarrow> (string \<times> string) list" where
  "drive_fields d = [(''.Name'', dr_Name d), (''.Model'', dr_Model d), (''.Manufacturer'', dr_Manufacturer d),
     (''.SerialNumber'', dr_SerialNumber d), (''.MediaType'', dr_MediaType d), (''.Protocol'', dr_Protocol d),
     (''.CapacityGiB'', sprintf_f2 (dr_CapacityBytes d) 1073741824), (''.Health'', dr_Health d), (''.State'', dr_State d)]"

definition device_fields :: "PCIeDevice \<Rightarrow> (string \<times> string) list" where
  "device_fields d = [(''.Name'', pd_Name d), (''.Manufacturer'', pd_Manufacturer d), (''.Model'', pd_Model d),
     (''.Description'', pd_Description d), (''.FirmwareVersion'', pd_FirmwareVersion d), (''.PCIeType'', pd_PCIeType d),
     (''.MaxPCIeType'', pd_MaxPCIeType d), (''.LanesInUse'', dec_of_int (pd_LanesInUse d)),
     (''.MaxLanes'', dec_of_int (pd_MaxLanes d)), (''.Health'', pd_Health d), (''.State'', pd_State d)]"

definition ethernet_fields :: "GoEthernet \<Rightarrow> (string \<times> string) list" where
  "ethernet_fields e = [(''.MACAddress'', et_MACAddress e), (''.SpeedGbps'', sprintf_f2 (et_SpeedMbps e) 1000),
     (''.State'', et_State e), (''.Health'', et_Health e)]"

definition controller_fields :: "GoController \<Rightarrow> (string \<times> string) list" where
  "controller_fields s = [(''.Health'', GoController.sc_Health s), (''.State'', GoController.sc_State s)]"

text \<open>The ports of a function that can be read, the devices of the first chassis that has any.\<close>

definition interfaces_of :: "PCIeFunction \<Rightarrow> GoEthernet list" where
  "interfaces_of f = (case pf_EthernetInterfaces f of Inl _ \<Rightarrow> [] | Inr es \<Rightarrow> es)"

definition controllers_of :: "PCIeFunction \<Rightarrow> GoController list" where
  "controllers_of f = (case pf_StorageControllers f of Inl _ \<Rightarrow> [] | Inr ss \<Rightarrow> ss)"

definition devices_of :: "GoChassis list \<Rightarrow> PCIeDevice list" where
  "devices_of cs = (case filter (\<lambda>c. ch_PCIeDevices c \<noteq> Inr []) cs of
     [] \<Rightarrow> [] | c # _ \<Rightarrow> (case ch_PCIeDevices c of Inl _ \<Rightarrow> [] | Inr ds \<Rightarrow> ds))"

text \<open>The first function with interfaces or controllers is the one that is reported.\<close>

definition ports_held :: "info \<Rightarrow> string \<Rightarrow> nat \<Rightarrow> PCIeFunction list \<Rightarrow> bool" where
  "ports_held r front n fs \<longleftrightarrow> (\<forall>j < length fs. (\<forall>i < j. interfaces_of (fs ! i) = [] \<and> controllers_of (fs ! i) = []) \<longrightarrow>
     (let es = interfaces_of (fs ! j); ss = controllers_of (fs ! j); place = front @ idx ''.Functions'' (n + j) in
      if es \<noteq> [] then gm_get r (front @ ''.NetworkInterfacePortCount'') = Some (dec_of_nat (length es))
        \<and> (\<forall>t < length es. holds r (place @ idx ''.EthernetInterfaces'' t) (ethernet_fields (es ! t)))
      else if ss \<noteq> [] then gm_get r (front @ ''.StorageControllerPortCount'') = Some (dec_of_nat (length ss))
        \<and> (\<forall>t < length ss. holds r (place @ idx ''.StorageControllers'' t) (controller_fields (ss ! t)))
      else True))"

section \<open>Indices\<close>

lemma digit_char_inj: "d < 10 \<Longrightarrow> e < 10 \<Longrightarrow> digit_char d = digit_char e \<Longrightarrow> d = e"
  by (metis digit_val_digit_char option.inject)

lemma dec_of_nat_inj: "dec_of_nat m = dec_of_nat n \<Longrightarrow> m = n"
proof (induction m arbitrary: n rule: dec_of_nat.induct)
  case (1 m)
  have m: "dec_of_nat m = (if m < 10 then [digit_char m] else dec_of_nat (m div 10) @ [digit_char (m mod 10)])"
    and n: "dec_of_nat n = (if n < 10 then [digit_char n] else dec_of_nat (n div 10) @ [digit_char (n mod 10)])"
    by (rule dec_of_nat.simps)+
  show ?case
  proof (cases "m < 10 \<or> n < 10")
    case True
    with 1(2) m n digit_char_inj dec_of_nat_not_Nil [symmetric] show ?thesis by (auto split: if_splits)
  next
    case False
    then have "dec_of_nat (m div 10) = dec_of_nat (n div 10)" "digit_char (m mod 10) = digit_char (n mod 10)"
      using 1(2) m n by simp_all
    then have "m div 10 = n div 10" "m mod 10 = n mod 10" using False 1(1) digit_char_inj by simp_all
    then show ?thesis by (metis div_mult_mod_eq)
  qed
qed

lemma dec_of_nat_digits: "c \<in> set (dec_of_nat n) \<Longrightarrow> digit_val c \<noteq> None"
proof (induction n rule: dec_of_nat.induct)
  case (1 n)
  then show ?case
    by (subst (asm) (2) dec_of_nat.simps) (auto simp: digit_val_digit_char split: if_splits)
qed

lemma dec_of_nat_bracket: "CHR '']'' \<notin> set (dec_of_nat n)"
  using dec_of_nat_digits [of "CHR '']''" n] by (auto simp: digit_val_def Let_def)

lemma idx_prefix [simp]: "prefix (idx name m) (idx name n @ k) \<longleftrightarrow> m = n"
proof
  assume "prefix (idx name m) (idx name n @ k)"
  then obtain z where "dec_of_nat m @ '']'' @ z = dec_of_nat n @ '']'' @ k"
    by (auto simp: idx_def prefix_def)
  then have "takeWhile (\<lambda>c. c \<noteq> CHR '']'') (dec_of_nat m @ '']'' @ z) = takeWhile (\<lambda>c. c \<noteq> CHR '']'') (dec_of_nat n @ '']'' @ k)"
    by simp
  moreover have "takeWhile (\<lambda>c. c \<noteq> CHR '']'') (dec_of_nat x @ '']'' @ y) = dec_of_nat x" for x y
    using dec_of_nat_bracket [of x] by (subst takeWhile_append2) auto
  ultimately have "dec_of_nat m = dec_of_nat n" by simp
  then show "m = n" by (rule dec_of_nat_inj)
qed simp

section \<open>Keys that stay\<close>

lemma fields_keep: "\<not> prefix front key \<Longrightarrow> gm_get (set_fields front kvs r) key = gm_get r key"
  by (induction front kvs r rule: set_fields.induct) auto

lemma fields_other: "key \<notin> (\<lambda>(k, v). front @ k) ` set kvs \<Longrightarrow> gm_get (set_fields front kvs r) key = gm_get r key"
  by (induction front kvs r rule: set_fields.induct) auto

lemma fields_get:
  assumes "(k, v) \<in> set kvs" "\<And>v'. (k, v') \<in> set kvs \<Longrightarrow> v' = v"
  shows "gm_get (set_fields front kvs r) (front @ k) = Some v"
  using assms
proof (induction kvs arbitrary: r)
  case (Cons kv kvs)
  obtain k' v' where kv: "kv = (k', v')" by (cases kv)
  show ?case
  proof (cases "\<exists>w. (k, w) \<in> set kvs")
    case True
    then obtain w where w: "(k, w) \<in> set kvs" by blast
    moreover from w have "w = v" using Cons.prems(2) [of w] by simp
    ultimately have "gm_get (set_fields front kvs (setData (front @ k') v' r)) (front @ k) = Some v"
      using Cons.prems(2) by (intro Cons.IH) simp_all
    then show ?thesis unfolding kv set_fields.simps(2) .
  next
    case False
    with Cons.prems(1) have k: "k' = k" "v' = v" by (auto simp: kv)
    from False have "front @ k \<notin> (\<lambda>(k, v). front @ k) ` set kvs" by (auto simp: image_iff)
    then show ?thesis unfolding kv set_fields.simps(2) by (simp add: fields_other k del: set_fields.simps)
  qed
qed simp

lemma holds_fields:
  assumes "set kvs \<subseteq> set all" "\<forall>k v v'. (k, v) \<in> set all \<longrightarrow> (k, v') \<in> set all \<longrightarrow> v' = v"
  shows "holds (set_fields front all r) front kvs"
proof -
  have "gm_get (set_fields front all r) (front @ k) = Some v" if "(k, v) \<in> set kvs" for k v
    using assms that by (intro fields_get) blast+
  then show ?thesis by (auto simp: holds_def)
qed

lemma indexed_keep:
  "(\<And>m x r. m \<ge> n \<Longrightarrow> gm_get (f m x r) key = gm_get r key) \<Longrightarrow> gm_get (indexed f n xs r) key = gm_get r key"
  by (induction xs arbitrary: n r) simp_all

text \<open>A statement about the keys behind one front.\<close>

definition local_to :: "string \<Rightarrow> (info \<Rightarrow> bool) \<Rightarrow> bool" where
  "local_to front Q \<longleftrightarrow> (\<forall>r r'. (\<forall>k. gm_get r' (front @ k) = gm_get r (front @ k)) \<longrightarrow> Q r \<longrightarrow> Q r')"

lemma local_toD: "local_to front Q \<Longrightarrow> Q r \<Longrightarrow> (\<And>k. gm_get r' (front @ k) = gm_get r (front @ k)) \<Longrightarrow> Q r'"
  unfolding local_to_def by blast

lemma local_holds: "local_to front (\<lambda>r. holds r (front @ x) kvs)" "local_to front (\<lambda>r. holds r front kvs)"
  by (auto simp: local_to_def holds_def)

lemma local_conj: "local_to front P \<Longrightarrow> local_to front Q \<Longrightarrow> local_to front (\<lambda>r. P r \<and> Q r)"
  unfolding local_to_def by blast

lemma local_all: "(\<And>x. local_to front (P x)) \<Longrightarrow> local_to front (\<lambda>r. \<forall>x. P x r)"
  unfolding local_to_def by blast

lemma local_imp: "local_to front P \<Longrightarrow> local_to front (\<lambda>r. B \<longrightarrow> P r)"
  unfolding local_to_def by blast

lemma local_ports: "local_to front (\<lambda>r. ports_held r front n fs)"
proof -
  have "ports_held r' front n fs = ports_held r front n fs" if "\<forall>k. gm_get r' (front @ k) = gm_get r (front @ k)" for r r'
    unfolding ports_held_def holds_def Let_def by (simp add: that)
  then show ?thesis unfolding local_to_def by blast
qed

lemma indexed_local:
  assumes "local_to front Q" "i < length xs"
    and "\<And>m x r k. m \<noteq> n + i \<Longrightarrow> gm_get (f m x r) (front @ k) = gm_get r (front @ k)"
    and "\<And>r. Q (f (n + i) (xs ! i) r)"
  shows "Q (indexed f n xs r)"
  using assms(2-4)
proof (induction xs arbitrary: n i r)
  case (Cons x xs)
  show ?case
  proof (cases i)
    case 0
    have "gm_get (indexed f (n + 1) xs (f n x r)) (front @ k) = gm_get (f n x r) (front @ k)" for k
      by (rule indexed_keep) (use Cons.prems(2) 0 in simp)
    with local_toD [OF assms(1)] Cons.prems(3) [of r] 0 show ?thesis by simp
  next
    case (Suc j)
    have "Q (indexed f (n + 1) xs (f n x r))"
      by (rule Cons.IH [of j]) (use Cons.prems Suc in simp_all)
    then show ?thesis by simp
  qed
qed simp

section \<open>Each kind of item\<close>

lemma not_prefix_append: "\<not> prefix front key \<Longrightarrow> \<not> prefix (front @ x) key"
  by (auto simp: prefix_def)

lemma item_keep:
  "\<not> prefix (idx ''Cpu'' n) key \<Longrightarrow> gm_get (cpu_info n c r) key = gm_get r key"
  "\<not> prefix (idx ''Memory'' n) key \<Longrightarrow> gm_get (memory_info n m r) key = gm_get r key"
  "\<not> prefix (idx ''Storage'' n @ idx ''.Drive'' j) key \<Longrightarrow> gm_get (drive_info n j d r) key = gm_get r key"
  "\<not> prefix (idx ''PCIeDevices'' n @ idx ''.Functions'' j @ idx ''.EthernetInterfaces'' t) key \<Longrightarrow>
     gm_get (ethernet_info n j t e r) key = gm_get r key"
  "\<not> prefix (idx ''PCIeDevices'' n @ idx ''.Functions'' j @ idx ''.StorageControllers'' t) key \<Longrightarrow>
     gm_get (controller_info n j t s r) key = gm_get r key"
  unfolding cpu_info_def memory_info_def drive_info_def ethernet_info_def controller_info_def
  by (rule fields_keep, assumption)+

lemma storage_keep: "\<not> prefix (idx ''Storage'' n) key \<Longrightarrow> gm_get (storage_info n st r) key = gm_get r key"
  by (cases "sg_Drives st")
    (simp_all add: storage_info_def Let_def fields_keep indexed_keep item_keep not_prefix_append del: set_fields.simps)

lemma functions_keep:
  assumes "\<And>j x. key \<noteq> idx ''PCIeDevices'' n @ idx ''.Functions'' j @ x"
    and "key \<noteq> idx ''PCIeDevices'' n @ ''.NetworkInterfacePortCount''"
    and "key \<noteq> idx ''PCIeDevices'' n @ ''.StorageControllerPortCount''"
  shows "gm_get (functions_info n j fs r) key = gm_get r key"
proof (induction fs arbitrary: j)
  case (Cons f fs)
  have p: "\<not> prefix (idx ''PCIeDevices'' n @ idx ''.Functions'' i @ x) key" for i x
    using assms(1) by (auto simp: prefix_def)
  have e: "gm_get (indexed (ethernet_info n j) 0 es r') key = gm_get r' key"
    and c: "gm_get (indexed (controller_info n j) 0 ss r') key = gm_get r' key" for es ss r'
    by (rule indexed_keep, rule item_keep, rule p)+
  show ?case using Cons.IH [of "j + 1"] assms(2,3)
    by (auto simp: e c simp del: indexed.simps split: sum.split list.split)
qed simp

lemma device_keep: "\<not> prefix (idx ''PCIeDevices'' n) key \<Longrightarrow> gm_get (device_info n d r) key = gm_get r key"
  by (cases "pd_PCIeFunctions d")
    (auto simp: device_info_def Let_def fields_keep functions_keep prefix_def simp del: set_fields.simps)

lemma item_holds:
  "holds (cpu_info n c r) (idx ''Cpu'' n) (cpu_fields c)"
  "holds (memory_info n m r) (idx ''Memory'' n) (memory_fields m)"
  "holds (drive_info n j d r) (idx ''Storage'' n @ idx ''.Drive'' j) (drive_fields d)"
  "holds (ethernet_info n j t e r) (idx ''PCIeDevices'' n @ idx ''.Functions'' j @ idx ''.EthernetInterfaces'' t) (ethernet_fields e)"
  "holds (controller_info n j t s r) (idx ''PCIeDevices'' n @ idx ''.Functions'' j @ idx ''.StorageControllers'' t) (controller_fields s)"
  unfolding cpu_info_def memory_info_def drive_info_def ethernet_info_def controller_info_def
    cpu_fields_def memory_fields_def drive_fields_def ethernet_fields_def controller_fields_def
  by (rule holds_fields, simp, (auto)[1])+

definition storage_held :: "nat \<Rightarrow> GoStorage \<Rightarrow> info \<Rightarrow> bool" where
  "storage_held n st r \<longleftrightarrow> holds r (idx ''Storage'' n) (storage_fields st)
     \<and> (\<forall>ds. sg_Drives st = Inr ds \<longrightarrow> (\<forall>j < length ds. holds r (idx ''Storage'' n @ idx ''.Drive'' j) (drive_fields (ds ! j))))"

definition device_held :: "nat \<Rightarrow> PCIeDevice \<Rightarrow> info \<Rightarrow> bool" where
  "device_held n d r \<longleftrightarrow> holds r (idx ''PCIeDevices'' n) (device_fields d)
     \<and> gm_get r (idx ''PCIeDevices'' n @ ''.DeviceType'') = Some (device_type (pd_Description d))
     \<and> (\<forall>fs. pd_PCIeFunctions d = Inr fs \<longrightarrow> ports_held r (idx ''PCIeDevices'' n) 0 fs)"

lemma storage_local: "local_to (idx ''Storage'' n) (storage_held n st)"
  unfolding storage_held_def [abs_def] by (intro local_conj local_holds local_all local_imp)

lemma device_local: "local_to (idx ''PCIeDevices'' n) (device_held n d)"
  unfolding device_held_def [abs_def]
  by (intro local_conj local_holds local_all local_imp local_ports) (simp add: local_to_def)

lemma holds_kept:
  assumes "holds r front kvs" "\<And>k v. (k, v) \<in> set kvs \<Longrightarrow> gm_get r' (front @ k) = gm_get r (front @ k)"
  shows "holds r' front kvs"
  using assms by (auto simp: holds_def)

lemma storage_holds: "storage_held n st (storage_info n st r)"
proof -
  let ?r1 = "set_fields (idx ''Storage'' n) [(''.Name'', sg_Name st), (''.Id'', sg_ID st), (''.Health'', sg_Health st),
    (''.State'', sg_State st)] r"
  have h: "holds ?r1 (idx ''Storage'' n) (storage_fields st)"
    unfolding storage_fields_def by (rule holds_fields, simp, auto)
  show ?thesis
  proof (cases "sg_Drives st")
    case (Inl e)
    then show ?thesis using h by (simp add: storage_held_def storage_info_def Let_def del: set_fields.simps)
  next
    case (Inr ds)
    have k: "gm_get (indexed (drive_info n) 0 ds r') (idx ''Storage'' n @ k) = gm_get r' (idx ''Storage'' n @ k)"
      if "(k, v) \<in> set (storage_fields st)" for k v r'
      by (rule indexed_keep, rule item_keep) (use that in \<open>auto simp: storage_fields_def idx_def [of "''.Drive''"]\<close>)
    have "holds (indexed (drive_info n) 0 ds ?r1) (idx ''Storage'' n @ idx ''.Drive'' j) (drive_fields (ds ! j))"
      if "j < length ds" for j
      by (rule indexed_local [OF local_holds(2) that]) (simp_all add: item_keep item_holds(3))
    with Inr holds_kept [OF h, OF k] show ?thesis
      by (simp add: storage_held_def storage_info_def Let_def del: set_fields.simps)
  qed
qed

lemma ports_first:
  assumes "interfaces_of f \<noteq> [] \<or> controllers_of f \<noteq> []" "ports_held r front j [f]"
  shows "ports_held r front j (f # fs)"
  using assms unfolding ports_held_def by (auto simp: nth_Cons' Let_def split: if_splits)

lemma ports_next:
  assumes "interfaces_of f = []" "controllers_of f = []" "ports_held r front (j + 1) fs"
  shows "ports_held r front j (f # fs)"
  unfolding ports_held_def
proof (intro allI impI)
  fix i assume i: "i < length (f # fs)" "\<forall>i' < i. interfaces_of ((f # fs) ! i') = [] \<and> controllers_of ((f # fs) ! i') = []"
  show "let es = interfaces_of ((f # fs) ! i); ss = controllers_of ((f # fs) ! i); place = front @ idx ''.Functions'' (j + i) in
    if es \<noteq> [] then gm_get r (front @ ''.NetworkInterfacePortCount'') = Some (dec_of_nat (length es))
      \<and> (\<forall>t < length es. holds r (place @ idx ''.EthernetInterfaces'' t) (ethernet_fields (es ! t)))
    else if ss \<noteq> [] then gm_get r (front @ ''.StorageControllerPortCount'') = Some (dec_of_nat (length ss))
      \<and> (\<forall>t < length ss. holds r (place @ idx ''.StorageControllers'' t) (controller_fields (ss ! t)))
    else True"
  proof (cases i)
    case (Suc i')
    then have "\<forall>x < i'. interfaces_of (fs ! x) = [] \<and> controllers_of (fs ! x) = []" using i(2) by fastforce
    with assms(3) i(1) Suc show ?thesis unfolding ports_held_def by simp
  qed (use assms in simp)
qed

lemma functions_ports: "ports_held (functions_info n j fs r) (idx ''PCIeDevices'' n) j fs"
proof (induction fs arbitrary: j)
  case (Cons f fs)
  let ?p = "idx ''PCIeDevices'' n" and ?es = "interfaces_of f" and ?ss = "controllers_of f"
  show ?case
  proof (cases "?es \<noteq> []")
    case True
    let ?r = "setData (?p @ ''.NetworkInterfacePortCount'') (dec_of_nat (length ?es)) r"
    have "functions_info n j (f # fs) r = indexed (ethernet_info n j) 0 ?es ?r"
      using True by (auto simp: interfaces_of_def split: sum.splits list.splits)
    moreover have "gm_get (indexed (ethernet_info n j) 0 ?es ?r) (?p @ ''.NetworkInterfacePortCount'') = Some (dec_of_nat (length ?es))"
      by (subst indexed_keep) (simp_all add: item_keep idx_def [of "''.Functions''"])
    moreover have "holds (indexed (ethernet_info n j) 0 ?es ?r) (?p @ idx ''.Functions'' j @ idx ''.EthernetInterfaces'' t)
        (ethernet_fields (?es ! t))" if "t < length ?es" for t
      by (rule indexed_local [OF local_holds(2) that]) (simp_all add: item_keep item_holds(4))
    ultimately show ?thesis using True by - (rule ports_first, simp_all add: ports_held_def)
  next
    case False
    then have none: "pf_EthernetInterfaces f = Inr [] \<or> (\<exists>e. pf_EthernetInterfaces f = Inl e)"
      by (auto simp: interfaces_of_def split: sum.splits)
    show ?thesis
    proof (cases "?ss \<noteq> []")
      case True
      let ?r = "setData (?p @ ''.StorageControllerPortCount'') (dec_of_nat (length ?ss)) r"
      have "functions_info n j (f # fs) r = indexed (controller_info n j) 0 ?ss ?r"
        using True none by (auto simp: controllers_of_def split: sum.splits list.splits)
      moreover have "gm_get (indexed (controller_info n j) 0 ?ss ?r) (?p @ ''.StorageControllerPortCount'') = Some (dec_of_nat (length ?ss))"
        by (subst indexed_keep) (simp_all add: item_keep idx_def [of "''.Functions''"])
      moreover have "holds (indexed (controller_info n j) 0 ?ss ?r) (?p @ idx ''.Functions'' j @ idx ''.StorageControllers'' t)
          (controller_fields (?ss ! t))" if "t < length ?ss" for t
        by (rule indexed_local [OF local_holds(2) that]) (simp_all add: item_keep item_holds(5))
      ultimately show ?thesis using True False by - (rule ports_first, simp_all add: ports_held_def)
    next
      case none2: False
      then have "functions_info n j (f # fs) r = functions_info n (j + 1) fs r"
        using none by (auto simp: controllers_of_def split: sum.splits list.splits)
      then show ?thesis using ports_next [OF _ _ Cons.IH [of "j + 1"]] False none2 by simp
    qed
  qed
qed (simp add: ports_held_def)

section \<open>The whole map\<close>

lemma devices_of_cases:
  assumes "chassis_info cs r = Inr r'"
  shows "r' = indexed device_info 0 (devices_of cs) r"
  using assms by (induction cs) (auto simp: devices_of_def split: sum.splits if_splits)

lemma device_all:
  assumes "i < length ds"
  shows "device_held i (ds ! i) (indexed device_info 0 ds r)"
proof (rule indexed_local [OF device_local assms])
  fix r
  let ?d = "ds ! i"
  let ?r1 = "set_fields (idx ''PCIeDevices'' i)
    [(''.DeviceType'', device_type (pd_Description ?d)), (''.Name'', pd_Name ?d), (''.Manufacturer'', pd_Manufacturer ?d),
     (''.Model'', pd_Model ?d), (''.Description'', pd_Description ?d), (''.FirmwareVersion'', pd_FirmwareVersion ?d),
     (''.PCIeType'', pd_PCIeType ?d), (''.MaxPCIeType'', pd_MaxPCIeType ?d), (''.LanesInUse'', dec_of_int (pd_LanesInUse ?d)),
     (''.MaxLanes'', dec_of_int (pd_MaxLanes ?d)), (''.Health'', pd_Health ?d), (''.State'', pd_State ?d)] r"
  let ?all = "(''.DeviceType'', device_type (pd_Description ?d)) # device_fields ?d"
  have h: "holds ?r1 (idx ''PCIeDevices'' i) ?all"
    unfolding device_fields_def by (rule holds_fields, simp, auto)
  have k: "gm_get (functions_info i 0 fs r') (idx ''PCIeDevices'' i @ k) = gm_get r' (idx ''PCIeDevices'' i @ k)"
    if "(k, v) \<in> set ?all" for k v fs r'
    by (rule functions_keep) (use that in \<open>auto simp: device_fields_def idx_def [of "''.Functions''"]\<close>)
  show "device_held i ?d (device_info (0 + i) ?d r)"
  proof (cases "pd_PCIeFunctions ?d")
    case (Inl e)
    then show ?thesis using h by (simp add: device_held_def device_info_def holds_def Let_def del: set_fields.simps)
  next
    case (Inr fs)
    from holds_kept [OF h, OF k] Inr functions_ports show ?thesis
      by (simp add: device_held_def device_info_def holds_def Let_def del: set_fields.simps)
  qed
qed (simp add: device_keep)

lemma storage_all:
  assumes "i < length xs"
  shows "storage_held i (xs ! i) (indexed storage_info 0 xs r)"
  by (rule indexed_local [OF storage_local assms]) (simp_all add: storage_keep storage_holds)

lemma cpu_all:
  assumes "i < length xs"
  shows "holds (indexed cpu_info 0 xs r) (idx ''Cpu'' i) (cpu_fields (xs ! i))"
  by (rule indexed_local [OF local_holds(2) assms]) (simp_all add: item_keep item_holds)

lemma memory_all:
  assumes "i < length xs"
  shows "holds (indexed memory_info 0 xs r) (idx ''Memory'' i) (memory_fields (xs ! i))"
  by (rule indexed_local [OF local_holds(2) assms]) (simp_all add: item_keep item_holds)

text \<open>What comes later leaves the keys of a group alone.\<close>

lemma group_keep:
  "\<not> prefix ''Cpu['' key \<Longrightarrow> gm_get (indexed cpu_info 0 cpus r) key = gm_get r key"
  "\<not> prefix ''Memory['' key \<Longrightarrow> gm_get (indexed memory_info 0 mms r) key = gm_get r key"
  "\<not> prefix ''Storage['' key \<Longrightarrow> gm_get (indexed storage_info 0 sts r) key = gm_get r key"
  "\<not> prefix ''PCIeDevices['' key \<Longrightarrow> gm_get (indexed device_info 0 ds r) key = gm_get r key"
  by (auto intro!: indexed_keep item_keep storage_keep device_keep simp: idx_def prefix_def)

lemma plain_keep:
  "\<forall>(k, v) \<in> set kvs. CHR ''['' \<notin> set k \<Longrightarrow> CHR ''['' \<in> set key \<Longrightarrow> gm_get (set_fields [] kvs r) key = gm_get r key"
  by (rule fields_other) auto

lemma system_info_stages:
  assumes "system_info ver ven rt sys r0 = Inr r"
  obtains cpus mms sts where "cs_Processors sys = Inr cpus" "cs_Memory sys = Inr mms" "cs_Storage sys = Inr sts"
    "r = indexed storage_info 0 sts (indexed memory_info 0 mms
      (set_fields [] [(''MemoryChipsAccount'', dec_of_nat (length mms))]
       (set_fields [] [(''MemoryTotalGiB'', sprintf_f0 (cs_MemoryGiB sys)), (''MemoryStatus'', cs_MemoryHealth sys)]
        (indexed cpu_info 0 cpus (set_fields []
            [(''BiosVerison'', cs_BIOSVersion sys), (''HostName'', cs_HostName sys),
             (''Manufacturer'', cs_Manufacturer sys), (''PowerState'', cs_PowerState sys),
             (''SystemStatus'', cs_Health sys), (''RedfishVersion'', ver), (''Vendor'', ven),
             (''SupportedReset'', rt), (''CpuPhysicalCore'', dec_of_int (cs_CpuCount sys)),
             (''CpuLogicalCore'', dec_of_int (cs_CpuLogicalCount sys)),
             (''CpuModel'', cs_CpuModel sys), (''CpuStatus'', cs_CpuHealth sys)] r0)))))"
  using assms unfolding system_info_def Let_def and_then_Inr sum.inject by metis

lemma system_info_plain:
  assumes "system_info ver ven rt sys r0 = Inr r" "cs_Memory sys = Inr mms"
  shows "holds r [] (system_fields sys @ [(''RedfishVersion'', ver), (''Vendor'', ven), (''SupportedReset'', rt),
      (''MemoryChipsAccount'', dec_of_nat (length mms))])"
    and "\<forall>k \<in> {''BmcFirmwareVersion'', ''BmcStatus''}. gm_get r k = gm_get r0 k"
proof -
  obtain cpus sts where r: "r = indexed storage_info 0 sts (indexed memory_info 0 mms
      (set_fields [] [(''MemoryChipsAccount'', dec_of_nat (length mms))]
       (set_fields [] [(''MemoryTotalGiB'', sprintf_f0 (cs_MemoryGiB sys)), (''MemoryStatus'', cs_MemoryHealth sys)]
        (indexed cpu_info 0 cpus (set_fields []
            [(''BiosVerison'', cs_BIOSVersion sys), (''HostName'', cs_HostName sys),
             (''Manufacturer'', cs_Manufacturer sys), (''PowerState'', cs_PowerState sys),
             (''SystemStatus'', cs_Health sys), (''RedfishVersion'', ver), (''Vendor'', ven),
             (''SupportedReset'', rt), (''CpuPhysicalCore'', dec_of_int (cs_CpuCount sys)),
             (''CpuLogicalCore'', dec_of_int (cs_CpuLogicalCount sys)),
             (''CpuModel'', cs_CpuModel sys), (''CpuStatus'', cs_CpuHealth sys)] r0)))))"
    by (rule system_info_stages [OF assms(1)]) (metis assms(2) sum.inject(2))
  show "holds r [] (system_fields sys @ [(''RedfishVersion'', ver), (''Vendor'', ven), (''SupportedReset'', rt),
      (''MemoryChipsAccount'', dec_of_nat (length mms))])"
    and "\<forall>k \<in> {''BmcFirmwareVersion'', ''BmcStatus''}. gm_get r k = gm_get r0 k"
    by (simp_all add: r holds_def system_fields_def group_keep)
qed

lemma system_info_groups:
  assumes "system_info ver ven rt sys r0 = Inr r"
    and "cs_Processors sys = Inr cpus" "cs_Memory sys = Inr mms" "cs_Storage sys = Inr sts"
  shows "i < length cpus \<Longrightarrow> holds r (idx ''Cpu'' i) (cpu_fields (cpus ! i))"
    and "i < length mms \<Longrightarrow> holds r (idx ''Memory'' i) (memory_fields (mms ! i))"
    and "i < length sts \<Longrightarrow> storage_held i (sts ! i) r"
proof -
  obtain r1 where r1: "r = indexed storage_info 0 sts (indexed memory_info 0 mms (set_fields [] [(''MemoryChipsAccount'', dec_of_nat (length mms))]
       (set_fields [] [(''MemoryTotalGiB'', sprintf_f0 (cs_MemoryGiB sys)), (''MemoryStatus'', cs_MemoryHealth sys)]
        (indexed cpu_info 0 cpus r1))))"
    by (rule system_info_stages [OF assms(1)]) (metis assms(2-4) sum.inject(2) that)
  show "holds r (idx ''Cpu'' i) (cpu_fields (cpus ! i))" if "i < length cpus"
    by (rule local_toD [OF local_holds(2) cpu_all [OF that, of r1]])
      (simp add: r1 group_keep plain_keep idx_def del: set_fields.simps)
  show "holds r (idx ''Memory'' i) (memory_fields (mms ! i))" if "i < length mms"
    unfolding r1 by (rule local_toD [OF local_holds(2) memory_all [OF that]]) (simp add: group_keep idx_def)
  show "storage_held i (sts ! i) r" if "i < length sts" unfolding r1 using that by (rule storage_all)
qed

section \<open>Properties\<close>

text \<open>Property C32: the map \<open>GetInfo\<close> returns holds what was read, under every key: the fields of the first
  manager and of the first system the machine names with the version and vendor of the service and the supported
  reset types; for each processor, memory module, storage unit and, where they can be read, drive, at its index, its fields;
  for each PCIe device of the first chassis that has any, its fields and those of the ports of its first function with
  network interfaces or storage controllers. No later key overwrites one of these, and reading does nothing to the
  machine.\<close>

theorem GetInfo_reads:
  assumes "GetInfo env c h = (Inr r, h')" "n = rd_client c"
  shows "\<exists>bmc bmcs system ss rt h3 cs err cpus mms sts. g_Managers env h n = Inr (bmc # bmcs)
    \<and> g_Systems env (h @ [RManagers n]) n = Inr (system # ss)
    \<and> GetSupportedResetTypes env c system (h @ [RManagers n, RSystems n]) = (rt, h3) \<and> g_Chassis env h3 n = (cs, err)
    \<and> cs_Processors system = Inr cpus \<and> cs_Memory system = Inr mms \<and> cs_Storage system = Inr sts
    \<and> holds r [] (bmc_fields bmc) \<and> holds r [] (system_fields system)
    \<and> holds r [] [(''RedfishVersion'', g_RedfishVersion env n), (''Vendor'', g_Vendor env n), (''SupportedReset'', rt),
         (''MemoryChipsAccount'', dec_of_nat (length mms))]
    \<and> (\<forall>i < length cpus. holds r (idx ''Cpu'' i) (cpu_fields (cpus ! i)))
    \<and> (\<forall>i < length mms. holds r (idx ''Memory'' i) (memory_fields (mms ! i)))
    \<and> (\<forall>i < length sts. storage_held i (sts ! i) r)
    \<and> (\<forall>i < length (devices_of cs). device_held i (devices_of cs ! i) r)
    \<and> actions h' = actions h"
proof -
  obtain bmc bmcs system ss rt h3 r2 cs err where g: "g_Managers env h n = Inr (bmc # bmcs)"
    "g_Systems env (h @ [RManagers n]) n = Inr (system # ss)"
    "GetSupportedResetTypes env c system (h @ [RManagers n, RSystems n]) = (rt, h3)" "g_Chassis env h3 n = (cs, err)"
    and i: "system_info (g_RedfishVersion env n) (g_Vendor env n) rt system
       (set_fields [] [(''BmcFirmwareVersion'', mg_FirmwareVersion bmc), (''BmcStatus'', mg_Health bmc)] []) = Inr r2"
    and ch: "chassis_info cs r2 = Inr r"
    unfolding assms(2) by (rule GetInfo_cases [OF assms(1)]) blast
  obtain cpus mms sts where lists: "cs_Processors system = Inr cpus" "cs_Memory system = Inr mms" "cs_Storage system = Inr sts"
    by (rule system_info_stages [OF i])
  note r = devices_of_cases [OF ch]
  have keep: "gm_get r key = gm_get r2 key" if "\<not> prefix ''PCIeDevices['' key" for key
    unfolding r using that by (rule group_keep(4))
  note plain = system_info_plain [OF i lists(2)] and groups = system_info_groups [OF i lists]
  have "holds r [] (bmc_fields bmc)" "holds r [] (system_fields system)"
    "holds r [] [(''RedfishVersion'', g_RedfishVersion env n), (''Vendor'', g_Vendor env n), (''SupportedReset'', rt),
       (''MemoryChipsAccount'', dec_of_nat (length mms))]"
    using plain by (simp_all add: holds_def bmc_fields_def system_fields_def keep)
  moreover have "holds r (idx ''Cpu'' j) (cpu_fields (cpus ! j))" if "j < length cpus" for j
    by (rule local_toD [OF local_holds(2) groups(1) [OF that]]) (simp add: keep idx_def)
  moreover have "holds r (idx ''Memory'' j) (memory_fields (mms ! j))" if "j < length mms" for j
    by (rule local_toD [OF local_holds(2) groups(2) [OF that]]) (simp add: keep idx_def)
  moreover have "storage_held j (sts ! j) r" if "j < length sts" for j
    by (rule local_toD [OF storage_local groups(3) [OF that]]) (simp add: keep idx_def)
  moreover have "device_held j (devices_of cs ! j) r" if "j < length (devices_of cs)" for j
    unfolding r using that by (rule device_all)
  ultimately show ?thesis
    using g lists GetInfo_actions [OF assms(1)]
    by (intro exI [of _ bmc] exI [of _ bmcs] exI [of _ system] exI [of _ ss] exI [of _ rt] exI [of _ h3] exI [of _ cs]
        exI [of _ err] exI [of _ cpus] exI [of _ mms] exI [of _ sts]) blast
qed

text \<open>A machine with two processors and a device.\<close>

definition two_cpus :: "GoProcessor list" where
  "two_cpus = [\<lparr>pr_Manufacturer = ''A'', pr_ProcessorType = ''CPU'', pr_Health = ''OK'', pr_State = ''Enabled''\<rparr>,
     \<lparr>pr_Manufacturer = ''B'', pr_ProcessorType = ''CPU'', pr_Health = ''OK'', pr_State = ''Enabled''\<rparr>]"

definition two_cpu_machine :: red_env where
  "two_cpu_machine = readable_machine\<lparr>g_Systems := (\<lambda>h c. Inr [example_system\<lparr>cs_Processors := Inr two_cpus\<rparr>])\<rparr>"

lemma GetInfo_reads_witness:
  "\<exists>r. fst (GetInfo two_cpu_machine example_rc []) = Inr r \<and> gm_get r ''BmcStatus'' = Some ''OK''
     \<and> gm_get r (idx ''Cpu'' 1 @ ''.Manufacturer'') = Some ''B''
     \<and> gm_get r (idx ''PCIeDevices'' 0 @ ''.Description'') = Some ''GPU Device''"
proof -
  obtain r h' where i: "GetInfo two_cpu_machine example_rc [] = (Inr r, h')"
    by (simp add: GetInfo_def two_cpu_machine_def readable_machine_def example_machine_def example_manager_bmc_def
        example_rc_def red_calls GetSupportedResetTypes_def example_system_def system_info_def Let_def del: set_fields.simps)
  have "rd_client example_rc = 1" by (simp add: example_rc_def)
  from GetInfo_reads [OF i this [symmetric]] obtain bmc bmcs system ss h3 cs err cpus where
    g: "g_Managers two_cpu_machine [] 1 = Inr (bmc # bmcs)" "g_Systems two_cpu_machine ([] @ [RManagers 1]) 1 = Inr (system # ss)"
      "g_Chassis two_cpu_machine h3 1 = (cs, err)" "cs_Processors system = Inr cpus"
    and h: "holds r [] (bmc_fields bmc)" "\<forall>i < length cpus. holds r (idx ''Cpu'' i) (cpu_fields (cpus ! i))"
      "\<forall>i < length (devices_of cs). device_held i (devices_of cs ! i) r"
    by blast
  have e: "bmc = example_manager_bmc" "cpus = two_cpus" "devices_of cs = [example_gpu]"
    using g by (auto simp: two_cpu_machine_def readable_machine_def devices_of_def)
  have "gm_get r ''BmcStatus'' = Some ''OK''"
    using h(1) by (simp add: e holds_def bmc_fields_def example_manager_bmc_def)
  moreover have "gm_get r (idx ''Cpu'' 1 @ ''.Manufacturer'') = Some ''B''"
    using h(2) [unfolded e, rule_format, of 1] by (simp add: two_cpus_def holds_def cpu_fields_def)
  moreover have "gm_get r (idx ''PCIeDevices'' 0 @ ''.Description'') = Some ''GPU Device''"
    using h(3) [unfolded e, rule_format, of 0] by (simp add: device_held_def holds_def device_fields_def example_gpu_def)
  ultimately show ?thesis using i by simp
qed

end
