(* ===== verification/DhcpProgress.thy ===== *)
theory DhcpProgress
  imports RedfishDhcp
begin

text \<open>
  The loop of \<open>processDHCPEvents\<close> comes to rest: a run of it and of its sleeping retries, with nothing new
  sent, is as long as the work there was at its start and twice the number of outcomes that were retried.
\<close>

section \<open>Runs of the loop\<close>

text \<open>One round of the loop or the end of one sleep, and how many events it put to sleep.\<close>

inductive dhcp_turn :: "rs_env \<Rightarrow> redfishStatusController \<Rightarrow> nat \<Rightarrow> redfishStatusController \<Rightarrow> bool" for env where
  turn_add: "add_turn env s = (Some (e, err), s') \<Longrightarrow> dhcp_turn env s (of_bool (retried err)) s'"
| turn_delete: "delete_turn env s = (Some (e, err), s') \<Longrightarrow> dhcp_turn env s (of_bool (retried err)) s'"
| turn_wake_add: "rsc_retryAdd s = us @ e # vs \<Longrightarrow>
    dhcp_turn env s 0 (s\<lparr>rsc_retryAdd := us @ vs, rsc_addChan := rsc_addChan s @ [e]\<rparr>)"
| turn_wake_delete: "rsc_retryDelete s = us @ e # vs \<Longrightarrow>
    dhcp_turn env s 0 (s\<lparr>rsc_retryDelete := us @ vs, rsc_deleteChan := rsc_deleteChan s @ [e]\<rparr>)"

text \<open>Rounds one after the other, each with an API server of its own: their number, and that of the retried outcomes.\<close>

inductive dhcp_turns :: "redfishStatusController \<Rightarrow> nat \<Rightarrow> nat \<Rightarrow> redfishStatusController \<Rightarrow> bool" where
  no_turns: "dhcp_turns s 0 0 s"
| more_turns: "dhcp_turns s n k s' \<Longrightarrow> dhcp_turn env s' r s'' \<Longrightarrow> dhcp_turns s (n + r) (Suc k) s''"

text \<open>A waiting event is one round, a sleeping one the end of its sleep and a round.\<close>

definition dhcp_work :: "redfishStatusController \<Rightarrow> nat" where
  "dhcp_work s = length (rsc_addChan s) + length (rsc_deleteChan s)
     + 2 * (length (rsc_retryAdd s) + length (rsc_retryDelete s))"

definition at_rest :: "redfishStatusController \<Rightarrow> bool" where
  "at_rest s \<longleftrightarrow> rsc_addChan s = [] \<and> rsc_deleteChan s = [] \<and> rsc_retryAdd s = [] \<and> rsc_retryDelete s = []"

section \<open>Lemmas\<close>

lemma add_turn_event:
  assumes "add_turn env s = (Some (e, err), s')"
  obtains es where "rsc_addChan s = e # es" "rsc_addChan s' = es" "rsc_deleteChan s' = rsc_deleteChan s"
    "rsc_retryAdd s' = rsc_retryAdd s @ (if retried err then [e] else [])" "rsc_retryDelete s' = rsc_retryDelete s"
proof -
  obtain es s1 where t: "rsc_addChan s = e # es" "handleDHCPAdd env e (s\<lparr>rsc_addChan := es\<rparr>) = (err, s1)"
    "s' = (if retried err then s1\<lparr>rsc_retryAdd := rsc_retryAdd s1 @ [e]\<rparr> else s1)"
    using assms by (auto simp: add_turn_def split: list.splits prod.splits)
  with that handleDHCPAdd_queues [OF t(2)] show ?thesis by (simp add: same_queues_def)
qed

lemma delete_turn_event:
  assumes "delete_turn env s = (Some (e, err), s')"
  obtains es where "rsc_deleteChan s = e # es" "rsc_deleteChan s' = es" "rsc_addChan s' = rsc_addChan s"
    "rsc_retryDelete s' = rsc_retryDelete s @ (if retried err then [e] else [])" "rsc_retryAdd s' = rsc_retryAdd s"
proof -
  obtain es s1 where t: "rsc_deleteChan s = e # es" "handleDHCPDelete env e (s\<lparr>rsc_deleteChan := es\<rparr>) = (err, s1)"
    "s' = (if retried err then s1\<lparr>rsc_retryDelete := rsc_retryDelete s1 @ [e]\<rparr> else s1)"
    using assms by (auto simp: delete_turn_def split: list.splits prod.splits)
  with that handleDHCPDelete_queues [OF t(2)] show ?thesis by (simp add: same_queues_def)
qed

lemma dhcp_turn_work: "dhcp_turn env s r s' \<Longrightarrow> Suc (dhcp_work s') = dhcp_work s + 2 * r"
proof (induction rule: dhcp_turn.induct)
  case (turn_add s e err s')
  then show ?case by (rule add_turn_event) (simp add: dhcp_work_def)
next
  case (turn_delete s e err s')
  then show ?case by (rule delete_turn_event) (simp add: dhcp_work_def)
qed (simp_all add: dhcp_work_def)

lemma dhcp_turns_work: "dhcp_turns s n k s' \<Longrightarrow> dhcp_work s' + k = dhcp_work s + 2 * n"
  by (induction rule: dhcp_turns.induct) (use dhcp_turn_work in fastforce)+

lemma dhcp_work_rest: "dhcp_work s = 0 \<longleftrightarrow> at_rest s"
  by (auto simp: dhcp_work_def at_rest_def)

text \<open>While there is work there is a round.\<close>

lemma dhcp_turn_progress:
  assumes "\<not> at_rest s"
  shows "\<exists>r s'. dhcp_turn env s r s'"
proof -
  consider "rsc_addChan s \<noteq> []" | "rsc_deleteChan s \<noteq> []" | "rsc_retryAdd s \<noteq> []" | "rsc_retryDelete s \<noteq> []"
    using assms by (auto simp: at_rest_def)
  then show ?thesis
  proof cases
    case 1
    then obtain e es where "rsc_addChan s = e # es" by (cases "rsc_addChan s") auto
    then obtain err s' where "add_turn env s = (Some (e, err), s')"
      by (cases "handleDHCPAdd env e (s\<lparr>rsc_addChan := es\<rparr>)") (simp add: add_turn_def)
    then show ?thesis by (blast intro: turn_add)
  next
    case 2
    then obtain e es where "rsc_deleteChan s = e # es" by (cases "rsc_deleteChan s") auto
    then obtain err s' where "delete_turn env s = (Some (e, err), s')"
      by (cases "handleDHCPDelete env e (s\<lparr>rsc_deleteChan := es\<rparr>)") (simp add: delete_turn_def)
    then show ?thesis by (blast intro: turn_delete)
  next
    case 3
    then obtain e es where "rsc_retryAdd s = [] @ e # es" by (cases "rsc_retryAdd s") auto
    then show ?thesis by (blast intro: turn_wake_add)
  next
    case 4
    then obtain e es where "rsc_retryDelete s = [] @ e # es" by (cases "rsc_retryDelete s") auto
    then show ?thesis by (blast intro: turn_wake_delete)
  qed
qed

text \<open>The rounds are those of the loop.\<close>

lemma dhcp_turn_in_loop:
  "dhcp_loop s0 A D P Q s \<Longrightarrow> dhcp_turn env s r s' \<Longrightarrow> \<exists>P' Q'. dhcp_loop s0 A D P' Q' s'"
  by (erule dhcp_turn.cases) (blast intro: take_add take_delete wake_add wake_delete)+

lemma dhcp_turns_in_loop:
  "dhcp_turns s n k s' \<Longrightarrow> dhcp_loop s0 A D P Q s \<Longrightarrow> \<exists>P' Q'. dhcp_loop s0 A D P' Q' s'"
proof (induction rule: dhcp_turns.induct)
  case (more_turns s n k s' env r s'')
  then show ?case using dhcp_turn_in_loop by metis
qed blast

section \<open>Properties\<close>

text \<open>Property C36: the event loop terminates when nothing more is sent and the API server refuses only finitely often: a run of
  \<open>n\<close> retried outcomes has at most the rounds that the waiting and sleeping events need and \<open>2 n\<close> more, it can go on
  until no event waits or sleeps, and it is then as long as that.\<close>

theorem dhcp_loop_terminates:
  assumes "dhcp_turns s n k s'"
  shows "k \<le> dhcp_work s + 2 * n \<and> (at_rest s' \<longleftrightarrow> k = dhcp_work s + 2 * n)
    \<and> (\<not> at_rest s' \<longrightarrow> (\<forall>env. \<exists>r s''. dhcp_turn env s' r s''))"
proof -
  have "dhcp_work s' + k = dhcp_work s + 2 * n" by (rule dhcp_turns_work [OF assms])
  then show ?thesis using dhcp_work_rest [of s'] dhcp_turn_progress [of s'] by auto
qed

text \<open>An add event that meets a conflict, sleeps, and is served.\<close>

lemma dhcp_loop_terminates_witness:
  "\<exists>s'. dhcp_turns (example_ctl\<lparr>rsc_addChan := [example_lease]\<rparr>) 1 2 s' \<and> \<not> at_rest s'
     \<and> (2::nat) \<le> dhcp_work (example_ctl\<lparr>rsc_addChan := [example_lease]\<rparr>) + 2 * 1"
proof -
  let ?env = "example_rs_env (\<lambda>n. Inl (ApiErr Conflict))"
  let ?s = "example_ctl\<lparr>rsc_addChan := [example_lease]\<rparr>"
  let ?t = "example_ctl\<lparr>rsc_retryAdd := [example_lease]\<rparr>"
  have r: "retried (Some (ApiErr Conflict))" by (simp add: retried_def shouldRetry_def)
  have "add_turn ?env ?s = (Some (example_lease, Some (ApiErr Conflict)), ?t)"
    by (simp add: add_turn_def handleDHCPAdd_def r)
  from more_turns [OF no_turns turn_add [OF this]] have 1: "dhcp_turns ?s 1 1 ?t" by (simp add: r)
  let ?u = "?t\<lparr>rsc_retryAdd := [] @ [], rsc_addChan := rsc_addChan ?t @ [example_lease]\<rparr>"
  have "dhcp_turn ?env ?t 0 ?u" by (rule turn_wake_add) simp
  moreover have "?u = ?s" by (rule redfishStatusController.equality) simp_all
  ultimately have w: "dhcp_turn ?env ?t 0 ?s" by (rule subst [rotated])
  have 2: "dhcp_turns ?s 1 2 ?s" using more_turns [OF 1 w] by (simp add: numeral_2_eq_2)
  from dhcp_loop_terminates [OF 2] have "2 \<le> dhcp_work ?s + 2 * 1" by (elim conjE) assumption
  moreover have "\<not> at_rest ?s" by (simp add: at_rest_def)
  ultimately show ?thesis using 2 by blast
qed

end
