(* ===== verification/HostEndpointController.thy ===== *)
theory HostEndpointController
  imports Webhooks
begin

text \<open>
  The host endpoint controller (\<open>pkg/hostendpoint/controller.go\<close>): for every HostEndpoint a
  RedfishStatus or an SSHStatus of the same name is made and its basic data kept in step. The
  answers of the API server and the clock are parameters; what is sent to it is returned.
\<close>

section \<open>Definitions\<close>

datatype endpoint_write =
    ECreateRedfish RedfishStatus
  | EUpdateRedfish RedfishStatus
  | EStatusRedfish RedfishStatus
  | ECreateSSH SSHStatus
  | EStatusSSH SSHStatus

record endpoint_env =
  hn_Get :: "HostEndpoint result"
  hn_GetRedfish :: "string \<Rightarrow> RedfishStatus result"
  hn_GetSSH :: "string \<Rightarrow> SSHStatus result"
  hn_CreateRedfish :: "RedfishStatus \<Rightarrow> RedfishStatus result"
  hn_UpdateRedfish :: "RedfishStatus \<Rightarrow> goerr option"
  hn_StatusRedfish :: "RedfishStatus \<Rightarrow> goerr option"
  hn_CreateSSH :: "SSHStatus \<Rightarrow> goerr option"
  hn_StatusSSH :: "SSHStatus \<Rightarrow> goerr option"
  hn_now :: string

text \<open>\<open>*p\<close> where \<open>p\<close> may be nil, with the value that stands where it is.\<close>

definition deref :: "'a option \<Rightarrow> 'a \<Rightarrow> 'a" where
  "deref p d = (case p of None \<Rightarrow> d | Some x \<Rightarrow> x)"

definition specEqual :: "BasicInfo \<Rightarrow> HostEndpointSpec \<Rightarrow> bool" where
  "specEqual basic spec \<longleftrightarrow>
     (if b_IpAddr basic \<noteq> he_IPAddr spec then False
      else if deref (he_ClusterName spec) [] \<noteq> b_ClusterName basic then False
      else if \<not> (he_SecretName spec \<noteq> None \<and> b_SecretName basic = the (he_SecretName spec)) then False
      else if \<not> (he_SecretNamespace spec \<noteq> None \<and> b_SecretNamespace basic = the (he_SecretNamespace spec)) then False
      else if \<not> (he_HTTPS spec \<noteq> None \<and> b_Https basic = the (he_HTTPS spec)) then False
      else if \<not> (he_Port spec \<noteq> None \<and> b_Port basic = the (he_Port spec)) then False
      else (case he_Type spec of
              Some t \<Rightarrow> if b_Type basic \<noteq> t then False else True
            | None \<Rightarrow> if b_Type basic \<noteq> EndpointTypeRedfish then False else True))"

text \<open>The fields of the basic data that both branches set from the pointers of the specification.\<close>

definition overlay :: "HostEndpointSpec \<Rightarrow> BasicInfo \<Rightarrow> BasicInfo" where
  "overlay spec b0 =
     (let b1 = (case he_SecretName spec of Some x \<Rightarrow> b0\<lparr>b_SecretName := x\<rparr> | None \<Rightarrow> b0);
          b2 = (case he_SecretNamespace spec of Some x \<Rightarrow> b1\<lparr>b_SecretNamespace := x\<rparr> | None \<Rightarrow> b1);
          b3 = (case he_HTTPS spec of Some x \<Rightarrow> b2\<lparr>b_Https := x\<rparr> | None \<Rightarrow> b2)
      in (case he_Port spec of Some x \<Rightarrow> b3\<lparr>b_Port := x\<rparr> | None \<Rightarrow> b3))"

definition endpoint_basic :: "HostEndpointSpec \<Rightarrow> BasicInfo" where
  "endpoint_basic spec = zero_basic\<lparr>b_Type := HostTypeEndpoint, b_IpAddr := he_IPAddr spec, b_Https := True, b_Port := 443\<rparr>"

definition changed_redfish :: "string \<Rightarrow> HostEndpointSpec \<Rightarrow> RedfishStatus \<Rightarrow> RedfishStatus" where
  "changed_redfish now spec existing =
     existing\<lparr>rf_Status := (rf_Status existing)\<lparr>r_LastUpdateTime := now, r_Basic := overlay spec (endpoint_basic spec)\<rparr>\<rparr>"

definition owner_of :: "HostEndpoint \<Rightarrow> OwnerReference" where
  "owner_of e = \<lparr>or_APIVersion = APIVersion, or_Kind = KindHostEndpoint, or_Name = om_Name (hep_Meta e),
     or_UID = om_UID (hep_Meta e), or_Controller = Some True, or_BlockOwnerDeletion = Some True\<rparr>"

definition endpoint_meta :: "HostEndpoint \<Rightarrow> string \<Rightarrow> ObjectMeta" where
  "endpoint_meta e mode = (new_meta (om_Name (hep_Meta e)))
     \<lparr>om_Labels := Some [(LabelIPAddr, he_IPAddr (hep_Spec e)), (LabelClientMode, mode)],
      om_OwnerReferences := [owner_of e]\<rparr>"

definition first_redfish_status :: "string \<Rightarrow> HostEndpointSpec \<Rightarrow> RedfishStatusStatus" where
  "first_redfish_status now spec =
     \<lparr>r_Healthy = False, r_LastUpdateTime = now,
      r_Basic = overlay spec ((endpoint_basic spec)\<lparr>b_ClusterName := deref (he_ClusterName spec) []\<rparr>),
      r_Info = [], r_Log = zero_log\<rparr>"

definition handleRedfishEndpoint :: "endpoint_env \<Rightarrow> HostEndpoint \<Rightarrow> goerr option \<times> endpoint_write list" where
  "handleRedfishEndpoint env e =
     (case hn_GetRedfish env (om_Name (hep_Meta e)) of
        Inr existing \<Rightarrow>
          if specEqual (r_Basic (rf_Status existing)) (hep_Spec e) then (None, [])
          else
            (let updated = changed_redfish (hn_now env) (hep_Spec e) existing
             in (hn_UpdateRedfish env updated, [EUpdateRedfish updated]))
      | Inl err \<Rightarrow>
          if \<not> IsNotFound err then (Some err, [])
          else
            (let obj = \<lparr>rf_Meta = endpoint_meta e HostTypeEndpoint, rf_Status = zero_redfish_status\<rparr> in
             case hn_CreateRedfish env obj of
               Inl err \<Rightarrow> (Some err, [ECreateRedfish obj])
             | Inr made \<Rightarrow>
                 (let obj1 = made\<lparr>rf_Status := first_redfish_status (hn_now env) (hep_Spec e)\<rparr>
                  in (hn_StatusRedfish env obj1, [ECreateRedfish obj, EStatusRedfish obj1]))))"

definition specEqualSSH :: "SSHBasicInfo \<Rightarrow> HostEndpointSpec \<Rightarrow> bool" where
  "specEqualSSH basic spec \<longleftrightarrow>
     (if sb_IpAddr basic \<noteq> he_IPAddr spec then False
      else if he_Port spec \<noteq> None \<and> sb_Port basic \<noteq> the (he_Port spec) then False
      else if he_SecretName spec \<noteq> None \<and> sb_SecretName basic \<noteq> the (he_SecretName spec) then False
      else if he_SecretNamespace spec \<noteq> None \<and> sb_SecretNamespace basic \<noteq> the (he_SecretNamespace spec) then False
      else sb_ClusterName basic = deref (he_ClusterName spec) [])"

text \<open>The new basic data of a changed SSH endpoint; \<open>*Spec.Port\<close> is read before it is tested for nil.\<close>

definition changed_ssh_basic :: "HostEndpointSpec \<Rightarrow> int \<Rightarrow> SSHBasicInfo" where
  "changed_ssh_basic spec port =
     (let b0 = zero_ssh_basic\<lparr>sb_Type := HostTypeSSH, sb_IpAddr := he_IPAddr spec, sb_Port := port\<rparr>;
          b1 = (case he_SecretName spec of Some x \<Rightarrow> b0\<lparr>sb_SecretName := x\<rparr> | None \<Rightarrow> b0);
          b2 = (case he_SecretNamespace spec of Some x \<Rightarrow> b1\<lparr>sb_SecretNamespace := x\<rparr> | None \<Rightarrow> b1);
          b3 = (case he_Port spec of Some x \<Rightarrow> b2\<lparr>sb_Port := x\<rparr> | None \<Rightarrow> b2)
      in (case he_ClusterName spec of Some x \<Rightarrow> b3\<lparr>sb_ClusterName := x\<rparr> | None \<Rightarrow> b3))"

definition handleSSHEndpoint :: "endpoint_env \<Rightarrow> HostEndpoint \<Rightarrow> goerr option \<times> endpoint_write list" where
  "handleSSHEndpoint env e =
     (case hn_GetSSH env (om_Name (hep_Meta e)) of
        Inr existing \<Rightarrow>
          if specEqualSSH (s_Basic (sh_Status existing)) (hep_Spec e) then (None, [])
          else
            (case he_Port (hep_Spec e) of
               None \<Rightarrow> (Some (Panic ''nil pointer dereference''), [])
             | Some port \<Rightarrow>
                 (let updated = existing\<lparr>sh_Status := (sh_Status existing)
                        \<lparr>s_LastUpdateTime := hn_now env, s_Basic := changed_ssh_basic (hep_Spec e) port\<rparr>\<rparr>
                  in (hn_StatusSSH env updated, [EStatusSSH updated])))
      | Inl err \<Rightarrow>
          if \<not> IsNotFound err then (Some err, [])
          else
            (let obj = \<lparr>sh_Meta = endpoint_meta e HostTypeSSH, sh_Status = zero_ssh_status\<rparr>
             in (hn_CreateSSH env obj, [ECreateSSH obj])))"

definition handleHostEndpoint :: "endpoint_env \<Rightarrow> HostEndpoint \<Rightarrow> goerr option \<times> endpoint_write list" where
  "handleHostEndpoint env e =
     (let endpointType = deref (he_Type (hep_Spec e)) EndpointTypeRedfish in
      if endpointType = EndpointTypeSSH then handleSSHEndpoint env e
      else if endpointType = EndpointTypeRedfish then handleRedfishEndpoint env e
      else handleRedfishEndpoint env e)"

definition EndpointReconcile :: "endpoint_env \<Rightarrow> reconcile_out \<times> endpoint_write list" where
  "EndpointReconcile env =
     (case hn_Get env of
        Inl err \<Rightarrow> if IsNotFound err then ((empty_result, None), []) else ((empty_result, Some err), [])
      | Inr e \<Rightarrow>
          (case handleHostEndpoint env e of
             (None, ws) \<Rightarrow> ((empty_result, None), ws)
           | (Some (Panic p), ws) \<Rightarrow> ((empty_result, Some (Panic p)), ws)
           | (Some err, ws) \<Rightarrow> ((requeue_after 2, Some err), ws)))"

section \<open>Lemmas\<close>

lemma deref_simps [simp]: "deref None d = d" "deref (Some x) d = x"
  by (simp_all add: deref_def)

lemma overlay_simps [simp]:
  "b_IpAddr (overlay spec b) = b_IpAddr b" "b_ClusterName (overlay spec b) = b_ClusterName b"
  "b_Type (overlay spec b) = b_Type b"
  "b_SecretName (overlay spec b) = deref (he_SecretName spec) (b_SecretName b)"
  "b_SecretNamespace (overlay spec b) = deref (he_SecretNamespace spec) (b_SecretNamespace b)"
  "b_Https (overlay spec b) = deref (he_HTTPS spec) (b_Https b)"
  "b_Port (overlay spec b) = deref (he_Port spec) (b_Port b)"
  by (auto simp: overlay_def Let_def deref_def split: option.splits)

lemma endpoint_basic_simps [simp]:
  "b_IpAddr (endpoint_basic spec) = he_IPAddr spec" "b_Type (endpoint_basic spec) = HostTypeEndpoint"
  "b_SecretName (endpoint_basic spec) = []" "b_SecretNamespace (endpoint_basic spec) = []"
  "b_ClusterName (endpoint_basic spec) = []" "b_Https (endpoint_basic spec)" "b_Port (endpoint_basic spec) = 443"
  by (simp_all add: endpoint_basic_def zero_basic_def)

lemma changed_ssh_basic_simps [simp]:
  "sb_IpAddr (changed_ssh_basic spec port) = he_IPAddr spec" "sb_Type (changed_ssh_basic spec port) = HostTypeSSH"
  "sb_Port (changed_ssh_basic spec port) = deref (he_Port spec) port"
  "sb_SecretName (changed_ssh_basic spec port) = deref (he_SecretName spec) []"
  "sb_SecretNamespace (changed_ssh_basic spec port) = deref (he_SecretNamespace spec) []"
  "sb_ClusterName (changed_ssh_basic spec port) = deref (he_ClusterName spec) []"
  by (auto simp: changed_ssh_basic_def Let_def deref_def zero_ssh_basic_def split: option.splits)

text \<open>What the controller has written for a specification compares as equal to it.\<close>

lemma changed_ssh_equal: "specEqualSSH (changed_ssh_basic spec port) spec"
  by (cases "he_Port spec"; cases "he_SecretName spec"; cases "he_SecretNamespace spec") (simp_all add: specEqualSSH_def)

text \<open>The type the controller writes is none the Redfish comparison accepts.\<close>

lemma specEqual_type: "specEqual basic spec \<Longrightarrow> b_Type basic = deref (he_Type spec) EndpointTypeRedfish"
  by (auto simp: specEqual_def deref_def split: if_splits option.splits)

section \<open>Properties\<close>

text \<open>A Redfish endpoint that passed the defaulter and has no RedfishStatus yet gets one in two steps,
  the object and then its status, or the error of the step that failed: the object is owned by the
  endpoint and labelled with its address, and its basic data is the specification, field by field.\<close>

theorem endpoint_creates_redfish:
  assumes "HostEndpointDefault config e0 = Inr e" "deref (he_Type (hep_Spec e)) EndpointTypeRedfish \<noteq> EndpointTypeSSH"
    and "hn_Get env = Inr e" "hn_GetRedfish env (om_Name (hep_Meta e)) = Inl (ApiErr NotFound)"
    and "\<forall>obj made. hn_CreateRedfish env obj = Inr made \<longrightarrow> om_OwnerReferences (rf_Meta made) = om_OwnerReferences (rf_Meta obj)"
    and "EndpointReconcile env = (out, ws)"
  shows "(\<exists>obj. ws = [ECreateRedfish obj] \<and> snd out \<noteq> None)
    \<or> (\<exists>obj obj1. ws = [ECreateRedfish obj, EStatusRedfish obj1] \<and> snd out = hn_StatusRedfish env obj1
        \<and> om_Name (rf_Meta obj) = om_Name (hep_Meta e) \<and> get_label LabelIPAddr (rf_Meta obj) = he_IPAddr (hep_Spec e)
        \<and> om_OwnerReferences (rf_Meta obj1) = [owner_of e]
        \<and> (let b = r_Basic (rf_Status obj1); spec = hep_Spec e in
             b_IpAddr b = he_IPAddr spec \<and> Some (b_Https b) = he_HTTPS spec \<and> Some (b_Port b) = he_Port spec
             \<and> b_SecretName b = deref (he_SecretName spec) [] \<and> b_SecretNamespace b = deref (he_SecretNamespace spec) []
             \<and> b_ClusterName b = deref (he_ClusterName spec) [] \<and> b_Type b = HostTypeEndpoint))"
proof -
  have spec: "he_HTTPS (hep_Spec e) = Some h \<longrightarrow> True" "he_HTTPS (hep_Spec e) \<noteq> None" "he_Port (hep_Spec e) \<noteq> None" for h
    using assms(1) by (auto simp: HostEndpointDefault_def Let_def)
  then obtain https port where hp: "he_HTTPS (hep_Spec e) = Some https" "he_Port (hep_Spec e) = Some port" by auto
  let ?obj = "\<lparr>rf_Meta = endpoint_meta e HostTypeEndpoint, rf_Status = zero_redfish_status\<rparr>"
  have h: "handleHostEndpoint env e = handleRedfishEndpoint env e"
    using assms(2) by (auto simp: handleHostEndpoint_def Let_def)
  show ?thesis
  proof (cases "hn_CreateRedfish env ?obj")
    case (Inl err)
    then have "handleHostEndpoint env e = (Some err, [ECreateRedfish ?obj])"
      using assms(4) by (simp add: h handleRedfishEndpoint_def Let_def)
    then show ?thesis using assms(3,6) by (cases err) (auto simp: EndpointReconcile_def)
  next
    case (Inr made)
    let ?obj1 = "made\<lparr>rf_Status := first_redfish_status (hn_now env) (hep_Spec e)\<rparr>"
    have "handleHostEndpoint env e = (hn_StatusRedfish env ?obj1, [ECreateRedfish ?obj, EStatusRedfish ?obj1])"
      using assms(4) Inr by (simp add: h handleRedfishEndpoint_def Let_def)
    then have "ws = [ECreateRedfish ?obj, EStatusRedfish ?obj1]" "snd out = hn_StatusRedfish env ?obj1"
      using assms(3,6) by (auto simp: EndpointReconcile_def split: option.splits goerr.splits)
    moreover have "om_OwnerReferences (rf_Meta ?obj1) = [owner_of e]"
      using assms(5) Inr by (simp add: endpoint_meta_def)
    ultimately show ?thesis
      using hp by (intro disjI2 exI [of _ ?obj] exI [of _ ?obj1])
        (simp add: endpoint_meta_def first_redfish_status_def new_meta_def get_label_def Let_def label_defs)
  qed
qed

definition example_endpoint :: HostEndpoint where
  "example_endpoint = \<lparr>hep_Meta = new_meta ''h1'', hep_Spec = \<lparr>he_ClusterName = Some ''c1'', he_IPAddr = ''10.0.0.9'',
     he_SecretName = None, he_SecretNamespace = None, he_HTTPS = None, he_Port = None, he_Type = None\<rparr>\<rparr>"

definition example_endpoint_env :: "HostEndpoint \<Rightarrow> RedfishStatus result \<Rightarrow> SSHStatus result \<Rightarrow> endpoint_env" where
  "example_endpoint_env e r s = \<lparr>hn_Get = Inr e, hn_GetRedfish = (\<lambda>n. r), hn_GetSSH = (\<lambda>n. s),
     hn_CreateRedfish = Inr, hn_UpdateRedfish = (\<lambda>x. None), hn_StatusRedfish = (\<lambda>x. None), hn_CreateSSH = (\<lambda>x. None),
     hn_StatusSSH = (\<lambda>x. None), hn_now = ''now''\<rparr>"

lemma example_endpoint_env_simps [simp]:
  "hn_Get (example_endpoint_env e r s) = Inr e" "hn_GetRedfish (example_endpoint_env e r s) n = r"
  "hn_GetSSH (example_endpoint_env e r s) n = s" "hn_CreateRedfish (example_endpoint_env e r s) = Inr"
  "hn_UpdateRedfish (example_endpoint_env e r s) x = None" "hn_StatusRedfish (example_endpoint_env e r s) x = None"
  "hn_CreateSSH (example_endpoint_env e r s) y = None" "hn_StatusSSH (example_endpoint_env e r s) y = None"
  "hn_now (example_endpoint_env e r s) = ''now''"
  by (simp_all add: example_endpoint_env_def)

lemma endpoint_creates_redfish_witness:
  "\<exists>e ws obj obj1. HostEndpointDefault example_config example_endpoint = Inr e
     \<and> EndpointReconcile (example_endpoint_env e (Inl (ApiErr NotFound)) (Inl (ApiErr NotFound))) = ((empty_result, None), ws)
     \<and> ws = [ECreateRedfish obj, EStatusRedfish obj1] \<and> b_Port (r_Basic (rf_Status obj1)) = 443"
proof -
  obtain e where e: "HostEndpointDefault example_config example_endpoint = Inr e"
    by (simp add: HostEndpointDefault_def)
  let ?env = "example_endpoint_env e (Inl (ApiErr NotFound)) (Inl (ApiErr NotFound))"
  have t: "he_Type (hep_Spec e) = None" "he_Port (hep_Spec e) = Some 443"
    using e by (auto simp: HostEndpointDefault_def example_endpoint_def Let_def)
  then have ne: "deref (he_Type (hep_Spec e)) EndpointTypeRedfish \<noteq> EndpointTypeSSH"
    by (simp add: EndpointTypeRedfish_def EndpointTypeSSH_def)
  obtain ws where r: "EndpointReconcile ?env = ((empty_result, None), ws)"
    using t by (simp add: EndpointReconcile_def handleHostEndpoint_def handleRedfishEndpoint_def EndpointTypeRedfish_def
        EndpointTypeSSH_def Let_def)
  from endpoint_creates_redfish [OF e ne _ _ _ r] e r t(2) show ?thesis by (auto simp: Let_def)
qed

text \<open>A Redfish endpoint never settles. The type the controller writes is not one its own comparison
  accepts, so each reconciliation of an endpoint whose RedfishStatus it made sends an \<open>Update\<close> again;
  and an API server that takes no status from an \<open>Update\<close> stores what was there before.\<close>

theorem endpoint_never_settles:
  assumes "hn_GetRedfish env (om_Name (hep_Meta e)) = Inr stored" "b_Type (r_Basic (rf_Status stored)) = HostTypeEndpoint"
    and "he_Type (hep_Spec e) = None \<or> he_Type (hep_Spec e) = Some EndpointTypeRedfish"
    and "\<forall>old new. rf_Status (apply_update old new) = rf_Status old"
  shows "\<exists>obj. handleHostEndpoint env e = (hn_UpdateRedfish env obj, [EUpdateRedfish obj])
    \<and> rf_Status (apply_update stored obj) = rf_Status stored"
proof -
  have "\<not> specEqual (r_Basic (rf_Status stored)) (hep_Spec e)"
    using specEqual_type assms(2,3) by (fastforce simp: HostTypeEndpoint_def EndpointTypeRedfish_def)
  then have "handleHostEndpoint env e =
     (hn_UpdateRedfish env (changed_redfish (hn_now env) (hep_Spec e) stored),
      [EUpdateRedfish (changed_redfish (hn_now env) (hep_Spec e) stored)])"
    using assms(1,3) by (auto simp: handleHostEndpoint_def handleRedfishEndpoint_def EndpointTypeSSH_def
        EndpointTypeRedfish_def Let_def)
  with assms(4) show ?thesis by blast
qed

lemma endpoint_never_settles_witness:
  "\<exists>stored obj. r_Basic (rf_Status stored) = overlay (hep_Spec example_endpoint) (endpoint_basic (hep_Spec example_endpoint))
     \<and> handleHostEndpoint (example_endpoint_env example_endpoint (Inr stored) (Inl (ApiErr NotFound))) example_endpoint
         = (None, [EUpdateRedfish obj])"
proof -
  let ?st = "changed_redfish ''now'' (hep_Spec example_endpoint) \<lparr>rf_Meta = new_meta ''h1'', rf_Status = zero_redfish_status\<rparr>"
  have s: "r_Basic (rf_Status ?st) = overlay (hep_Spec example_endpoint) (endpoint_basic (hep_Spec example_endpoint))"
    by (simp add: changed_redfish_def)
  let ?env = "example_endpoint_env example_endpoint (Inr ?st) (Inl (ApiErr NotFound))"
  have t: "b_Type (r_Basic (rf_Status ?st)) = HostTypeEndpoint" "he_Type (hep_Spec example_endpoint) = None"
    unfolding s by (simp_all add: example_endpoint_def)
  obtain obj where "handleHostEndpoint ?env example_endpoint = (None, [EUpdateRedfish obj])"
    using endpoint_never_settles [of ?env example_endpoint ?st "\<lambda>old new. new\<lparr>rf_Status := rf_Status old\<rparr>"] t by auto
  with s show ?thesis by blast
qed

text \<open>An SSH endpoint settles: once the API server has stored the update the controller sent, the
  next reconciliation writes nothing; and an endpoint that passed the defaulter never makes the
  controller dereference a nil port.\<close>

theorem ssh_endpoint_settles:
  assumes "HostEndpointDefault config e0 = Inr e" "he_Type (hep_Spec e) = Some EndpointTypeSSH"
    and "hn_GetSSH env (om_Name (hep_Meta e)) = Inr stored"
  shows "\<exists>ws. handleHostEndpoint env e = (if ws = [] then None else hn_StatusSSH env (last ws), map EStatusSSH ws)
    \<and> (\<forall>env'. hn_GetSSH env' (om_Name (hep_Meta e)) = Inr (last (stored # ws)) \<longrightarrow> handleHostEndpoint env' e = (None, []))"
proof -
  have "he_Port (hep_Spec e) \<noteq> None" using assms(1) by (auto simp: HostEndpointDefault_def Let_def)
  then obtain port where p: "he_Port (hep_Spec e) = Some port" by auto
  have h: "handleHostEndpoint x e = handleSSHEndpoint x e" for x
    using assms(2) by (simp add: handleHostEndpoint_def)
  show ?thesis
  proof (cases "specEqualSSH (s_Basic (sh_Status stored)) (hep_Spec e)")
    case True
    then show ?thesis using assms(3) by (intro exI [of _ "[]"]) (simp add: h handleSSHEndpoint_def)
  next
    case False
    let ?obj = "stored\<lparr>sh_Status := (sh_Status stored)
      \<lparr>s_LastUpdateTime := hn_now env, s_Basic := changed_ssh_basic (hep_Spec e) port\<rparr>\<rparr>"
    show ?thesis using False p assms(3) changed_ssh_equal
      by (intro exI [of _ "[?obj]"]) (simp add: h handleSSHEndpoint_def Let_def)
  qed
qed

lemma ssh_endpoint_settles_witness:
  "\<exists>e obj. handleHostEndpoint (example_endpoint_env e (Inl (ApiErr NotFound)) (Inr \<lparr>sh_Meta = new_meta ''h1'', sh_Status = zero_ssh_status\<rparr>)) e
       = (None, [EStatusSSH obj]) \<and> handleHostEndpoint (example_endpoint_env e (Inl (ApiErr NotFound)) (Inr obj)) e = (None, [])"
proof -
  let ?e0 = "example_endpoint\<lparr>hep_Spec := (hep_Spec example_endpoint)\<lparr>he_Type := Some EndpointTypeSSH\<rparr>\<rparr>"
  let ?st = "\<lparr>sh_Meta = new_meta ''h1'', sh_Status = zero_ssh_status\<rparr>"
  obtain e where e: "HostEndpointDefault example_config ?e0 = Inr e" by (simp add: HostEndpointDefault_def)
  have t: "he_Type (hep_Spec e) = Some EndpointTypeSSH" "he_IPAddr (hep_Spec e) = ''10.0.0.9''" "he_Port (hep_Spec e) = Some 443"
    using e by (auto simp: HostEndpointDefault_def example_endpoint_def Let_def)
  let ?env = "\<lambda>s. example_endpoint_env e (Inl (ApiErr NotFound)) (Inr s)"
  from ssh_endpoint_settles [OF e t(1), of "?env ?st" ?st] obtain ws where
    w: "handleHostEndpoint (?env ?st) e = (None, map EStatusSSH ws)"
      "\<forall>env'. hn_GetSSH env' (om_Name (hep_Meta e)) = Inr (last (?st # ws)) \<longrightarrow> handleHostEndpoint env' e = (None, [])"
    by (auto split: if_splits)
  have "snd (handleHostEndpoint (?env ?st) e) \<noteq> [] \<and> length (snd (handleHostEndpoint (?env ?st) e)) = 1"
    using t by (simp add: handleHostEndpoint_def handleSSHEndpoint_def specEqualSSH_def zero_ssh_status_def
        zero_ssh_basic_def Let_def)
  then obtain obj where "ws = [obj]" using w(1) by (auto simp: length_Suc_conv)
  with w show ?thesis by (intro exI [of _ e] exI [of _ obj]) simp
qed

end
