(* ===== verification/RedfishTypes.thy ===== *)
theory RedfishTypes
  imports RedfishStatusController HostEndpointController KubeClient
begin

text \<open>
  What the objects of kind RedfishStatus look like, whoever writes them: the DHCP events and the polling
  of the Redfish status controller, and the host endpoint controller. They share the object of a name, so
  its shape is an invariant of all of them together.
\<close>

section \<open>Written objects\<close>

definition written :: "api_write list \<Rightarrow> RedfishStatus set" where
  "written ws = {x. WCreate x \<in> set ws \<or> WStatusUpdate x \<in> set ws \<or> WUpdate x \<in> set ws}"

definition endpoint_written :: "endpoint_write list \<Rightarrow> RedfishStatus set" where
  "endpoint_written ws = {x. ECreateRedfish x \<in> set ws \<or> EUpdateRedfish x \<in> set ws \<or> EStatusRedfish x \<in> set ws}"

definition int32 :: "int \<Rightarrow> bool" where
  "int32 i \<longleftrightarrow> - 2147483648 \<le> i \<and> i < 2147483648"

text \<open>
  The objects the API server may hold: each was written by one of the handlers, which had read nothing but
  such objects. The port of an endpoint has 32 bits.
\<close>

inductive stored_redfish :: "RedfishStatus \<Rightarrow> bool" where
  lease_added: "(\<forall>name x. ra_Get env name = Inr x \<longrightarrow> stored_redfish x) \<Longrightarrow> rsc_writes s = [] \<Longrightarrow>
    handleDHCPAdd env client s = (err, s') \<Longrightarrow> y \<in> written (rsc_writes s') \<Longrightarrow> stored_redfish y"
| lease_deleted: "(\<forall>name x. ra_Get env name = Inr x \<longrightarrow> stored_redfish x) \<Longrightarrow> rsc_writes s = [] \<Longrightarrow>
    handleDHCPDelete env client s = (err, s') \<Longrightarrow> y \<in> written (rsc_writes s') \<Longrightarrow> stored_redfish y"
| polled: "(\<forall>name x. ra_Get env name = Inr x \<longrightarrow> stored_redfish x) \<Longrightarrow> rsc_writes s = [] \<Longrightarrow>
    UpdateRedfishStatusInfo env name d s = (res, s') \<Longrightarrow> y \<in> written (rsc_writes s') \<Longrightarrow> stored_redfish y"
| endpoint: "(\<forall>name x. hn_GetRedfish nv name = Inr x \<longrightarrow> stored_redfish x) \<Longrightarrow>
    (\<forall>p. he_Port (hep_Spec e) = Some p \<longrightarrow> int32 p) \<Longrightarrow>
    handleRedfishEndpoint nv e = (err, ws) \<Longrightarrow> y \<in> endpoint_written ws \<Longrightarrow> stored_redfish y"

section \<open>The shape of a status\<close>

text \<open>
  The type is one of the two, or not set yet; a status from a lease has all that comes with a lease; the
  numbers fit their 32 bits; the inventory has each key once; the two latest log entries come together.
\<close>

definition wf_basic :: "BasicInfo \<Rightarrow> bool" where
  "wf_basic b \<longleftrightarrow> b_Type b \<in> {[], HostTypeDHCP, HostTypeEndpoint} \<and> int32 (b_Port b)
     \<and> (b_Type b = HostTypeDHCP \<longrightarrow> b_DhcpExpireTime b \<noteq> None \<and> b_SubnetName b \<noteq> None \<and> b_Hostname b \<noteq> None)"

definition wf_log :: "LogStruct \<Rightarrow> bool" where
  "wf_log l \<longleftrightarrow> int32 (l_TotalLogAccount l) \<and> int32 (l_WarningLogAccount l)
     \<and> (l_LastestLog l = None \<longleftrightarrow> l_LastestWarningLog l = None)"

definition wf_redfish :: "RedfishStatusStatus \<Rightarrow> bool" where
  "wf_redfish st \<longleftrightarrow> wf_basic (r_Basic st) \<and> gm_ok (r_Info st) \<and> wf_log (r_Log st)"

section \<open>Lemmas\<close>

lemma written_simps [simp]:
  "written [] = {}" "written (ws @ vs) = written ws \<union> written vs"
  "written [WCreate x] = {x}" "written [WStatusUpdate x] = {x}" "written [WUpdate x] = {x}" "written [WBinding b] = {}"
  "written [WCreate x, WStatusUpdate y] = {x, y}"
  by (auto simp: written_def)

lemma endpoint_written_simps [simp]:
  "endpoint_written [] = {}" "endpoint_written [EUpdateRedfish x] = {x}" "endpoint_written [ECreateRedfish x] = {x}"
  "endpoint_written [ECreateRedfish x, EStatusRedfish y] = {x, y}"
  by (auto simp: endpoint_written_def)

lemma int32_int32_of [simp]: "int32 (int32_of i)"
  using int32_of_range by (simp add: int32_def)

lemma host_types [simp]: "HostTypeDHCP \<noteq> []" "HostTypeEndpoint \<noteq> HostTypeDHCP" "HostTypeEndpoint \<noteq> []"
  by (simp_all add: HostTypeDHCP_def HostTypeEndpoint_def)

lemma wf_zero [simp]: "wf_redfish zero_redfish_status" "wf_log zero_log"
  by (simp_all add: wf_redfish_def wf_basic_def wf_log_def zero_redfish_status_def zero_basic_def zero_log_def int32_def
      HostTypeDHCP_def)

text \<open>The parts that are put into a status.\<close>

lemma refresh_lease_wf: "wf_redfish (rf_Status x) \<Longrightarrow> wf_redfish (rf_Status (refresh_lease fmt client x))"
  by (auto simp: refresh_lease_def wf_redfish_def wf_basic_def Let_def)

lemma first_status_wf: "wf_redfish (first_status config now (lease_basic config fmt client))"
  by (auto simp: first_status_def lease_basic_def wf_redfish_def wf_basic_def Let_def)

lemma deactivated_wf: "wf_redfish (rf_Status x) \<Longrightarrow> wf_redfish (rf_Status (deactivated x))"
  by (auto simp: deactivated_def wf_redfish_def wf_basic_def)

lemma log_struct_wf: "wf_log (log_struct g)"
  by (simp add: log_struct_def wf_log_def)

lemma overlay_wf:
  assumes "\<forall>p. he_Port spec = Some p \<longrightarrow> int32 p" "b_Type b = HostTypeEndpoint" "int32 (b_Port b)"
  shows "wf_basic (overlay spec b)"
  using assms by (auto simp: overlay_def wf_basic_def Let_def split: option.splits)

lemma endpoint_type_int32 [simp]: "b_Type (endpoint_basic spec) = HostTypeEndpoint" "int32 (b_Port (endpoint_basic spec))"
  "int32 443"
  by (simp_all add: endpoint_basic_def int32_def)

lemma make_binding_written:
  assumes "make_binding env client uid s = (err, s')"
  shows "written (rsc_writes s') = written (rsc_writes s)"
  using make_binding_writes [OF assms] by auto

text \<open>Each handler writes well-formed statuses if it read such ones.\<close>

lemma handleDHCPAdd_wf:
  assumes "handleDHCPAdd env client s = (err, s')" "rsc_writes s = []" "y \<in> written (rsc_writes s')"
    and "\<forall>name x. ra_Get env name = Inr x \<longrightarrow> wf_redfish (rf_Status x)"
  shows "wf_redfish (rf_Status y)"
proof (cases "ra_Get env (formatRedfishStatusName (dc_IP client))")
  case (Inr x)
  let ?u = "refresh_lease (ra_format env) client x"
  let ?v = "?u\<lparr>rf_Status := (rf_Status ?u)\<lparr>r_LastUpdateTime := ra_now env\<rparr>\<rparr>"
  have v: "wf_redfish (rf_Status ?v)" using refresh_lease_wf [of x] assms(4) Inr by (simp add: wf_redfish_def)
  have "add_existing env client x s = (err, s')" using assms(1) Inr by (simp add: handleDHCPAdd_def)
  then have "y = ?v"
    using assms(2,3) by (auto simp: add_existing_def Let_def split: if_splits sum.splits dest!: make_binding_written)
  with v show ?thesis by simp
next
  case (Inl e)
  let ?st = "first_status (rsc_config s) (ra_now env) (lease_basic (rsc_config s) (ra_format env) client)"
  have "add_new env client s = (err, s') \<or> s' = s" using assms(1) Inl by (auto simp: handleDHCPAdd_def split: if_splits)
  then have "rf_Status y \<in> {zero_redfish_status, ?st}"
    using assms(2,3)
    by (auto simp: add_new_def new_redfishstatus_def Let_def split: sum.splits prod.splits dest!: make_binding_written)
  then show ?thesis using first_status_wf by auto
qed

lemma handleDHCPDelete_wf:
  assumes "handleDHCPDelete env client s = (err, s')" "rsc_writes s = []" "y \<in> written (rsc_writes s')"
    and "\<forall>name x. ra_Get env name = Inr x \<longrightarrow> wf_redfish (rf_Status x)"
  shows "wf_redfish (rf_Status y)"
  using assms deactivated_wf by (auto simp: handleDHCPDelete_def Let_def split: sum.splits if_splits)

lemma read_log_wf:
  assumes "read_log env name healthy client st s = (st', s3)" "wf_redfish st"
  shows "wf_redfish st'"
  using assms log_struct_wf by (auto simp: read_log_def wf_redfish_def Let_def split: sum.splits prod.splits if_splits)

lemma UpdateRedfishStatusInfo_wf:
  assumes "UpdateRedfishStatusInfo env name d s = (res, s')" "rsc_writes s = []" "y \<in> written (rsc_writes s')"
    and "\<forall>name x. ra_Get env name = Inr x \<longrightarrow> wf_redfish (rf_Status x)"
  shows "wf_redfish (rf_Status y)"
proof -
  obtain l locks1 where l: "GetLock name (rsc_locks s) = (l, locks1)" by (cases "GetLock name (rsc_locks s)")
  obtain client clients1 h1 where n: "NewClient (ra_red env) d (rsc_clients s) (rsc_hist s) = (client, clients1, h1)"
    by (cases "NewClient (ra_red env) d (rsc_clients s) (rsc_hist s)")
  let ?s1 = "s\<lparr>rsc_locks := locks1, rsc_clients := clients1, rsc_hist := h1\<rparr>"
  obtain healthy m s2 where i: "read_info env client ?s1 = (healthy, m, s2)" by (cases "read_info env client ?s1")
  show ?thesis
  proof (cases "ra_Get env name")
    case (Inl e)
    with assms(1-3) l n show ?thesis by (auto simp: UpdateRedfishStatusInfo_def Let_def)
  next
    case (Inr x)
    let ?st1 = "(rf_Status x)\<lparr>r_Healthy := (case client of Inl _ \<Rightarrow> False | Inr _ \<Rightarrow> True), r_Info := m\<rparr>"
    obtain st2 s3 where g: "read_log env name healthy client ?st1 s2 = (st2, s3)"
      by (cases "read_log env name healthy client ?st1 s2")
    have "wf_redfish ?st1" using read_info_cases [OF i] assms(4) Inr by (simp add: wf_redfish_def)
    then have w: "wf_redfish st2" by (rule read_log_wf [OF g])
    have "rsc_writes s3 = []" using read_log_cases [OF g] read_info_cases [OF i] assms(2) by simp
    with assms(1,3) have "rf_Status y = st2\<lparr>r_LastUpdateTime := ra_now env\<rparr>"
      by (auto simp: UpdateRedfishStatusInfo_def l n i g Inr Let_def split: if_splits sum.splits)
    with w show ?thesis by (simp add: wf_redfish_def)
  qed
qed

lemma handleRedfishEndpoint_wf:
  assumes "handleRedfishEndpoint nv e = (err, ws)" "y \<in> endpoint_written ws" "\<forall>p. he_Port (hep_Spec e) = Some p \<longrightarrow> int32 p"
    and "\<forall>name x. hn_GetRedfish nv name = Inr x \<longrightarrow> wf_redfish (rf_Status x)"
  shows "wf_redfish (rf_Status y)"
proof -
  have c: "wf_redfish (rf_Status (changed_redfish now (hep_Spec e) x))" if "wf_redfish (rf_Status x)" for now x
    using that overlay_wf [OF assms(3) endpoint_type_int32(1,2)] by (simp add: changed_redfish_def wf_redfish_def)
  have f: "wf_redfish (first_redfish_status now (hep_Spec e))" for now
    using overlay_wf [OF assms(3), of "(endpoint_basic (hep_Spec e))\<lparr>b_ClusterName := deref (he_ClusterName (hep_Spec e)) []\<rparr>"]
    by (simp add: first_redfish_status_def wf_redfish_def)
  show ?thesis
    using assms(1,2,4) c f by (auto simp: handleRedfishEndpoint_def Let_def split: sum.splits if_splits)
qed

text \<open>The kind of the owner of a binding made for a lease is not a registered one, unlike that of an endpoint's objects.\<close>

lemma lease_owner_unknown:
  "map or_Kind (om_OwnerReferences (bi_Meta (binding_for client uid))) = [KindredfishStatus] \<and> KindredfishStatus \<notin> set registered_kinds"
  by (simp add: binding_for_def KindredfishStatus_def registered_kinds_def Let_def)

lemma endpoint_owner_known:
  "map or_Kind (om_OwnerReferences (endpoint_meta e mode)) = [KindHostEndpoint] \<and> KindHostEndpoint \<in> set registered_kinds"
  by (simp add: endpoint_meta_def owner_of_def KindHostEndpoint_def registered_kinds_def)

section \<open>Properties\<close>

text \<open>Property C37: whatever events, polls and endpoints come in whatever order, every RedfishStatus that is written has a type the
  program knows, or none yet, all lease data if it is from a lease, numbers of 32 bits, an inventory with each key once
  and its two latest log entries together.\<close>

theorem stored_redfish_typed: "stored_redfish x \<Longrightarrow> wf_redfish (rf_Status x)"
proof (induction rule: stored_redfish.induct)
  case (lease_added env s client err s' y)
  then show ?case by (intro handleDHCPAdd_wf [OF lease_added(3,2,4)]) blast
next
  case (lease_deleted env s client err s' y)
  then show ?case by (intro handleDHCPDelete_wf [OF lease_deleted(3,2,4)]) blast
next
  case (polled env s name d res s' y)
  then show ?case by (intro UpdateRedfishStatusInfo_wf [OF polled(3,2,4)]) blast
next
  case (endpoint nv e err ws y)
  then show ?case by (intro handleRedfishEndpoint_wf [OF endpoint(3,4,2)]) blast
qed

lemma stored_redfish_typed_witness:
  "\<exists>y. stored_redfish y \<and> b_Type (r_Basic (rf_Status y)) = HostTypeEndpoint \<and> wf_redfish (rf_Status y)"
proof -
  let ?env = "example_endpoint_env example_endpoint (Inl (ApiErr NotFound)) (Inl (ApiErr NotFound))"
  let ?y = "\<lparr>rf_Meta = endpoint_meta example_endpoint HostTypeEndpoint, rf_Status = first_redfish_status ''now'' (hep_Spec example_endpoint)\<rparr>"
  obtain err ws where h: "handleRedfishEndpoint ?env example_endpoint = (err, ws)" by (cases "handleRedfishEndpoint ?env example_endpoint")
  have w: "?y \<in> endpoint_written ws" using h by (auto simp: handleRedfishEndpoint_def Let_def)
  have p: "\<forall>p. he_Port (hep_Spec example_endpoint) = Some p \<longrightarrow> int32 p" by (simp add: example_endpoint_def int32_def)
  have y: "stored_redfish ?y" by (rule stored_redfish.endpoint [OF _ p h w]) simp
  moreover have "b_Type (r_Basic (rf_Status ?y)) = HostTypeEndpoint"
    by (simp add: first_redfish_status_def overlay_def endpoint_basic_def Let_def split: option.split)
  ultimately show ?thesis using stored_redfish_typed [OF y] by blast
qed

end
