(* ===== verification/Spec2Isabelle.thy ===== *)
theory Spec2Isabelle
  imports Operated Rendezvous ManagerRaces ClientInterfaces Agent Startup CommandLine Diagnostics DeepCopyLists Agreement SubnetManager Admission AdmissionRequest Locks Mutexes BindingIpController GoFormat InfoFields HostOperationController DhcpProgress RedfishTypes SecretController SshStatusController
begin

text \<open>
  Verification of topohub.

  topohub is a Kubernetes agent that manages bare-metal hosts: it runs a \<open>dnsmasq\<close> DHCP server per
  \<open>Subnet\<close>, turns leases into \<open>RedfishStatus\<close> objects, reads and powers hosts over Redfish and SSH,
  pins addresses with \<open>BindingIp\<close> objects, and validates what users write in admission webhooks. Its
  parts talk through the objects of the API server and through Go channels:

    \<^item> a lease seen by a DHCP server goes on the channel of the Redfish status controller, which creates a
      \<open>RedfishStatus\<close> and, if the subnet asks for it, a \<open>BindingIp\<close>;
    \<^item> a \<open>BindingIp\<close> is announced by its controller to the subnet manager, which hands it to the server
      of its subnet, whose monitor writes it to the file \<open>dnsmasq\<close> reads;
    \<^item> a \<open>HostEndpoint\<close> written by a user becomes a \<open>RedfishStatus\<close> or an \<open>SSHStatus\<close>; the status
      controllers keep the connection data of these objects in caches;
    \<^item> a \<open>HostOperation\<close> takes the connection from the cache and powers the host;
    \<^item> a changed \<open>Secret\<close> changes the credentials in the cache and reads its hosts again.

  Theories and the code they model (paths below \<open>src/pkg\<close> unless they name \<open>cmd\<close>):

    \<^item> \<open>Prelude\<close>, \<open>GoNet\<close>, \<open>GoText\<close>, \<open>GoFormat\<close>: the parts of Go and its library the code uses: errors as
      values, maps as association lists whose order stands for the order of iteration, strings,
      32 and 64 bit integers, \<open>net.IP\<close> and CIDR blocks, paths, JSON, times;
    \<^item> \<open>AddrFacts\<close>, \<open>Tools\<close>: \<open>tools/tools.go\<close>, addresses, ranges, MACs, interfaces;
    \<^item> \<open>ApiTypes\<close>: the custom resources of \<open>k8s/apis\<close>, the agent configuration, answers of the API server;
    \<^item> \<open>DeepCopy\<close>, \<open>DeepCopyLists\<close>: the deep copies of \<open>k8s/apis\<close> on a heap, of objects and of lists, which
      justify that the other theories take a deep copy for the same value;
    \<^item> \<open>Caches\<close>, \<open>Locks\<close>: the four caches and \<open>lock/lockByID.go\<close>; \<open>Mutexes\<close>: the locks of \<open>lock\<close> in both
      builds, as steps of goroutines;
    \<^item> \<open>KubeClient\<close>: the generated client of \<open>k8s/client\<close>: making clients, and the informer factory;
      \<open>ClientInterfaces\<close>: the interfaces they are reached through, the schemes, and the fake client for tests;
    \<^item> \<open>DhcpServer\<close>, \<open>DhcpLease\<close>, \<open>DhcpConfig\<close>, \<open>DhcpNet\<close>, \<open>DhcpMonitor\<close>: \<open>subnet/dhcpserver\<close>, a server and its
      channels, the lease file and the status of the subnet, the files of \<open>dnsmasq\<close>, the VLAN interface,
      the \<open>select\<close> loop; a turn of the loop is a function of the event Go selects;
    \<^item> \<open>ServerActs\<close>, \<open>ServerRun\<close>, \<open>Rendezvous\<close>: the goroutines of one server side by side: the acts of each call that the others
      can see (the lock \<open>lockData\<close>, the shared data, the sends), their interleaving as a step relation with
      \<open>statusUpdateCh\<close> and \<open>restartCh\<close> as steps of two goroutines, and what follows for every run;
    \<^item> \<open>SubnetManager\<close>: \<open>subnet/manager.go\<close>; \<open>BindingIpController\<close>: \<open>bindingip\<close>; \<open>Delivery\<close>: a binding on its
      way from its object to the file, through these parts; \<open>Agreement\<close>: the same parts side by side, with
      their turns in any order; \<open>ManagerRaces\<close>: orders of turns of the manager that go wrong;
    \<^item> \<open>Webhooks\<close>, \<open>Admission\<close>: \<open>webhook\<close>, and the stores of objects the webhooks admit; \<open>AdmissionRequest\<close>:
      requests with objects of any kind, through the webhook registered for one;
    \<^item> \<open>RedfishService\<close>, \<open>RedfishPower\<close>, \<open>RedfishInfo\<close>: \<open>redfish\<close>, sessions, power with its retries, inventory and
      logs; \<open>InfoFields\<close>: what the inventory holds, field by field; the machine is a parameter whose answers depend on the history of calls;
    \<^item> \<open>HostOperationController\<close>: \<open>hostoperation\<close>; \<open>HostEndpointController\<close>: \<open>hostendpoint\<close>;
    \<^item> \<open>RedfishDhcp\<close>, \<open>RedfishStatusController\<close>: \<open>redfishstatus\<close>, the loop over DHCP events and the reading of
      hosts; \<open>DhcpProgress\<close>: how long the loop runs; \<open>RedfishTypes\<close>: the RedfishStatus objects all writers
      together leave in the API server; \<open>SshClient\<close>, \<open>SshStatusController\<close>: \<open>sshstatus\<close>; \<open>StatusCompare\<close>: what both compare;
    \<^item> \<open>SecretController\<close>: \<open>secret\<close>; \<open>AgentConfiguration\<close>: \<open>config\<close>; \<open>HttpServer\<close>: \<open>httpserver\<close>;
      \<open>Diagnostics\<close>: \<open>log\<close> and \<open>debug\<close>; \<open>CommandLine\<close>, \<open>Startup\<close>: \<open>cmd/topohub/main.go\<close> up to the start of the manager;
    \<^item> \<open>Agent\<close>: the whole program, its controllers, servers and loops side by side after the start, which wait
      for the election of a leader (\<open>SetupWithManager\<close> of the controllers); \<open>Sessions\<close>: which sessions the table of
      clients can hold in a run; \<open>Operated\<close>: which machines its host operations reach.

  A definition carries the name of the Go function, with the receiver in front of it where two types
  have a method of the same name; a fragment of a longer function (a loop body, a branch) has a name of
  its own. Fields of records carry a prefix of the record and the Go name. What the code reads from the
  outside (operating system, netlink, API server, Redfish and SSH libraries, clock, YAML) is a
  parameter of the definition; what it writes is returned, mostly as a list of calls in their order.

  What the lemmas show:

    \<^item> addresses: an accepted range lies in its subnet, an accepted expansion covers the old range, the
      counter counts the addresses of the range below its 32 bit limit;
    \<^item> DHCP server: the clients and the events after a lease file is read, against the lines of the file, the counters of
      the status and their wrap-around, the result of the retried update, the lines of the files written, the agreement of the bindings file and the
      bindings in memory over every run of the loop, and that two queues lose the order of events;
    \<^item> goroutines of a server: their acts are those of the calls; left alone they come to rest, without deadlock
      while the server runs and its directory is watched; who waits for ever otherwise; which shared data can be read while it is
      written, and which not;
    \<^item> subnet manager: a reconciliation refines the map from subnets to the specifications served, and no
      binding event is lost; with the binding controller and the server a new binding reaches the file, and
      in every interleaving the file ends up with the line of what was announced last, as long as nothing is deleted (what
      \<open>dnsmasq\<close> makes of these lines is outside the model); but an event
      that slept because its server was not there yet comes after newer ones, and the start of all servers beside a
      reconciliation can start a server twice;
    \<^item> webhooks: invariants of a store all of whose objects were admitted, with every deletion admitted as well, and that a stored object is
      admitted again unchanged;
    \<^item> Redfish: resets and the PXE retries (at most three attempts per system), every field the inventory
      holds, at most one run of an operation, and that the status success is written only if the machine did it;
    \<^item> status controllers: events of the DHCP loop are conserved, the loop comes to rest after a number of
      rounds known from its queues, the objects a new client creates, the shape of every RedfishStatus, the
      comparison of statuses as equality of a view of them, secrets reaching cache and clients;
    \<^item> endpoints: the objects created from them, and whether reconciliation settles;
    \<^item> start: what a loaded configuration promises, and that the program comes up exactly if every step of
      the start succeeds; flags: what is written on the command line is read;
    \<^item> whole program: before the election nothing is touched, every part keeps the configuration that was
      loaded and every cached subnet its server, in whatever order the turns come; which intervals end it; a
      machine is touched by open host operations only, each through the session that is in the table for the address its
      RedfishStatus had when it was read, and that was opened for that configuration;
    \<^item> file server: which files and directories can be read; deep copies: that they have the value of the
      original and share nothing with it, but for \<open>HostEndpoint\<close>, whose copy shares four pointers;
    \<^item> locks: the debug build allows the same orders of calls as \<open>sync\<close>, and reports who held a lock for three
      seconds; informer factory: none is started twice, or after a shutdown.

  Interfaces are locales, each interpreted on the model: the DHCP server as the subnet manager uses it
  (\<open>dhcp_server\<close> in \<open>SubnetManager\<close>), steps that lessen the work there is (\<open>settling\<close> in \<open>Rendezvous\<close>), the comparison of two statuses (\<open>comparison\<close> in \<open>StatusCompare\<close>), the
  caches (\<open>name_cache\<close>), the defaulting webhooks (\<open>defaulter\<close>) and the deep copies (\<open>deep_copy\<close>).

  Bounds: loops over lists are structural; retries count down from the bound in the code (three PXE
  attempts, the retries of the status update), so no fuel is added; the endless \<open>select\<close> loops are runs
  over any list of events, or an inductive relation (\<open>dhcp_loop\<close>, \<open>deploy_step\<close>, \<open>debug_step\<close>, \<open>server_step\<close>);
  the intervals of the tickers are 64 bit durations, whose product with a second may wrap.

  Not modelled: the vendored libraries: the API server, \<open>client-go\<close> with its object tracker and its fake discovery client,
  \<open>gofish\<close>, \<open>netlink\<close>, \<open>crypto/ssh\<close>, the logger and the profiler are parameters, and the deadlock detection of the
  library behind the debug locks is left out. In the components an operation under a lock is one atomic step, but for
  \<open>GetLock\<close>, for \<open>lockData\<close> of a DHCP server and for the lookup of a reconciliation in \<open>ManagerRaces\<close>, whose interleavings are
  modelled. The channels to the Redfish controller have their bound in \<open>ServerRun\<close>, where one server fills them; elsewhere a channel
  is a queue without one (a full channel blocks its sender, which delays but loses nothing). Log messages are left out, and
  \<open>dnsmasq\<close> itself is not modelled.
\<close>

end
